(* ===== verification/Prelude.thy ===== *)
theory Prelude
  imports Main "HOL-Library.AList" "HOL-Library.Sublist" "HOL-Library.Char_ord"
    "HOL-Library.List_Lexorder"
begin

text \<open>
  Shared vocabulary of the development. A Go string is a byte sequence and is modelled by
  \<open>string\<close>, whose characters are bytes. A Go map is a finite association list read with
  \<open>map_of\<close> and written with \<open>put\<close> and \<open>del\<close>; where Go ranges over a
  map in an unspecified order the model ranges over the list, and the theorems are stated for every
  list. The second half models the functions of Go's packages strings and strconv that the program
  uses, byte for byte: \<open>TrimSpace\<close> and \<open>Fields\<close> know the UTF-8 encodings of all
  code points of Unicode's White_Space property. \<open>ToLower\<close> and \<open>EqualFold\<close>
  are modelled on ASCII letters; other letters are compared byte by byte.
\<close>

named_theorems frame_simps \<open>fields an operation does not write\<close>
named_theorems go_strings \<open>evaluation of the string functions\<close>

subsection \<open>Finite maps\<close>

type_synonym 'v gomap = "(string \<times> 'v) list"

definition put :: "'k \<Rightarrow> 'v \<Rightarrow> ('k \<times> 'v) list \<Rightarrow> ('k \<times> 'v) list" where
  "put k v m = AList.update k v m"

definition del :: "'k \<Rightarrow> ('k \<times> 'v) list \<Rightarrow> ('k \<times> 'v) list" where
  "del k m = AList.delete k m"

definition has_key :: "('k \<times> 'v) list \<Rightarrow> 'k \<Rightarrow> bool" where
  "has_key m k \<longleftrightarrow> map_of m k \<noteq> None"

definition get_or :: "'v \<Rightarrow> ('k \<times> 'v) list \<Rightarrow> 'k \<Rightarrow> 'v" where
  "get_or d m k = (case map_of m k of None \<Rightarrow> d | Some v \<Rightarrow> v)"

lemma map_of_put [simp]: "map_of (put k v m) = (map_of m)(k \<mapsto> v)"
  by (simp add: put_def update_conv')

lemma map_of_del [simp]: "map_of (del k m) = (map_of m)(k := None)"
  by (simp add: del_def delete_conv')

lemma has_key_put [simp]: "has_key (put k v m) k' \<longleftrightarrow> k' = k \<or> has_key m k'"
  by (simp add: has_key_def)

lemma has_key_del [simp]: "has_key (del k m) k' \<longleftrightarrow> k' \<noteq> k \<and> has_key m k'"
  by (simp add: has_key_def)

lemma get_or_put [simp]: "get_or d (put k v m) k' = (if k' = k then v else get_or d m k')"
  by (simp add: get_or_def)

lemma get_or_del [simp]: "get_or d (del k m) k' = (if k' = k then d else get_or d m k')"
  by (simp add: get_or_def)

lemma get_or_Nil [simp]: "get_or d [] k = d"
  by (simp add: get_or_def)

lemma distinct_keys_put [simp]: "distinct (map fst m) \<Longrightarrow> distinct (map fst (put k v m))"
  by (simp add: put_def distinct_update)

lemma distinct_keys_del [simp]: "distinct (map fst m) \<Longrightarrow> distinct (map fst (del k m))"
  by (simp add: del_def distinct_delete)

lemma keys_del [simp]: "fst ` set (del k m) = fst ` set m - {k}"
  by (auto simp: del_def AList.delete_eq)

lemma keys_put [simp]: "fst ` set (put k v m) = insert k (fst ` set m)"
  by (simp add: put_def dom_update)

lemma has_key_iff: "has_key m k \<longleftrightarrow> k \<in> fst ` set m"
  by (simp add: has_key_def map_of_eq_None_iff)

text \<open>The number of elements held by a map of lists: what popping an element decreases.\<close>

definition held :: "('k \<times> 'v list) list \<Rightarrow> nat" where
  "held m = sum_list (map (\<lambda>p. length (snd p)) m)"

lemma held_put_tl:
  assumes "map_of m k = Some (x # xs)"
  shows "held (put k xs m) < held m"
  using assms
proof (induction m)
  case Nil
  then show ?case by simp
next
  case (Cons p m)
  then show ?case
    by (cases p) (auto simp: put_def held_def split: if_splits)
qed

lemma held_pop: "get_or [] m k = x # xs \<Longrightarrow> held (put k xs m) < held m"
  by (auto simp: get_or_def split: option.splits intro: held_put_tl)

subsection \<open>Prefixes, suffixes and substrings\<close>

definition HasPrefix :: "string \<Rightarrow> string \<Rightarrow> bool" where
  "HasPrefix s p = prefix p s"

definition HasSuffix :: "string \<Rightarrow> string \<Rightarrow> bool" where
  "HasSuffix s p = prefix (rev p) (rev s)"

definition Contains :: "string \<Rightarrow> string \<Rightarrow> bool" where
  "Contains s sub = sublist sub s"

text \<open>\<open>strings.Cut\<close> at a one-byte separator: before, after, found.\<close>

definition Cut :: "string \<Rightarrow> char \<Rightarrow> string \<times> string \<times> bool" where
  "Cut s c = (takeWhile (\<lambda>x. x \<noteq> c) s, drop 1 (dropWhile (\<lambda>x. x \<noteq> c) s), c \<in> set s)"

definition CutSuffix :: "string \<Rightarrow> string \<Rightarrow> string option" where
  "CutSuffix s p = (if HasSuffix s p then Some (take (length s - length p) s) else None)"

definition TrimPrefix :: "string \<Rightarrow> string \<Rightarrow> string" where
  "TrimPrefix s p = (if HasPrefix s p then drop (length p) s else s)"

definition CountByte :: "string \<Rightarrow> char \<Rightarrow> nat" where
  "CountByte s c = length (filter (\<lambda>x. x = c) s)"

definition ReplaceByte :: "char \<Rightarrow> char \<Rightarrow> string \<Rightarrow> string" where
  "ReplaceByte a b s = map (\<lambda>c. if c = a then b else c) s"

text \<open>What follows the last byte of a set, and what precedes it.\<close>

definition AfterLast :: "(char \<Rightarrow> bool) \<Rightarrow> string \<Rightarrow> string" where
  "AfterLast P s = rev (takeWhile (\<lambda>c. \<not> P c) (rev s))"

definition BeforeLast :: "(char \<Rightarrow> bool) \<Rightarrow> string \<Rightarrow> string" where
  "BeforeLast P s = rev (drop 1 (dropWhile (\<lambda>c. \<not> P c) (rev s)))"

lemma HasSuffix_iff: "HasSuffix s p \<longleftrightarrow> suffix p s"
  by (simp add: HasSuffix_def suffix_to_prefix)

lemma CutSuffix_Some: "CutSuffix s p = Some q \<longleftrightarrow> s = q @ p"
  by (auto simp: CutSuffix_def HasSuffix_iff suffix_def)

lemma Cut_join: "Cut s c = (a, b, True) \<Longrightarrow> s = a @ c # b \<and> c \<notin> set a"
proof -
  assume "Cut s c = (a, b, True)"
  then have a: "a = takeWhile (\<lambda>x. x \<noteq> c) s" and b: "b = drop 1 (dropWhile (\<lambda>x. x \<noteq> c) s)"
    and c: "c \<in> set s" by (auto simp: Cut_def)
  from c have "dropWhile (\<lambda>x. x \<noteq> c) s \<noteq> []" by (simp add: dropWhile_eq_Nil_conv)
  then obtain y ys where y: "dropWhile (\<lambda>x. x \<noteq> c) s = y # ys" by (cases "dropWhile (\<lambda>x. x \<noteq> c) s") auto
  then have "y = c" using hd_dropWhile [of "\<lambda>x. x \<noteq> c" s] by simp
  with y b have "dropWhile (\<lambda>x. x \<noteq> c) s = c # b" by simp
  then have "s = a @ c # b" using a takeWhile_dropWhile_id [of "\<lambda>x. x \<noteq> c" s] by simp
  moreover have "c \<notin> set a" using a by (auto dest: set_takeWhileD)
  ultimately show ?thesis by simp
qed

lemma Cut_append: "c \<notin> set a \<Longrightarrow> Cut (a @ c # b) c = (a, b, True)"
proof -
  assume "c \<notin> set a"
  then have "takeWhile (\<lambda>x. x \<noteq> c) (a @ c # b) = a" "dropWhile (\<lambda>x. x \<noteq> c) (a @ c # b) = c # b"
    by (auto simp: takeWhile_append dropWhile_append)
  then show ?thesis by (simp add: Cut_def)
qed

lemma AfterLast_clean: "c \<in> set (AfterLast P s) \<Longrightarrow> \<not> P c"
  by (auto simp: AfterLast_def dest: set_takeWhileD)

lemma AfterLast_id: "\<forall>c\<in>set s. \<not> P c \<Longrightarrow> AfterLast P s = s"
proof -
  assume "\<forall>c\<in>set s. \<not> P c"
  then have "\<forall>c\<in>set (rev s). \<not> P c" by simp
  then have "takeWhile (\<lambda>c. \<not> P c) (rev s) = rev s" by (simp only: takeWhile_eq_all_conv)
  then show ?thesis by (simp only: AfterLast_def rev_rev_ident)
qed

subsection \<open>White space\<close>

text \<open>The UTF-8 encodings of the code points \<open>unicode.IsSpace\<close> accepts.\<close>

definition bytes :: "nat list \<Rightarrow> string" where
  "bytes ns = map char_of ns"

definition space_encodings :: "string list" where
  "space_encodings =
     map (\<lambda>n. bytes [n]) [9, 10, 11, 12, 13, 32] @
     [bytes [194, 133], bytes [194, 160], bytes [225, 154, 128]] @
     map (\<lambda>n. bytes [226, 128, n]) [128, 129, 130, 131, 132, 133, 134, 135, 136, 137, 138,
                                    168, 169, 175] @
     [bytes [226, 129, 159], bytes [227, 128, 128]]"

definition leading_space :: "string \<Rightarrow> nat" where
  "leading_space s = (case find (\<lambda>w. prefix w s) space_encodings of None \<Rightarrow> 0 | Some w \<Rightarrow> length w)"

definition trailing_space :: "string \<Rightarrow> nat" where
  "trailing_space s = (case find (\<lambda>w. HasSuffix s w) space_encodings of None \<Rightarrow> 0 | Some w \<Rightarrow> length w)"

lemma space_encodings_nonempty: "w \<in> set space_encodings \<Longrightarrow> w \<noteq> []"
  by (auto simp: space_encodings_def bytes_def)

lemma find_SomeD: "find P xs = Some x \<Longrightarrow> x \<in> set xs \<and> P x"
  by (auto simp: find_Some_iff)

lemma leading_space_pos: "0 < leading_space s \<Longrightarrow> 0 < length s"
  by (auto simp: leading_space_def split: option.splits dest!: find_SomeD)

lemma trailing_space_pos: "0 < trailing_space s \<Longrightarrow> 0 < length s"
  by (auto simp: trailing_space_def HasSuffix_def split: option.splits dest!: find_SomeD)

function TrimLeftSpace :: "string \<Rightarrow> string" where
  "TrimLeftSpace s = (if leading_space s = 0 then s else TrimLeftSpace (drop (leading_space s) s))"
  by pat_completeness auto
termination
  by (relation "measure length") (use leading_space_pos in fastforce)+

function TrimRightSpace :: "string \<Rightarrow> string" where
  "TrimRightSpace s =
     (if trailing_space s = 0 then s else TrimRightSpace (take (length s - trailing_space s) s))"
  by pat_completeness auto
termination
  by (relation "measure length") (use trailing_space_pos in fastforce)+

declare TrimLeftSpace.simps [simp del] TrimRightSpace.simps [simp del]

definition TrimSpace :: "string \<Rightarrow> string" where
  "TrimSpace s = TrimRightSpace (TrimLeftSpace s)"

text \<open>\<open>strings.Fields\<close>: the maximal runs between white space.\<close>

function fields_acc :: "string \<Rightarrow> string \<Rightarrow> string list" where
  "fields_acc acc s =
     (if leading_space s \<noteq> 0
      then (if acc = [] then [] else [acc]) @ fields_acc [] (drop (leading_space s) s)
      else (case s of [] \<Rightarrow> (if acc = [] then [] else [acc])
            | c # cs \<Rightarrow> fields_acc (acc @ [c]) cs))"
  by pat_completeness auto
termination
  by (relation "measure (\<lambda>(_, s). length s)") (use leading_space_pos in fastforce)+

declare fields_acc.simps [simp del]

definition Fields :: "string \<Rightarrow> string list" where
  "Fields s = fields_acc [] s"

lemma TrimLeftSpace_fix: "leading_space (TrimLeftSpace s) = 0"
  by (induction s rule: TrimLeftSpace.induct) (subst TrimLeftSpace.simps, simp)

lemma TrimRightSpace_fix: "trailing_space (TrimRightSpace s) = 0"
  by (induction s rule: TrimRightSpace.induct) (subst TrimRightSpace.simps, simp)

lemma TrimRightSpace_prefix: "prefix (TrimRightSpace s) s"
proof (induction s rule: TrimRightSpace.induct)
  case (1 s)
  show ?case
  proof (cases "trailing_space s = 0")
    case True
    then show ?thesis by (simp add: TrimRightSpace.simps [of s])
  next
    case False
    with 1 have "prefix (TrimRightSpace (take (length s - trailing_space s) s)) s"
      by (meson prefix_order.trans take_is_prefix)
    with False show ?thesis by (simp add: TrimRightSpace.simps [of s])
  qed
qed

lemma leading_space_prefix:
  assumes "prefix t s" "leading_space s = 0" shows "leading_space t = 0"
proof (rule ccontr)
  assume "leading_space t \<noteq> 0"
  then obtain w where "find (\<lambda>w. prefix w t) space_encodings = Some w"
    by (auto simp: leading_space_def split: option.splits)
  then have w: "w \<in> set space_encodings" "prefix w t" by (auto dest: find_SomeD)
  with assms(1) have "prefix w s" by (auto intro: prefix_order.trans)
  with w have "find (\<lambda>w. prefix w s) space_encodings \<noteq> None" by (auto simp: find_None_iff)
  then obtain w' where "find (\<lambda>w. prefix w s) space_encodings = Some w'" by auto
  then have "w' \<in> set space_encodings" "leading_space s = length w'"
    by (auto simp: leading_space_def dest: find_SomeD)
  with assms(2) show False by (auto dest: space_encodings_nonempty)
qed

lemma TrimSpace_leading: "leading_space (TrimSpace s) = 0"
  unfolding TrimSpace_def
  by (rule leading_space_prefix [OF TrimRightSpace_prefix TrimLeftSpace_fix])

lemma TrimSpace_idem [simp]: "TrimSpace (TrimSpace s) = TrimSpace s"
proof -
  have "TrimLeftSpace (TrimSpace s) = TrimSpace s"
    by (subst TrimLeftSpace.simps) (simp add: TrimSpace_leading)
  moreover have "TrimRightSpace (TrimSpace s) = TrimSpace s"
    by (subst TrimRightSpace.simps) (simp add: TrimSpace_def TrimRightSpace_fix)
  ultimately show ?thesis by (metis TrimSpace_def)
qed

lemma TrimSpace_id: "leading_space s = 0 \<Longrightarrow> trailing_space s = 0 \<Longrightarrow> TrimSpace s = s"
  by (simp add: TrimSpace_def TrimLeftSpace.simps [of s] TrimRightSpace.simps [of s])

text \<open>A string that starts and ends with a printable ASCII byte is left alone.\<close>

definition graphic :: "char \<Rightarrow> bool" where
  "graphic c \<longleftrightarrow> 33 \<le> (of_char c :: nat) \<and> (of_char c :: nat) \<le> 126"

lemma space_encodings_ends:
  "w \<in> set space_encodings \<Longrightarrow> \<not> graphic (hd w) \<and> \<not> graphic (last w)"
  by (auto simp: space_encodings_def bytes_def graphic_def)

lemma leading_space_graphic: "s \<noteq> [] \<Longrightarrow> graphic (hd s) \<Longrightarrow> leading_space s = 0"
proof (rule ccontr)
  assume s: "s \<noteq> []" "graphic (hd s)" and "leading_space s \<noteq> 0"
  then obtain w where "find (\<lambda>w. prefix w s) space_encodings = Some w"
    by (auto simp: leading_space_def split: option.splits)
  then have w: "w \<in> set space_encodings" "prefix w s" by (auto dest: find_SomeD)
  from w(2) have "hd w = hd s" using space_encodings_nonempty [OF w(1)] by (auto simp: prefix_def)
  with space_encodings_ends [OF w(1)] s show False by simp
qed

lemma trailing_space_graphic: "s \<noteq> [] \<Longrightarrow> graphic (last s) \<Longrightarrow> trailing_space s = 0"
proof (rule ccontr)
  assume s: "s \<noteq> []" "graphic (last s)" and "trailing_space s \<noteq> 0"
  then obtain w where "find (\<lambda>w. HasSuffix s w) space_encodings = Some w"
    by (auto simp: trailing_space_def split: option.splits)
  then have w: "w \<in> set space_encodings" "suffix w s" by (auto dest: find_SomeD simp: HasSuffix_iff)
  from w(2) have "last w = last s" using space_encodings_nonempty [OF w(1)] by (auto simp: suffix_def)
  with space_encodings_ends [OF w(1)] s show False by simp
qed

lemma TrimSpace_graphic: "s \<noteq> [] \<Longrightarrow> graphic (hd s) \<Longrightarrow> graphic (last s) \<Longrightarrow> TrimSpace s = s"
  by (simp add: TrimSpace_id leading_space_graphic trailing_space_graphic)

subsection \<open>Letter case\<close>

definition lower_byte :: "char \<Rightarrow> char" where
  "lower_byte c = (let n = of_char c :: nat in if 65 \<le> n \<and> n \<le> 90 then char_of (n + 32) else c)"

definition ToLower :: "string \<Rightarrow> string" where
  "ToLower s = map lower_byte s"

definition EqualFold :: "string \<Rightarrow> string \<Rightarrow> bool" where
  "EqualFold a b = (ToLower a = ToLower b)"

lemma EqualFold_refl [simp]: "EqualFold a a"
  by (simp add: EqualFold_def)

lemma EqualFold_sym: "EqualFold a b \<longleftrightarrow> EqualFold b a"
  by (auto simp: EqualFold_def)

lemma EqualFold_trans: "EqualFold a b \<Longrightarrow> EqualFold b c \<Longrightarrow> EqualFold a c"
  by (simp add: EqualFold_def)

subsection \<open>Joining\<close>

fun Join :: "string list \<Rightarrow> string \<Rightarrow> string" where
  "Join [] sep = []"
| "Join [s] sep = s"
| "Join (s # t # ss) sep = s @ sep @ Join (t # ss) sep"

subsection \<open>Numbers\<close>

definition digit :: "nat \<Rightarrow> char" where
  "digit n = char_of (48 + n)"

definition digit_val :: "char \<Rightarrow> nat option" where
  "digit_val c = (let n = of_char c :: nat in if 48 \<le> n \<and> n \<le> 57 then Some (n - 48) else None)"

fun nat_string :: "nat \<Rightarrow> string" where
  "nat_string n = (if n < 10 then [digit n] else nat_string (n div 10) @ [digit (n mod 10)])"

declare nat_string.simps [simp del]

definition Itoa :: "int \<Rightarrow> string" where
  "Itoa i = (if i < 0 then CHR ''-'' # nat_string (nat (- i)) else nat_string (nat i))"

definition parse_digits :: "string \<Rightarrow> nat option" where
  "parse_digits s =
     (if s = [] then None
      else fold (\<lambda>c acc. case (acc, digit_val c) of (Some a, Some d) \<Rightarrow> Some (10 * a + d) | _ \<Rightarrow> None)
             s (Some 0))"

definition maxInt :: int where "maxInt = 2 ^ 63 - 1"
definition minInt :: int where "minInt = - (2 ^ 63)"

text \<open>\<open>strconv.Atoi\<close> on a 64-bit platform: an optional sign, then decimal digits, in range.\<close>

definition Atoi :: "string \<Rightarrow> int option" where
  "Atoi s =
     (let (neg, ds) = (case s of [] \<Rightarrow> (False, [])
                       | c # cs \<Rightarrow> if c = CHR ''-'' then (True, cs)
                                 else if c = CHR ''+'' then (False, cs) else (False, s))
      in case parse_digits ds of None \<Rightarrow> None
         | Some n \<Rightarrow> let i = (if neg then - int n else int n)
                   in if minInt \<le> i \<and> i \<le> maxInt then Some i else None)"

lemma digit_val_digit [simp]: "n < 10 \<Longrightarrow> digit_val (digit n) = Some n"
  by (auto simp: digit_val_def digit_def Let_def)

lemma digit_inj: "n < 10 \<Longrightarrow> digit n = c \<Longrightarrow> digit_val c = Some n"
  by auto

lemma nat_string_nonempty [simp]: "nat_string n \<noteq> []"
  by (subst nat_string.simps) simp

lemma nat_string_fold:
  "fold (\<lambda>c acc. case (acc, digit_val c) of (Some a, Some d) \<Rightarrow> Some (10 * a + d) | _ \<Rightarrow> None)
     (nat_string n) (Some 0) = Some n"
proof (induction n rule: nat_string.induct)
  case (1 n)
  show ?case
  proof (cases "n < 10")
    case True
    then show ?thesis by (subst nat_string.simps) simp
  next
    case False
    with 1 show ?thesis by (subst nat_string.simps) simp
  qed
qed

lemma parse_nat_string [simp]: "parse_digits (nat_string n) = Some n"
  using nat_string_fold [of n] by (simp add: parse_digits_def)

lemma nat_string_digits: "c \<in> set (nat_string n) \<Longrightarrow> \<exists>d<10. c = digit d"
proof (induction n rule: nat_string.induct)
  case (1 n)
  show ?case
  proof (cases "n < 10")
    case True
    with 1 show ?thesis by (subst (asm) nat_string.simps) auto
  next
    case False
    with "1.prems" have "c \<in> set (nat_string (n div 10)) \<or> c = digit (n mod 10)"
      by (subst (asm) nat_string.simps) auto
    with 1 False show ?thesis by (auto intro: exI [of _ "n mod 10"])
  qed
qed

lemma nat_string_no_sign:
  assumes "digit_val c = None" shows "c \<notin> set (nat_string n)"
  using assms nat_string_digits [of c n] by auto

lemma Atoi_Itoa: "minInt \<le> i \<Longrightarrow> i \<le> maxInt \<Longrightarrow> Atoi (Itoa i) = Some i"
proof (cases "i < 0")
  case True
  assume "minInt \<le> i" "i \<le> maxInt"
  with True show ?thesis by (simp add: Atoi_def Itoa_def)
next
  case False
  assume rng: "minInt \<le> i" "i \<le> maxInt"
  obtain c cs where c: "nat_string (nat i) = c # cs" by (cases "nat_string (nat i)") auto
  have "c \<in> set (nat_string (nat i))" by (simp add: c)
  then have "c \<noteq> CHR ''-''" "c \<noteq> CHR ''+''"
    using nat_string_no_sign [of "CHR ''-''"] nat_string_no_sign [of "CHR ''+''"]
    by (auto simp: digit_val_def)
  moreover have "parse_digits (c # cs) = Some (nat i)" using c parse_nat_string by metis
  ultimately show ?thesis using False rng c by (simp add: Atoi_def Itoa_def)
qed

subsection \<open>Results and folds\<close>

text \<open>An operation that can fail returns a sum, with \<open>Inl\<close> for the error.\<close>

fun is_ok :: "'e + 'a \<Rightarrow> bool" where
  "is_ok (Inl _) = False"
| "is_ok (Inr _) = True"

lemma fold_invariant_keep:
  assumes "\<And>x s. x \<in> set xs \<Longrightarrow> P s \<Longrightarrow> P (f x s)" "P s"
  shows "P (fold f xs s)"
  using assms by (induction xs arbitrary: s) auto

lemma fold_unchanged:
  assumes "\<And>x s. x \<in> set xs \<Longrightarrow> g (f x s) = g s"
  shows "g (fold f xs s) = g s"
  using assms by (induction xs arbitrary: s) auto

lemma filter_fst_del: "map_of m k = Some v \<Longrightarrow> distinct (map fst m) \<Longrightarrow>
    length (del k m) = length m - 1"
proof (induction m)
  case Nil
  then show ?case by simp
next
  case (Cons p m)
  show ?case
  proof (cases "fst p = k")
    case True
    then have "k \<notin> set (map fst m)" using Cons.prems by auto
    then have "del k m = m" by (simp add: del_def delete_idem)
    with True show ?thesis by (cases p) (simp add: del_def)
  next
    case False
    with Cons have "length (del k m) = length m - 1" "m \<noteq> []"
      by (cases p; auto)+
    with False show ?thesis by (cases p) (auto simp: del_def AList.delete_eq neq_Nil_conv)
  qed
qed

end
