(* ===== verification/GoPath.thy ===== *)
theory GoPath
  imports Prelude
begin

text \<open>
  Go's package path, as far as the program uses it: \<open>Split\<close> into elements,
  \<open>Clean\<close> (lexical normalisation: empty and dot elements go, a dot-dot element takes its
  predecessor with it, and at the front of a relative path stays) and \<open>Match\<close> (shell
  patterns; a star matches a run of bytes that are not a slash). The filepath package is the same on
  the Unix hosts the program runs on.
\<close>

subsection \<open>Elements\<close>

definition slash :: char where "slash = CHR ''/''"
definition backslash :: char where "backslash = CHR 0x5C"

fun elems_acc :: "string \<Rightarrow> string \<Rightarrow> string list" where
  "elems_acc acc [] = [acc]"
| "elems_acc acc (c # cs) = (if c = slash then acc # elems_acc [] cs else elems_acc (acc @ [c]) cs)"

definition elems :: "string \<Rightarrow> string list" where
  "elems p = elems_acc [] p"

lemma elems_acc_app: "slash \<notin> set e \<Longrightarrow> elems_acc acc (e @ slash # p) = (acc @ e) # elems p"
  by (induction e arbitrary: acc) (auto simp: elems_def)

lemma elems_acc_single: "slash \<notin> set e \<Longrightarrow> elems_acc acc e = [acc @ e]"
  by (induction e arbitrary: acc) auto

lemma elems_acc_nonempty [simp]: "elems_acc acc p \<noteq> []"
  by (induction p arbitrary: acc) auto

lemma elems_Join:
  assumes "es \<noteq> []" "\<forall>e\<in>set es. slash \<notin> set e"
  shows "elems (Join es [slash]) = es"
  using assms
proof (induction es "[slash]" rule: Join.induct)
  case (3 s t ss)
  then show ?case using elems_acc_app [of s "[]" "Join (t # ss) [slash]"]
    by (simp add: elems_def)
qed (auto simp: elems_def elems_acc_single)

lemma elems_acc_no_slash: "slash \<notin> set acc \<Longrightarrow> \<forall>e\<in>set (elems_acc acc p). slash \<notin> set e"
proof (induction p arbitrary: acc)
  case (Cons c p)
  show ?case using Cons.prems Cons.IH [of "[]"] Cons.IH [of "acc @ [c]"] by simp
qed simp

lemma elems_no_slash: "e \<in> set (elems p) \<Longrightarrow> slash \<notin> set e"
  unfolding elems_def using elems_acc_no_slash [of "[]" p] by simp

lemma Join_elems_acc: "Join (elems_acc acc p) [slash] = acc @ p"
proof (induction p arbitrary: acc)
  case (Cons c cs)
  show ?case
  proof (cases "c = slash")
    case True
    obtain x xs where "elems_acc [] cs = x # xs" by (cases "elems_acc [] cs") auto
    with True Cons [of "[]"] show ?thesis by simp
  next
    case False
    then show ?thesis using Cons [of "acc @ [c]"] by simp
  qed
qed simp

lemma Join_elems [simp]: "Join (elems p) [slash] = p"
  by (simp add: elems_def Join_elems_acc)

subsection \<open>Clean\<close>

text \<open>The stack of kept elements, last one first.\<close>

fun clean_step :: "bool \<Rightarrow> string \<Rightarrow> string list \<Rightarrow> string list" where
  "clean_step rooted e st =
     (if e = [] \<or> e = ''.'' then st
      else if e = ''..'' then
        (case st of
           t # ts \<Rightarrow> if t = ''..'' then (if rooted then st else e # st) else ts
         | [] \<Rightarrow> if rooted then [] else [e])
      else e # st)"

definition IsAbs :: "string \<Rightarrow> bool" where
  "IsAbs p = HasPrefix p [slash]"

definition clean_elems :: "string \<Rightarrow> string list" where
  "clean_elems p = rev (fold (clean_step (IsAbs p)) (elems p) [])"

definition Clean :: "string \<Rightarrow> string" where
  "Clean p =
     (if IsAbs p then slash # Join (clean_elems p) [slash]
      else if clean_elems p = [] then ''.'' else Join (clean_elems p) [slash])"

text \<open>An ordinary element: a name, and no way to leave the directory.\<close>

definition plain_elem :: "string \<Rightarrow> bool" where
  "plain_elem e \<longleftrightarrow> e \<noteq> [] \<and> e \<noteq> ''.'' \<and> e \<noteq> ''..'' \<and> slash \<notin> set e"

text \<open>What the stack holds: names on top of dot-dots, and no dot-dots below a root.\<close>

fun clean_stack :: "bool \<Rightarrow> string list \<Rightarrow> bool" where
  "clean_stack rooted [] = True"
| "clean_stack rooted (e # st) =
     (if e = ''..'' then \<not> rooted \<and> set st \<subseteq> {''..''} else plain_elem e \<and> clean_stack rooted st)"

lemma clean_stack_dotdots: "set st \<subseteq> {''..''} \<Longrightarrow> \<not> r \<Longrightarrow> clean_stack r st"
  by (induction st) auto

lemma clean_stack_step:
  "slash \<notin> set e \<Longrightarrow> clean_stack r st \<Longrightarrow> clean_stack r (clean_step r e st)"
  by (cases st) (auto simp: plain_elem_def split: if_splits intro: clean_stack_dotdots)

lemma clean_stack_fold:
  "\<forall>e\<in>set es. slash \<notin> set e \<Longrightarrow> clean_stack r st \<Longrightarrow> clean_stack r (fold (clean_step r) es st)"
  by (induction es arbitrary: st) (auto intro: clean_stack_step simp del: clean_step.simps)

lemma clean_stack_plain:
  "clean_stack r st \<Longrightarrow> ''..'' \<notin> set st \<or> last st \<noteq> ''..'' \<Longrightarrow> \<forall>e\<in>set st. plain_elem e"
proof (induction st)
  case (Cons e st)
  show ?case
  proof (cases "e = ''..''")
    case True
    with Cons.prems have "set st \<subseteq> {''..''}" "last (e # st) \<noteq> ''..''" by auto
    with True show ?thesis by (cases st rule: rev_cases) auto
  next
    case False
    with Cons show ?thesis by (cases st) auto
  qed
qed simp

lemma clean_elems_stack: "clean_stack (IsAbs p) (rev (clean_elems p))"
  by (simp add: clean_elems_def clean_stack_fold elems_no_slash)

lemma plain_elems_clean:
  assumes "\<forall>e\<in>set es. plain_elem e"
  shows "fold (clean_step r) es st = rev es @ st"
  using assms by (induction es arbitrary: st) (auto simp: plain_elem_def)

lemma clean_step_no_slash:
  "slash \<notin> set e \<Longrightarrow> \<forall>x\<in>set st. slash \<notin> set x \<Longrightarrow> \<forall>x\<in>set (clean_step r e st). slash \<notin> set x"
  by (cases st) auto

lemma clean_elems_no_slash: "e \<in> set (clean_elems p) \<Longrightarrow> slash \<notin> set e"
proof -
  have "\<forall>x\<in>set (fold (clean_step (IsAbs p)) (elems p) []). slash \<notin> set x"
    by (rule fold_invariant_keep) (use clean_step_no_slash elems_no_slash in blast, simp)
  then show "e \<in> set (clean_elems p) \<Longrightarrow> slash \<notin> set e" by (simp add: clean_elems_def)
qed

subsection \<open>UTF-8\<close>

definition byte :: "char \<Rightarrow> nat" where "byte c = of_char c"

definition cont :: "nat \<Rightarrow> nat \<Rightarrow> nat \<Rightarrow> bool" where
  "cont lo hi b \<longleftrightarrow> lo \<le> b \<and> b \<le> hi"

text \<open>\<open>utf8.DecodeRuneInString\<close>: the code point and its width; invalid input is one byte.\<close>

definition DecodeRune :: "string \<Rightarrow> nat \<times> nat" where
  "DecodeRune s =
     (let b = (\<lambda>i. if i < length s then byte (s ! i) else 256) in
      if s = [] then (65533, 0)
      else if b 0 < 128 then (b 0, 1)
      else if cont 194 223 (b 0) \<and> cont 128 191 (b 1)
        then ((b 0 - 192) * 64 + (b 1 - 128), 2)
      else if cont 224 239 (b 0) \<and> cont 128 191 (b 2)
          \<and> cont (if b 0 = 224 then 160 else 128) (if b 0 = 237 then 159 else 191) (b 1)
        then ((b 0 - 224) * 4096 + (b 1 - 128) * 64 + (b 2 - 128), 3)
      else if cont 240 244 (b 0) \<and> cont 128 191 (b 2) \<and> cont 128 191 (b 3)
          \<and> cont (if b 0 = 240 then 144 else 128) (if b 0 = 244 then 143 else 191) (b 1)
        then ((b 0 - 240) * 262144 + (b 1 - 128) * 4096 + (b 2 - 128) * 64 + (b 3 - 128), 4)
      else (65533, 1))"

lemma snd_if_pos: "0 < snd a \<Longrightarrow> 0 < snd b \<Longrightarrow> 0 < snd (if c then a else (b :: 'x \<times> nat))"
  by simp

lemma DecodeRune_width: "s \<noteq> [] \<Longrightarrow> 0 < snd (DecodeRune s)"
  unfolding DecodeRune_def Let_def
  by (subst if_not_P, assumption) (intro snd_if_pos, simp_all only: snd_conv zero_less_one zero_less_numeral)

subsection \<open>Match\<close>

fun scan_chunk :: "bool \<Rightarrow> string \<Rightarrow> string \<times> string" where
  "scan_chunk r [] = ([], [])"
| "scan_chunk r (c # cs) =
     (if c = backslash then
        (case cs of [] \<Rightarrow> ([c], [])
         | d # ds \<Rightarrow> (let (a, b) = scan_chunk r ds in (c # d # a, b)))
      else if c = CHR ''*'' \<and> \<not> r then ([], c # cs)
      else (let r' = (if c = CHR ''['' then True else if c = CHR '']'' then False else r);
                (a, b) = scan_chunk r' cs in (c # a, b)))"

definition scanChunk :: "string \<Rightarrow> bool \<times> string \<times> string" where
  "scanChunk p = (let star = (p \<noteq> [] \<and> hd p = CHR ''*'');
                      (a, b) = scan_chunk False (dropWhile (\<lambda>c. c = CHR ''*'') p)
                  in (star, a, b))"

definition getEsc :: "string \<Rightarrow> (nat \<times> string) option" where
  "getEsc chunk =
     (case chunk of [] \<Rightarrow> None
      | c # cs \<Rightarrow>
          if c = CHR ''-'' \<or> c = CHR '']'' then None
          else (let body = (if c = backslash then cs else chunk); (r, n) = DecodeRune body
                in if body = [] \<or> (r = 65533 \<and> n = 1) \<or> drop n body = [] then None
                   else Some (r, drop n body)))"

lemma getEsc_shorter: "getEsc c = Some (r, d) \<Longrightarrow> length d < length c"
proof -
  assume g: "getEsc c = Some (r, d)"
  then obtain x xs where c: "c = x # xs" by (cases c) (auto simp: getEsc_def)
  define body where "body = (if x = backslash then xs else c)"
  have "body \<noteq> [] \<and> d = drop (snd (DecodeRune body)) body" using g
    by (auto simp: getEsc_def c body_def Let_def split: prod.splits if_splits)
  then have "length d < length body" using DecodeRune_width [of body] by (cases body) auto
  then show ?thesis by (auto simp: body_def c split: if_splits)
qed

function match_ranges :: "nat \<Rightarrow> string \<Rightarrow> nat \<Rightarrow> bool \<Rightarrow> (bool \<times> string) option" where
  "match_ranges r chunk k matched =
     (if chunk \<noteq> [] \<and> hd chunk = CHR '']'' \<and> 0 < k then Some (matched, tl chunk)
      else (case getEsc chunk of None \<Rightarrow> None
        | Some (lo, c1) \<Rightarrow>
            if c1 \<noteq> [] \<and> hd c1 = CHR ''-'' then
              (case getEsc (tl c1) of None \<Rightarrow> None
               | Some (hi, c2) \<Rightarrow> match_ranges r c2 (Suc k) (matched \<or> lo \<le> r \<and> r \<le> hi))
            else match_ranges r c1 (Suc k) (matched \<or> lo = r)))"
  by pat_completeness auto
termination
proof (relation "measure (\<lambda>(r, chunk, k, m). length chunk)", goal_cases)
  case 1 then show ?case by simp
next
  case (2 r chunk k m lc lo c1 hc hi c2)
  then show ?case using getEsc_shorter [of chunk lo c1] getEsc_shorter [of "tl c1" hi c2] by auto
next
  case (3 r chunk k m lc lo c1)
  then show ?case using getEsc_shorter [of chunk lo c1] by auto
qed

lemma match_ranges_shorter: "match_ranges r c k m = Some (b, d) \<Longrightarrow> length d < length c"
proof (induction r c k m rule: match_ranges.induct)
  case (1 r chunk k matched)
  note eq = match_ranges.simps [of r chunk k matched]
  show ?case
  proof (cases "chunk \<noteq> [] \<and> hd chunk = CHR '']'' \<and> 0 < k")
    case True
    with "1.prems" eq show ?thesis by (cases chunk) auto
  next
    case False
    with "1.prems" eq obtain lo c1 where g: "getEsc chunk = Some (lo, c1)"
      by (auto split: option.splits)
    show ?thesis
    proof (cases "c1 \<noteq> [] \<and> hd c1 = CHR ''-''")
      case True
      with "1.prems" eq False g obtain hi c2 where h: "getEsc (tl c1) = Some (hi, c2)"
        by (auto split: option.splits)
      have "length d < length c2"
        using "1.IH"(1) [OF False g refl True h refl] "1.prems" eq False g True h by auto
      with getEsc_shorter [OF g] getEsc_shorter [OF h] show ?thesis by auto
    next
      case f: False
      have "length d < length c1"
        using "1.IH"(2) [OF False g refl f] "1.prems" eq False g f by auto
      with getEsc_shorter [OF g] show ?thesis by auto
    qed
  qed
qed

declare match_ranges.simps [simp del]

text \<open>\<open>None\<close> is \<open>ErrBadPattern\<close>; otherwise the unread rest and whether it matched.\<close>

function match_chunk :: "bool \<Rightarrow> string \<Rightarrow> string \<Rightarrow> (string \<times> bool) option" where
  "match_chunk failed chunk s =
     (case chunk of
        [] \<Rightarrow> Some (if failed then ([], False) else (s, True))
      | c # cs \<Rightarrow>
         (let failed = (failed \<or> s = []) in
          if c = CHR ''['' then
            (let (r, n) = (if failed then (0, 0) else DecodeRune s);
                 neg = (cs \<noteq> [] \<and> hd cs = CHR ''^'');
                 body = (if neg then tl cs else cs)
             in case match_ranges r body 0 False of None \<Rightarrow> None
                | Some (m, rest) \<Rightarrow> match_chunk (failed \<or> m = neg) rest (drop n s))
          else if c = CHR ''?'' then
            match_chunk (failed \<or> hd s = slash) cs (if failed then s else drop (snd (DecodeRune s)) s)
          else if c = backslash then
            (case cs of [] \<Rightarrow> None
             | d # ds \<Rightarrow> match_chunk (failed \<or> d \<noteq> hd s) ds (if failed then s else tl s))
          else match_chunk (failed \<or> c \<noteq> hd s) cs (if failed then s else tl s)))"
  by pat_completeness auto
termination
proof (relation "measure (\<lambda>(f, chunk, s). length chunk)", goal_cases)
  case 1 then show ?case by simp
next
  case (2 f chunk s c cs fl rn r n neg body y m rest)
  then have "length rest < length body" using match_ranges_shorter [of r body 0 False m rest] by simp
  moreover have "length body \<le> length cs" using 2 by auto
  ultimately show ?case using 2 by simp
qed auto

declare match_chunk.simps [simp del]

datatype search_result = BadPattern | NotFound | Found string

fun search :: "string \<Rightarrow> bool \<Rightarrow> string \<Rightarrow> search_result" where
  "search chunk is_last [] = NotFound"
| "search chunk is_last (c # cs) =
     (if c = slash then NotFound
      else (case match_chunk False chunk cs of
              None \<Rightarrow> BadPattern
            | Some (t, ok) \<Rightarrow>
                if ok \<and> \<not> (is_last \<and> t \<noteq> []) then Found t else search chunk is_last cs))"

lemma scan_chunk_length: "scan_chunk r p = (a, b) \<Longrightarrow> length a + length b = length p"
proof (induction r p arbitrary: a b rule: scan_chunk.induct)
  case (2 r c cs)
  show ?case
  proof (cases "c = backslash")
    case True
    with 2 show ?thesis by (auto split: list.splits prod.splits)
  next
    case False
    show ?thesis
    proof (cases "c = CHR ''*'' \<and> \<not> r")
      case True
      with False "2.prems" show ?thesis by auto
    next
      case f: False
      with False "2.prems" obtain a' where
        "scan_chunk (if c = CHR ''['' then True else if c = CHR '']'' then False else r) cs = (a', b)"
        "a = c # a'" by (auto simp: Let_def split: prod.splits)
      with 2(2) [OF False f refl] show ?thesis by auto
    qed
  qed
qed simp

lemma scanChunk_shorter:
  assumes p: "p \<noteq> []" and s: "scanChunk p = (star, a, b)"
  shows "length b < length p"
proof -
  define q where "q = dropWhile (\<lambda>c. c = CHR ''*'') p"
  have sc: "scan_chunk False q = (a, b)" using s
    by (auto simp: scanChunk_def q_def Let_def split: prod.splits)
  have len: "length a + length b = length q" using scan_chunk_length [OF sc] .
  obtain c cs where c: "p = c # cs" using p by (cases p) auto
  show ?thesis
  proof (cases "c = CHR ''*''")
    case True
    then have "length q \<le> length cs" by (simp add: q_def c length_dropWhile_le)
    with len c show ?thesis by simp
  next
    case False
    then have q: "q = c # cs" by (simp add: q_def c)
    have "a \<noteq> []"
    proof
      assume "a = []"
      with sc q False show False
        by (cases cs) (auto simp: Let_def split: prod.splits if_splits)
    qed
    with len q c show ?thesis by (cases a) auto
  qed
qed

lemma scanChunk_smaller:
  "(star, a, b) = scanChunk p \<Longrightarrow> p \<noteq> [] \<Longrightarrow> length b < length p"
  using scanChunk_shorter by metis

function valid_rest :: "string \<Rightarrow> bool" where
  "valid_rest p = (if p = [] then True else (case scanChunk p of (_, chunk, rest) \<Rightarrow>
     if match_chunk False chunk [] = None then False else valid_rest rest))"
  by pat_completeness auto
termination
  by (relation "measure length") (auto dest: scanChunk_smaller)

declare valid_rest.simps [simp del]

definition rest_result :: "string \<Rightarrow> bool option" where
  "rest_result p = (if valid_rest p then Some False else None)"

text \<open>\<open>path.Match\<close>; \<open>None\<close> is \<open>ErrBadPattern\<close>.\<close>

function Match :: "string \<Rightarrow> string \<Rightarrow> bool option" where
  "Match p name =
     (if p = [] then Some (name = [])
      else (case scanChunk p of (star, chunk, rest) \<Rightarrow>
        if star \<and> chunk = [] then Some (slash \<notin> set name)
        else (case match_chunk False chunk name of
            None \<Rightarrow> None
          | Some (t, ok) \<Rightarrow>
              if ok \<and> (t = [] \<or> rest \<noteq> []) then Match rest t
              else if star then
                (case search chunk (rest = []) name of
                   BadPattern \<Rightarrow> None | Found u \<Rightarrow> Match rest u | NotFound \<Rightarrow> rest_result rest)
              else rest_result rest)))"
  by pat_completeness auto
termination
  by (relation "measure (\<lambda>(p, _). length p)") (auto dest: scanChunk_smaller)

declare Match.simps [simp del]

text \<open>A pattern without wildcards, escapes or classes matches itself and nothing else.\<close>

definition literal_byte :: "char \<Rightarrow> bool" where
  "literal_byte c \<longleftrightarrow> c \<noteq> CHR ''*'' \<and> c \<noteq> CHR ''?'' \<and> c \<noteq> CHR ''['' \<and> c \<noteq> backslash"

lemma scan_chunk_literal: "\<forall>c\<in>set p. literal_byte c \<Longrightarrow> scan_chunk r p = (p, [])"
  by (induction p arbitrary: r) (auto simp: literal_byte_def)

lemma match_chunk_failed: "\<forall>c\<in>set p. literal_byte c \<Longrightarrow> match_chunk True p s = Some ([], False)"
proof (induction p)
  case Nil
  show ?case by (subst match_chunk.simps) simp
next
  case (Cons c p)
  then show ?case by (subst match_chunk.simps) (simp add: literal_byte_def Let_def)
qed

lemma match_chunk_literal:
  "\<forall>c\<in>set p. literal_byte c \<Longrightarrow>
     match_chunk False p s = Some (if prefix p s then (drop (length p) s, True) else ([], False))"
proof (induction p arbitrary: s)
  case Nil
  show ?case by (subst match_chunk.simps) simp
next
  case (Cons c p)
  then have c: "c \<noteq> CHR ''*''" "c \<noteq> CHR ''?''" "c \<noteq> CHR ''[''" "c \<noteq> backslash"
    and p: "\<forall>c\<in>set p. literal_byte c" by (auto simp: literal_byte_def)
  show ?case
  proof (cases "s \<noteq> [] \<and> hd s = c")
    case True
    then obtain s' where "s = c # s'" by (cases s) auto
    with c Cons.IH [OF p, of s'] show ?thesis by (subst match_chunk.simps) simp
  next
    case False
    then have "match_chunk False (c # p) s = match_chunk True p (if s = [] then s else tl s)"
      using c by (subst match_chunk.simps) auto
    with match_chunk_failed [OF p] False show ?thesis by (cases s) auto
  qed
qed

lemma Match_literal: "\<forall>c\<in>set p. literal_byte c \<Longrightarrow> Match p s = Some (s = p)"
proof (cases "p = []")
  case True
  then show ?thesis by (subst Match.simps) auto
next
  case False
  assume lit: "\<forall>c\<in>set p. literal_byte c"
  with False have "hd p \<noteq> CHR ''*''" by (cases p) (auto simp: literal_byte_def)
  moreover from this False have "dropWhile (\<lambda>c. c = CHR ''*'') p = p" by (cases p) auto
  ultimately have sc: "scanChunk p = (False, p, [])"
    by (simp add: scanChunk_def scan_chunk_literal [OF lit])
  have v: "rest_result [] = Some False" by (simp add: rest_result_def valid_rest.simps)
  have e: "Match [] [] = Some True" by (subst Match.simps) simp
  have "Match p s = (case (if prefix p s then (drop (length p) s, True) else ([], False)) of
      (t, ok) \<Rightarrow> if ok \<and> t = [] then Match [] t else Some False)"
    by (subst Match.simps) (simp add: False sc match_chunk_literal [OF lit] v)
  then show ?thesis using e by (auto simp: prefix_def)
qed

subsection \<open>Joining, last element, directory\<close>

text \<open>\<open>filepath.Join\<close>: the elements that are not empty, cleaned.\<close>

definition path_join :: "string list \<Rightarrow> string" where
  "path_join es = (let ne = filter (\<lambda>e. e \<noteq> []) es in if ne = [] then [] else Clean (Join ne [slash]))"

text \<open>\<open>filepath.Base\<close> and \<open>filepath.Dir\<close>.\<close>

definition strip_slashes :: "string \<Rightarrow> string" where
  "strip_slashes p = rev (dropWhile (\<lambda>c. c = slash) (rev p))"

definition path_base :: "string \<Rightarrow> string" where
  "path_base p = (if p = [] then ''.'' else if strip_slashes p = [] then [slash]
     else AfterLast (\<lambda>c. c = slash) (strip_slashes p))"

definition path_dir :: "string \<Rightarrow> string" where
  "path_dir p = Clean (rev (dropWhile (\<lambda>c. c \<noteq> slash) (rev p)))"

end
