(* ===== verification/Version.thy ===== *)
theory Version
  imports Prelude
begin

text \<open>
  The wire version and its negotiation (protocol/version.go). An error value is the format string of
  the source with the values it prints; the same type carries the validation errors of the frames.
\<close>

datatype fmt_err = Err string "string list"

record SemVer =
  Major :: int
  Minor :: int

definition Version :: string where
  "Version = ''1.1''"

definition SemVer_String :: "SemVer \<Rightarrow> string" where
  "SemVer_String v = Itoa (Major v) @ ''.'' @ Itoa (Minor v)"

definition ParseVersion :: "string \<Rightarrow> fmt_err + SemVer" where
  "ParseVersion s =
     (let (major, minor, ok) = Cut s (CHR ''.'') in
      if \<not> ok then Inl (Err ''protocol: malformed version %q, want major.minor'' [s])
      else (case Atoi major of
          None \<Rightarrow> Inl (Err ''protocol: malformed major version in %q'' [s])
        | Some maj \<Rightarrow>
            if maj < 0 then Inl (Err ''protocol: malformed major version in %q'' [s])
            else (case Atoi minor of
                None \<Rightarrow> Inl (Err ''protocol: malformed minor version in %q'' [s])
              | Some mn \<Rightarrow>
                  if mn < 0 then Inl (Err ''protocol: malformed minor version in %q'' [s])
                  else Inr \<lparr>Major = maj, Minor = mn\<rparr>)))"

text \<open>\<open>Ours\<close> panics when the constant does not parse; \<open>Version_parses\<close> shows it does.\<close>

definition Ours :: SemVer where
  "Ours = projr (ParseVersion Version)"

lemma Version_parses: "ParseVersion Version = Inr \<lparr>Major = 1, Minor = 1\<rparr>"
  by (simp add: ParseVersion_def Version_def Cut_def Atoi_def parse_digits_def digit_val_def
      minInt_def maxInt_def)

lemma Ours_eq: "Ours = \<lparr>Major = 1, Minor = 1\<rparr>"
  by (simp add: Ours_def Version_parses)

datatype Compatibility = Incompatible | CompatibleWithWarning | Compatible

definition Compatibility_OK :: "Compatibility \<Rightarrow> bool" where
  "Compatibility_OK c = (c \<noteq> Incompatible)"

definition Negotiate :: "SemVer \<Rightarrow> Compatibility" where
  "Negotiate peer =
     (if Major peer \<noteq> Major Ours then Incompatible
      else if Minor peer \<noteq> Minor Ours then CompatibleWithWarning
      else Compatible)"

definition NegotiateString :: "string \<Rightarrow> fmt_err + SemVer \<times> Compatibility" where
  "NegotiateString peer =
     (case ParseVersion peer of Inl e \<Rightarrow> Inl e | Inr v \<Rightarrow> Inr (v, Negotiate v))"

subsection \<open>Round trip\<close>

lemma dot_not_in_Itoa: "CHR ''.'' \<notin> set (Itoa i)"
proof -
  have "CHR ''.'' \<notin> set (nat_string n)" for n
    by (rule nat_string_no_sign) (simp add: digit_val_def)
  then show ?thesis by (simp add: Itoa_def)
qed

lemma Cut_SemVer_String:
  "Cut (SemVer_String v) (CHR ''.'') = (Itoa (Major v), Itoa (Minor v), True)"
  using Cut_append [OF dot_not_in_Itoa] by (simp add: SemVer_String_def)

definition wf_SemVer :: "SemVer \<Rightarrow> bool" where
  "wf_SemVer v \<longleftrightarrow> 0 \<le> Major v \<and> Major v \<le> maxInt \<and> 0 \<le> Minor v \<and> Minor v \<le> maxInt"

lemma ParseVersion_SemVer_String: "wf_SemVer v \<Longrightarrow> ParseVersion (SemVer_String v) = Inr v"
proof -
  assume wf: "wf_SemVer v"
  then have "Atoi (Itoa (Major v)) = Some (Major v)" "Atoi (Itoa (Minor v)) = Some (Minor v)"
    by (auto simp: wf_SemVer_def minInt_def intro: Atoi_Itoa)
  with wf show ?thesis by (simp add: ParseVersion_def Cut_SemVer_String wf_SemVer_def)
qed

lemma Atoi_range: "Atoi s = Some i \<Longrightarrow> minInt \<le> i \<and> i \<le> maxInt"
  by (auto simp: Atoi_def Let_def split: prod.splits option.splits if_splits)

lemma ParseVersion_wf: "ParseVersion s = Inr v \<Longrightarrow> wf_SemVer v"
  by (auto simp: ParseVersion_def wf_SemVer_def split: prod.splits if_splits option.splits dest: Atoi_range)

text \<open>
  Version strings round-trip: every version the parser returns is printed to a string that
  parses to the same version, so the two peers of a handshake agree on what was said.
\<close>

theorem version_roundtrip:
  assumes "ParseVersion s = Inr v"
  shows "ParseVersion (SemVer_String v) = Inr v"
  using assms by (blast intro: ParseVersion_SemVer_String ParseVersion_wf)

theorem version_roundtrip_witness:
  "ParseVersion (SemVer_String \<lparr>Major = 1, Minor = 1\<rparr>) = Inr \<lparr>Major = 1, Minor = 1\<rparr>"
  using version_roundtrip [OF Version_parses] .

text \<open>
  A peer is let in exactly when its version string parses and names our major version: every
  minor skew is tolerated in both directions and nothing else is.
\<close>

theorem negotiation_accepts_same_major:
  "(\<exists>v c. NegotiateString s = Inr (v, c) \<and> Compatibility_OK c) \<longleftrightarrow>
   (\<exists>v. ParseVersion s = Inr v \<and> Major v = Major Ours)"
  by (auto simp: NegotiateString_def Negotiate_def Compatibility_OK_def split: sum.splits)

end
