(* ===== verification/Frames.thy ===== *)
theory Frames
  imports Complex_Main GoPath Version
begin

text \<open>
  The control frames and their validation (protocol/frames.go). Every frame struct is a record with
  the struct's fields, the interface \<open>Frame\<close> is a datatype with one constructor per struct,
  and \<open>Validate\<close> returns the list of problems that Go joins with \<open>errors.Join\<close>: an
  empty list is the nil error. Raw JSON values are strings, byte slices are strings, optional
  pointers are options, times are seconds and 64-bit counters are integers.
\<close>

abbreviation err :: "string \<Rightarrow> fmt_err" where "err s \<equiv> Err s []"

abbreviation problem_if :: "bool \<Rightarrow> fmt_err \<Rightarrow> fmt_err list" where
  "problem_if b e \<equiv> (if b then [e] else [])"

subsection \<open>Directions and slugs\<close>

datatype Direction = DirUp | DirDown | DirBoth

definition permits :: "Direction \<Rightarrow> Direction \<Rightarrow> bool" where
  "permits d from_dir \<longleftrightarrow> d = DirBoth \<or> d = from_dir"

definition slug_head :: "char \<Rightarrow> bool" where
  "slug_head c \<longleftrightarrow> (97 \<le> byte c \<and> byte c \<le> 122) \<or> (48 \<le> byte c \<and> byte c \<le> 57)"

definition slug_tail :: "char \<Rightarrow> bool" where
  "slug_tail c \<longleftrightarrow> slug_head c \<or> c = CHR ''-''"

definition ValidSlug :: "string \<Rightarrow> bool" where
  "ValidSlug s = (case s of [] \<Rightarrow> False
     | c # cs \<Rightarrow> slug_head c \<and> length cs \<le> 63 \<and> (\<forall>d\<in>set cs. slug_tail d))"

subsection \<open>Handshake frames\<close>

datatype AuthMode = AuthToken | AuthInstanceIdentity | AuthOther string

record Auth =
  a_mode :: AuthMode
  a_value :: string

record Host =
  h_id :: string
  h_os :: string
  h_arch :: string

record HarnessInfo =
  hi_adapter :: string
  hi_version :: string

record BundleRef =
  br_version :: int
  br_digest :: string

record Hello =
  hello_protocol :: string
  hello_runner :: string
  hello_auth :: Auth
  hello_host :: Host
  hello_harness :: HarnessInfo
  hello_capabilities :: "string list"
  hello_bundle :: "BundleRef option"

definition is_err :: "'e + 'a \<Rightarrow> bool" where
  "is_err r = (case r of Inl _ \<Rightarrow> True | Inr _ \<Rightarrow> False)"

definition version_problem :: "string \<Rightarrow> fmt_err list" where
  "version_problem s = (case ParseVersion s of Inl e \<Rightarrow> [e] | Inr _ \<Rightarrow> [])"

definition validate_Hello :: "Hello \<Rightarrow> fmt_err list" where
  "validate_Hello h =
     version_problem (hello_protocol h)
     @ problem_if (\<not> ValidSlug (hello_runner h)) (Err ''hello: runner %q is not a valid slug'' [hello_runner h])
     @ (case a_mode (hello_auth h) of
          AuthToken \<Rightarrow> problem_if (a_value (hello_auth h) = []) (err ''hello: auth mode token requires a value'')
        | AuthInstanceIdentity \<Rightarrow>
            problem_if (a_value (hello_auth h) = []) (err ''hello: auth mode instance-identity requires a document'')
        | AuthOther m \<Rightarrow> [Err ''hello: unknown auth mode %q'' [m]])
     @ problem_if (hi_adapter (hello_harness h) = []) (err ''hello: harness.adapter is required'')
     @ (case hello_bundle h of None \<Rightarrow> []
        | Some b \<Rightarrow> problem_if (br_version b < 0) (err ''hello: bundle version must be non-negative''))"

definition redacted :: string where "redacted = ''[redacted]''"

definition Hello_Redacted :: "Hello \<Rightarrow> Hello" where
  "Hello_Redacted h =
     (if a_value (hello_auth h) \<noteq> [] then h\<lparr>hello_auth := (hello_auth h)\<lparr>a_value := redacted\<rparr>\<rparr> else h)"

record WirePolicy =
  wp_deny :: "string list"
  wp_forge_repos :: "string list"

record HelloAck =
  ack_protocol :: string
  ack_runner :: string
  ack_bundle :: BundleRef
  ack_routes :: "string list"
  ack_policy :: "WirePolicy option"

definition validate_HelloAck :: "HelloAck \<Rightarrow> fmt_err list" where
  "validate_HelloAck h =
     version_problem (ack_protocol h)
     @ problem_if (\<not> ValidSlug (ack_runner h)) (Err ''hello_ack: runner %q is not a valid slug'' [ack_runner h])
     @ problem_if (br_version (ack_bundle h) < 0) (err ''hello_ack: bundle version must be non-negative'')"

subsection \<open>Conversation frames\<close>

record UserRef =
  ur_id :: string
  ur_display :: string
  ur_email :: string

record Attachment =
  att_blob :: string
  att_name :: string
  att_mime :: string
  att_size :: int
  att_sha256 :: string
  att_inline :: bool

record Message =
  m_thread :: string
  m_turn :: string
  m_channel :: string
  m_user :: UserRef
  m_text :: string
  m_attachments :: "Attachment list"
  m_command :: string
  m_channel_name :: string
  m_context :: string

fun attachment_problems :: "nat \<Rightarrow> Attachment list \<Rightarrow> fmt_err list" where
  "attachment_problems i [] = []"
| "attachment_problems i (a # as) =
     problem_if (att_blob a = []) (Err ''message: attachment %d missing blob id'' [Itoa (int i)])
     @ problem_if (att_size a < 0) (Err ''message: attachment %d has negative size'' [Itoa (int i)])
     @ attachment_problems (Suc i) as"

definition validate_Message :: "Message \<Rightarrow> fmt_err list" where
  "validate_Message m =
     problem_if (m_thread m = []) (err ''message: thread is required'')
     @ problem_if (m_turn m = []) (err ''message: turn is required'')
     @ problem_if (ur_id (m_user m) = []) (err ''message: user.id is required'')
     @ attachment_problems 0 (m_attachments m)"

record TextDelta =
  td_thread :: string
  td_turn :: string
  td_text :: string

definition validate_TextDelta :: "TextDelta \<Rightarrow> fmt_err list" where
  "validate_TextDelta t = problem_if (td_turn t = []) (err ''text.delta: turn is required'')"

record Thought =
  th_thread :: string
  th_turn :: string
  th_text :: string

definition validate_Thought :: "Thought \<Rightarrow> fmt_err list" where
  "validate_Thought t = problem_if (th_turn t = []) (err ''thought: turn is required'')"

record ToolStart =
  ts_thread :: string
  ts_turn :: string
  ts_call :: string
  ts_tool :: string
  ts_summary :: string

definition validate_ToolStart :: "ToolStart \<Rightarrow> fmt_err list" where
  "validate_ToolStart t =
     problem_if (ts_turn t = []) (err ''tool.start: turn is required'')
     @ problem_if (ts_call t = []) (err ''tool.start: call is required'')
     @ problem_if (ts_tool t = []) (err ''tool.start: tool is required'')"

record ToolEnd =
  te_thread :: string
  te_turn :: string
  te_call :: string
  te_ok :: bool
  te_error :: string
  te_duration_ms :: int

definition validate_ToolEnd :: "ToolEnd \<Rightarrow> fmt_err list" where
  "validate_ToolEnd t =
     problem_if (te_call t = []) (err ''tool.end: call is required'')
     @ problem_if (te_duration_ms t < 0) (err ''tool.end: duration_ms must be non-negative'')"

record Done =
  d_thread :: string
  d_turn :: string
  d_session :: string
  d_duration_ms :: int
  d_num_tool_calls :: int

definition validate_Done :: "Done \<Rightarrow> fmt_err list" where
  "validate_Done d = problem_if (d_turn d = []) (err ''done: turn is required'')"

record ErrorFrame =
  e_thread :: string
  e_turn :: string
  e_code :: string
  e_message :: string
  e_fatal :: bool

definition validate_ErrorFrame :: "ErrorFrame \<Rightarrow> fmt_err list" where
  "validate_ErrorFrame e = problem_if (e_code e = []) (err ''error: code is required'')"

subsection \<open>Permission frames\<close>

record PermissionRequest =
  pq_thread :: string
  pq_turn :: string
  pq_request :: string
  pq_tool :: string
  pq_input :: string
  pq_cwd :: string
  pq_summary :: string

definition validate_PermissionRequest :: "PermissionRequest \<Rightarrow> fmt_err list" where
  "validate_PermissionRequest p =
     problem_if (pq_request p = []) (err ''permission.request: request is required'')
     @ problem_if (pq_tool p = []) (err ''permission.request: tool is required'')"

datatype Decision = DecisionAllow | DecisionAllowSession | DecisionAllowAlways | DecisionDeny
  | DecisionOther string

definition Decision_valid :: "Decision \<Rightarrow> bool" where
  "Decision_valid d = (case d of DecisionOther _ \<Rightarrow> False | _ \<Rightarrow> True)"

record PermissionResponse =
  pr_request :: string
  pr_decision :: Decision
  pr_decided_by :: "UserRef option"
  pr_reason :: string
  pr_policy_denied :: bool
  pr_auto_approved :: bool

definition validate_PermissionResponse :: "PermissionResponse \<Rightarrow> fmt_err list" where
  "validate_PermissionResponse p =
     problem_if (pr_request p = []) (err ''permission.response: request is required'')
     @ problem_if (\<not> Decision_valid (pr_decision p)) (err ''permission.response: unknown decision %q'')
     @ problem_if (pr_policy_denied p \<and> pr_decision p \<noteq> DecisionDeny)
         (err ''permission.response: policy_denied requires decision=deny'')
     @ problem_if (pr_auto_approved p \<and> pr_decision p = DecisionDeny)
         (err ''permission.response: auto_approved cannot carry decision=deny'')
     @ problem_if (pr_policy_denied p \<and> pr_auto_approved p)
         (err ''permission.response: a decision cannot be both policy-denied and auto-approved'')
     @ problem_if (\<not> pr_policy_denied p \<and> \<not> pr_auto_approved p \<and> pr_decided_by p = None)
         (err ''permission.response: decided_by is required unless the decision came from policy'')"

subsection \<open>Proxied MCP and credential frames\<close>

record MCPCall =
  mc_thread :: string
  mc_turn :: string
  mc_call :: string
  mc_server :: string
  mc_tool :: string
  mc_args :: string

definition validate_MCPCall :: "MCPCall \<Rightarrow> fmt_err list" where
  "validate_MCPCall m =
     problem_if (mc_call m = []) (err ''mcp.call: call is required'')
     @ problem_if (mc_server m = []) (err ''mcp.call: server is required'')
     @ problem_if (mc_tool m = []) (err ''mcp.call: tool is required'')"

record RemoteError =
  re_code :: string
  re_message :: string

record MCPResponse =
  mr_call :: string
  mr_result :: "string option"
  mr_error :: "RemoteError option"

definition validate_MCPResponse :: "MCPResponse \<Rightarrow> fmt_err list" where
  "validate_MCPResponse m =
     (if mr_call m = [] then [err ''mcp.response: call is required'']
      else if mr_result m = None \<and> mr_error m = None
        then [err ''mcp.response: exactly one of result or error is required'']
      else if mr_result m \<noteq> None \<and> mr_error m \<noteq> None
        then [err ''mcp.response: result and error are mutually exclusive'']
      else [])"

datatype CredentialKind = CredentialForge | CredentialHarness | CredentialOther string

record CredentialRequest =
  cq_request :: string
  cq_kind :: CredentialKind
  cq_resource :: string
  cq_thread :: string
  cq_turn :: string
  cq_protocol :: string
  cq_host :: string

definition validate_CredentialRequest :: "CredentialRequest \<Rightarrow> fmt_err list" where
  "validate_CredentialRequest c =
     problem_if (cq_request c = []) (err ''credential.request: request is required'')
     @ (case cq_kind c of
          CredentialForge \<Rightarrow>
            problem_if (cq_resource c = []) (err ''credential.request: forge credentials require a resource'')
        | CredentialHarness \<Rightarrow> []
        | CredentialOther k \<Rightarrow> [Err ''credential.request: unknown kind %q'' [k]])"

record CredentialGrant =
  cg_request :: string
  cg_kind :: CredentialKind
  cg_username :: string
  cg_value :: string
  cg_expires :: "int option"
  cg_denied :: bool
  cg_reason :: string

definition validate_CredentialGrant :: "CredentialGrant \<Rightarrow> fmt_err list" where
  "validate_CredentialGrant c =
     problem_if (cg_request c = []) (err ''credential.grant: request is required'')
     @ (if cg_denied c
        then problem_if (cg_value c \<noteq> []) (err ''credential.grant: denied grant must not carry a value'')
        else problem_if (cg_value c = []) (err ''credential.grant: value is required unless denied''))"

definition CredentialGrant_Redacted :: "CredentialGrant \<Rightarrow> CredentialGrant" where
  "CredentialGrant_Redacted c = (if cg_value c \<noteq> [] then c\<lparr>cg_value := redacted\<rparr> else c)"

subsection \<open>Bundle frames\<close>

datatype MCPKind = MCPLocal | MCPProxied | MCPOther string

record MCPServer =
  ms_name :: string
  ms_kind :: MCPKind
  ms_command :: string
  ms_args :: "string list"
  ms_env :: "string gomap"

record BundleFile =
  bf_path :: string
  bf_content :: string
  bf_mode :: nat

record BundlePush =
  bp_version :: int
  bp_digest :: string
  bp_files :: "BundleFile list"
  bp_mcp :: "MCPServer list"
  bp_model :: string
  bp_loose_mcp :: bool
  bp_secrets :: "string gomap"

definition safeBundlePath :: "string \<Rightarrow> fmt_err option" where
  "safeBundlePath p =
     (if p = [] then Some (err ''empty path'')
      else if IsAbs p \<or> HasPrefix p [slash] then Some (err ''must be relative'')
      else if backslash \<in> set p then Some (err ''backslashes are not permitted'')
      else let clean = Clean p in
        if clean = ''.'' \<or> clean = ''..'' \<or> HasPrefix clean (''..'' @ [slash])
        then Some (err ''escapes the bundle root'')
        else if clean \<noteq> p then Some (Err ''must be in clean form (got %q, want %q)'' [p, clean])
        else None)"

fun file_problems :: "nat \<Rightarrow> string list \<Rightarrow> BundleFile list \<Rightarrow> fmt_err list" where
  "file_problems i seen [] = []"
| "file_problems i seen (f # fs) =
     (case safeBundlePath (bf_path f) of
        Some _ \<Rightarrow> Err ''bundle.push: file %d path %q: %w'' [Itoa (int i), bf_path f]
                  # file_problems (Suc i) seen fs
      | None \<Rightarrow>
          problem_if (bf_path f \<in> set seen) (Err ''bundle.push: duplicate file path %q'' [bf_path f])
          @ problem_if (512 \<le> bf_mode f) (Err ''bundle.push: file %q has non-permission mode bits'' [bf_path f])
          @ file_problems (Suc i) (bf_path f # seen) fs)"

fun mcp_problems :: "nat \<Rightarrow> string list \<Rightarrow> MCPServer list \<Rightarrow> fmt_err list" where
  "mcp_problems i names [] = []"
| "mcp_problems i names (s # ss) =
     (if ms_name s = [] then Err ''bundle.push: mcp %d missing name'' [Itoa (int i)] # mcp_problems (Suc i) names ss
      else problem_if (ms_name s \<in> set names) (Err ''bundle.push: duplicate mcp server %q'' [ms_name s])
        @ (case ms_kind s of
             MCPLocal \<Rightarrow> problem_if (ms_command s = []) (Err ''bundle.push: local mcp %q requires a command'' [ms_name s])
           | MCPProxied \<Rightarrow>
               problem_if (ms_command s \<noteq> []) (Err ''bundle.push: proxied mcp %q must not declare a command'' [ms_name s])
           | MCPOther k \<Rightarrow> [Err ''bundle.push: mcp %q has unknown kind %q'' [ms_name s, k]])
        @ mcp_problems (Suc i) (ms_name s # names) ss)"

definition validate_BundlePush :: "BundlePush \<Rightarrow> fmt_err list" where
  "validate_BundlePush b =
     problem_if (bp_version b < 0) (err ''bundle.push: version must be non-negative'')
     @ problem_if (bp_digest b = []) (err ''bundle.push: digest is required'')
     @ file_problems 0 [] (bp_files b)
     @ mcp_problems 0 [] (bp_mcp b)"

definition BundlePush_Redacted :: "BundlePush \<Rightarrow> BundlePush" where
  "BundlePush_Redacted b =
     b\<lparr>bp_files := [], bp_secrets := map (\<lambda>(k, _). (k, redacted)) (bp_secrets b)\<rparr>"

subsection \<open>Usage, blob and liveness frames\<close>

record UsageFrame =
  us_thread :: string
  us_turn :: string
  us_model :: string
  us_input :: int
  us_cache_write :: int
  us_cache_read :: int
  us_output :: int
  us_provider_cost :: "real option"
  us_ttl_hint :: string
  us_known :: bool

text \<open>A bitwise or of 64-bit integers is zero exactly when every operand is.\<close>

definition validate_UsageFrame :: "UsageFrame \<Rightarrow> fmt_err list" where
  "validate_UsageFrame u =
     problem_if (us_turn u = []) (err ''usage: turn is required'')
     @ problem_if (us_input u < 0 \<or> us_cache_write u < 0 \<or> us_cache_read u < 0 \<or> us_output u < 0)
         (err ''usage: token counters must be non-negative'')
     @ problem_if (us_known u \<and> us_model u = []) (err ''usage: model is required when known is set'')
     @ problem_if (\<not> us_known u \<and>
           (us_input u \<noteq> 0 \<or> us_cache_write u \<noteq> 0 \<or> us_cache_read u \<noteq> 0 \<or> us_output u \<noteq> 0))
         (err ''usage: counters must be zero when known is false'')"

definition MaxChunk :: int where "MaxChunk = 256 * 2 ^ 10"
definition MaxBlobSize :: int where "MaxBlobSize = 50 * 2 ^ 20"

record BlobBegin =
  bb_blob :: string
  bb_thread :: string
  bb_turn :: string
  bb_name :: string
  bb_mime :: string
  bb_size :: int
  bb_sha256 :: string

definition separator :: "char \<Rightarrow> bool" where
  "separator c \<longleftrightarrow> c = slash \<or> c = backslash"

definition nul :: char where "nul = CHR 0x00"

definition safeFileName :: "string \<Rightarrow> fmt_err option" where
  "safeFileName n =
     (if n = [] then Some (err ''empty'')
      else if \<exists>c\<in>set n. separator c then Some (err ''must not contain path separators'')
      else if n = ''.'' \<or> n = ''..'' then Some (err ''reserved name'')
      else if nul \<in> set n then Some (err ''contains a NUL byte'')
      else None)"

definition validate_BlobBegin :: "BlobBegin \<Rightarrow> fmt_err list" where
  "validate_BlobBegin b =
     problem_if (bb_blob b = []) (err ''blob.begin: blob is required'')
     @ problem_if (bb_size b < 0) (err ''blob.begin: size must be non-negative'')
     @ problem_if (MaxBlobSize < bb_size b) (Err ''blob.begin: size %d exceeds cap %d'' [Itoa (bb_size b), Itoa MaxBlobSize])
     @ (case safeFileName (bb_name b) of None \<Rightarrow> [] | Some _ \<Rightarrow> [Err ''blob.begin: name %q: %w'' [bb_name b]])"

record BlobEnd =
  be_blob :: string
  be_sha256 :: string
  be_ok :: bool
  be_error :: string

definition validate_BlobEnd :: "BlobEnd \<Rightarrow> fmt_err list" where
  "validate_BlobEnd b =
     problem_if (be_blob b = []) (err ''blob.end: blob is required'')
     @ problem_if (\<not> be_ok b \<and> be_error b = []) (err ''blob.end: a failed transfer must carry an error'')"

subsection \<open>The frame interface\<close>

datatype Frame =
    FHello Hello | FHelloAck HelloAck | FMessage Message | FBundlePush BundlePush
  | FPermissionRequest PermissionRequest | FPermissionResponse PermissionResponse
  | FMCPCall MCPCall | FMCPResponse MCPResponse
  | FCredentialRequest CredentialRequest | FCredentialGrant CredentialGrant
  | FTextDelta TextDelta | FThought Thought | FToolStart ToolStart | FToolEnd ToolEnd
  | FUsage UsageFrame | FDone Done | FError ErrorFrame
  | FBlobBegin BlobBegin | FBlobEnd BlobEnd | FPing int | FPong int

fun Type :: "Frame \<Rightarrow> string" where
  "Type (FHello _) = ''hello''"
| "Type (FHelloAck _) = ''hello_ack''"
| "Type (FMessage _) = ''message''"
| "Type (FBundlePush _) = ''bundle.push''"
| "Type (FPermissionRequest _) = ''permission.request''"
| "Type (FPermissionResponse _) = ''permission.response''"
| "Type (FMCPCall _) = ''mcp.call''"
| "Type (FMCPResponse _) = ''mcp.response''"
| "Type (FCredentialRequest _) = ''credential.request''"
| "Type (FCredentialGrant _) = ''credential.grant''"
| "Type (FTextDelta _) = ''text.delta''"
| "Type (FThought _) = ''thought''"
| "Type (FToolStart _) = ''tool.start''"
| "Type (FToolEnd _) = ''tool.end''"
| "Type (FUsage _) = ''usage''"
| "Type (FDone _) = ''done''"
| "Type (FError _) = ''error''"
| "Type (FBlobBegin _) = ''blob.begin''"
| "Type (FBlobEnd _) = ''blob.end''"
| "Type (FPing _) = ''ping''"
| "Type (FPong _) = ''pong''"

fun Dir :: "Frame \<Rightarrow> Direction" where
  "Dir (FHello _) = DirUp"
| "Dir (FHelloAck _) = DirDown"
| "Dir (FMessage _) = DirDown"
| "Dir (FBundlePush _) = DirDown"
| "Dir (FPermissionRequest _) = DirUp"
| "Dir (FPermissionResponse _) = DirDown"
| "Dir (FMCPCall _) = DirUp"
| "Dir (FMCPResponse _) = DirDown"
| "Dir (FCredentialRequest _) = DirUp"
| "Dir (FCredentialGrant _) = DirDown"
| "Dir (FTextDelta _) = DirUp"
| "Dir (FThought _) = DirUp"
| "Dir (FToolStart _) = DirUp"
| "Dir (FToolEnd _) = DirUp"
| "Dir (FUsage _) = DirUp"
| "Dir (FDone _) = DirUp"
| "Dir (FError _) = DirBoth"
| "Dir (FBlobBegin _) = DirBoth"
| "Dir (FBlobEnd _) = DirBoth"
| "Dir (FPing _) = DirBoth"
| "Dir (FPong _) = DirBoth"

fun Validate :: "Frame \<Rightarrow> fmt_err list" where
  "Validate (FHello h) = validate_Hello h"
| "Validate (FHelloAck h) = validate_HelloAck h"
| "Validate (FMessage m) = validate_Message m"
| "Validate (FBundlePush b) = validate_BundlePush b"
| "Validate (FPermissionRequest p) = validate_PermissionRequest p"
| "Validate (FPermissionResponse p) = validate_PermissionResponse p"
| "Validate (FMCPCall m) = validate_MCPCall m"
| "Validate (FMCPResponse m) = validate_MCPResponse m"
| "Validate (FCredentialRequest c) = validate_CredentialRequest c"
| "Validate (FCredentialGrant c) = validate_CredentialGrant c"
| "Validate (FTextDelta t) = validate_TextDelta t"
| "Validate (FThought t) = validate_Thought t"
| "Validate (FToolStart t) = validate_ToolStart t"
| "Validate (FToolEnd t) = validate_ToolEnd t"
| "Validate (FUsage u) = validate_UsageFrame u"
| "Validate (FDone d) = validate_Done d"
| "Validate (FError e) = validate_ErrorFrame e"
| "Validate (FBlobBegin b) = validate_BlobBegin b"
| "Validate (FBlobEnd b) = validate_BlobEnd b"
| "Validate (FPing _) = []"
| "Validate (FPong _) = []"

lemma attachment_problems_Nil:
  "attachment_problems i as = [] \<longleftrightarrow> (\<forall>a\<in>set as. att_blob a \<noteq> [] \<and> 0 \<le> att_size a)"
  by (induction as arbitrary: i) auto

lemma validate_Message_iff:
  "validate_Message m = [] \<longleftrightarrow> m_thread m \<noteq> [] \<and> m_turn m \<noteq> [] \<and> ur_id (m_user m) \<noteq> [] \<and>
     (\<forall>a\<in>set (m_attachments m). att_blob a \<noteq> [] \<and> 0 \<le> att_size a)"
  by (auto simp: validate_Message_def attachment_problems_Nil)

end
