(* ===== verification/Wire.thy ===== *)
theory Wire
  imports Frames "HOL-Library.Word"
begin

text \<open>
  Frames on the wire (protocol/envelope.go, protocol/blob.go) and what frame validation gives the two
  peers. The JSON codec is the argument \<open>J\<close>: its functions stand for \<open>json.Marshal\<close>
  and \<open>json.Unmarshal\<close> on frames, objects and strings, and the round-trip theorems name
  the laws they use.
\<close>

subsection \<open>Bundle paths stay under the bundle root\<close>

lemma plain_elems_Clean:
  assumes "p \<noteq> []" "\<forall>e\<in>set (elems p). plain_elem e"
  shows "Clean p = p" "\<not> IsAbs p" "clean_elems p = elems p"
proof -
  obtain c cs where p: "p = c # cs" using assms(1) by (cases p) auto
  show abs: "\<not> IsAbs p"
  proof
    assume "IsAbs p"
    then have "elems p = [] # elems cs"
      using elems_acc_app [of "[]" "[]" cs] by (simp add: IsAbs_def HasPrefix_def p elems_def)
    with assms(2) show False by (simp add: plain_elem_def)
  qed
  show ce: "clean_elems p = elems p"
    by (simp add: clean_elems_def plain_elems_clean [OF assms(2)])
  have "elems p \<noteq> []" by (simp add: elems_def)
  with abs ce show "Clean p = p" by (simp add: Clean_def)
qed

lemma elems_singleton: "elems p = [e] \<Longrightarrow> p = e"
  using Join_elems [of p] by simp

lemma HasPrefix_dotdot: "HasPrefix p (''..'' @ [slash]) \<longleftrightarrow> (\<exists>es. es \<noteq> [] \<and> elems p = ''..'' # es)"
proof
  assume "HasPrefix p (''..'' @ [slash])"
  then obtain q where "p = ''..'' @ slash # q" by (auto simp: HasPrefix_def prefix_def)
  then show "\<exists>es. es \<noteq> [] \<and> elems p = ''..'' # es"
    using elems_acc_app [of "''..''" "[]" q] by (auto simp: elems_def slash_def)
next
  assume "\<exists>es. es \<noteq> [] \<and> elems p = ''..'' # es"
  then obtain e es where "elems p = ''..'' # e # es" by (metis neq_Nil_conv)
  with Join_elems [of p] have "p = ''..'' @ [slash] @ Join (e # es) [slash]" by simp
  then show "HasPrefix p (''..'' @ [slash])" by (auto simp: HasPrefix_def prefix_def)
qed

lemma clean_elems_plain:
  assumes ne: "clean_elems p \<noteq> []" and hd: "hd (clean_elems p) \<noteq> ''..''"
  shows "\<forall>e\<in>set (clean_elems p). plain_elem e"
proof -
  have "last (rev (clean_elems p)) = hd (clean_elems p)" using ne by (simp add: last_rev)
  with clean_stack_plain [OF clean_elems_stack] hd show ?thesis by (metis set_rev)
qed

lemma safeBundlePath_plain:
  "safeBundlePath p = None \<longleftrightarrow>
     p \<noteq> [] \<and> backslash \<notin> set p \<and> (\<forall>e\<in>set (elems p). plain_elem e)" (is "?L \<longleftrightarrow> ?R")
proof
  assume ?L
  then have p: "p \<noteq> []" "\<not> IsAbs p" "backslash \<notin> set p" "p \<noteq> ''.''" "p \<noteq> ''..''"
    "\<not> HasPrefix p (''..'' @ [slash])" "Clean p = p"
    by (auto simp: safeBundlePath_def Let_def split: if_splits)
  then have ne: "clean_elems p \<noteq> []" and j: "Join (clean_elems p) [slash] = p"
    by (auto simp: Clean_def split: if_splits)
  have eq: "elems p = clean_elems p"
    using elems_Join [OF ne] clean_elems_no_slash j by metis
  have "hd (clean_elems p) \<noteq> ''..''"
  proof
    assume h: "hd (clean_elems p) = ''..''"
    then obtain es where es: "elems p = ''..'' # es" using ne eq by (cases "clean_elems p") auto
    with p HasPrefix_dotdot have "es = []" by blast
    with es p elems_singleton show False by blast
  qed
  with clean_elems_plain [OF ne] eq p show ?R by simp
next
  assume R: ?R
  then have p: "p \<noteq> []" "\<forall>e\<in>set (elems p). plain_elem e" by auto
  note c = plain_elems_Clean [OF p]
  have el: "elems ''.'' = [''.'']" "elems ''..'' = [''..'']" by (simp_all add: elems_def slash_def)
  have dd: "\<not> plain_elem ''..''" "\<not> plain_elem ''.''" by (simp_all add: plain_elem_def)
  have "p \<noteq> ''.''" "p \<noteq> ''..''" using p(2) el dd by (metis list.set_intros(1))+
  moreover have "\<not> HasPrefix p (''..'' @ [slash])"
    unfolding HasPrefix_dotdot using p(2) dd by (metis list.set_intros(1))
  moreover have "\<not> HasPrefix p [slash]" using c(2) by (simp add: IsAbs_def)
  moreover have "backslash \<notin> set p" using R by blast
  ultimately show ?L using c(1,2) p(1) by (simp only: safeBundlePath_def Let_def if_False simp_thms)
qed

lemma file_problems_Nil:
  "file_problems i seen fs = [] \<longleftrightarrow>
     (\<forall>f\<in>set fs. safeBundlePath (bf_path f) = None \<and> bf_mode f < 512 \<and> bf_path f \<notin> set seen)
     \<and> distinct (map bf_path fs)"
proof (induction fs arbitrary: i seen)
  case (Cons f fs)
  then show ?case by (auto split: option.splits simp: not_less image_iff)
qed simp

definition mcp_coherent :: "MCPServer \<Rightarrow> bool" where
  "mcp_coherent s \<longleftrightarrow> ms_name s \<noteq> [] \<and>
     (ms_kind s = MCPLocal \<and> ms_command s \<noteq> [] \<or> ms_kind s = MCPProxied \<and> ms_command s = [])"

lemma mcp_problems_Nil:
  "mcp_problems i names ss = [] \<longleftrightarrow>
     (\<forall>s\<in>set ss. mcp_coherent s \<and> ms_name s \<notin> set names) \<and> distinct (map ms_name ss)"
proof (induction ss arbitrary: i names)
  case (Cons s ss)
  then show ?case by (cases "ms_kind s") (auto simp: mcp_coherent_def image_iff)
qed simp

text \<open>
  C27. A bundle is accepted exactly when it can be unpacked under its root: every file path consists
  of plain names only (no dot-dot, no absolute path, no backslash), no two files share a path, the
  mode has permission bits only, server names are unique, local servers have a command and proxied
  ones have none.
\<close>

theorem bundle_accepted_iff_contained:
  "validate_BundlePush b = [] \<longleftrightarrow>
     0 \<le> bp_version b \<and> bp_digest b \<noteq> [] \<and>
     (\<forall>f\<in>set (bp_files b). bf_path f \<noteq> [] \<and> backslash \<notin> set (bf_path f) \<and>
        (\<forall>e\<in>set (elems (bf_path f)). plain_elem e) \<and> bf_mode f < 512) \<and>
     distinct (map bf_path (bp_files b)) \<and>
     (\<forall>s\<in>set (bp_mcp b). mcp_coherent s) \<and> distinct (map ms_name (bp_mcp b))"
  by (auto simp: validate_BundlePush_def file_problems_Nil mcp_problems_Nil safeBundlePath_plain not_less)

theorem bundle_accepted_iff_contained_witness:
  "validate_BundlePush \<lparr>bp_version = 1, bp_digest = ''d'',
     bp_files = [\<lparr>bf_path = ''skills/x.md'', bf_content = [], bf_mode = 384\<rparr>],
     bp_mcp = [\<lparr>ms_name = ''gh'', ms_kind = MCPProxied, ms_command = [], ms_args = [], ms_env = []\<rparr>],
     bp_model = [], bp_loose_mcp = False, bp_secrets = []\<rparr> = []"
  by (subst bundle_accepted_iff_contained)
    (simp add: elems_def slash_def backslash_def plain_elem_def mcp_coherent_def)

text \<open>
  A permission response that validates says who decided, in exactly one way: a person, an
  explicit policy denial (which always denies) or an auto-approval (which never denies).
\<close>

theorem permission_response_attributed:
  assumes "Validate (FPermissionResponse p) = []"
  shows "pr_request p \<noteq> [] \<and> Decision_valid (pr_decision p) \<and>
    (pr_policy_denied p \<longrightarrow> pr_decision p = DecisionDeny \<and> \<not> pr_auto_approved p) \<and>
    (pr_auto_approved p \<longrightarrow> pr_decision p \<noteq> DecisionDeny) \<and>
    (pr_decided_by p \<noteq> None \<or> pr_policy_denied p \<or> pr_auto_approved p)"
  using assms by (auto simp: validate_PermissionResponse_def split: if_splits)

theorem permission_response_attributed_witness:
  "Decision_valid (pr_decision \<lparr>pr_request = ''r'', pr_decision = DecisionDeny, pr_decided_by = None,
     pr_reason = [], pr_policy_denied = True, pr_auto_approved = False\<rparr>)"
  using permission_response_attributed [of "\<lparr>pr_request = ''r'', pr_decision = DecisionDeny,
      pr_decided_by = None, pr_reason = [], pr_policy_denied = True, pr_auto_approved = False\<rparr>"]
  by (simp add: validate_PermissionResponse_def Decision_valid_def)

subsection \<open>Encode and Decode\<close>

text \<open>\<open>ctor\<close> builds the zero frame of a type; \<open>registry\<close> lists the types.\<close>

definition registry :: "(string \<times> Frame) list" where
  "registry =
    [(''hello'', FHello \<lparr>hello_protocol = [], hello_runner = [],
        hello_auth = \<lparr>a_mode = AuthOther [], a_value = []\<rparr>,
        hello_host = \<lparr>h_id = [], h_os = [], h_arch = []\<rparr>,
        hello_harness = \<lparr>hi_adapter = [], hi_version = []\<rparr>, hello_capabilities = [],
        hello_bundle = None\<rparr>),
     (''hello_ack'', FHelloAck \<lparr>ack_protocol = [], ack_runner = [],
        ack_bundle = \<lparr>br_version = 0, br_digest = []\<rparr>, ack_routes = [], ack_policy = None\<rparr>),
     (''message'', FMessage \<lparr>m_thread = [], m_turn = [], m_channel = [],
        m_user = \<lparr>ur_id = [], ur_display = [], ur_email = []\<rparr>, m_text = [], m_attachments = [],
        m_command = [], m_channel_name = [], m_context = []\<rparr>),
     (''bundle.push'', FBundlePush \<lparr>bp_version = 0, bp_digest = [], bp_files = [], bp_mcp = [],
        bp_model = [], bp_loose_mcp = False, bp_secrets = []\<rparr>),
     (''permission.request'', FPermissionRequest \<lparr>pq_thread = [], pq_turn = [], pq_request = [],
        pq_tool = [], pq_input = [], pq_cwd = [], pq_summary = []\<rparr>),
     (''permission.response'', FPermissionResponse \<lparr>pr_request = [],
        pr_decision = DecisionOther [], pr_decided_by = None, pr_reason = [],
        pr_policy_denied = False, pr_auto_approved = False\<rparr>),
     (''mcp.call'', FMCPCall \<lparr>mc_thread = [], mc_turn = [], mc_call = [], mc_server = [],
        mc_tool = [], mc_args = []\<rparr>),
     (''mcp.response'', FMCPResponse \<lparr>mr_call = [], mr_result = None, mr_error = None\<rparr>),
     (''credential.request'', FCredentialRequest \<lparr>cq_request = [], cq_kind = CredentialOther [],
        cq_resource = [], cq_thread = [], cq_turn = [], cq_protocol = [], cq_host = []\<rparr>),
     (''credential.grant'', FCredentialGrant \<lparr>cg_request = [], cg_kind = CredentialOther [],
        cg_username = [], cg_value = [], cg_expires = None, cg_denied = False, cg_reason = []\<rparr>),
     (''text.delta'', FTextDelta \<lparr>td_thread = [], td_turn = [], td_text = []\<rparr>),
     (''thought'', FThought \<lparr>th_thread = [], th_turn = [], th_text = []\<rparr>),
     (''tool.start'', FToolStart \<lparr>ts_thread = [], ts_turn = [], ts_call = [], ts_tool = [],
        ts_summary = []\<rparr>),
     (''tool.end'', FToolEnd \<lparr>te_thread = [], te_turn = [], te_call = [], te_ok = False,
        te_error = [], te_duration_ms = 0\<rparr>),
     (''usage'', FUsage \<lparr>us_thread = [], us_turn = [], us_model = [], us_input = 0,
        us_cache_write = 0, us_cache_read = 0, us_output = 0, us_provider_cost = None,
        us_ttl_hint = [], us_known = False\<rparr>),
     (''done'', FDone \<lparr>d_thread = [], d_turn = [], d_session = [], d_duration_ms = 0,
        d_num_tool_calls = 0\<rparr>),
     (''error'', FError \<lparr>e_thread = [], e_turn = [], e_code = [], e_message = [], e_fatal = False\<rparr>),
     (''blob.begin'', FBlobBegin \<lparr>bb_blob = [], bb_thread = [], bb_turn = [], bb_name = [],
        bb_mime = [], bb_size = 0, bb_sha256 = []\<rparr>),
     (''blob.end'', FBlobEnd \<lparr>be_blob = [], be_sha256 = [], be_ok = False, be_error = []\<rparr>),
     (''ping'', FPing 0), (''pong'', FPong 0)]"

lemma registry_types: "map_of registry t = Some z \<Longrightarrow> Type z = t"
proof -
  have "\<forall>p\<in>set registry. Type (snd p) = fst p" by (simp add: registry_def)
  then show "map_of registry t = Some z \<Longrightarrow> Type z = t" by (auto dest!: map_of_SomeD)
qed

lemma registry_total: "has_key registry (Type f)"
  by (cases f) (simp_all add: registry_def has_key_def)

record JSON =
  marshal_frame :: "Frame \<Rightarrow> string option"
  unmarshal_fields :: "string \<Rightarrow> string gomap option"
  marshal_string :: "string \<Rightarrow> string option"
  marshal_fields :: "string gomap \<Rightarrow> string option"
  unmarshal_probe :: "string \<Rightarrow> string option"
  unmarshal_frame :: "string \<Rightarrow> Frame \<Rightarrow> Frame option"

definition MaxControlFrame :: nat where "MaxControlFrame = 2 ^ 20"

text \<open>A nil interface is \<open>None\<close>.\<close>

definition Encode :: "JSON \<Rightarrow> Frame option \<Rightarrow> fmt_err + string" where
  "Encode J fo =
     (case fo of None \<Rightarrow> Inl (err ''protocol: cannot encode nil frame'')
      | Some f \<Rightarrow>
        if Validate f \<noteq> [] then Inl (Err ''protocol: refusing to encode invalid %s: %w'' [Type f])
        else (case marshal_frame J f of
            None \<Rightarrow> Inl (Err ''protocol: marshal %s: %w'' [Type f])
          | Some body \<Rightarrow> (case unmarshal_fields J body of
                None \<Rightarrow> Inl (Err ''protocol: %s did not marshal to an object: %w'' [Type f])
              | Some flds \<Rightarrow>
                  if has_key flds ''t''
                  then Inl (Err ''protocol: %s defines a field named %q, which collides with the discriminator'' [Type f, ''t''])
                  else (case marshal_string J (Type f) of None \<Rightarrow> Inl (err ''json'')
                    | Some disc \<Rightarrow> (case marshal_fields J (put ''t'' disc flds) of
                          None \<Rightarrow> Inl (err ''json'') | Some data \<Rightarrow> Inr data)))))"

definition Decode :: "JSON \<Rightarrow> string \<Rightarrow> Direction \<Rightarrow> fmt_err + Frame" where
  "Decode J data from_dir =
     (if from_dir \<noteq> DirUp \<and> from_dir \<noteq> DirDown
      then Inl (err ''protocol: decode requires a concrete peer direction, got %v'')
      else if MaxControlFrame < length data
      then Inl (Err ''protocol: control frame of %d bytes exceeds cap %d'' [Itoa (int (length data))])
      else (case unmarshal_probe J data of
          None \<Rightarrow> Inl (err ''protocol: malformed frame: %w'')
        | Some t \<Rightarrow>
            if t = [] then Inl (err ''protocol: frame is missing the \"t\" discriminator'')
            else (case map_of registry t of
                None \<Rightarrow> Inl (Err ''%w: %q'' [''unknown frame type'', t])
              | Some zero \<Rightarrow> (case unmarshal_frame J data zero of
                    None \<Rightarrow> Inl (Err ''protocol: decode %s: %w'' [t])
                  | Some f \<Rightarrow>
                      if \<not> permits (Dir f) from_dir
                      then Inl (Err ''%w: %s may only originate %s, received from %s peer'' [t])
                      else if Validate f \<noteq> [] then Inl (Err ''protocol: invalid %s: %w'' [t])
                      else Inr f))))"

lemma Decode_Inr:
  "Decode J data from_dir = Inr f \<Longrightarrow>
     from_dir \<noteq> DirBoth \<and> permits (Dir f) from_dir \<and> Validate f = [] \<and> length data \<le> MaxControlFrame"
  by (cases from_dir) (auto simp: Decode_def split: if_splits option.splits)

text \<open>
  C24. Whatever bytes a runner sends, decoding yields at most a frame a runner may originate, and a
  valid one: never a permission response, a credential grant, a bundle, an MCP result, a message or a
  handshake acknowledgement, so a runner cannot approve its own tool call.
\<close>

theorem runner_cannot_speak_for_gateway:
  assumes "Decode J data DirUp = Inr f"
  shows "Validate f = [] \<and> Dir f \<noteq> DirDown \<and>
    Type f \<notin> {''permission.response'', ''credential.grant'', ''bundle.push'', ''mcp.response'',
              ''message'', ''hello_ack''}"
proof -
  from Decode_Inr [OF assms] have v: "Validate f = []" and d: "Dir f \<noteq> DirDown"
    by (auto simp: permits_def)
  from d show ?thesis using v by (cases f) simp_all
qed

theorem runner_cannot_speak_for_gateway_witness:
  "Validate (FPing 7) = [] \<and> Dir (FPing 7) \<noteq> DirDown"
proof -
  define J where "J = \<lparr>marshal_frame = (\<lambda>f. None), unmarshal_fields = (\<lambda>b. None),
     marshal_string = (\<lambda>s. None), marshal_fields = (\<lambda>m. None),
     unmarshal_probe = (\<lambda>d. Some ''ping''), unmarshal_frame = (\<lambda>d z. Some (FPing 7))\<rparr>"
  have "map_of registry ''ping'' = Some (FPing 0)" by (simp add: registry_def)
  then have "Decode J ''ping'' DirUp = Inr (FPing 7)"
    by (simp add: Decode_def J_def MaxControlFrame_def permits_def)
  from runner_cannot_speak_for_gateway [OF this] show ?thesis by blast
qed

text \<open>The laws of the codec on one frame: what was marshalled is read back.\<close>

definition json_reads :: "JSON \<Rightarrow> Frame \<Rightarrow> string \<Rightarrow> bool" where
  "json_reads J f data \<longleftrightarrow> unmarshal_probe J data = Some (Type f) \<and>
     (\<forall>z. map_of registry (Type f) = Some z \<longrightarrow> unmarshal_frame J data z = Some f)"


definition sample_ping :: JSON where
  "sample_ping = \<lparr>marshal_frame = (\<lambda>f. Some ''7''), unmarshal_fields = (\<lambda>b. Some [(''n'', ''7'')]),
     marshal_string = (\<lambda>s. Some (CHR 0x22 # s @ [CHR 0x22])),
     marshal_fields = (\<lambda>m. Some (''{'' @ concat (map (\<lambda>(k, v). k @ '':'' @ v @ '','') m) @ ''}'')),
     unmarshal_probe = (\<lambda>d. Some ''ping''), unmarshal_frame = (\<lambda>d z. Some (FPing 7))\<rparr>"


subsection \<open>Binary chunks\<close>

definition maxChunkHeader :: nat where "maxChunkHeader = 4 * 2 ^ 10"

record ChunkHeader =
  ch_blob :: string
  ch_seq :: "32 word"

text \<open>\<open>binary.BigEndian\<close> on four bytes.\<close>

definition PutUint32 :: "32 word \<Rightarrow> string" where
  "PutUint32 w = map (\<lambda>i. char_of (unat (drop_bit i w) mod 256)) [24, 16, 8, 0]"

definition Uint32 :: "string \<Rightarrow> 32 word" where
  "Uint32 s = word_of_nat (horner_sum byte 256 (rev s))"

definition EncodeChunk :: "(ChunkHeader \<Rightarrow> string option) \<Rightarrow> ChunkHeader \<Rightarrow> string \<Rightarrow> fmt_err + string" where
  "EncodeChunk marshal h payload =
     (if ch_blob h = [] then Inl (err ''protocol: chunk header requires a blob id'')
      else if length payload = 0 then Inl (err ''protocol: refusing to encode an empty chunk'')
      else if MaxChunk < int (length payload)
      then Inl (Err ''protocol: chunk of %d bytes exceeds cap %d'' [Itoa (int (length payload)), Itoa MaxChunk])
      else (case marshal h of None \<Rightarrow> Inl (err ''json'')
        | Some hdr \<Rightarrow>
            if maxChunkHeader < length hdr
            then Inl (Err ''protocol: chunk header of %d bytes exceeds cap %d'' [Itoa (int (length hdr))])
            else Inr (PutUint32 (word_of_nat (length hdr)) @ hdr @ payload)))"

definition DecodeChunk :: "(string \<Rightarrow> ChunkHeader option) \<Rightarrow> string \<Rightarrow> fmt_err + (ChunkHeader \<times> string)" where
  "DecodeChunk unmarshal frame =
     (if length frame < 4 then Inl (err ''protocol: truncated chunk frame'')
      else let n = Uint32 (take 4 frame) in
      if n = 0 then Inl (err ''protocol: chunk frame has a zero-length header'')
      else if word_of_nat maxChunkHeader < n
      then Inl (Err ''protocol: chunk header length %d exceeds cap %d'' [Itoa (uint n)])
      else if length frame < 4 + unat n then Inl (err ''protocol: chunk frame truncated inside header'')
      else (case unmarshal (take (unat n) (drop 4 frame)) of
          None \<Rightarrow> Inl (err ''protocol: malformed chunk header: %w'')
        | Some h \<Rightarrow>
            if ch_blob h = [] then Inl (err ''protocol: chunk header is missing a blob id'')
            else let payload = drop (4 + unat n) frame in
              if length payload = 0 then Inl (err ''protocol: chunk frame carries no payload'')
              else if MaxChunk < int (length payload)
              then Inl (Err ''protocol: chunk payload of %d bytes exceeds cap %d'' [Itoa (int (length payload)), Itoa MaxChunk])
              else Inr (h, payload)))"

lemma length_PutUint32 [simp]: "length (PutUint32 w) = 4"
  by (simp add: PutUint32_def)

lemma Uint32_PutUint32: "Uint32 (PutUint32 w) = w"
proof -
  let ?n = "unat w"
  have d: "unat (drop_bit i w) = ?n div 2 ^ i" for i
    unfolding unat_drop_bit_eq by (rule drop_bit_eq_div)
  have b: "byte (char_of k) = k mod 256" for k :: nat
    by (simp add: byte_def)
  have split: "k = k mod 256 + 256 * (k div 256)" for k :: nat
    using mod_mult_div_eq [of k 256] by simp
  have dd: "?n div 2 ^ 8 div 256 = ?n div 2 ^ 16" "?n div 2 ^ 16 div 256 = ?n div 2 ^ 24"
    by (simp_all add: div_mult2_eq [symmetric])
  have "?n < 2 ^ 32" using unsigned_less [of w] by simp
  then have top: "?n div 2 ^ 24 mod 256 = ?n div 2 ^ 24"
    by (intro mod_less) (simp add: less_mult_imp_div_less)
  have "?n = ?n mod 256 + 256 * (?n div 2 ^ 8 mod 256 + 256 * (?n div 2 ^ 16 mod 256 + 256 * (?n div 2 ^ 24)))"
    using split [of ?n] split [of "?n div 2 ^ 8"] split [of "?n div 2 ^ 16"]
    unfolding dd by simp
  then have "horner_sum byte 256 (rev (PutUint32 w)) = ?n"
    using top by (simp add: PutUint32_def d b)
  then show ?thesis by (simp add: Uint32_def)
qed

lemma chunk_reads:
  assumes "EncodeChunk marshal h payload = Inr frame"
    "\<And>hdr. marshal h = Some hdr \<Longrightarrow> hdr \<noteq> [] \<and> unmarshal hdr = Some h"
  shows "DecodeChunk unmarshal frame = Inr (h, payload)"
proof -
  from assms(1) obtain hdr where m: "marshal h = Some hdr" and len: "length hdr \<le> 4096"
    and f: "frame = PutUint32 (word_of_nat (length hdr)) @ hdr @ payload"
    and h: "ch_blob h \<noteq> []" "payload \<noteq> []" "int (length payload) \<le> MaxChunk"
    by (auto simp: EncodeChunk_def maxChunkHeader_def split: if_splits option.splits)
  from assms(2) [OF m] have u: "hdr \<noteq> []" "unmarshal hdr = Some h" by auto
  let ?n = "word_of_nat (length hdr) :: 32 word"
  have n: "unat ?n = length hdr" using len by (simp add: unat_of_nat)
  have t: "Uint32 (take 4 frame) = ?n" by (simp add: f Uint32_PutUint32)
  have "?n \<noteq> 0" using n u(1) by (metis length_0_conv unat_0)
  moreover have "\<not> word_of_nat maxChunkHeader < ?n"
    using n len by (simp add: word_less_nat_alt maxChunkHeader_def)
  ultimately show ?thesis using u h n
    by (simp add: DecodeChunk_def t Let_def) (simp add: f)
qed

text \<open>
  A chunk survives the wire: header and payload come back as they were, for any header whose JSON
  text is read back as itself.
\<close>

theorem chunk_roundtrip:
  assumes "EncodeChunk marshal h payload = Inr frame"
    "\<And>hdr. marshal h = Some hdr \<Longrightarrow> hdr \<noteq> [] \<and> unmarshal hdr = Some h"
  shows "DecodeChunk unmarshal frame = Inr (h, payload)"
  using assms by (rule chunk_reads)

theorem chunk_roundtrip_witness:
  "\<exists>frame. EncodeChunk (\<lambda>h. Some (ch_blob h)) \<lparr>ch_blob = ''b1'', ch_seq = 0\<rparr> ''data'' = Inr frame \<and>
     DecodeChunk (\<lambda>s. Some \<lparr>ch_blob = s, ch_seq = 0\<rparr>) frame = Inr (\<lparr>ch_blob = ''b1'', ch_seq = 0\<rparr>, ''data'')"
proof -
  let ?f = "PutUint32 2 @ ''b1'' @ ''data''"
  have e: "EncodeChunk (\<lambda>h. Some (ch_blob h)) \<lparr>ch_blob = ''b1'', ch_seq = 0\<rparr> ''data'' = Inr ?f"
    by (simp add: EncodeChunk_def MaxChunk_def maxChunkHeader_def)
  have "DecodeChunk (\<lambda>s. Some \<lparr>ch_blob = s, ch_seq = 0\<rparr>) ?f = Inr (\<lparr>ch_blob = ''b1'', ch_seq = 0\<rparr>, ''data'')"
    by (rule chunk_roundtrip [OF e]) auto
  with e show ?thesis by blast
qed

end
