(* ===== verification/Config.thy ===== *)
theory Config
  imports Prelude Version
begin

text \<open>
  The routing configuration (config/config.go and the settings of config/gateway.go) after YAML
  decoding: maps are association lists, a pointer is an option, a duration is its count of
  nanoseconds. A nil map entry is \<open>Some None\<close> under \<open>map_of\<close>, and reading through a
  nil pointer is the outcome \<open>Panic\<close>.
\<close>

datatype 'a outcome = Panic | Fail fmt_err | Ok 'a

subsection \<open>The data\<close>

record Display =
  dp_Name :: string
  dp_Icon :: string
  dp_ShowActivity :: string

record Wake =
  wk_EC2Instance :: string
  wk_Region :: string

record Policy =
  Approvers :: "string list"
  Deny :: "string list"
  Allow :: "string list"
  AutoApprove :: bool
  Repos :: "string list"

record Runner =
  r_Display :: Display
  r_Host :: string
  r_Cwd :: string
  r_Harness :: string
  r_Bundle :: string
  r_Model :: string
  r_Idle :: int
  r_Policy :: Policy
  r_MaxConcurrent :: int
  r_TokenSecret :: string
  r_HarnessSecret :: string
  r_HarnessEnv :: string
  r_Billing :: string
  r_ContextHeader :: "bool option"
  r_WorkingStatus :: "string option"
  r_Wake :: "Wake option"

record Route =
  rt_Channel :: string
  rt_DM :: bool
  rt_Runner :: string
  rt_AllowBots :: "string list"

record Marketplace =
  mp_Repo :: string
  mp_Ref :: string

record Bundle =
  b_Extends :: string
  b_Memory :: "string list"
  b_Skills :: "string list"
  b_Plugins :: "string list"
  b_MCP :: "string list"
  b_StrictMCP :: "bool option"

record MCPServerCfg =
  s_Kind :: string
  s_Command :: string
  s_Args :: "string list"
  s_Env :: "string gomap"
  s_URL :: string
  s_Auth :: string
  s_User :: string
  s_Secret :: string
  s_Deny :: "string list"

record ForgeCfg =
  f_Kind :: string
  f_AppID :: string
  f_InstallationID :: string
  f_KeyFile :: string
  f_TokenSecret :: string
  f_Username :: string

record GatewayCfg =
  g_Listen :: string
  g_TLSCert :: string
  g_TLSKey :: string
  g_Store :: string
  g_SecretsDir :: string
  g_SSMPrefix :: string
  g_SSMRegion :: string
  g_SSMCacheTTL :: int
  g_BotTokenSecret :: string
  g_AppTokenSecret :: string
  g_Forge :: ForgeCfg
  g_StreamInterval :: int
  g_Heartbeat :: int
  g_QueueLimit :: int
  g_SecretExpiryWarning :: int

record Config =
  Gateway :: GatewayCfg
  Runners :: "Runner option gomap"
  Routes :: "Route list"
  Bundles :: "Bundle option gomap"
  MCP :: "MCPServerCfg option gomap"
  Marketplaces :: "Marketplace option gomap"

subsection \<open>Resolving single fields\<close>

definition ActivityTransient :: string where "ActivityTransient = ''transient''"
definition ActivityHidden :: string where "ActivityHidden = ''hidden''"
definition ActivityFull :: string where "ActivityFull = ''full''"

definition EffectiveActivity :: "Display \<Rightarrow> string" where
  "EffectiveActivity d =
     (if dp_ShowActivity d = ActivityHidden \<or> dp_ShowActivity d = ActivityFull
      then dp_ShowActivity d else ActivityTransient)"

definition DefaultWorkingStatus :: string where
  "DefaultWorkingStatus = ''is working'' @ bytes [226, 128, 166]"

definition WorkingText :: "Runner option \<Rightarrow> string" where
  "WorkingText r =
     (case r of None \<Rightarrow> DefaultWorkingStatus
      | Some r \<Rightarrow> (case r_WorkingStatus r of None \<Rightarrow> DefaultWorkingStatus | Some s \<Rightarrow> s))"

definition WantsContextHeader :: "Runner option \<Rightarrow> bool" where
  "WantsContextHeader r =
     (case r of None \<Rightarrow> True
      | Some r \<Rightarrow> (case r_ContextHeader r of None \<Rightarrow> True | Some b \<Rightarrow> b))"

definition Wakeable :: "Runner option \<Rightarrow> bool" where
  "Wakeable r =
     (case r of None \<Rightarrow> False
      | Some r \<Rightarrow> (case r_Wake r of None \<Rightarrow> False | Some w \<Rightarrow> wk_EC2Instance w \<noteq> []))"

definition EffectiveTokenSecret :: "Runner \<Rightarrow> string \<Rightarrow> string" where
  "EffectiveTokenSecret r name =
     (if r_TokenSecret r \<noteq> [] then r_TokenSecret r else ''runner-'' @ name)"

subsection \<open>Defaults\<close>

definition DefaultIdle :: int where "DefaultIdle = 30 * 60 * 1000000000"

fun default_idles :: "Runner option gomap \<Rightarrow> Runner option gomap outcome" where
  "default_idles [] = Ok []"
| "default_idles ((n, ro) # rs) =
     (case ro of None \<Rightarrow> Panic
      | Some r \<Rightarrow> (case default_idles rs of
            Ok rs' \<Rightarrow> Ok ((n, Some (if r_Idle r = 0 then r\<lparr>r_Idle := DefaultIdle\<rparr> else r)) # rs')
          | Fail e \<Rightarrow> Fail e | Panic \<Rightarrow> Panic))"

definition applyDefaults :: "Config \<Rightarrow> Config outcome" where
  "applyDefaults c =
     (case default_idles (Runners c) of
        Ok rs \<Rightarrow> Ok (c\<lparr>Runners := rs\<rparr>) | Fail e \<Rightarrow> Fail e | Panic \<Rightarrow> Panic)"

definition DefaultQueueLimit :: int where "DefaultQueueLimit = 100"

definition ForgeGitHubApp :: string where "ForgeGitHubApp = ''github-app''"
definition ForgeStatic :: string where "ForgeStatic = ''static-token''"

definition applyGatewayDefaults :: "Config \<Rightarrow> Config" where
  "applyGatewayDefaults c =
     (let g = Gateway c; f = g_Forge g in
      c\<lparr>Gateway := g\<lparr>
          g_Listen := (if g_Listen g = [] then ''127.0.0.1:8443'' else g_Listen g),
          g_Store := (if g_Store g = [] then ''splitscreen.db'' else g_Store g),
          g_StreamInterval := (if g_StreamInterval g = 0 then 700 * 1000000 else g_StreamInterval g),
          g_Heartbeat := (if g_Heartbeat g = 0 then 20 * 1000000000 else g_Heartbeat g),
          g_QueueLimit := (if g_QueueLimit g = 0 then DefaultQueueLimit else g_QueueLimit g),
          g_SecretExpiryWarning :=
            (if g_SecretExpiryWarning g = 0 then 14 * 24 * 3600000000000 else g_SecretExpiryWarning g),
          g_Forge := (if f_Kind f = [] \<and> (f_AppID f \<noteq> [] \<or> f_KeyFile f \<noteq> [])
                      then f\<lparr>f_Kind := ForgeGitHubApp\<rparr> else f)\<rparr>\<rparr>)"

subsection \<open>Routing\<close>

definition BotAllowed :: "Config \<Rightarrow> string \<Rightarrow> string list \<Rightarrow> bool" where
  "BotAllowed c channel ids \<longleftrightarrow>
     (\<exists>r\<in>set (Routes c). \<not> rt_DM r \<and> rt_Channel r = channel \<and>
        (\<exists>allowed\<in>set (rt_AllowBots r). \<exists>i\<in>set ids. i \<noteq> [] \<and> i = allowed))"

definition route_matches :: "string \<Rightarrow> bool \<Rightarrow> Route \<Rightarrow> bool" where
  "route_matches channel isDM r \<longleftrightarrow>
     (isDM \<and> rt_DM r) \<or> (\<not> isDM \<and> rt_Channel r \<noteq> [] \<and> rt_Channel r = channel)"

fun first_route :: "string \<Rightarrow> bool \<Rightarrow> Route list \<Rightarrow> string option" where
  "first_route channel isDM [] = None"
| "first_route channel isDM (r # rs) =
     (if route_matches channel isDM r then Some (rt_Runner r) else first_route channel isDM rs)"

definition RunnerFor :: "Config \<Rightarrow> string \<Rightarrow> bool \<Rightarrow> string option" where
  "RunnerFor c channel isDM = first_route channel isDM (Routes c)"

lemma first_route_Some:
  "first_route ch dm rs = Some n \<Longrightarrow> \<exists>r\<in>set rs. route_matches ch dm r \<and> rt_Runner r = n"
  by (induction rs) (auto split: if_splits)

lemma first_route_None: "first_route ch dm rs = None \<longleftrightarrow> (\<forall>r\<in>set rs. \<not> route_matches ch dm r)"
  by (induction rs) auto

text \<open>When at most one route matches, the order of the routes does not matter.\<close>

lemma first_route_unique:
  assumes "\<And>r r'. r \<in> set rs \<Longrightarrow> r' \<in> set rs \<Longrightarrow> route_matches ch dm r \<Longrightarrow>
      route_matches ch dm r' \<Longrightarrow> rt_Runner r = rt_Runner r'"
    and r: "r \<in> set rs" "route_matches ch dm r"
  shows "first_route ch dm rs = Some (rt_Runner r)"
proof (cases "first_route ch dm rs")
  case None
  with r show ?thesis by (simp add: first_route_None)
next
  case (Some n)
  from first_route_Some [OF this] obtain r' where
    r': "r' \<in> set rs" "route_matches ch dm r'" "rt_Runner r' = n" by blast
  from assms(1) [OF r(1) r'(1) r(2) r'(2)] r'(3) Some show ?thesis by simp
qed

subsection \<open>Plugins and marketplaces\<close>

text \<open>\<open>i <= 0\<close> covers both a missing separator and an empty name.\<close>

definition SplitPlugin :: "string \<Rightarrow> (string \<times> string) option" where
  "SplitPlugin i =
     (if CHR ''@'' \<notin> set i then None
      else let n = BeforeLast (\<lambda>c. c = CHR ''@'') i; m = AfterLast (\<lambda>c. c = CHR ''@'') i in
        if n = [] \<or> m = [] then None else Some (n, m))"

record ResolvedBundle =
  rb_Name :: string
  rb_Memory :: "string list"
  rb_Skills :: "string list"
  rb_Plugins :: "string list"
  rb_MCP :: "string list"
  rb_StrictMCP :: bool

definition MarketplacesFor :: "Config \<Rightarrow> ResolvedBundle \<Rightarrow> Marketplace option gomap" where
  "MarketplacesFor c rb =
     fold (\<lambda>i out. case SplitPlugin i of None \<Rightarrow> out
             | Some (_, m) \<Rightarrow> (case map_of (Marketplaces c) m of None \<Rightarrow> out | Some mp \<Rightarrow> put m mp out))
       (rb_Plugins rb) []"

function walk_extends ::
  "Bundle option gomap \<Rightarrow> string \<Rightarrow> string list \<Rightarrow> Bundle list \<Rightarrow> string \<Rightarrow> Bundle list outcome"
where
  "walk_extends bs name seen chain cur =
     (if cur = [] then Ok chain
      else if cur \<in> set seen
      then Fail (Err ''config: bundle %q has a circular extends chain'' [name])
      else (case map_of bs cur of
          None \<Rightarrow> Fail (Err ''config: bundle %q not found'' [cur])
        | Some None \<Rightarrow> Panic
        | Some (Some b) \<Rightarrow> walk_extends bs name (cur # seen) (b # chain) (b_Extends b)))"
  by pat_completeness auto
termination
proof (relation "measure (\<lambda>(bs, _, seen, _, _). card (fst ` set bs - set seen))", goal_cases)
  case 1 then show ?case by simp
next
  case (2 bs name seen chain cur bo b)
  from 2(3) 2(4) have "has_key bs cur" by (simp add: has_key_def)
  then have "cur \<in> fst ` set bs" by (simp only: has_key_iff)
  with 2(2) have "fst ` set bs - set (cur # seen) \<subset> fst ` set bs - set seen" by auto
  then show ?case by (simp add: psubset_card_mono)
qed

declare walk_extends.simps [simp del]

definition overlay :: "Bundle \<Rightarrow> ResolvedBundle \<Rightarrow> ResolvedBundle" where
  "overlay b out = out\<lparr>
     rb_StrictMCP := (case b_StrictMCP b of None \<Rightarrow> rb_StrictMCP out | Some s \<Rightarrow> s),
     rb_Memory := rb_Memory out @ b_Memory b,
     rb_Skills := rb_Skills out @ b_Skills b,
     rb_Plugins := rb_Plugins out @ b_Plugins b,
     rb_MCP := rb_MCP out @ b_MCP b\<rparr>"

definition ResolveBundle :: "Config \<Rightarrow> string \<Rightarrow> ResolvedBundle outcome" where
  "ResolveBundle c name =
     (case walk_extends (Bundles c) name [] [] name of
        Panic \<Rightarrow> Panic | Fail e \<Rightarrow> Fail e
      | Ok chain \<Rightarrow> Ok (fold overlay chain
          \<lparr>rb_Name = name, rb_Memory = [], rb_Skills = [], rb_Plugins = [], rb_MCP = [],
           rb_StrictMCP = True\<rparr>))"

fun any_readable :: "string \<Rightarrow> Marketplace option list \<Rightarrow> bool outcome" where
  "any_readable repo [] = Ok False"
| "any_readable repo (m # ms) =
     (case m of None \<Rightarrow> Panic
      | Some mp \<Rightarrow> if EqualFold (mp_Repo mp) repo then Ok True else any_readable repo ms)"

definition MarketplaceReadable :: "Config \<Rightarrow> string \<Rightarrow> string \<Rightarrow> bool outcome" where
  "MarketplaceReadable c runner repo =
     (case map_of (Runners c) runner of
        None \<Rightarrow> Ok False
      | Some None \<Rightarrow> Panic
      | Some (Some rc) \<Rightarrow>
          if r_Bundle rc = [] then Ok False
          else (case ResolveBundle c (r_Bundle rc) of
              Panic \<Rightarrow> Panic
            | Fail _ \<Rightarrow> Ok False
            | Ok rb \<Rightarrow> any_readable repo (map snd (MarketplacesFor c rb))))"

subsection \<open>Secrets\<close>

definition MCPProxied_kind :: string where "MCPProxied_kind = ''proxied''"

definition ProxiedServers :: "Config \<Rightarrow> string list" where
  "ProxiedServers c = map fst (filter (\<lambda>(_, s). case s of None \<Rightarrow> False
     | Some s \<Rightarrow> s_Kind s = MCPProxied_kind) (MCP c))"

definition RunnerTokenSecrets :: "Config \<Rightarrow> string gomap" where
  "RunnerTokenSecrets c = fold (\<lambda>(name, r) out. case r of None \<Rightarrow> out
     | Some r \<Rightarrow> put (EffectiveTokenSecret r name) name out) (Runners c) []"

definition SecretRefs :: "Config \<Rightarrow> string list" where
  "SecretRefs c =
     remdups (filter (\<lambda>n. n \<noteq> [])
       ([g_BotTokenSecret (Gateway c), g_AppTokenSecret (Gateway c), f_TokenSecret (g_Forge (Gateway c))]
        @ concat (map (\<lambda>(name, r). case r of None \<Rightarrow> []
            | Some r \<Rightarrow> [EffectiveTokenSecret r name, r_HarnessSecret r]) (Runners c))
        @ concat (map (\<lambda>(_, s). case s of None \<Rightarrow> [] | Some s \<Rightarrow> [s_Secret s]) (MCP c))))"

subsection \<open>Inheritance\<close>

lemma walk_extends_seen:
  "walk_extends bs n seen chain cur = Ok ch \<Longrightarrow> set seen' \<subseteq> set seen \<Longrightarrow>
     \<exists>pre. ch = pre @ chain \<and> walk_extends bs n' seen' chain' cur = Ok (pre @ chain')"
proof (induction bs n seen chain cur arbitrary: seen' chain' rule: walk_extends.induct)
  case (1 bs n seen chain cur)
  show ?case
  proof (cases "cur = []")
    case True
    with "1.prems"(1) show ?thesis by (simp add: walk_extends.simps)
  next
    case False
    from "1.prems"(1) False have ns: "cur \<notin> set seen"
      by (subst (asm) walk_extends.simps) (auto split: if_splits)
    from "1.prems"(1) False ns obtain b where b: "map_of bs cur = Some (Some b)"
      and w: "walk_extends bs n (cur # seen) (b # chain) (b_Extends b) = Ok ch"
      by (subst (asm) walk_extends.simps) (auto split: option.splits)
    from "1.prems"(2) have "set (cur # seen') \<subseteq> set (cur # seen)" by auto
    from "1.IH" [OF False ns b refl w this, of "b # chain'"] obtain pre where
      "ch = pre @ b # chain" "walk_extends bs n' (cur # seen') (b # chain') (b_Extends b) = Ok (pre @ b # chain')"
      by blast
    moreover have "cur \<notin> set seen'" using ns "1.prems"(2) by auto
    ultimately show ?thesis using False b
      by (intro exI [of _ "pre @ [b]"]) (simp add: walk_extends.simps [of bs n' seen' chain' cur])
  qed
qed

lemma overlay_name: "rb_Name (fold overlay chain r) = rb_Name r"
  by (rule fold_unchanged) (simp add: overlay_def)

lemma overlay_rename: "overlay b (r\<lparr>rb_Name := n\<rparr>) = (overlay b r)\<lparr>rb_Name := n\<rparr>"
  by (cases r) (simp add: overlay_def split: option.split)

lemma fold_overlay_rename:
  "fold overlay chain (r\<lparr>rb_Name := n\<rparr>) = (fold overlay chain r)\<lparr>rb_Name := n\<rparr>"
  by (induction chain arbitrary: r) (simp_all add: overlay_rename)

definition no_bundle :: "string \<Rightarrow> ResolvedBundle" where
  "no_bundle name = \<lparr>rb_Name = name, rb_Memory = [], rb_Skills = [], rb_Plugins = [], rb_MCP = [],
     rb_StrictMCP = True\<rparr>"

lemma ResolveBundle_chain:
  "ResolveBundle c name = Ok rb \<longleftrightarrow>
     (\<exists>chain. walk_extends (Bundles c) name [] [] name = Ok chain \<and> rb = fold overlay chain (no_bundle name))"
  by (auto simp: ResolveBundle_def no_bundle_def split: outcome.splits)

text \<open>
  Bundle inheritance composes: what a bundle resolves to is what its parent resolves to, with its
  own memory, skills, plugins and servers appended after the parent's and its own strictness winning
  when it states one; nothing of the base is ever dropped or reordered.
\<close>

theorem bundle_inherits_parent:
  assumes "map_of (Bundles c) name = Some (Some b)" "name \<noteq> []"
    "ResolveBundle c name = Ok rb" "b_Extends b \<noteq> []"
  shows "\<exists>base. ResolveBundle c (b_Extends b) = Ok base \<and> rb = overlay b (base\<lparr>rb_Name := name\<rparr>)"
proof -
  from assms(3) obtain chain where w: "walk_extends (Bundles c) name [] [] name = Ok chain"
    and rb: "rb = fold overlay chain (no_bundle name)" by (auto simp: ResolveBundle_chain)
  from w assms(1,2) have "walk_extends (Bundles c) name [name] [b] (b_Extends b) = Ok chain"
    by (subst (asm) walk_extends.simps) simp
  from walk_extends_seen [OF this, of "[]" "b_Extends b" "[]"] obtain pre where
    pre: "chain = pre @ [b]" "walk_extends (Bundles c) (b_Extends b) [] [] (b_Extends b) = Ok pre"
    by auto
  then have "ResolveBundle c (b_Extends b) = Ok (fold overlay pre (no_bundle (b_Extends b)))"
    by (auto simp: ResolveBundle_chain)
  moreover have "no_bundle name = (no_bundle (b_Extends b))\<lparr>rb_Name := name\<rparr>" by (simp add: no_bundle_def)
  ultimately show ?thesis using rb pre(1) by (simp add: fold_overlay_rename)
qed

definition sample_gateway :: GatewayCfg where
  "sample_gateway = \<lparr>g_Listen = ''a'', g_TLSCert = [], g_TLSKey = [], g_Store = ''s'', g_SecretsDir = [],
     g_SSMPrefix = [], g_SSMRegion = [], g_SSMCacheTTL = 0, g_BotTokenSecret = [], g_AppTokenSecret = [],
     g_Forge = \<lparr>f_Kind = [], f_AppID = [], f_InstallationID = [], f_KeyFile = [], f_TokenSecret = [],
       f_Username = []\<rparr>,
     g_StreamInterval = 1, g_Heartbeat = 1, g_QueueLimit = 1, g_SecretExpiryWarning = 1\<rparr>"

definition sample_bundle :: "string \<Rightarrow> string list \<Rightarrow> Bundle" where
  "sample_bundle ext mem = \<lparr>b_Extends = ext, b_Memory = mem, b_Skills = [], b_Plugins = [], b_MCP = [],
     b_StrictMCP = None\<rparr>"

definition sample_runner :: Runner where
  "sample_runner = \<lparr>r_Display = \<lparr>dp_Name = ''Box'', dp_Icon = [], dp_ShowActivity = []\<rparr>, r_Host = [],
     r_Cwd = ''/w'', r_Harness = ''claude-code'', r_Bundle = ''b'', r_Model = [], r_Idle = 1,
     r_Policy = \<lparr>Approvers = [''U1''], Deny = [''Bash(rm*)''], Allow = [''Read''], AutoApprove = False,
       Repos = [''o/r'']\<rparr>,
     r_MaxConcurrent = 1, r_TokenSecret = [], r_HarnessSecret = [], r_HarnessEnv = [], r_Billing = [],
     r_ContextHeader = None, r_WorkingStatus = None, r_Wake = None\<rparr>"

definition sample_config :: Config where
  "sample_config = \<lparr>Gateway = sample_gateway, Runners = [(''box'', Some sample_runner)],
     Routes = [\<lparr>rt_Channel = ''C1'', rt_DM = False, rt_Runner = ''box'', rt_AllowBots = []\<rparr>,
               \<lparr>rt_Channel = [], rt_DM = True, rt_Runner = ''box'', rt_AllowBots = []\<rparr>],
     Bundles = [(''a'', Some (sample_bundle [] [''m1''])), (''b'', Some (sample_bundle ''a'' [''m2'']))],
     MCP = [], Marketplaces = []\<rparr>"

lemmas sample_defs = sample_config_def sample_gateway_def sample_runner_def sample_bundle_def

lemma sample_resolves:
  "ResolveBundle sample_config ''b'' = Ok \<lparr>rb_Name = ''b'', rb_Memory = [''m1'', ''m2''], rb_Skills = [],
     rb_Plugins = [], rb_MCP = [], rb_StrictMCP = True\<rparr>"
  by (simp add: ResolveBundle_def walk_extends.simps sample_defs overlay_def)

theorem bundle_inherits_parent_witness:
  "\<exists>base. ResolveBundle sample_config ''a'' = Ok base \<and> rb_Memory base = [''m1'']"
proof -
  have "\<exists>base. ResolveBundle sample_config (b_Extends (sample_bundle ''a'' [''m2''])) = Ok base \<and>
      \<lparr>rb_Name = ''b'', rb_Memory = [''m1'', ''m2''], rb_Skills = [], rb_Plugins = [], rb_MCP = [],
        rb_StrictMCP = True\<rparr> = overlay (sample_bundle ''a'' [''m2'']) (base\<lparr>rb_Name := ''b''\<rparr>)"
    by (rule bundle_inherits_parent [OF _ _ sample_resolves]) (simp_all add: sample_defs)
  then obtain base where b: "ResolveBundle sample_config ''a'' = Ok base"
      "[''m1'', ''m2''] = rb_Memory (overlay (sample_bundle ''a'' [''m2'']) (base\<lparr>rb_Name := ''b''\<rparr>))"
    by (metis ResolvedBundle.select_convs(2) sample_bundle_def Bundle.select_convs(1))
  then show ?thesis by (simp add: overlay_def sample_bundle_def)
qed

end
