(* ===== verification/Validate.thy ===== *)
theory Validate
  imports Config Frames
begin

text \<open>
  Configuration validation (config/validate.go and the validation half of config/gateway.go). Each
  \<open>validateX\<close> returns the problems it adds; an empty list is a config that is applied. The
  problems and the warnings a function adds are two definitions. \<open>Validate_Config\<close> is the
  whole check and can panic where the code reads through a nil pointer.
\<close>

subsection \<open>Shapes of names\<close>

fun SplitByte :: "char \<Rightarrow> string \<Rightarrow> string \<Rightarrow> string list" where
  "SplitByte sep acc [] = [acc]"
| "SplitByte sep acc (c # cs) = (if c = sep then acc # SplitByte sep [] cs else SplitByte sep (acc @ [c]) cs)"

definition lower :: "char \<Rightarrow> bool" where "lower c \<longleftrightarrow> 97 \<le> byte c \<and> byte c \<le> 122"
definition upper :: "char \<Rightarrow> bool" where "upper c \<longleftrightarrow> 65 \<le> byte c \<and> byte c \<le> 90"
definition isdigit :: "char \<Rightarrow> bool" where "isdigit c \<longleftrightarrow> 48 \<le> byte c \<and> byte c \<le> 57"
definition hexdigit :: "char \<Rightarrow> bool" where "hexdigit c \<longleftrightarrow> isdigit c \<or> 97 \<le> byte c \<and> byte c \<le> 102"

definition IsEC2InstanceID :: "string \<Rightarrow> bool" where
  "IsEC2InstanceID s \<longleftrightarrow> take 2 s = ''i-'' \<and> (length s = 10 \<or> length s = 19) \<and> list_all hexdigit (drop 2 s)"

definition awsRegion :: "string \<Rightarrow> bool" where
  "awsRegion s \<longleftrightarrow> (let ps = SplitByte (CHR ''-'') [] s in
     3 \<le> length ps \<and> length (hd ps) = 2 \<and> list_all lower (hd ps)
     \<and> length (last ps) = 1 \<and> list_all isdigit (last ps)
     \<and> list_all (\<lambda>p. p \<noteq> [] \<and> list_all lower p) (butlast (tl ps)))"

definition refRe :: "string \<Rightarrow> bool" where
  "refRe s = (case s of [] \<Rightarrow> False
     | c # cs \<Rightarrow> (lower c \<or> upper c \<or> isdigit c) \<and> length cs \<le> 199 \<and>
        list_all (\<lambda>d. lower d \<or> upper d \<or> isdigit d \<or> d \<in> set ''._/-'') cs)"

text \<open>\<open>owner/name\<close> form.\<close>

definition owner_name :: "string \<Rightarrow> bool" where
  "owner_name repo \<longleftrightarrow>
     \<not> (CountByte repo slash \<noteq> 1 \<or> HasPrefix repo [slash] \<or> HasSuffix repo [slash])"

subsection \<open>Gateway settings\<close>

definition validateGateway :: "Config \<Rightarrow> fmt_err list" where
  "validateGateway c =
     (let g = Gateway c; f = g_Forge g in
      problem_if ((g_TLSCert g \<noteq> [] \<or> g_TLSKey g \<noteq> []) \<and> (g_TLSCert g = [] \<or> g_TLSKey g = []))
        (err ''gateway.tls: cert and key must be set together'')
      @ problem_if (g_SecretsDir g \<noteq> [] \<and> \<not> IsAbs (g_SecretsDir g))
          (Err ''gateway.secrets_dir %q must be an absolute path'' [g_SecretsDir g])
      @ problem_if (g_SSMPrefix g \<noteq> [] \<and> \<not> HasPrefix (g_SSMPrefix g) [slash])
          (Err ''gateway.secrets_ssm.prefix %q must be an absolute parameter path'' [g_SSMPrefix g])
      @ problem_if (g_Heartbeat g \<le> 0) (err ''gateway.heartbeat must be positive'')
      @ problem_if (g_StreamInterval g \<le> 0) (err ''gateway.stream_interval must be positive'')
      @ problem_if (g_QueueLimit g < 0) (err ''gateway.queue_limit must not be negative'')
      @ (if f_Kind f = [] then []
         else if f_Kind f = ForgeGitHubApp
         then problem_if (f_AppID f = [] \<or> f_InstallationID f = [] \<or> f_KeyFile f = [])
                (Err ''gateway.forge: kind %s requires app_id, installation_id, and key_file'' [ForgeGitHubApp])
         else if f_Kind f = ForgeStatic
         then problem_if (f_TokenSecret f = []) (Err ''gateway.forge: kind %s requires token_secret'' [ForgeStatic])
         else [Err ''gateway.forge: unknown kind %q'' [f_Kind f]]))"

subsection \<open>Runners\<close>

fun approver_problems :: "string \<Rightarrow> string list \<Rightarrow> string list \<Rightarrow> fmt_err list" where
  "approver_problems name seen [] = []"
| "approver_problems name seen (a # as) =
     (if a = [] then Err ''runner %q: empty approver entry'' [name] # approver_problems name seen as
      else problem_if (a \<in> set seen) (Err ''runner %q: duplicate approver %q'' [name, a])
        @ approver_problems name (a # seen) as)"

fun rule_problems :: "string \<Rightarrow> string \<Rightarrow> nat \<Rightarrow> string list \<Rightarrow> fmt_err list" where
  "rule_problems fmt name i [] = []"
| "rule_problems fmt name i (d # ds) =
     problem_if (TrimSpace d = []) (Err fmt [name, Itoa (int i)]) @ rule_problems fmt name (Suc i) ds"

definition wake_problems :: "string \<Rightarrow> Wake \<Rightarrow> fmt_err list" where
  "wake_problems name w =
     (if wk_EC2Instance w = [] then []
      else problem_if (\<not> IsEC2InstanceID (wk_EC2Instance w))
        (Err ''runner %q: wake.ec2_instance %q is not an EC2 instance id (i-...)'' [name, wk_EC2Instance w]))
     @ problem_if (wk_Region w \<noteq> [] \<and> \<not> awsRegion (wk_Region w))
         (Err ''runner %q: wake.region %q is not an AWS region'' [name, wk_Region w])"

definition runner_problems :: "Config \<Rightarrow> string \<Rightarrow> Runner option \<Rightarrow> fmt_err list" where
  "runner_problems c name ro =
     problem_if (\<not> ValidSlug name) (Err ''runner %q: name must be a lowercase slug'' [name])
     @ (case ro of None \<Rightarrow> [Err ''runner %q: empty definition'' [name]]
        | Some r \<Rightarrow> let p = r_Policy r; act = dp_ShowActivity (r_Display r) in
          problem_if (r_Harness r = []) (Err ''runner %q: harness is required'' [name])
          @ (if r_Cwd r = [] then [Err ''runner %q: cwd is required'' [name]]
             else problem_if (\<not> IsAbs (r_Cwd r)) (Err ''runner %q: cwd %q must be an absolute path'' [name, r_Cwd r]))
          @ problem_if (r_Idle r \<le> 0) (Err ''runner %q: idle must be positive'' [name])
          @ problem_if (act \<notin> {[], ActivityTransient, ActivityHidden, ActivityFull})
              (Err ''runner %q: display.show_activity must be %q, %q, or %q, got %q''
                [name, ActivityTransient, ActivityHidden, ActivityFull, act])
          @ problem_if (dp_Name (r_Display r) = []) (Err ''runner %q: display.name is required'' [name])
          @ problem_if (r_Bundle r \<noteq> [] \<and> \<not> has_key (Bundles c) (r_Bundle r))
              (Err ''runner %q: references unknown bundle %q'' [name, r_Bundle r])
          @ approver_problems name [] (Approvers p)
          @ rule_problems ''runner %q: deny rule %d is empty'' name 0 (Deny p)
          @ rule_problems ''runner %q: allow rule %d is empty'' name 0 (Allow p)
          @ (case r_Wake r of None \<Rightarrow> [] | Some w \<Rightarrow> wake_problems name w)
          @ concat (map (\<lambda>repo. problem_if (\<not> owner_name repo)
                (Err ''runner %q: forge repo %q must be in owner/name form'' [name, repo])) (Repos p)))"

definition runner_warnings :: "string \<Rightarrow> Runner option \<Rightarrow> fmt_err list" where
  "runner_warnings name ro =
     (case ro of None \<Rightarrow> []
      | Some r \<Rightarrow> let p = r_Policy r in
          problem_if (AutoApprove p \<and> Deny p = [])
            (Err ''runner %q runs unattended with no deny rules: every tool call proceeds unchecked'' [name])
          @ problem_if (AutoApprove p \<and> Approvers p \<noteq> [])
              (Err ''runner %q sets approvers but also auto_approve'' [name])
          @ (case r_Wake r of None \<Rightarrow> []
             | Some w \<Rightarrow> problem_if (wk_EC2Instance w = [])
                 (Err ''runner %q declares wake with no ec2_instance; it will not be woken'' [name])))"

definition validateRunners :: "Config \<Rightarrow> fmt_err list" where
  "validateRunners c = concat (map (\<lambda>(n, r). runner_problems c n r) (Runners c))"

subsection \<open>Bundles and marketplaces\<close>

definition plugin_problems :: "Config \<Rightarrow> string \<Rightarrow> string \<Rightarrow> fmt_err list" where
  "plugin_problems c name i =
     (case SplitPlugin i of None \<Rightarrow> [Err ''bundle %q: plugin %q must be name@marketplace'' [name, i]]
      | Some (plugin, market) \<Rightarrow>
          if \<not> ValidSlug plugin then [Err ''bundle %q: plugin name %q must be a lowercase slug'' [name, plugin]]
          else (case map_of (Marketplaces c) market of
              Some (Some _) \<Rightarrow> []
            | _ \<Rightarrow> [Err ''bundle %q: plugin %q uses unknown marketplace %q'' [name, i, market]]))"

definition bundle_problems :: "Config \<Rightarrow> string \<Rightarrow> Bundle option \<Rightarrow> fmt_err list outcome" where
  "bundle_problems c name bo =
     (let slug = problem_if (\<not> ValidSlug name) (Err ''bundle %q: name must be a lowercase slug'' [name]) in
      case bo of None \<Rightarrow> Ok (slug @ [Err ''bundle %q: empty definition'' [name]])
      | Some b \<Rightarrow>
          if b_Extends b \<noteq> [] \<and> \<not> has_key (Bundles c) (b_Extends b)
          then Ok (slug @ [Err ''bundle %q: extends unknown bundle %q'' [name, b_Extends b]])
          else (case ResolveBundle c name of
              Panic \<Rightarrow> Panic
            | Fail e \<Rightarrow> Ok (slug @ [Err ''bundle %q: %v'' [name]] @ concat (map (plugin_problems c name) (b_Plugins b)))
            | Ok _ \<Rightarrow> Ok (slug @ concat (map (plugin_problems c name) (b_Plugins b)))))"

fun all_bundle_problems :: "Config \<Rightarrow> Bundle option gomap \<Rightarrow> fmt_err list outcome" where
  "all_bundle_problems c [] = Ok []"
| "all_bundle_problems c ((n, b) # bs) =
     (case (bundle_problems c n b, all_bundle_problems c bs) of
        (Ok p, Ok q) \<Rightarrow> Ok (p @ q) | _ \<Rightarrow> Panic)"

definition validateBundles :: "Config \<Rightarrow> fmt_err list outcome" where
  "validateBundles c = all_bundle_problems c (Bundles c)"

definition marketplace_problems :: "string \<Rightarrow> Marketplace option \<Rightarrow> fmt_err list" where
  "marketplace_problems name mo =
     problem_if (\<not> ValidSlug name) (Err ''marketplace %q: name must be a lowercase slug'' [name])
     @ (case mo of None \<Rightarrow> [Err ''marketplace %q: empty definition'' [name]]
        | Some m \<Rightarrow>
            problem_if (\<not> owner_name (mp_Repo m))
              (Err ''marketplace %q: repo %q must be in owner/name form'' [name, mp_Repo m])
            @ (if mp_Ref m = [] then [Err ''marketplace %q: ref is required (pin a tag or commit)'' [name]]
               else problem_if (\<not> refRe (mp_Ref m) \<or> Contains (mp_Ref m) ''..'')
                 (Err ''marketplace %q: ref %q is not a plain tag, branch or commit'' [name, mp_Ref m])))"

definition validateMarketplaces :: "Config \<Rightarrow> fmt_err list" where
  "validateMarketplaces c = concat (map (\<lambda>(n, m). marketplace_problems n m) (Marketplaces c))"

subsection \<open>Routes\<close>

fun route_problems :: "Config \<Rightarrow> nat \<Rightarrow> nat gomap \<Rightarrow> nat \<Rightarrow> Route list \<Rightarrow> fmt_err list" where
  "route_problems c i claimed dmRoutes [] = []"
| "route_problems c i claimed dmRoutes (r # rs) =
     (let n = Itoa (int i) in
      (if rt_Channel r \<noteq> [] \<and> rt_DM r then [Err ''route %d: set exactly one of channel or dm, not both'' [n]]
       else if rt_Channel r = [] \<and> \<not> rt_DM r then [Err ''route %d: set exactly one of channel or dm'' [n]]
       else [])
      @ (if rt_Runner r = [] then [Err ''route %d: runner is required'' [n]]
         else problem_if (\<not> has_key (Runners c) (rt_Runner r))
           (Err ''route %d: references unknown runner %q'' [n, rt_Runner r]))
      @ (if rt_Channel r \<noteq> []
         then (case map_of claimed (rt_Channel r) of None \<Rightarrow> []
               | Some prev \<Rightarrow> [Err ''channel %s is claimed by route %d and route %d''
                                 [rt_Channel r, Itoa (int prev), n]])
         else [])
      @ problem_if (rt_DM r \<and> rt_AllowBots r \<noteq> [])
          (Err ''route %d: allow_bots is only supported on channel routes'' [n])
      @ concat (map (\<lambda>b. problem_if (TrimSpace b = [])
          (Err ''route %d: allow_bots has an empty entry'' [n])) (rt_AllowBots r))
      @ problem_if (rt_DM r \<and> 1 < dmRoutes + 1) (Err ''route %d: a second dm route is defined'' [n])
      @ route_problems c (Suc i)
          (if rt_Channel r \<noteq> [] \<and> map_of claimed (rt_Channel r) = None
           then put (rt_Channel r) i claimed else claimed)
          (if rt_DM r then dmRoutes + 1 else dmRoutes) rs)"

definition validateRoutes :: "Config \<Rightarrow> fmt_err list" where
  "validateRoutes c = route_problems c 0 [] 0 (Routes c)"

definition route_warnings :: "Config \<Rightarrow> fmt_err list" where
  "route_warnings c = concat (map (\<lambda>(name, _). problem_if (name \<notin> rt_Runner ` set (Routes c))
      (Err ''runner %q has no routes'' [name])) (Runners c))"

subsection \<open>MCP servers\<close>

definition MCPLocalKind :: string where "MCPLocalKind = ''local''"
definition MCPProxiedKind :: string where "MCPProxiedKind = ''proxied''"

definition server_problems :: "string \<Rightarrow> MCPServerCfg option \<Rightarrow> fmt_err list" where
  "server_problems name so =
     (case so of None \<Rightarrow> [Err ''mcp %q: empty definition'' [name]]
      | Some s \<Rightarrow>
          problem_if (TrimSpace name = []) (err ''mcp: server with an empty name'')
          @ (if s_Kind s = MCPLocalKind then
               problem_if (s_Command s = []) (Err ''mcp %q: local servers require a command'' [name])
               @ problem_if (s_URL s \<noteq> [] \<or> s_Secret s \<noteq> [])
                   (Err ''mcp %q: local servers must not declare url or secret'' [name])
             else if s_Kind s = MCPProxiedKind then
               problem_if (s_URL s = []) (Err ''mcp %q: proxied servers require a url'' [name])
               @ problem_if (s_Command s \<noteq> []) (Err ''mcp %q: proxied servers must not declare a command'' [name])
               @ (if s_Auth s = [] \<or> s_Auth s = ''none'' then []
                  else if s_Auth s = ''bearer''
                  then problem_if (s_Secret s = []) (Err ''mcp %q: bearer auth requires a secret'' [name])
                  else if s_Auth s = ''basic''
                  then problem_if (s_Secret s = [] \<or> s_User s = [])
                    (Err ''mcp %q: basic auth requires user and secret'' [name])
                  else [Err ''mcp %q: unknown auth %q'' [name, s_Auth s]])
             else [Err ''mcp %q: kind must be %q or %q, got %q'' [name, MCPLocalKind, MCPProxiedKind, s_Kind s]]))"

definition validateMCP :: "Config \<Rightarrow> fmt_err list" where
  "validateMCP c =
     concat (map (\<lambda>(n, s). server_problems n s) (MCP c))
     @ concat (map (\<lambda>(bname, bo). case bo of None \<Rightarrow> []
          | Some b \<Rightarrow> concat (map (\<lambda>ref. problem_if (\<not> has_key (MCP c) ref)
              (Err ''bundle %q: references unknown mcp server %q'' [bname, ref])) (b_MCP b))) (Bundles c))"

subsection \<open>The whole check\<close>

text \<open>The problems, in the order they are added (the code sorts them for display), and the warnings.\<close>

definition Validate_Config :: "Config \<Rightarrow> (fmt_err list \<times> fmt_err list) outcome" where
  "Validate_Config c =
     (case validateBundles c of
        Ok bp \<Rightarrow>
          Ok (problem_if (Runners c = []) (err ''no runners are defined'')
              @ validateGateway c @ validateRunners c @ validateMarketplaces c @ bp
              @ validateRoutes c @ validateMCP c,
              concat (map (\<lambda>(n, r). runner_warnings n r) (Runners c)) @ route_warnings c)
      | _ \<Rightarrow> Panic)"

text \<open>\<open>Parse\<close> after the YAML decoder: defaults, then validation.\<close>

definition Parse :: "Config \<Rightarrow> Config outcome" where
  "Parse c0 =
     (case applyDefaults c0 of
        Ok c1 \<Rightarrow>
          let c = applyGatewayDefaults c1 in
          (case Validate_Config c of
             Ok (ps, _) \<Rightarrow> if ps = [] then Ok c else Fail (err ''config'')
           | _ \<Rightarrow> Panic)
      | _ \<Rightarrow> Panic)"

definition valid_config :: "Config \<Rightarrow> bool" where
  "valid_config c \<longleftrightarrow> (\<exists>ws. Validate_Config c = Ok ([], ws))"

lemma valid_config_parts:
  "valid_config c \<Longrightarrow> Runners c \<noteq> [] \<and> validateGateway c = [] \<and> validateRunners c = [] \<and>
     validateMarketplaces c = [] \<and> validateBundles c = Ok [] \<and> validateRoutes c = [] \<and> validateMCP c = []"
  by (auto simp: valid_config_def Validate_Config_def split: outcome.splits if_splits)

lemma Parse_Ok: "Parse c0 = Ok c \<Longrightarrow> valid_config c"
  by (auto simp: Parse_def valid_config_def Let_def split: outcome.splits if_splits)

subsection \<open>What a valid configuration guarantees\<close>

definition route_ok :: "Config \<Rightarrow> nat gomap \<Rightarrow> nat \<Rightarrow> Route \<Rightarrow> bool" where
  "route_ok c claimed d r \<longleftrightarrow> has_key (Runners c) (rt_Runner r) \<and> (rt_Channel r = [] \<longleftrightarrow> rt_DM r)
     \<and> (rt_Channel r \<noteq> [] \<longrightarrow> \<not> has_key claimed (rt_Channel r)) \<and> (rt_DM r \<longrightarrow> d = 0 \<and> rt_AllowBots r = [])"

lemma route_problems_Cons:
  "route_problems c i claimed d (r # rs) = [] \<Longrightarrow> route_ok c claimed d r \<and>
     route_problems c (Suc i) (if rt_Channel r \<noteq> [] then put (rt_Channel r) i claimed else claimed)
       (if rt_DM r then Suc d else d) rs = []"
  by (cases "rt_Channel r = []"; cases "rt_DM r"; cases "map_of claimed (rt_Channel r)";
      simp add: Let_def route_ok_def has_key_def split: if_splits)

lemma route_ok_put: "route_ok c (put k i claimed) d r \<Longrightarrow> route_ok c claimed d r \<and> (rt_Channel r \<noteq> k \<or> rt_Channel r = [])"
  by (auto simp: route_ok_def)

lemma route_ok_Suc: "route_ok c claimed (Suc d) r \<Longrightarrow> route_ok c claimed d r \<and> \<not> rt_DM r"
  by (auto simp: route_ok_def)

lemma route_problems_Nil:
  "route_problems c i claimed d rs = [] \<Longrightarrow> (\<forall>r\<in>set rs. route_ok c claimed d r) \<and>
     distinct (filter (\<lambda>x. x \<noteq> []) (map rt_Channel rs)) \<and> length (filter rt_DM rs) \<le> 1"
proof (induction rs arbitrary: i claimed d)
  case (Cons r rs)
  note rp = route_problems_Cons [OF Cons.prems]
  let ?cl = "if rt_Channel r \<noteq> [] then put (rt_Channel r) i claimed else claimed"
  let ?d = "if rt_DM r then Suc d else d"
  have IH: "\<forall>r\<in>set rs. route_ok c ?cl ?d r" "distinct (filter (\<lambda>x. x \<noteq> []) (map rt_Channel rs))"
    "length (filter rt_DM rs) \<le> 1"
    using Cons.IH rp by blast+
  have all: "\<forall>r'\<in>set rs. route_ok c claimed d r' \<and> (rt_Channel r \<noteq> [] \<longrightarrow> rt_Channel r' \<noteq> rt_Channel r)
      \<and> (rt_DM r \<longrightarrow> \<not> rt_DM r')"
  proof
    fix r' assume "r' \<in> set rs"
    with IH(1) have "route_ok c ?cl ?d r'" by blast
    then show "route_ok c claimed d r' \<and> (rt_Channel r \<noteq> [] \<longrightarrow> rt_Channel r' \<noteq> rt_Channel r)
        \<and> (rt_DM r \<longrightarrow> \<not> rt_DM r')"
      by (auto split: if_splits dest!: route_ok_put route_ok_Suc)
  qed
  have "rt_DM r \<Longrightarrow> filter rt_DM rs = []" using all by (simp add: filter_empty_conv)
  then have "length (filter rt_DM (r # rs)) \<le> 1" using IH(3) by simp
  moreover have "distinct (filter (\<lambda>x. x \<noteq> []) (map rt_Channel (r # rs)))" using IH(2) all by auto
  ultimately show ?case using rp all by simp
qed simp

lemma unique_by_key:
  assumes "distinct (filter P (map f xs))" "x \<in> set xs" "y \<in> set xs" "f x = f y" "P (f x)"
  shows "x = y \<or> \<not> P (f x)"
  using assms
proof (induction xs)
  case (Cons z zs)
  then show ?case by (auto split: if_splits simp: image_iff)
qed simp

lemma single_filter:
  assumes "length (filter P xs) \<le> 1" "x \<in> set xs" "y \<in> set xs" "P x" "P y"
  shows "x = y"
proof (rule ccontr)
  assume ne: "x \<noteq> y"
  have "{x, y} \<subseteq> set (filter P xs)" using assms by auto
  then have "card {x, y} \<le> length (filter P xs)"
    by (meson List.finite_set card_length card_mono le_trans)
  with ne assms(1) show False by simp
qed

lemma valid_routes:
  assumes "valid_config c" "r \<in> set (Routes c)" "r' \<in> set (Routes c)"
    "route_matches ch dm r" "route_matches ch dm r'"
  shows "r = r'" "has_key (Runners c) (rt_Runner r)"
proof -
  have "route_problems c 0 [] 0 (Routes c) = []"
    using valid_config_parts [OF assms(1)] by (simp add: validateRoutes_def)
  from route_problems_Nil [OF this] have
    ok: "\<forall>r\<in>set (Routes c). route_ok c [] 0 r" and
    di: "distinct (filter (\<lambda>x. x \<noteq> []) (map rt_Channel (Routes c)))" and
    le: "length (filter rt_DM (Routes c)) \<le> 1" by auto
  from ok assms(2) show "has_key (Runners c) (rt_Runner r)" by (auto simp: route_ok_def)
  show "r = r'"
  proof (cases dm)
    case True
    with assms(4,5) have "rt_DM r" "rt_DM r'" by (auto simp: route_matches_def)
    with single_filter [OF le assms(2,3)] show ?thesis by blast
  next
    case False
    with assms(4,5) have "rt_Channel r = rt_Channel r'" "rt_Channel r \<noteq> []" by (auto simp: route_matches_def)
    with unique_by_key [OF di assms(2,3)] show ?thesis by blast
  qed
qed

text \<open>
  In a configuration that was applied, a channel (and the direct message surface) belongs to
  exactly one runner: whichever route carries it names a runner that is defined, and listing the
  routes in another order never changes who answers.
\<close>

theorem routing_is_deterministic:
  assumes "valid_config c" "set rs = set (Routes c)"
  shows "RunnerFor (c\<lparr>Routes := rs\<rparr>) channel isDM = RunnerFor c channel isDM \<and>
    (\<forall>n. RunnerFor c channel isDM = Some n \<longrightarrow> has_key (Runners c) n)"
proof (cases "\<exists>r\<in>set (Routes c). route_matches channel isDM r")
  case True
  then obtain r where r: "r \<in> set (Routes c)" "route_matches channel isDM r" by blast
  have u: "\<And>a b. a \<in> set (Routes c) \<Longrightarrow> b \<in> set (Routes c) \<Longrightarrow> route_matches channel isDM a \<Longrightarrow>
      route_matches channel isDM b \<Longrightarrow> rt_Runner a = rt_Runner b"
    using valid_routes(1) [OF assms(1)] by blast
  have "first_route channel isDM (Routes c) = Some (rt_Runner r)"
    by (rule first_route_unique [OF u r])
  moreover have "first_route channel isDM rs = Some (rt_Runner r)"
    by (rule first_route_unique) (use u r assms(2) in blast)+
  moreover have "has_key (Runners c) (rt_Runner r)"
    using valid_routes(2) [OF assms(1) r(1) r(1) r(2) r(2)] .
  ultimately show ?thesis by (simp add: RunnerFor_def)
next
  case False
  then have "first_route channel isDM (Routes c) = None" "first_route channel isDM rs = None"
    using assms(2) by (simp_all add: first_route_None)
  then show ?thesis by (simp add: RunnerFor_def)
qed

lemma sample_bundles_valid: "validateBundles sample_config = Ok []"
proof -
  have "bundle_problems sample_config ''a'' (Some (sample_bundle [] [''m1''])) = Ok []"
    "bundle_problems sample_config ''b'' (Some (sample_bundle ''a'' [''m2''])) = Ok []"
    by (simp_all add: bundle_problems_def ValidSlug_def slug_head_def byte_def sample_bundle_def
        sample_config_def ResolveBundle_def walk_extends.simps has_key_def)
  then show ?thesis by (simp add: validateBundles_def sample_config_def)
qed

lemma sample_runners_valid: "validateRunners sample_config = []"
proof -
  have t: "TrimSpace ''Bash(rm*)'' \<noteq> []" "TrimSpace ''Read'' \<noteq> []"
    by (simp_all add: TrimSpace_graphic graphic_def)
  have o: "owner_name ''o/r''" "ValidSlug ''box''" "IsAbs ''/w''"
    by (simp_all add: owner_name_def CountByte_def slash_def HasPrefix_def HasSuffix_def IsAbs_def
        ValidSlug_def slug_head_def slug_tail_def byte_def)
  show ?thesis
    by (simp add: validateRunners_def runner_problems_def sample_config_def sample_runner_def
        sample_bundle_def has_key_def t o)
qed

lemma sample_valid: "valid_config sample_config"
proof -
  have "validateGateway sample_config = []"
    by (simp add: validateGateway_def sample_config_def sample_gateway_def)
  moreover have "validateRoutes sample_config = []" "validateMCP sample_config = []"
    "validateMarketplaces sample_config = []" "Runners sample_config \<noteq> []"
    by (simp_all add: validateRoutes_def validateMCP_def validateMarketplaces_def sample_config_def
        sample_bundle_def has_key_def)
  ultimately show ?thesis
    by (simp add: valid_config_def Validate_Config_def sample_bundles_valid sample_runners_valid)
qed

theorem routing_is_deterministic_witness:
  "RunnerFor (sample_config\<lparr>Routes := rev (Routes sample_config)\<rparr>) ''C1'' False = RunnerFor sample_config ''C1'' False"
  using routing_is_deterministic [OF sample_valid, of "rev (Routes sample_config)" "''C1''" False] by simp

lemma all_bundle_problems_Nil:
  "all_bundle_problems c bs = Ok [] \<Longrightarrow> (n, b) \<in> set bs \<Longrightarrow> bundle_problems c n b = Ok []"
  by (induction c bs rule: all_bundle_problems.induct) (auto split: outcome.splits)

lemma bundle_problems_Nil:
  "bundle_problems c n b = Ok [] \<Longrightarrow> ValidSlug n \<and> b \<noteq> None \<and> (\<exists>rb. ResolveBundle c n = Ok rb)"
  by (auto simp: bundle_problems_def Let_def split: option.splits outcome.splits if_splits)

lemma valid_bundle:
  assumes "valid_config c" "has_key (Bundles c) n"
  shows "\<exists>rb. ResolveBundle c n = Ok rb"
proof -
  obtain b where "map_of (Bundles c) n = Some b" using assms(2) by (auto simp: has_key_def)
  then have "(n, b) \<in> set (Bundles c)" by (rule map_of_SomeD)
  with valid_config_parts [OF assms(1)] show ?thesis
    by (auto simp: validateBundles_def dest!: all_bundle_problems_Nil bundle_problems_Nil)
qed

lemma runner_problems_Nil:
  "runner_problems c n ro = [] \<Longrightarrow> ValidSlug n \<and> (\<exists>r. ro = Some r \<and> IsAbs (r_Cwd r) \<and> 0 < r_Idle r
     \<and> r_Harness r \<noteq> [] \<and> (r_Bundle r = [] \<or> has_key (Bundles c) (r_Bundle r))
     \<and> (\<forall>repo\<in>set (Repos (r_Policy r)). owner_name repo))"
  by (cases ro) (auto simp: runner_problems_def Let_def split: if_splits)

lemma valid_runner:
  assumes "valid_config c" "map_of (Runners c) n = Some ro"
  shows "runner_problems c n ro = []"
proof -
  from assms(2) have "(n, ro) \<in> set (Runners c)" by (rule map_of_SomeD)
  with valid_config_parts [OF assms(1)] show ?thesis by (auto simp: validateRunners_def)
qed

lemma marketplaces_not_nil:
  assumes "valid_config c" shows "None \<notin> snd ` set (MarketplacesFor c rb)"
proof -
  have "marketplace_problems (fst p) (snd p) = []" if "p \<in> set (Marketplaces c)" for p
    using valid_config_parts [OF assms] that by (auto simp: validateMarketplaces_def split: prod.splits)
  then have "\<forall>p\<in>set (Marketplaces c). snd p \<noteq> None"
    by (force simp: marketplace_problems_def split: option.splits)
  then have m: "v \<noteq> None" if "map_of (Marketplaces c) k = Some v" for k v
    using map_of_SomeD [OF that] by auto
  have put: "None \<notin> snd ` set (put k v out)" if "None \<notin> snd ` set out" "v \<noteq> None"
    for k and v :: "Marketplace option" and out
    using that by (induction out) (auto simp: put_def)
  show ?thesis unfolding MarketplacesFor_def
  proof (rule fold_invariant_keep, goal_cases)
    case (1 i out)
    from 1(2) show ?case
      by (cases "SplitPlugin i"; cases "map_of (Marketplaces c) (snd (the (SplitPlugin i)))")
        (simp_all add: split_beta put m del: keys_put)
  qed simp
qed

lemma any_readable_total: "None \<notin> set ms \<Longrightarrow>
    any_readable repo ms = Ok (\<exists>m\<in>set ms. \<exists>mp. m = Some mp \<and> EqualFold (mp_Repo mp) repo)"
proof (induction repo ms rule: any_readable.induct)
  case (2 repo m ms)
  then show ?case by (cases m) auto
qed simp

text \<open>
  A configuration that was applied is safe to run on: every runner is defined, under a name that
  is a path element, with an absolute working directory and a positive idle time; its bundle resolves
  (no missing parent, no circular chain, no nil), its forge repositories are in owner/name form, and
  asking which marketplaces it may read never panics.
\<close>

theorem valid_config_runners_usable:
  assumes "valid_config c" "map_of (Runners c) n = Some ro"
  shows "ValidSlug n \<and> (\<exists>r. ro = Some r \<and> IsAbs (r_Cwd r) \<and> 0 < r_Idle r \<and>
      (r_Bundle r \<noteq> [] \<longrightarrow> (\<exists>rb. ResolveBundle c (r_Bundle r) = Ok rb)) \<and>
      (\<forall>repo\<in>set (Repos (r_Policy r)). owner_name repo)) \<and>
    (\<forall>repo. MarketplaceReadable c n repo \<noteq> Panic)"
proof -
  from runner_problems_Nil [OF valid_runner [OF assms]] obtain r where r: "ValidSlug n" "ro = Some r"
    "IsAbs (r_Cwd r)" "0 < r_Idle r" "r_Bundle r = [] \<or> has_key (Bundles c) (r_Bundle r)"
    "\<forall>repo\<in>set (Repos (r_Policy r)). owner_name repo" by blast
  have b: "r_Bundle r \<noteq> [] \<Longrightarrow> \<exists>rb. ResolveBundle c (r_Bundle r) = Ok rb"
    using r(5) valid_bundle [OF assms(1)] by blast
  have "MarketplaceReadable c n repo \<noteq> Panic" for repo
    using assms(2) r(2) b any_readable_total marketplaces_not_nil [OF assms(1)]
    by (auto simp: MarketplaceReadable_def)
  with r b show ?thesis by blast
qed

theorem valid_config_runners_usable_witness:
  "\<exists>rb. ResolveBundle sample_config (r_Bundle sample_runner) = Ok rb"
  using valid_config_runners_usable [OF sample_valid, of "''box''" "Some sample_runner"]
  by (simp add: sample_config_def) (simp add: sample_runner_def)

lemma default_idles_nil: "(n, None) \<in> set rs \<Longrightarrow> default_idles rs = Panic"
  by (induction rs rule: default_idles.induct) (auto split: option.splits outcome.splits)

lemma default_idles_not_fail: "default_idles rs \<noteq> Fail e"
  by (induction rs rule: default_idles.induct) (auto split: option.splits outcome.splits)

text \<open>
  A runner with an empty definition crashes the loader: the defaults are applied, through the nil
  pointer, before the validation that has an error message for exactly this case can run.
\<close>

theorem empty_runner_definition_panics:
  assumes "(name, None) \<in> set (Runners c)"
  shows "Parse c = Panic \<and> runner_problems c name None \<noteq> []"
  using default_idles_nil [OF assms] by (simp add: Parse_def applyDefaults_def runner_problems_def)

theorem empty_runner_definition_panics_witness:
  "Parse (sample_config\<lparr>Runners := [(''box'', None)]\<rparr>) = Panic"
  using empty_runner_definition_panics [of "''box''" "sample_config\<lparr>Runners := [(''box'', None)]\<rparr>"] by simp

end
