(* ===== verification/Pricing.thy ===== *)
theory Pricing
  imports Complex_Main Prelude Version
begin

text \<open>
  Turning token counters into dollars (internal/pricing/pricing.go). A float64 is a real number: the
  model does not round. The table is an association list whose order is the order in which Go ranges
  over the map, so a theorem that holds for every list holds for every iteration order.
\<close>

record Rates =
  r_Input :: real
  r_Output :: real
  r_CacheWriteMult :: real
  r_CacheReadMult :: real
  r_CacheWriteMult1h :: real

record Table =
  t_Version :: string
  t_Rates :: "Rates gomap"
  t_Default :: "Rates option"

record Counters =
  c_Input :: int
  c_CacheWrite :: int
  c_CacheRead :: int
  c_Output :: int
  c_TTLHint :: string

text \<open>The scan for the longest contained key; \<open>''''\<close> when there is none.\<close>

definition longer :: "string \<Rightarrow> string \<Rightarrow> string \<Rightarrow> string" where
  "longer model k best = (if Contains model k \<and> length best < length k then k else best)"

definition best_key :: "string \<Rightarrow> string list \<Rightarrow> string" where
  "best_key model ks = fold (longer model) ks []"

definition lookup :: "Table \<Rightarrow> string \<Rightarrow> Rates option" where
  "lookup t model =
     (case map_of (t_Rates t) model of Some r \<Rightarrow> Some r
      | None \<Rightarrow> let best = best_key model (map fst (t_Rates t)) in
          if best \<noteq> [] then map_of (t_Rates t) best else t_Default t)"

definition Cost :: "Table \<Rightarrow> string \<Rightarrow> Counters \<Rightarrow> real option" where
  "Cost t model c =
     (case lookup t model of None \<Rightarrow> None
      | Some r \<Rightarrow>
          let writeMult = (if c_TTLHint c = ''1h'' \<and> 0 < r_CacheWriteMult1h r
                           then r_CacheWriteMult1h r else r_CacheWriteMult r);
              perMillion = 1000000 :: real
          in Some (of_int (c_Input c) / perMillion * r_Input r
                 + of_int (c_CacheWrite c) / perMillion * r_Input r * writeMult
                 + of_int (c_CacheRead c) / perMillion * r_Input r * r_CacheReadMult r
                 + of_int (c_Output c) / perMillion * r_Output r))"

definition negative_rate :: "Rates \<Rightarrow> bool" where
  "negative_rate r \<longleftrightarrow> r_Input r < 0 \<or> r_Output r < 0 \<or> r_CacheReadMult r < 0 \<or> r_CacheWriteMult r < 0"

definition Validate_Table :: "Table \<Rightarrow> fmt_err option" where
  "Validate_Table t =
     (if t_Version t = [] then Some (Err ''pricing: table version is required'' [])
      else if t_Rates t = [] \<and> t_Default t = None
      then Some (Err ''pricing: table %q has no rates and no default'' [t_Version t])
      else (case find (\<lambda>(_, r). negative_rate r) (t_Rates t) of
          Some (name, _) \<Rightarrow> Some (Err ''pricing: model %q has a negative rate'' [name])
        | None \<Rightarrow> None))"

subsection \<open>The longest contained key\<close>

lemma best_key_fold:
  "Contains model b \<Longrightarrow>
     Contains model (fold (longer model) ks b) \<and> length b \<le> length (fold (longer model) ks b) \<and>
     (\<forall>k\<in>set ks. Contains model k \<longrightarrow> length k \<le> length (fold (longer model) ks b)) \<and>
     fold (longer model) ks b \<in> insert b (set ks)"
proof (induction ks arbitrary: b)
  case (Cons k ks)
  let ?b = "longer model k b"
  have b: "Contains model ?b" "length b \<le> length ?b" "Contains model k \<Longrightarrow> length k \<le> length ?b"
    "?b \<in> {k, b}" using Cons.prems by (auto simp: longer_def)
  from Cons.IH [OF b(1)] b(2-4) show ?case by (auto intro: order_trans)
qed simp

lemma Contains_Nil [simp]: "Contains s []"
  by (simp add: Contains_def)

lemma best_key_longest:
  "k \<in> set ks \<Longrightarrow> Contains model k \<Longrightarrow> length k \<le> length (best_key model ks)"
  using best_key_fold [of model "[]" ks] by (auto simp: best_key_def)

lemma best_key_member: "best_key model ks \<noteq> [] \<Longrightarrow> best_key model ks \<in> set ks \<and> Contains model (best_key model ks)"
  using best_key_fold [of model "[]" ks] by (auto simp: best_key_def)

text \<open>The entries whose key a model name contains.\<close>

definition candidates :: "Table \<Rightarrow> string \<Rightarrow> string set" where
  "candidates t model = {k \<in> fst ` set (t_Rates t). k \<noteq> [] \<and> Contains model k}"

lemma best_key_candidate:
  "candidates t model \<noteq> {} \<Longrightarrow> best_key model (map fst (t_Rates t)) \<in> candidates t model \<and>
     (\<forall>k\<in>candidates t model. length k \<le> length (best_key model (map fst (t_Rates t))))"
proof -
  let ?ks = "map fst (t_Rates t)" and ?b = "best_key model (map fst (t_Rates t))"
  assume "candidates t model \<noteq> {}"
  then obtain k where k: "k \<in> set ?ks" "k \<noteq> []" "Contains model k" by (auto simp: candidates_def)
  have "0 < length k" using k(2) by simp
  also have "length k \<le> length ?b" by (rule best_key_longest [OF k(1,3)])
  finally have "?b \<noteq> []" by simp
  from best_key_member [OF this] this have "?b \<in> candidates t model" by (simp add: candidates_def)
  moreover have "\<forall>k\<in>candidates t model. length k \<le> length ?b"
    using best_key_longest [of _ ?ks model] by (simp add: candidates_def)
  ultimately show ?thesis by blast
qed

text \<open>
  A price is the price of the model's own entry, else of a longest entry whose key the model name
  contains, else the default; a model that none of these covers stays unpriced.
\<close>

theorem lookup_prefers_longest:
  "(\<forall>r. map_of (t_Rates t) model = Some r \<longrightarrow> lookup t model = Some r) \<and>
   (map_of (t_Rates t) model = None \<and> candidates t model = {} \<longrightarrow> lookup t model = t_Default t) \<and>
   (map_of (t_Rates t) model = None \<and> candidates t model \<noteq> {} \<longrightarrow>
      (\<exists>k\<in>candidates t model. (\<forall>k'\<in>candidates t model. length k' \<le> length k) \<and>
         lookup t model = map_of (t_Rates t) k \<and> lookup t model \<noteq> None))"
proof (intro conjI impI allI)
  fix r assume "map_of (t_Rates t) model = Some r"
  then show "lookup t model = Some r" by (simp add: lookup_def)
next
  assume a: "map_of (t_Rates t) model = None \<and> candidates t model = {}"
  then have "best_key model (map fst (t_Rates t)) = []"
    using best_key_member [of model "map fst (t_Rates t)"] by (auto simp: candidates_def)
  with a show "lookup t model = t_Default t" by (simp add: lookup_def)
next
  let ?b = "best_key model (map fst (t_Rates t))"
  assume a: "map_of (t_Rates t) model = None \<and> candidates t model \<noteq> {}"
  then have b: "?b \<in> candidates t model" "\<forall>k\<in>candidates t model. length k \<le> length ?b"
    using best_key_candidate [of t model] by blast+
  then have ne: "?b \<noteq> []" "map_of (t_Rates t) ?b \<noteq> None" by (auto simp: candidates_def map_of_eq_None_iff)
  with a have "lookup t model = map_of (t_Rates t) ?b" by (simp add: lookup_def Let_def)
  with b ne show "\<exists>k\<in>candidates t model. (\<forall>k'\<in>candidates t model. length k' \<le> length k) \<and>
         lookup t model = map_of (t_Rates t) k \<and> lookup t model \<noteq> None" by metis
qed

definition sample_rates :: "real \<Rightarrow> Rates" where
  "sample_rates x = \<lparr>r_Input = x, r_Output = x, r_CacheWriteMult = 1, r_CacheReadMult = 1, r_CacheWriteMult1h = 0\<rparr>"

definition sample_table :: "string list \<Rightarrow> Table" where
  "sample_table ks = \<lparr>t_Version = ''v1'', t_Rates = zip ks [sample_rates 1, sample_rates 2], t_Default = None\<rparr>"

theorem lookup_prefers_longest_witness:
  "lookup (sample_table [''opus'', ''us'']) ''opus'' = Some (sample_rates 1)"
  using lookup_prefers_longest [of "sample_table [''opus'', ''us'']" "''opus''"] by (simp add: sample_table_def)

text \<open>
  Two entries of the same length that a model name contains make its price depend on the
  iteration order of a Go map: the same table, listed in two orders, prices the same turn differently.
\<close>

theorem price_depends_on_map_order:
  "\<exists>t t' m c. map_of (t_Rates t) = map_of (t_Rates t') \<and> t_Default t = t_Default t' \<and>
     Validate_Table t = None \<and> Validate_Table t' = None \<and> Cost t m c \<noteq> Cost t' m c"
proof -
  let ?t = "sample_table [''opus'', ''fast'']"
  let ?t' = "\<lparr>t_Version = ''v1'', t_Rates = [(''fast'', sample_rates 2), (''opus'', sample_rates 1)], t_Default = None\<rparr>"
  let ?c = "\<lparr>c_Input = 1000000, c_CacheWrite = 0, c_CacheRead = 0, c_Output = 0, c_TTLHint = []\<rparr>"
  have b: "best_key ''opus-fast'' [''opus'', ''fast''] = ''opus''"
    "best_key ''opus-fast'' [''fast'', ''opus''] = ''fast''" by code_simp+
  have "Cost ?t ''opus-fast'' ?c = Some 1" "Cost ?t' ''opus-fast'' ?c = Some 2"
    by (simp_all add: Cost_def lookup_def b sample_table_def sample_rates_def)
  moreover have "map_of (t_Rates ?t) = map_of (t_Rates ?t')" by (auto simp: sample_table_def)
  moreover have "Validate_Table ?t = None" "Validate_Table ?t' = None"
    by (simp_all add: Validate_Table_def sample_table_def sample_rates_def negative_rate_def)
  ultimately show ?thesis
    by (intro exI [of _ ?t] exI [of _ ?t'] exI [of _ "''opus-fast''"] exI [of _ ?c]) (simp add: sample_table_def)
qed

text \<open>
  A turn is never priced below zero by an entry of a validated table, whatever cache tier it used.
\<close>

theorem cost_nonnegative:
  assumes "Validate_Table t = None" "t_Default t = None" "Cost t model c = Some x"
    "0 \<le> c_Input c" "0 \<le> c_CacheWrite c" "0 \<le> c_CacheRead c" "0 \<le> c_Output c"
  shows "0 \<le> x"
proof -
  from assms(3) obtain r where r: "lookup t model = Some r" by (auto simp: Cost_def split: option.splits)
  with assms(2) have "\<exists>k. map_of (t_Rates t) k = Some r"
    by (auto simp: lookup_def Let_def split: option.splits if_splits)
  then have mem: "r \<in> snd ` set (t_Rates t)" by (force dest: map_of_SomeD)
  have "find (\<lambda>(_, r). negative_rate r) (t_Rates t) = None"
    using assms(1) by (auto simp: Validate_Table_def split: if_splits option.splits)
  then have "\<not> negative_rate r" using mem by (auto simp: find_None_iff)
  then have nn: "0 \<le> r_Input r" "0 \<le> r_Output r" "0 \<le> r_CacheReadMult r" "0 \<le> r_CacheWriteMult r"
    by (auto simp: negative_rate_def)
  show ?thesis using assms(3-7) r nn
    by (auto simp: Cost_def Let_def intro!: add_nonneg_nonneg mult_nonneg_nonneg)
qed

theorem cost_nonnegative_witness:
  "\<exists>x. Cost (sample_table [''opus'', ''us'']) ''opus''
     \<lparr>c_Input = 5, c_CacheWrite = 0, c_CacheRead = 0, c_Output = 7, c_TTLHint = []\<rparr> = Some x \<and> 0 \<le> x"
proof -
  let ?t = "sample_table [''opus'', ''us'']"
  let ?c = "\<lparr>c_Input = 5, c_CacheWrite = 0, c_CacheRead = 0, c_Output = 7, c_TTLHint = []\<rparr>"
  have v: "Validate_Table ?t = None" "t_Default ?t = None"
    by (simp_all add: Validate_Table_def sample_table_def sample_rates_def negative_rate_def)
  obtain x where x: "Cost ?t ''opus'' ?c = Some x"
    by (simp add: Cost_def lookup_def sample_table_def)
  from cost_nonnegative [OF v x] x show ?thesis by simp
qed

end
