(* ===== verification/Policy.thy ===== *)
theory Policy
  imports Config GoPath
begin

text \<open>
  Tool and repository policy (internal/gateway/policy.go): deny and allow rules, the salient argument
  they are matched against, auto-approval, the posture line and the forge repository allowlist. The
  JSON decoder of a tool input is the argument \<open>parse\<close>; it yields the object's fields, with
  strings told apart from every other value.
\<close>

datatype jval = JString string | JOther

type_synonym json_object = "string \<Rightarrow> jval gomap option"

subsection \<open>Rules\<close>

definition globMatch :: "string \<Rightarrow> string \<Rightarrow> bool" where
  "globMatch pattern s =
     (if pattern = [] then s = []
      else if pattern = ''*'' then True
      else (case CutSuffix pattern ''*'' of Some p \<Rightarrow> HasPrefix s p | None \<Rightarrow> False)
        \<or> Match pattern s = Some True
        \<or> pattern = s)"

definition open_paren :: char where "open_paren = CHR ''(''"

definition cutRule :: "string \<Rightarrow> string \<times> string \<times> bool" where
  "cutRule rule =
     (if open_paren \<notin> set rule \<or> \<not> HasSuffix rule '')'' then (rule, [], False)
      else let i = length (takeWhile (\<lambda>c. c \<noteq> open_paren) rule) in
        (TrimSpace (take i rule), drop (i + 1) (butlast rule), True))"

definition matchRule :: "string \<Rightarrow> string \<Rightarrow> string \<Rightarrow> bool" where
  "matchRule rule0 tool arg =
     (let rule = TrimSpace rule0 in
      if rule = [] then False
      else let (name, pattern, hasArgs) = cutRule rule in
        if \<not> globMatch name tool then False
        else if \<not> hasArgs then True
        else globMatch pattern arg)"

definition salient_keys :: "string list" where
  "salient_keys = [''command'', ''file_path'', ''path'', ''url'', ''pattern'', ''query'']"

fun first_string :: "jval gomap \<Rightarrow> string list \<Rightarrow> string option" where
  "first_string m [] = None"
| "first_string m (k # ks) =
     (case map_of m k of Some (JString s) \<Rightarrow> Some s | _ \<Rightarrow> first_string m ks)"

definition salientArg :: "json_object \<Rightarrow> string \<Rightarrow> string" where
  "salientArg parse input =
     (if input = [] then []
      else (case parse input of None \<Rightarrow> input
        | Some m \<Rightarrow> (case first_string m salient_keys of None \<Rightarrow> input | Some s \<Rightarrow> s)))"

fun first_rule :: "string list \<Rightarrow> string \<Rightarrow> string \<Rightarrow> string option" where
  "first_rule [] tool arg = None"
| "first_rule (rule # rules) tool arg = (if matchRule rule tool arg then Some rule else first_rule rules tool arg)"

definition MatchDeny :: "json_object \<Rightarrow> string list \<Rightarrow> string \<Rightarrow> string \<Rightarrow> string option" where
  "MatchDeny parse rules tool input = first_rule rules tool (salientArg parse input)"

definition SummarizeInput :: "json_object \<Rightarrow> string \<Rightarrow> string" where
  "SummarizeInput parse input = (let arg = salientArg parse input in if arg = [] then [] else arg)"

definition autoApprove :: "json_object \<Rightarrow> Runner option \<Rightarrow> string \<Rightarrow> string \<Rightarrow> string option" where
  "autoApprove parse rc tool input =
     (case rc of None \<Rightarrow> None
      | Some r \<Rightarrow> (case MatchDeny parse (Allow (r_Policy r)) tool input of
            Some rule \<Rightarrow> Some (''auto-approved by allow rule: '' @ rule)
          | None \<Rightarrow>
              if AutoApprove (r_Policy r) then Some ''auto-approved: this runner runs unattended'' else None))"

definition posture_sep :: string where
  "posture_sep = '' '' @ bytes [194, 183] @ '' ''"

definition PostureText :: "Runner option \<Rightarrow> string" where
  "PostureText rc =
     (case rc of None \<Rightarrow> ''unknown''
      | Some r \<Rightarrow> let p = r_Policy r in
          Join ((if AutoApprove p then [''unattended''] else [''prompting''])
            @ (if Allow p \<noteq> [] then [Itoa (int (length (Allow p))) @ '' allow''] else [])
            @ (if Deny p \<noteq> [] then [Itoa (int (length (Deny p))) @ '' deny'']
               else if AutoApprove p then [''*no deny rules*''] else [])
            @ (if Approvers p \<noteq> [] \<and> \<not> AutoApprove p
               then [Itoa (int (length (Approvers p))) @ '' approvers''] else [])) posture_sep)"

definition RepoAllowed :: "string list \<Rightarrow> string \<Rightarrow> bool" where
  "RepoAllowed allowed repo \<longleftrightarrow>
     (\<exists>a\<in>set allowed. EqualFold a repo \<or>
        (case CutSuffix a ''/*'' of None \<Rightarrow> False
         | Some p \<Rightarrow> (case Cut repo slash of (owner, _, found) \<Rightarrow> found \<and> EqualFold owner p)))"

subsection \<open>What rules match\<close>

lemma first_rule_Some: "first_rule rules tool arg = Some r \<Longrightarrow> r \<in> set rules \<and> matchRule r tool arg"
  by (induction rules) (auto split: if_splits)

lemma first_rule_None: "first_rule rules tool arg = None \<longleftrightarrow> (\<forall>r\<in>set rules. \<not> matchRule r tool arg)"
  by (induction rules) auto

lemma globMatch_prefix: "HasPrefix s p \<Longrightarrow> globMatch (p @ ''*'') s"
proof -
  assume "HasPrefix s p"
  moreover have "CutSuffix (p @ ''*'') ''*'' = Some p" by (simp add: CutSuffix_Some)
  ultimately show ?thesis by (simp add: globMatch_def)
qed

lemma globMatch_literal:
  "\<forall>c\<in>set p. literal_byte c \<Longrightarrow> globMatch p s \<longleftrightarrow> s = p"
proof -
  assume lit: "\<forall>c\<in>set p. literal_byte c"
  have star: "CHR ''*'' \<notin> set p" using lit by (auto simp: literal_byte_def)
  then have "p \<noteq> ''*''" by auto
  moreover have "CutSuffix p ''*'' = None"
  proof (cases "CutSuffix p ''*''")
    case (Some q)
    then have "p = q @ ''*''" by (simp add: CutSuffix_Some)
    with star show ?thesis by simp
  qed
  ultimately show ?thesis by (auto simp: globMatch_def Match_literal [OF lit])
qed

text \<open>A rule for a tool by name, and a rule with a prefix pattern.\<close>

lemma matchRule_tool:
  assumes "name \<noteq> []" "\<forall>c\<in>set name. graphic c \<and> literal_byte c \<and> c \<noteq> open_paren"
  shows "matchRule name tool arg \<longleftrightarrow> tool = name"
proof -
  have "TrimSpace name = name" using assms by (intro TrimSpace_graphic) auto
  moreover have "cutRule name = (name, [], False)" using assms by (auto simp: cutRule_def)
  moreover have "globMatch name tool \<longleftrightarrow> tool = name" using assms by (intro globMatch_literal) auto
  ultimately show ?thesis using assms(1) by (simp add: matchRule_def)
qed

lemma cutRule_call:
  assumes "\<forall>c\<in>set name. graphic c \<and> c \<noteq> open_paren" "name \<noteq> []"
  shows "cutRule (name @ open_paren # pat @ '')'') = (name, pat, True)"
proof -
  have t: "takeWhile (\<lambda>c. c \<noteq> open_paren) (name @ open_paren # pat @ '')'') = name"
    using assms by (auto simp: takeWhile_append)
  have "TrimSpace name = name" using assms by (intro TrimSpace_graphic) auto
  then show ?thesis unfolding cutRule_def t
    by (simp add: HasSuffix_iff suffix_def butlast_append)
qed

lemma matchRule_call:
  assumes "name \<noteq> []" "\<forall>c\<in>set name. graphic c \<and> literal_byte c \<and> c \<noteq> open_paren"
  shows "matchRule (name @ open_paren # pat @ '')'') tool arg \<longleftrightarrow> tool = name \<and> globMatch pat arg"
proof -
  let ?r = "name @ open_paren # pat @ '')''"
  have "TrimSpace ?r = ?r" using assms by (intro TrimSpace_graphic) (auto simp: graphic_def)
  moreover have "cutRule ?r = (name, pat, True)" using assms by (intro cutRule_call) auto
  moreover have "globMatch name tool \<longleftrightarrow> tool = name" using assms by (intro globMatch_literal) auto
  ultimately show ?thesis by (simp add: matchRule_def)
qed

text \<open>
  A deny rule \<open>Tool(prefix*)\<close> fires on every invocation of that tool whose salient argument
  starts with the prefix, slashes included, wherever it stands in the rule list.
\<close>

theorem prefix_rule_denies:
  assumes "name @ open_paren # pre @ ''*)'' \<in> set rules" "name \<noteq> []"
    "\<forall>c\<in>set name. graphic c \<and> literal_byte c \<and> c \<noteq> open_paren"
    "HasPrefix (salientArg parse input) pre"
  shows "\<exists>rule. MatchDeny parse rules name input = Some rule"
proof -
  have "matchRule (name @ open_paren # (pre @ ''*'') @ '')'') name (salientArg parse input)"
    using assms(2-4) globMatch_prefix by (subst matchRule_call) auto
  then have "first_rule rules name (salientArg parse input) \<noteq> None"
    using assms(1) by (auto simp: first_rule_None)
  then show ?thesis by (auto simp: MatchDeny_def)
qed

theorem prefix_rule_denies_witness:
  "\<exists>rule. MatchDeny (\<lambda>_. Some [(''command'', JString ''git push --force origin a/b'')])
     [''Bash(git push --force*)''] ''Bash'' ''{}'' = Some rule"
  by (rule prefix_rule_denies [where pre = "''git push --force''"])
    (simp_all add: open_paren_def graphic_def literal_byte_def backslash_def salientArg_def
      salient_keys_def HasPrefix_def)

text \<open>
  A rule with a wildcard on both sides does not match anywhere in the argument, although
  \<open>globMatch\<close> says it supports that: on an argument that starts with a slash it never matches, so
  a deny rule such as \<open>Bash(*rm -rf*)\<close> lets \<open>/bin/rm -rf x\<close> through.
\<close>

theorem infix_rule_misses_absolute_paths:
  assumes "lit \<noteq> []" "\<forall>c\<in>set lit. literal_byte c \<and> c \<noteq> slash"
  shows "\<not> globMatch (''*'' @ lit @ ''*'') (slash # rest)"
proof -
  let ?p = "''*'' @ lit @ ''*''" and ?s = "slash # rest"
  have lit: "\<forall>c\<in>set lit. literal_byte c" using assms(2) by blast
  obtain c cs where c: "lit = c # cs" "c \<noteq> CHR ''*''" "c \<noteq> slash"
    using assms by (cases lit) (auto simp: literal_byte_def)
  have sc: "scan_chunk False (lit @ ''*'') = (lit, ''*'')"
    using lit by (induction lit) (auto simp: literal_byte_def backslash_def)
  have scan: "scanChunk ?p = (True, lit, ''*'')" using c sc by (simp add: scanChunk_def backslash_def)
  have np: "\<not> prefix lit ?s" using c by simp
  have "match_chunk False lit ?s = Some ([], False)" using match_chunk_literal [OF lit] np by simp
  moreover have "search lit False ?s = NotFound" by simp
  moreover have "rest_result ''*'' = Some False"
  proof -
    have "scanChunk ''*'' = (True, [], [])" by (simp add: scanChunk_def)
    moreover have "match_chunk False [] [] = Some ([], True)" by (simp add: match_chunk.simps)
    ultimately show ?thesis by (simp add: rest_result_def valid_rest.simps)
  qed
  ultimately have "Match ?p ?s = Some False" using scan assms(1) by (subst Match.simps) simp
  moreover have "CutSuffix ?p ''*'' = Some (''*'' @ lit)" by (simp add: CutSuffix_Some)
  moreover have "\<not> HasPrefix ?s (''*'' @ lit)" by (simp add: HasPrefix_def slash_def)
  ultimately show ?thesis using c by (simp add: globMatch_def slash_def)
qed

theorem infix_rule_misses_absolute_paths_witness:
  "\<not> globMatch ''*rm -rf*'' ''/bin/rm -rf x''"
  using infix_rule_misses_absolute_paths [of "''rm -rf''" "''bin/rm -rf x''"]
  by (simp add: literal_byte_def slash_def backslash_def)

subsection \<open>Repositories\<close>

lemma lower_byte_slash: "lower_byte c = slash \<longleftrightarrow> c = slash"
proof
  assume "lower_byte c = slash"
  then have h: "(of_char (lower_byte c) :: nat) = 47" by (simp add: slash_def)
  show "c = slash"
  proof (cases "65 \<le> (of_char c :: nat) \<and> (of_char c :: nat) \<le> 90")
    case True
    with h show ?thesis by (simp add: lower_byte_def)
  next
    case False
    with \<open>lower_byte c = slash\<close> show ?thesis by (simp add: lower_byte_def Let_def split: if_splits)
  qed
qed (simp add: lower_byte_def slash_def)

lemma ToLower_owner: "ToLower (takeWhile (\<lambda>c. c \<noteq> slash) s) = takeWhile (\<lambda>c. c \<noteq> slash) (ToLower s)"
  by (induction s) (simp_all add: ToLower_def lower_byte_slash)

definition owner_of :: "string \<Rightarrow> string" where
  "owner_of repo = fst (Cut repo slash)"

lemma EqualFold_owner: "EqualFold a b \<Longrightarrow> EqualFold (owner_of a) (owner_of b)"
  by (simp add: EqualFold_def owner_of_def Cut_def ToLower_owner)

text \<open>
  A runner's forge allowlist never lets it out of the owners it names: a repository is permitted
  only if its owner is, case aside, the owner of a listed entry; an empty list permits nothing.
\<close>

theorem repo_allowed_same_owner:
  assumes "RepoAllowed allowed repo" "\<forall>a\<in>set allowed. CountByte a slash = 1"
  shows "\<exists>a\<in>set allowed. EqualFold (owner_of repo) (owner_of a)"
proof -
  from assms(1) obtain a where a: "a \<in> set allowed" and
    "EqualFold a repo \<or> (case CutSuffix a ''/*'' of None \<Rightarrow> False
         | Some p \<Rightarrow> (case Cut repo slash of (owner, _, found) \<Rightarrow> found \<and> EqualFold owner p))"
    unfolding RepoAllowed_def by blast
  then have d: "EqualFold a repo \<or> (\<exists>p. CutSuffix a ''/*'' = Some p \<and> EqualFold (owner_of repo) p)"
    by (cases "Cut repo slash"; cases "CutSuffix a ''/*''") (auto simp: owner_of_def)
  from d have "EqualFold (owner_of repo) (owner_of a)"
  proof
    assume "EqualFold a repo"
    then show ?thesis using EqualFold_owner EqualFold_sym by blast
  next
    assume "\<exists>p. CutSuffix a ''/*'' = Some p \<and> EqualFold (owner_of repo) p"
    then obtain p where p: "a = p @ ''/*''" "EqualFold (owner_of repo) p" by (auto simp: CutSuffix_Some)
    have "CountByte a slash = 1" using assms(2) a by blast
    then have "slash \<notin> set p" by (auto simp: p(1) CountByte_def slash_def filter_empty_conv)
    then have "owner_of a = p" using Cut_append [of slash p "''*''"] by (simp add: owner_of_def p(1) slash_def)
    with p(2) show ?thesis by simp
  qed
  with a show ?thesis by blast
qed

theorem repo_allowed_same_owner_witness:
  "\<exists>a\<in>set [''Acme/*'']. EqualFold (owner_of ''acme/site'') (owner_of a)"
proof (rule repo_allowed_same_owner)
  show "RepoAllowed [''Acme/*''] ''acme/site''" by code_simp
qed (simp add: slash_def CountByte_def)

end
