(* ===== verification/Grants.thy ===== *)
theory Grants
  imports Prelude
begin

text \<open>
  Session grants (internal/gateway/grants.go): what a person approved for the rest of a thread's
  session. The time a grant was issued is an argument of \<open>Grant\<close>.
\<close>

record sessionGrant =
  sg_Tool :: string
  sg_By :: string
  sg_Granted :: int

type_synonym grantStore = "sessionGrant gomap gomap"

definition newGrantStore :: grantStore where
  "newGrantStore = []"

definition Grant :: "int \<Rightarrow> string \<Rightarrow> string \<Rightarrow> string \<Rightarrow> grantStore \<Rightarrow> grantStore" where
  "Grant now threadID tool by_user g =
     (if threadID = [] \<or> tool = [] then g
      else put threadID
        (put tool \<lparr>sg_Tool = tool, sg_By = by_user, sg_Granted = now\<rparr> (get_or [] g threadID)) g)"

definition Held :: "grantStore \<Rightarrow> string \<Rightarrow> string \<Rightarrow> sessionGrant option" where
  "Held g threadID tool = (case map_of g threadID of None \<Rightarrow> None | Some byTool \<Rightarrow> map_of byTool tool)"

definition Clear :: "string \<Rightarrow> grantStore \<Rightarrow> grantStore \<times> nat" where
  "Clear threadID g = (del threadID g, length (get_or [] g threadID))"

definition Tools :: "grantStore \<Rightarrow> string \<Rightarrow> string list" where
  "Tools g threadID = map fst (get_or [] g threadID)"

lemma Held_new [simp]: "Held newGrantStore t tool = None"
  by (simp add: Held_def newGrantStore_def)

lemma Held_Grant:
  "Held (Grant now t tool u g) t' tool' =
     (if t \<noteq> [] \<and> tool \<noteq> [] \<and> t' = t \<and> tool' = tool
      then Some \<lparr>sg_Tool = tool, sg_By = u, sg_Granted = now\<rparr> else Held g t' tool')"
  by (auto simp: Held_def Grant_def get_or_def split: option.splits)

lemma Held_Clear: "Held (fst (Clear t g)) t' tool = (if t' = t then None else Held g t' tool)"
  by (simp add: Held_def Clear_def)

lemma Tools_Held: "tool \<in> set (Tools g t) \<longleftrightarrow> Held g t tool \<noteq> None"
  by (cases "map_of g t") (simp_all add: Tools_def Held_def get_or_def has_key_iff [symmetric] has_key_def)

text \<open>The calls the gateway makes, in the order it makes them.\<close>

datatype grant_op = OGrant int string string string | OClear string

text \<open>What the permission path relies on, whatever keeps the grants.\<close>

locale session_grants =
  fixes grant :: "int \<Rightarrow> string \<Rightarrow> string \<Rightarrow> string \<Rightarrow> 'g \<Rightarrow> 'g"
    and is_held :: "'g \<Rightarrow> string \<Rightarrow> string \<Rightarrow> sessionGrant option"
    and clear :: "string \<Rightarrow> 'g \<Rightarrow> 'g"
    and fresh :: 'g
  assumes held_fresh: "is_held fresh t tool = None"
    and held_grant: "is_held (grant now t tool u g) t' tool' =
      (if t \<noteq> [] \<and> tool \<noteq> [] \<and> t' = t \<and> tool' = tool
       then Some \<lparr>sg_Tool = tool, sg_By = u, sg_Granted = now\<rparr> else is_held g t' tool')"
    and held_clear: "is_held (clear t g) t' tool = (if t' = t then None else is_held g t' tool)"
begin

definition perform :: "grant_op \<Rightarrow> 'g \<Rightarrow> 'g" where
  "perform x g = (case x of OGrant now t tool u \<Rightarrow> grant now t tool u g | OClear t \<Rightarrow> clear t g)"

lemma perform_simps:
  "perform (OGrant now t tool u) g = grant now t tool u g" "perform (OClear t) g = clear t g"
  by (simp_all add: perform_def)

lemma held_run:
  "is_held (fold perform ops fresh) t tool = Some gr \<Longrightarrow>
     \<exists>before after. ops = before @ OGrant (sg_Granted gr) t tool (sg_By gr) # after \<and> OClear t \<notin> set after"
proof (induction ops rule: rev_induct)
  case Nil
  then show ?case by (simp add: held_fresh)
next
  case (snoc x ops)
  let ?g = "fold perform ops fresh"
  consider (this_one) now where "x = OGrant now t tool (sg_By gr)" "sg_Granted gr = now"
    | (earlier) "is_held ?g t tool = Some gr" "x \<noteq> OClear t"
    using snoc.prems by (cases x) (auto simp: perform_simps held_grant held_clear split: if_splits)
  then show ?case
  proof cases
    case this_one
    then have "ops @ [x] = ops @ OGrant (sg_Granted gr) t tool (sg_By gr) # []" "OClear t \<notin> set []"
      by auto
    then show ?thesis by blast
  next
    case earlier
    from snoc.IH [OF earlier(1)] obtain before after where
      "ops = before @ OGrant (sg_Granted gr) t tool (sg_By gr) # after" "OClear t \<notin> set after" by blast
    with earlier(2) have "ops @ [x] = before @ OGrant (sg_Granted gr) t tool (sg_By gr) # (after @ [x])"
      "OClear t \<notin> set (after @ [x])" by auto
    then show ?thesis by blast
  qed
qed

end

interpretation gs: session_grants Grant Held "\<lambda>t g. fst (Clear t g)" newGrantStore
  by unfold_locales (simp_all add: Held_Grant Held_Clear)

definition grant_step :: "grant_op \<Rightarrow> grantStore \<Rightarrow> grantStore" where
  "grant_step x g = (case x of OGrant now t tool u \<Rightarrow> Grant now t tool u g | OClear t \<Rightarrow> fst (Clear t g))"

lemma grant_step_perform: "gs.perform = grant_step"
  by (intro ext) (simp add: gs.perform_def grant_step_def split: grant_op.split)

text \<open>
  A session grant never appears on its own, spreads, or outlives its session: whatever the gateway
  did since it started, a tool held in a thread was granted in that very thread, for that very tool, by
  the person the grant names, and the thread has not been cleared since.
\<close>

theorem grant_was_issued:
  assumes "Held (fold grant_step ops newGrantStore) t tool = Some gr"
  shows "\<exists>before after. ops = before @ OGrant (sg_Granted gr) t tool (sg_By gr) # after \<and> OClear t \<notin> set after"
  using gs.held_run [of ops t tool gr] assms by (simp add: grant_step_perform)

theorem grant_was_issued_witness:
  "\<exists>before after. [OClear ''t'', OGrant 7 ''t'' ''Bash'' ''U1''] = before @ OGrant 7 ''t'' ''Bash'' ''U1'' # after \<and>
     OClear ''t'' \<notin> set after"
  using grant_was_issued [of "[OClear ''t'', OGrant 7 ''t'' ''Bash'' ''U1'']" "''t''" "''Bash''"
      "\<lparr>sg_Tool = ''Bash'', sg_By = ''U1'', sg_Granted = 7\<rparr>"]
  by (simp add: grant_step_def Held_Grant)

end
