(* ===== verification/Store.thy ===== *)
theory Store
  imports Complex_Main Prelude Version
begin

text \<open>
  The gateway's durable state (internal/store/store.go over schema.sql). A table with a text primary
  key is a map from the key to the row, an AUTOINCREMENT table is a list in insertion order with the
  next id. SQL NULL and the empty string are both \<open>[]\<close>, as the readers coalesce them. The
  clock is an argument. A statement fails here only for a duplicate primary key; failures of the
  database itself are the caller's environment.
\<close>

subsection \<open>Rows\<close>

record Thread =
  tr_ID :: string
  tr_Surface :: string
  tr_Channel :: string
  tr_Runner :: string
  tr_SessionID :: string
  tr_BundleVersion :: int
  tr_Stale :: bool
  tr_CreatedAt :: string
  tr_LastActivityAt :: string

datatype TurnStatus = TurnRunning | TurnDone | TurnError

record Usage =
  u_Model :: string
  u_InputTokens :: int
  u_CacheWriteTokens :: int
  u_CacheReadTokens :: int
  u_OutputTokens :: int
  u_TTLHint :: string
  u_Known :: bool
  u_ComputedUSD :: "real option"
  u_ReportedUSD :: "real option"
  u_PriceTableVer :: string

record Turn =
  tn_ThreadID :: string
  tn_Channel :: string
  tn_Runner :: string
  tn_SurfaceUser :: string
  tn_Status :: TurnStatus
  tn_Error :: string
  tn_StartedAt :: string
  tn_EndedAt :: string
  tn_DurationMS :: int
  tn_NumToolCalls :: int
  tn_Usage :: Usage

record Event =
  ev_Kind :: string
  ev_Runner :: string
  ev_ThreadID :: string
  ev_TurnID :: string
  ev_SurfaceUser :: string
  ev_Detail :: "(string \<times> string) list"

record PermissionRow =
  pm_ThreadID :: string
  pm_TurnID :: string
  pm_Runner :: string
  pm_Tool :: string
  pm_Input :: string
  pm_Decision :: string
  pm_DecidedBy :: string
  pm_Reason :: string
  pm_PolicyDenied :: bool

record BlobRecord =
  bl_ID :: string
  bl_Direction :: string
  bl_ThreadID :: string
  bl_TurnID :: string
  bl_Runner :: string
  bl_Name :: string
  bl_Mime :: string
  bl_Size :: int
  bl_SHA256 :: string
  bl_SurfaceUser :: string
  bl_OK :: bool
  bl_Error :: string

record CredentialRecord =
  cr_RequestID :: string
  cr_Runner :: string
  cr_Kind :: string
  cr_Resource :: string
  cr_ThreadID :: string
  cr_TurnID :: string
  cr_SurfaceUser :: string
  cr_Granted :: bool
  cr_Reason :: string
  cr_ExpiresAt :: "int option"

record MCPRecord =
  mq_CallID :: string
  mq_Runner :: string
  mq_ThreadID :: string
  mq_TurnID :: string
  mq_SurfaceUser :: string
  mq_Server :: string
  mq_Tool :: string
  mq_Args :: string
  mq_OK :: bool
  mq_Error :: string
  mq_DurationMS :: int

record QueuedMessage =
  qm_ID :: nat
  qm_Runner :: string
  qm_ThreadID :: string
  qm_Frame :: string

record Store =
  Threads :: "Thread gomap"
  Turns :: "Turn gomap"
  Events :: "Event list"
  Permissions :: "PermissionRow gomap"
  Blobs :: "BlobRecord gomap"
  Credentials :: "CredentialRecord gomap"
  MCPCalls :: "MCPRecord gomap"
  Queue :: "QueuedMessage list"
  NextQueueID :: nat

definition Open :: Store where
  "Open = \<lparr>Threads = [], Turns = [], Events = [], Permissions = [], Blobs = [], Credentials = [],
     MCPCalls = [], Queue = [], NextQueueID = 1\<rparr>"

subsection \<open>Threads\<close>

definition update_thread :: "string \<Rightarrow> (Thread \<Rightarrow> Thread) \<Rightarrow> Store \<Rightarrow> Store" where
  "update_thread i f s = s\<lparr>Threads := map (\<lambda>(k, t). (k, if k = i then f t else t)) (Threads s)\<rparr>"

definition ThreadRow :: "Store \<Rightarrow> string \<Rightarrow> Thread option" where
  "ThreadRow s i = map_of (Threads s) i"

definition BindThread :: "string \<Rightarrow> string \<Rightarrow> string \<Rightarrow> string \<Rightarrow> string \<Rightarrow> Store \<Rightarrow> Store \<times> Thread \<times> bool" where
  "BindThread now i surf channel runner s =
     (case ThreadRow s i of
        Some t \<Rightarrow> (s, t, False)
      | None \<Rightarrow>
          let t = \<lparr>tr_ID = i, tr_Surface = surf, tr_Channel = channel, tr_Runner = runner,
                   tr_SessionID = [], tr_BundleVersion = 0, tr_Stale = False,
                   tr_CreatedAt = now, tr_LastActivityAt = now\<rparr>
          in (s\<lparr>Threads := put i t (Threads s)\<rparr>, t, True))"

definition TouchThread :: "string \<Rightarrow> string \<Rightarrow> Store \<Rightarrow> Store" where
  "TouchThread now i = update_thread i (\<lambda>t. t\<lparr>tr_LastActivityAt := now\<rparr>)"

definition SetThreadSession :: "string \<Rightarrow> string \<Rightarrow> Store \<Rightarrow> Store" where
  "SetThreadSession i sid = update_thread i (\<lambda>t. t\<lparr>tr_SessionID := sid\<rparr>)"

definition RebindThread :: "string \<Rightarrow> string \<Rightarrow> Store \<Rightarrow> Store" where
  "RebindThread i runner =
     update_thread i (\<lambda>t. t\<lparr>tr_Runner := runner, tr_SessionID := [], tr_Stale := False\<rparr>)"

definition ClearSession :: "string \<Rightarrow> Store \<Rightarrow> Store" where
  "ClearSession i = update_thread i (\<lambda>t. t\<lparr>tr_SessionID := [], tr_Stale := False\<rparr>)"

definition is_outdated :: "string \<Rightarrow> int \<Rightarrow> Thread \<Rightarrow> bool" where
  "is_outdated runner version t \<longleftrightarrow> tr_Runner t = runner \<and> tr_BundleVersion t < version \<and> \<not> tr_Stale t"

definition MarkRunnerThreadsStale :: "string \<Rightarrow> int \<Rightarrow> Store \<Rightarrow> Store \<times> nat" where
  "MarkRunnerThreadsStale runner version s =
     (s\<lparr>Threads := map (\<lambda>(k, t). (k, if is_outdated runner version t then t\<lparr>tr_Stale := True\<rparr> else t)) (Threads s)\<rparr>,
      length (filter (\<lambda>(_, t). is_outdated runner version t) (Threads s)))"

definition SetThreadBundleVersion :: "string \<Rightarrow> int \<Rightarrow> Store \<Rightarrow> Store" where
  "SetThreadBundleVersion i version =
     update_thread i (\<lambda>t. t\<lparr>tr_BundleVersion := version, tr_Stale := False\<rparr>)"

subsection \<open>Turns\<close>

definition no_usage :: Usage where
  "no_usage = \<lparr>u_Model = [], u_InputTokens = 0, u_CacheWriteTokens = 0, u_CacheReadTokens = 0,
     u_OutputTokens = 0, u_TTLHint = [], u_Known = False, u_ComputedUSD = None, u_ReportedUSD = None,
     u_PriceTableVer = []\<rparr>"

definition update_turn :: "string \<Rightarrow> (Turn \<Rightarrow> Turn) \<Rightarrow> Store \<Rightarrow> Store" where
  "update_turn i f s = s\<lparr>Turns := map (\<lambda>(k, t). (k, if k = i then f t else t)) (Turns s)\<rparr>"

text \<open>\<open>None\<close> is the duplicate key.\<close>

definition StartTurn ::
  "string \<Rightarrow> string \<Rightarrow> string \<Rightarrow> string \<Rightarrow> string \<Rightarrow> string \<Rightarrow> Store \<Rightarrow> Store option" where
  "StartTurn now i thread channel runner user s =
     (if has_key (Turns s) i then None
      else Some (s\<lparr>Turns := put i
          \<lparr>tn_ThreadID = thread, tn_Channel = channel, tn_Runner = runner, tn_SurfaceUser = user,
           tn_Status = TurnRunning, tn_Error = [], tn_StartedAt = now, tn_EndedAt = [],
           tn_DurationMS = 0, tn_NumToolCalls = 0, tn_Usage = no_usage\<rparr> (Turns s)\<rparr>))"

definition RecordUsage :: "string \<Rightarrow> Usage \<Rightarrow> Store \<Rightarrow> Store" where
  "RecordUsage i u = update_turn i (\<lambda>t. t\<lparr>tn_Usage := u\<rparr>)"

definition FinishTurn :: "string \<Rightarrow> string \<Rightarrow> TurnStatus \<Rightarrow> string \<Rightarrow> int \<Rightarrow> int \<Rightarrow> Store \<Rightarrow> Store" where
  "FinishTurn now i status msg duration calls =
     update_turn i (\<lambda>t. t\<lparr>tn_Status := status, tn_Error := msg, tn_EndedAt := now,
        tn_DurationMS := duration, tn_NumToolCalls := calls\<rparr>)"

definition fail_open :: "string \<Rightarrow> string \<Rightarrow> Turn \<Rightarrow> Turn" where
  "fail_open now reason t = (if tn_Status t = TurnRunning
     then t\<lparr>tn_Status := TurnError, tn_Error := reason, tn_EndedAt := now\<rparr> else t)"

definition FailOpenTurns :: "string \<Rightarrow> string \<Rightarrow> Store \<Rightarrow> Store \<times> nat" where
  "FailOpenTurns now reason s =
     (s\<lparr>Turns := map (\<lambda>(k, t). (k, fail_open now reason t)) (Turns s)\<rparr>,
      length (filter (\<lambda>(_, t). tn_Status t = TurnRunning) (Turns s)))"

definition IncrementToolCalls :: "string \<Rightarrow> Store \<Rightarrow> Store" where
  "IncrementToolCalls i = update_turn i (\<lambda>t. t\<lparr>tn_NumToolCalls := tn_NumToolCalls t + 1\<rparr>)"

subsection \<open>Audit\<close>

definition Log :: "Event \<Rightarrow> Store \<Rightarrow> Store" where
  "Log e s = s\<lparr>Events := Events s @ [e]\<rparr>"

definition RecordPermissionRequest ::
  "string \<Rightarrow> string \<Rightarrow> string \<Rightarrow> string \<Rightarrow> string \<Rightarrow> string \<Rightarrow> Store \<Rightarrow> Store option" where
  "RecordPermissionRequest request thread turn runner tool input s =
     (if has_key (Permissions s) request then None
      else Some (s\<lparr>Permissions := put request
          \<lparr>pm_ThreadID = thread, pm_TurnID = turn, pm_Runner = runner, pm_Tool = tool, pm_Input = input,
           pm_Decision = [], pm_DecidedBy = [], pm_Reason = [], pm_PolicyDenied = False\<rparr> (Permissions s)\<rparr>))"

definition RecordPermissionDecision ::
  "string \<Rightarrow> string \<Rightarrow> string \<Rightarrow> string \<Rightarrow> bool \<Rightarrow> Store \<Rightarrow> Store" where
  "RecordPermissionDecision request decision decidedBy reason policyDenied s =
     s\<lparr>Permissions := map (\<lambda>(k, p). (k, if k = request
        then p\<lparr>pm_Decision := decision, pm_DecidedBy := decidedBy, pm_Reason := reason,
               pm_PolicyDenied := policyDenied\<rparr> else p)) (Permissions s)\<rparr>"

text \<open>\<open>ON CONFLICT DO UPDATE\<close>: a second record for the same id updates the outcome only.\<close>

definition RecordBlob :: "BlobRecord \<Rightarrow> Store \<Rightarrow> Store" where
  "RecordBlob b s = s\<lparr>Blobs :=
     (case map_of (Blobs s) (bl_ID b) of
        None \<Rightarrow> put (bl_ID b) b (Blobs s)
      | Some old \<Rightarrow> put (bl_ID b) (old\<lparr>bl_OK := bl_OK b, bl_Error := bl_Error b\<rparr>) (Blobs s))\<rparr>"

definition RecordCredential :: "CredentialRecord \<Rightarrow> Store \<Rightarrow> Store option" where
  "RecordCredential c s =
     (if has_key (Credentials s) (cr_RequestID c) then None
      else Some (s\<lparr>Credentials := put (cr_RequestID c) c (Credentials s)\<rparr>))"

definition RecordMCPCall :: "MCPRecord \<Rightarrow> Store \<Rightarrow> Store" where
  "RecordMCPCall m s = s\<lparr>MCPCalls :=
     (case map_of (MCPCalls s) (mq_CallID m) of
        None \<Rightarrow> put (mq_CallID m) m (MCPCalls s)
      | Some old \<Rightarrow> put (mq_CallID m)
          (old\<lparr>mq_OK := mq_OK m, mq_Error := mq_Error m, mq_DurationMS := mq_DurationMS m\<rparr>) (MCPCalls s))\<rparr>"

subsection \<open>Offline queue\<close>

definition Enqueue :: "string \<Rightarrow> string \<Rightarrow> string \<Rightarrow> Store \<Rightarrow> Store" where
  "Enqueue runner thread frame s =
     s\<lparr>Queue := Queue s @ [\<lparr>qm_ID = NextQueueID s, qm_Runner = runner, qm_ThreadID = thread, qm_Frame = frame\<rparr>],
       NextQueueID := NextQueueID s + 1\<rparr>"

definition Dequeue :: "Store \<Rightarrow> string \<Rightarrow> nat \<Rightarrow> QueuedMessage list" where
  "Dequeue s runner limit = take limit (filter (\<lambda>m. qm_Runner m = runner) (Queue s))"

definition DeleteQueued :: "nat \<Rightarrow> Store \<Rightarrow> Store" where
  "DeleteQueued i s = s\<lparr>Queue := filter (\<lambda>m. qm_ID m \<noteq> i) (Queue s)\<rparr>"

definition PurgeQueue :: "string \<Rightarrow> Store \<Rightarrow> Store \<times> nat" where
  "PurgeQueue runner s =
     (s\<lparr>Queue := filter (\<lambda>m. qm_Runner m \<noteq> runner) (Queue s)\<rparr>,
      length (filter (\<lambda>m. qm_Runner m = runner) (Queue s)))"

definition QueueDepth :: "Store \<Rightarrow> string \<Rightarrow> nat" where
  "QueueDepth s runner = length (filter (\<lambda>m. qm_Runner m = runner) (Queue s))"

subsection \<open>Bindings\<close>

lemma map_of_map_upd:
  "map_of (map (\<lambda>(k, t). (k, if k = i then f t else t)) m) j =
     (if j = i then map_option f (map_of m j) else map_of m j)"
  by (induction m) auto

lemma ThreadRow_update: "ThreadRow (update_thread i f s) j = (if j = i then map_option f (ThreadRow s j) else ThreadRow s j)"
  by (simp add: update_thread_def ThreadRow_def map_of_map_upd)

lemma ThreadRow_BindThread:
  "ThreadRow (fst (BindThread now i surf ch r s)) j =
     (if j = i \<and> ThreadRow s i = None then Some (fst (snd (BindThread now i surf ch r s))) else ThreadRow s j)"
  by (auto simp: BindThread_def ThreadRow_def Let_def split: option.splits)

lemma ThreadRow_Mark:
  "ThreadRow (fst (MarkRunnerThreadsStale r v s)) j =
     map_option (\<lambda>t. if is_outdated r v t then t\<lparr>tr_Stale := True\<rparr> else t) (ThreadRow s j)"
proof -
  have "map_of (map (\<lambda>(k, t). (k, if is_outdated r v t then t\<lparr>tr_Stale := True\<rparr> else t)) m) j =
      map_option (\<lambda>t. if is_outdated r v t then t\<lparr>tr_Stale := True\<rparr> else t) (map_of m j)" for m
    by (induction m) auto
  then show ?thesis by (simp add: MarkRunnerThreadsStale_def ThreadRow_def)
qed

text \<open>The statements the gateway issues on the thread table.\<close>

datatype thread_op =
    OBind string string string string string | OTouch string string | OSession string string
  | ORebind string string | OClearSession string | OStale string int | OBundle string int

fun thread_step :: "thread_op \<Rightarrow> Store \<Rightarrow> Store" where
  "thread_step (OBind now i surf ch r) s = fst (BindThread now i surf ch r s)"
| "thread_step (OTouch now i) s = TouchThread now i s"
| "thread_step (OSession i sid) s = SetThreadSession i sid s"
| "thread_step (ORebind i r) s = RebindThread i r s"
| "thread_step (OClearSession i) s = ClearSession i s"
| "thread_step (OStale r v) s = fst (MarkRunnerThreadsStale r v s)"
| "thread_step (OBundle i v) s = SetThreadBundleVersion i v s"

lemmas thread_ops = TouchThread_def SetThreadSession_def RebindThread_def ClearSession_def
  SetThreadBundleVersion_def ThreadRow_update

lemma thread_step_runner:
  assumes "ThreadRow s i = Some t" "\<forall>r. x \<noteq> ORebind i r"
  shows "\<exists>t'. ThreadRow (thread_step x s) i = Some t' \<and> tr_Runner t' = tr_Runner t"
  using assms by (cases x) (auto simp: thread_ops ThreadRow_BindThread ThreadRow_Mark)

text \<open>
  C35. A thread's runner is sticky: once bound, no sequence of the store's operations moves it to another
  runner, later bindings included, unless the thread is explicitly rebound.
\<close>

theorem binding_is_sticky:
  assumes "ThreadRow s i = Some t" "\<forall>r. ORebind i r \<notin> set ops"
  shows "\<exists>t'. ThreadRow (fold thread_step ops s) i = Some t' \<and> tr_Runner t' = tr_Runner t"
  using assms
proof (induction ops arbitrary: s t)
  case (Cons x ops)
  from Cons.prems thread_step_runner [of s i t x] obtain t' where
    "ThreadRow (thread_step x s) i = Some t'" "tr_Runner t' = tr_Runner t" by auto
  with Cons.IH [of "thread_step x s" t'] Cons.prems(2) show ?case by simp
qed simp

theorem binding_is_sticky_witness:
  "\<exists>t'. ThreadRow (fold thread_step [OBind ''n2'' ''k'' ''slack'' ''C2'' ''other'', OStale ''box'' 3]
     (fst (BindThread ''n1'' ''k'' ''slack'' ''C1'' ''box'' Open))) ''k'' = Some t' \<and> tr_Runner t' = ''box''"
proof -
  have "ThreadRow (fst (BindThread ''n1'' ''k'' ''slack'' ''C1'' ''box'' Open)) ''k'' =
      Some (fst (snd (BindThread ''n1'' ''k'' ''slack'' ''C1'' ''box'' Open)))"
    by (simp add: BindThread_def Open_def ThreadRow_def Let_def)
  from binding_is_sticky [OF this, of "[OBind ''n2'' ''k'' ''slack'' ''C2'' ''other'', OStale ''box'' 3]"]
  show ?thesis by (simp add: BindThread_def ThreadRow_def Open_def Let_def)
qed

subsection \<open>Turns\<close>

definition TurnRow :: "Store \<Rightarrow> string \<Rightarrow> Turn option" where
  "TurnRow s i = map_of (Turns s) i"

lemma TurnRow_update: "TurnRow (update_turn i f s) j = (if j = i then map_option f (TurnRow s j) else TurnRow s j)"
  by (simp add: update_turn_def TurnRow_def map_of_map_upd)

lemma TurnRow_StartTurn:
  "StartTurn now i th ch r u s = Some s' \<Longrightarrow> TurnRow s i = None \<and> (\<forall>j. j \<noteq> i \<longrightarrow> TurnRow s' j = TurnRow s j) \<and>
     (\<exists>t. TurnRow s' i = Some t \<and> tn_Status t = TurnRunning \<and> tn_ThreadID t = th \<and> tn_Runner t = r)"
  by (auto simp: StartTurn_def TurnRow_def has_key_def split: if_splits)

lemma TurnRow_FailOpen:
  "TurnRow (fst (FailOpenTurns now reason s)) j = map_option (fail_open now reason) (TurnRow s j)"
proof -
  have "map_of (map (\<lambda>(k, t). (k, fail_open now reason t)) m) j = map_option (fail_open now reason) (map_of m j)" for m
    by (induction m) auto
  then show ?thesis by (simp add: FailOpenTurns_def TurnRow_def)
qed

lemma fail_open_status: "tn_Status (fail_open now reason t) \<noteq> TurnRunning"
  "tn_Status t \<noteq> TurnRunning \<Longrightarrow> fail_open now reason t = t"
  by (simp_all add: fail_open_def)

text \<open>
  After the startup clean-up no turn is left running, the turns that had finished keep their record
  untouched, and the number reported is the number of turns that were running.
\<close>

theorem startup_closes_running_turns:
  "(\<forall>i t. TurnRow (fst (FailOpenTurns now reason s)) i = Some t \<longrightarrow> tn_Status t \<noteq> TurnRunning) \<and>
   (\<forall>i t. TurnRow s i = Some t \<and> tn_Status t \<noteq> TurnRunning \<longrightarrow>
      TurnRow (fst (FailOpenTurns now reason s)) i = Some t) \<and>
   snd (FailOpenTurns now reason s) = length (filter (\<lambda>t. tn_Status t = TurnRunning) (map snd (Turns s)))"
proof -
  have "length (filter (\<lambda>(_, t). tn_Status t = TurnRunning) m) =
      length (filter (\<lambda>t. tn_Status t = TurnRunning) (map snd m))" for m :: "Turn gomap"
    by (induction m) auto
  then have n: "snd (FailOpenTurns now reason s) = length (filter (\<lambda>t. tn_Status t = TurnRunning) (map snd (Turns s)))"
    by (simp only: FailOpenTurns_def snd_conv)
  have "tn_Status t \<noteq> TurnRunning" if "TurnRow (fst (FailOpenTurns now reason s)) i = Some t" for i t
    using that fail_open_status(1) by (auto simp: TurnRow_FailOpen)
  moreover have "TurnRow (fst (FailOpenTurns now reason s)) i = Some t"
    if "TurnRow s i = Some t \<and> tn_Status t \<noteq> TurnRunning" for i t
    using that fail_open_status(2) by (simp add: TurnRow_FailOpen)
  ultimately show ?thesis using n by blast
qed

theorem startup_closes_running_turns_witness:
  "\<exists>s'. StartTurn ''now'' ''t1'' ''k'' ''C'' ''box'' ''U'' Open = Some s' \<and>
     (\<forall>t. TurnRow (fst (FailOpenTurns ''later'' ''restart'' s')) ''t1'' = Some t \<longrightarrow> tn_Status t \<noteq> TurnRunning)"
proof -
  obtain s' where "StartTurn ''now'' ''t1'' ''k'' ''C'' ''box'' ''U'' Open = Some s'"
    by (simp add: StartTurn_def Open_def has_key_def)
  with startup_closes_running_turns [of "''later''" "''restart''" s'] show ?thesis by blast
qed

subsection \<open>The offline queue as an interface\<close>

text \<open>
  What draining relies on: per runner, the queue is a sequence of identified messages that grows at the
  end and from which the head can be removed.
\<close>

locale offline_queue =
  fixes enqueue :: "string \<Rightarrow> string \<Rightarrow> string \<Rightarrow> 'q \<Rightarrow> 'q"
    and dequeue :: "'q \<Rightarrow> string \<Rightarrow> nat \<Rightarrow> QueuedMessage list"
    and delete :: "nat \<Rightarrow> 'q \<Rightarrow> 'q"
    and pending :: "'q \<Rightarrow> string \<Rightarrow> QueuedMessage list"
    and ok :: "'q \<Rightarrow> bool"
  assumes dequeue_pending: "dequeue q r n = take n (pending q r)"
    and ok_enqueue: "ok q \<Longrightarrow> ok (enqueue r t f q)"
    and ok_delete: "ok q \<Longrightarrow> ok (delete i q)"
    and pending_enqueue: "map qm_Frame (pending (enqueue r t f q) r') =
      map qm_Frame (pending q r') @ (if r' = r then [f] else [])"
    and pending_delete: "pending (delete i q) r = filter (\<lambda>m. qm_ID m \<noteq> i) (pending q r)"
    and ids_distinct: "ok q \<Longrightarrow> distinct (map qm_ID (pending q r))"
    and ids_apart: "ok q \<Longrightarrow> m \<in> set (pending q r) \<Longrightarrow> m' \<in> set (pending q r') \<Longrightarrow> qm_ID m = qm_ID m' \<Longrightarrow> r = r'"
begin

text \<open>Send in order, stop at the first failure, delete what was sent (a delete may itself fail).\<close>

fun drain :: "(QueuedMessage \<Rightarrow> bool) \<Rightarrow> (QueuedMessage \<Rightarrow> bool) \<Rightarrow> QueuedMessage list \<Rightarrow> 'q \<Rightarrow> 'q \<times> QueuedMessage list" where
  "drain sends deletes [] q = (q, [])"
| "drain sends deletes (m # ms) q =
     (if \<not> sends m then (q, [])
      else let (q', sent) = drain sends deletes ms (if deletes m then delete (qm_ID m) q else q) in (q', m # sent))"

lemma drain_sent: "snd (drain sends deletes ms q) = takeWhile sends ms"
  by (induction ms arbitrary: q) (auto simp: split_beta Let_def)

lemma drain_ok: "ok q \<Longrightarrow> ok (fst (drain sends deletes ms q))"
  by (induction ms arbitrary: q) (auto simp: split_beta Let_def ok_delete)

lemma drain_pending:
  "pending (fst (drain sends deletes ms q)) r =
     filter (\<lambda>m. \<forall>x\<in>set (takeWhile sends ms). deletes x \<longrightarrow> qm_ID m \<noteq> qm_ID x) (pending q r)"
proof (induction ms arbitrary: q)
  case (Cons x ms)
  then show ?case by (auto simp: split_beta Let_def pending_delete intro!: filter_cong)
qed simp

text \<open>With deletes that succeed, what is left is exactly what was not sent, in its order.\<close>

lemma drain_leaves_rest:
  assumes ok: "ok q" and ms: "ms = dequeue q r n"
  shows "pending (fst (drain sends (\<lambda>_. True) ms q)) r = drop (length (takeWhile sends ms)) (pending q r)"
    and "r' \<noteq> r \<Longrightarrow> pending (fst (drain sends (\<lambda>_. True) ms q)) r' = pending q r'"
proof -
  define k where "k = length (takeWhile sends ms)"
  have tw: "takeWhile sends ms = take k (pending q r)"
  proof -
    have "takeWhile sends ms = take k ms" unfolding k_def by (rule takeWhile_eq_take)
    moreover have "k \<le> n" using length_takeWhile_le [of sends ms] by (simp add: k_def ms dequeue_pending)
    ultimately show ?thesis using ms by (simp add: dequeue_pending min_absorb1)
  qed
  let ?P = "pending q r"
  have d: "distinct (map qm_ID (take k ?P) @ map qm_ID (drop k ?P))"
    using ids_distinct [OF ok, of r] by (simp only: map_append [symmetric] append_take_drop_id)
  have "filter (\<lambda>m. \<forall>x\<in>set (take k ?P). qm_ID m \<noteq> qm_ID x) (take k ?P @ drop k ?P) = drop k ?P"
  proof -
    have "filter (\<lambda>m. \<forall>x\<in>set (take k ?P). qm_ID m \<noteq> qm_ID x) (take k ?P) = []"
      by (simp add: filter_empty_conv) blast
    moreover have "filter (\<lambda>m. \<forall>x\<in>set (take k ?P). qm_ID m \<noteq> qm_ID x) (drop k ?P) = drop k ?P"
      using d by (intro filter_True) (auto simp: image_iff)
    ultimately show ?thesis by (simp only: filter_append append_Nil)
  qed
  then show "pending (fst (drain sends (\<lambda>_. True) ms q)) r = drop (length (takeWhile sends ms)) (pending q r)"
    unfolding k_def [symmetric] unfolding drain_pending tw by simp
  assume "r' \<noteq> r"
  then have "\<forall>m\<in>set (pending q r'). \<forall>x\<in>set ?P. qm_ID m \<noteq> qm_ID x" using ids_apart [OF ok] by metis
  then have "\<forall>m\<in>set (pending q r'). \<forall>x\<in>set (take k ?P). qm_ID m \<noteq> qm_ID x"
    by (meson in_set_takeD)
  then show "pending (fst (drain sends (\<lambda>_. True) ms q)) r' = pending q r'"
    by (simp add: drain_pending tw filter_id_conv)
qed

end

definition queue_ok :: "Store \<Rightarrow> bool" where
  "queue_ok s \<longleftrightarrow> distinct (map qm_ID (Queue s)) \<and> (\<forall>m\<in>set (Queue s). qm_ID m < NextQueueID s)"

definition Pending :: "Store \<Rightarrow> string \<Rightarrow> QueuedMessage list" where
  "Pending s r = filter (\<lambda>m. qm_Runner m = r) (Queue s)"

lemma distinct_map_filter_id: "distinct (map f xs) \<Longrightarrow> distinct (map f (filter P xs))"
  by (induction xs) auto

interpretation oq: offline_queue Enqueue Dequeue DeleteQueued Pending queue_ok
proof (unfold_locales, goal_cases)
  case 1 show ?case by (simp add: Dequeue_def Pending_def)
next
  case 2 then show ?case by (auto simp: queue_ok_def Enqueue_def)
next
  case 3 then show ?case by (auto simp: queue_ok_def DeleteQueued_def distinct_map_filter_id)
next
  case 4 show ?case by (simp add: Pending_def Enqueue_def)
next
  case 5 show ?case by (auto simp: Pending_def DeleteQueued_def conj_commute)
next
  case 6 then show ?case by (simp add: queue_ok_def Pending_def distinct_map_filter_id)
next
  case (7 q m r m' r')
  then have "inj_on qm_ID (set (Queue q))" "m \<in> set (Queue q)" "m' \<in> set (Queue q)"
    by (auto simp: queue_ok_def distinct_map Pending_def)
  with 7 have "m = m'" by (auto dest: inj_onD)
  with 7 show ?case by (auto simp: Pending_def)
qed

end
