(* ===== verification/Stream.thy ===== *)
theory Stream
  imports Config
begin

text \<open>
  A turn's output as the surface sees it (internal/gateway/stream.go). The stream is a record; the
  calls on the surface are what a flush emits, and their results are the flush's argument. A push is
  two steps, as in the code, which releases the lock while the surface call is in flight:
  \<open>push_begin\<close> takes the update, \<open>push_end\<close> commits it; \<open>flushWith\<close> runs them without
  interruption.
\<close>

subsection \<open>Surface data\<close>

record Ref =
  ref_Channel :: string
  ref_Thread :: string
  ref_ID :: string

datatype StepStatus = StepRunning | StepDone | StepFailed

record Step =
  st_ID :: string
  st_Title :: string
  st_Detail :: string
  st_Status :: StepStatus
  st_Output :: string
  st_Elapsed :: int

record StreamUpdate =
  su_Text :: string
  su_Steps :: "Step list"

record stream =
  sm_Activity :: string
  sm_body :: string
  sm_sent :: nat
  sm_pending :: string
  sm_synth :: nat
  sm_order :: "string list"
  sm_steps :: "Step gomap"
  sm_changed :: "string list"
  sm_native :: "Ref option"
  sm_fellBack :: bool
  sm_posted :: bool
  sm_ref :: "Ref option"
  sm_dirty :: bool
  sm_closed :: bool

definition new_stream :: "string \<Rightarrow> stream" where
  "new_stream activity = \<lparr>sm_Activity = activity, sm_body = [], sm_sent = 0, sm_pending = [], sm_synth = 0,
     sm_order = [], sm_steps = [], sm_changed = [], sm_native = None, sm_fellBack = False,
     sm_posted = False, sm_ref = None, sm_dirty = False, sm_closed = False\<rparr>"

subsection \<open>Text helpers\<close>

definition newline :: char where "newline = CHR 0x0A"
definition ellipsis :: string where "ellipsis = bytes [226, 128, 166]"

definition truncateLine :: "string \<Rightarrow> nat \<Rightarrow> string" where
  "truncateLine s0 n =
     (let s = ReplaceByte newline (CHR '' '') (TrimSpace s0) in
      if length s \<le> n then s else take n s @ ellipsis)"

definition splitStepText :: "string \<Rightarrow> string \<times> string" where
  "splitStepText text =
     (case Cut text newline of (title, detail, _) \<Rightarrow>
        (truncateLine title 160, truncateLine (Join (Fields detail) '' '') 200))"

subsection \<open>What the runner's frames do\<close>

definition hidden :: "stream \<Rightarrow> bool" where
  "hidden s \<longleftrightarrow> sm_Activity s = ActivityHidden"

definition AppendText :: "string \<Rightarrow> stream \<Rightarrow> stream" where
  "AppendText text s =
     (if text = [] then s else s\<lparr>sm_pending := sm_pending s @ text, sm_dirty := True\<rparr>)"

text \<open>Appending a step that is not known yet, or replacing a known one in its place.\<close>

definition put_step :: "Step \<Rightarrow> stream \<Rightarrow> stream" where
  "put_step st s = s\<lparr>
     sm_order := (if has_key (sm_steps s) (st_ID st) then sm_order s else sm_order s @ [st_ID st]),
     sm_steps := put (st_ID st) st (sm_steps s),
     sm_changed := List.insert (st_ID st) (sm_changed s),
     sm_dirty := True\<rparr>"

definition synth_step :: "string \<Rightarrow> string \<Rightarrow> stream \<Rightarrow> stream" where
  "synth_step prefix_text text s =
     (let n = sm_synth s + 1; i = prefix_text @ Itoa (int n); (title, detail) = splitStepText text in
      s\<lparr>sm_synth := n, sm_order := sm_order s @ [i],
        sm_steps := put i \<lparr>st_ID = i, st_Title = title, st_Detail = detail, st_Status = StepDone,
                           st_Output = [], st_Elapsed = 0\<rparr> (sm_steps s),
        sm_changed := List.insert i (sm_changed s), sm_dirty := True\<rparr>)"

definition demoteLocked :: "stream \<Rightarrow> stream" where
  "demoteLocked s =
     (let text = TrimSpace (sm_pending s); s' = s\<lparr>sm_pending := []\<rparr> in
      if text = [] then s' else synth_step ''prose-'' text s')"

definition Thought_step :: "string \<Rightarrow> stream \<Rightarrow> stream" where
  "Thought_step text0 s =
     (if hidden s then s
      else let text = TrimSpace text0 in
        if text = [] then s else synth_step ''thought-'' text (demoteLocked s))"

definition StartStep :: "string \<Rightarrow> string \<Rightarrow> string \<Rightarrow> stream \<Rightarrow> stream" where
  "StartStep i title detail s =
     (if hidden s \<or> i = [] then s
      else put_step \<lparr>st_ID = i, st_Title = title, st_Detail = detail, st_Status = StepRunning,
                     st_Output = [], st_Elapsed = 0\<rparr> (demoteLocked s))"

definition EndStep :: "string \<Rightarrow> bool \<Rightarrow> string \<Rightarrow> int \<Rightarrow> stream \<Rightarrow> stream" where
  "EndStep i ok errText durationMS s =
     (if hidden s \<or> i = [] then s
      else let st = (case map_of (sm_steps s) i of Some st \<Rightarrow> st
                | None \<Rightarrow> \<lparr>st_ID = i, st_Title = ''tool'', st_Detail = [], st_Status = StepRunning,
                           st_Output = [], st_Elapsed = 0\<rparr>);
               st' = (if ok then st\<lparr>st_Status := StepDone\<rparr>
                      else st\<lparr>st_Status := StepFailed, st_Output := errText\<rparr>)
        in put_step (st'\<lparr>st_ID := i, st_Elapsed := durationMS * 1000000\<rparr>) s)"

definition NoteStep :: "string \<Rightarrow> string \<Rightarrow> bool \<Rightarrow> stream \<Rightarrow> stream" where
  "NoteStep i title failed s =
     (if hidden s then s
      else put_step \<lparr>st_ID = i, st_Title = title, st_Detail = [],
             st_Status = (if failed then StepFailed else StepDone), st_Output = [], st_Elapsed = 0\<rparr>
             (demoteLocked s))"

subsection \<open>Flushing\<close>

text \<open>\<open>sm_body s\<close> past \<open>sm_sent s\<close>, and the changed steps in order.\<close>

definition take_update :: "stream \<Rightarrow> StreamUpdate" where
  "take_update s = \<lparr>su_Text = drop (sm_sent s) (sm_body s),
     su_Steps = map (\<lambda>i. the (map_of (sm_steps s) i)) (filter (\<lambda>i. i \<in> set (sm_changed s)) (sm_order s))\<rparr>"

definition commit :: "stream \<Rightarrow> stream" where
  "commit s = s\<lparr>sm_sent := length (sm_body s), sm_changed := []\<rparr>"

definition activityLine :: "Step \<Rightarrow> string" where
  "activityLine st =
     (let line = st_Title st @ (if st_Detail st \<noteq> [] then '': '' @ st_Detail st else []) in
      if st_Status st = StepFailed
      then ''failed '' @ bytes [226, 128, 148] @ '' '' @ line
           @ (if st_Output st \<noteq> [] then '' ('' @ st_Output st @ '')'' else [])
      else line)"

definition last_lines :: "string list \<Rightarrow> string list" where
  "last_lines xs = drop (length xs - 12) xs"

definition render :: "stream \<Rightarrow> bool \<Rightarrow> string" where
  "render s final =
     (let showActivity = (\<not> final \<or> sm_Activity s = ActivityFull) in
      TrimSpace (sm_body s
        @ (if sm_order s \<noteq> [] \<and> showActivity \<and> \<not> hidden s
           then (if sm_body s \<noteq> [] then [newline] else [])
             @ concat (map (\<lambda>i. newline # ''_'' @ activityLine (the (map_of (sm_steps s) i)) @ ''_'')
                 (last_lines (sm_order s)))
           else [])))"

text \<open>How the surface answers the calls of one flush.\<close>

record flush_env =
  fe_surface :: bool
  fe_streamer :: bool
  fe_open :: "Ref option"
  fe_push :: bool
  fe_post :: "Ref option"
  fe_update :: bool

text \<open>The calls the surface accepted.\<close>

datatype surface_call =
    OpenStream Ref | Appended Ref StreamUpdate | ClosedStream Ref StreamUpdate
  | Posted Ref string | Updated Ref string

definition flush_enter :: "bool \<Rightarrow> stream \<Rightarrow> stream option" where
  "flush_enter final s =
     (if (\<not> sm_dirty s \<and> \<not> final) \<or> sm_closed s then None
      else Some (if final then s\<lparr>sm_body := sm_body s @ sm_pending s, sm_pending := []\<rparr> else s))"

definition nothingToSend :: "stream \<Rightarrow> bool" where
  "nothingToSend s \<longleftrightarrow> length (sm_body s) \<le> sm_sent s \<and> sm_order s = []"

definition open_native :: "flush_env \<Rightarrow> stream \<Rightarrow> stream \<times> surface_call list" where
  "open_native e s =
     (if \<not> fe_streamer e then (s\<lparr>sm_fellBack := True\<rparr>, [])
      else (case fe_open e of
          None \<Rightarrow> (s\<lparr>sm_fellBack := True\<rparr>, [])
        | Some r \<Rightarrow> (s\<lparr>sm_native := Some r, sm_ref := Some r, sm_posted := True\<rparr>, [OpenStream r])))"

definition push_begin :: "stream \<Rightarrow> StreamUpdate \<times> stream" where
  "push_begin s = (take_update s, s\<lparr>sm_dirty := False\<rparr>)"

definition empty_update :: "StreamUpdate \<Rightarrow> bool" where
  "empty_update u \<longleftrightarrow> su_Text u = [] \<and> su_Steps u = []"

definition push_end :: "bool \<Rightarrow> stream \<Rightarrow> stream" where
  "push_end ok s =
     (if ok then commit s
      else s\<lparr>sm_dirty := True, sm_fellBack := True, sm_native := None, sm_posted := False,
             sm_ref := None, sm_sent := 0\<rparr>)"

definition pushNative :: "flush_env \<Rightarrow> Ref \<Rightarrow> bool \<Rightarrow> stream \<Rightarrow> stream \<times> surface_call list \<times> bool" where
  "pushNative e r final s =
     (let (u, s1) = push_begin s in
      if \<not> final \<and> empty_update u then (s1, [], True)
      else (push_end (fe_push e) s1,
            if fe_push e then [if final then ClosedStream r u else Appended r u] else [], fe_push e))"

definition pushEdit :: "flush_env \<Rightarrow> bool \<Rightarrow> stream \<Rightarrow> stream \<times> surface_call list" where
  "pushEdit e final s =
     (let text = render s final; s1 = s\<lparr>sm_dirty := False\<rparr> in
      if text = [] then (s1, [])
      else if \<not> sm_posted s1
      then (case fe_post e of
              None \<Rightarrow> (s1\<lparr>sm_dirty := True\<rparr>, [])
            | Some r \<Rightarrow> (commit (s1\<lparr>sm_posted := True, sm_ref := Some r\<rparr>), [Posted r text]))
      else if fe_update e then (commit s1, [Updated (the (sm_ref s1)) text])
      else (s1\<lparr>sm_dirty := True\<rparr>, []))"

definition flushWith :: "flush_env \<Rightarrow> bool \<Rightarrow> stream \<Rightarrow> stream \<times> surface_call list" where
  "flushWith e final s0 =
     (case flush_enter final s0 of None \<Rightarrow> (s0, [])
      | Some s \<Rightarrow>
        if sm_native s = None \<and> nothingToSend s then (s, [])
        else if \<not> fe_surface e then (s, [])
        else if sm_fellBack s then pushEdit e final s
        else
          let (s1, opened) = (if sm_native s = None then open_native e s else (s, [])) in
          (case sm_native s1 of
             None \<Rightarrow> (let (s2, out) = pushEdit e final s1 in (s2, opened @ out))
           | Some r \<Rightarrow>
               let (s2, out, ok) = pushNative e r final s1 in
               if ok then (s2, opened @ out)
               else (let (s3, out') = pushEdit e final s2 in (s3, opened @ out @ out'))))"

definition Close :: "flush_env \<Rightarrow> stream \<Rightarrow> stream \<times> surface_call list" where
  "Close e s =
     (if sm_closed s then (s, [])
      else let (s', out) = flushWith e True s in (s'\<lparr>sm_closed := True\<rparr>, out))"

definition HasOutput :: "stream \<Rightarrow> bool" where
  "HasOutput s \<longleftrightarrow> sm_body s \<noteq> [] \<or> sm_pending s \<noteq> [] \<or> sm_order s \<noteq> []"

subsection \<open>A turn's events\<close>

datatype stream_event =
    EvText string | EvThought string | EvStart string string string
  | EvEnd string bool string int | EvNote string string bool | EvFlush flush_env bool | EvClose flush_env

fun stream_step :: "stream_event \<Rightarrow> stream \<times> surface_call list \<Rightarrow> stream \<times> surface_call list" where
  "stream_step (EvText t) (s, log) = (AppendText t s, log)"
| "stream_step (EvThought t) (s, log) = (Thought_step t s, log)"
| "stream_step (EvStart i t d) (s, log) = (StartStep i t d s, log)"
| "stream_step (EvEnd i ok e d) (s, log) = (EndStep i ok e d s, log)"
| "stream_step (EvNote i t f) (s, log) = (NoteStep i t f s, log)"
| "stream_step (EvFlush e final) (s, log) = (let (s', out) = flushWith e final s in (s', log @ out))"
| "stream_step (EvClose e) (s, log) = (let (s', out) = Close e s in (s', log @ out))"

definition run_stream :: "string \<Rightarrow> stream_event list \<Rightarrow> stream \<times> surface_call list" where
  "run_stream activity evs = fold stream_step evs (new_stream activity, [])"

text \<open>The prose a native stream shows.\<close>

fun native_text :: "surface_call list \<Rightarrow> string" where
  "native_text [] = []"
| "native_text (Appended r u # cs) = su_Text u @ native_text cs"
| "native_text (ClosedStream r u # cs) = su_Text u @ native_text cs"
| "native_text (_ # cs) = native_text cs"

lemma native_text_append [simp]: "native_text (a @ b) = native_text a @ native_text b"
  by (induction a rule: native_text.induct) auto

subsection \<open>What the frame operations leave alone\<close>

definition same_output :: "stream \<Rightarrow> stream \<Rightarrow> bool" where
  "same_output s s' \<longleftrightarrow> sm_body s' = sm_body s \<and> sm_sent s' = sm_sent s \<and> sm_native s' = sm_native s \<and>
     sm_fellBack s' = sm_fellBack s \<and> sm_posted s' = sm_posted s \<and> sm_closed s' = sm_closed s \<and>
     sm_Activity s' = sm_Activity s"

lemma same_output_ops [frame_simps]:
  "same_output s (AppendText t s)" "same_output s (put_step st s)" "same_output s (synth_step p t s)"
  by (auto simp: same_output_def AppendText_def put_step_def synth_step_def Let_def split_beta)

lemma same_output_trans: "same_output a b \<Longrightarrow> same_output b c \<Longrightarrow> same_output a c"
  by (simp add: same_output_def)

lemma same_output_refl [frame_simps]: "same_output s s"
  by (simp add: same_output_def)

lemma same_output_demote [frame_simps]: "same_output s (demoteLocked s)"
proof -
  have "same_output s (s\<lparr>sm_pending := []\<rparr>)" by (simp add: same_output_def)
  then show ?thesis using same_output_trans same_output_ops(3) by (simp add: demoteLocked_def Let_def)
qed

lemma same_output_frames [frame_simps]:
  "same_output s (Thought_step t s)" "same_output s (StartStep i t d s)"
  "same_output s (EndStep i ok e dur s)" "same_output s (NoteStep i t f s)"
  using same_output_demote [of s] same_output_trans same_output_ops same_output_refl
  by (simp_all add: Thought_step_def StartStep_def EndStep_def NoteStep_def Let_def)

subsection \<open>The native stream\<close>

text \<open>Before the stream is opened nothing has been said; once open, exactly the sent part of the body.\<close>

definition native_inv :: "stream \<times> surface_call list \<Rightarrow> bool" where
  "native_inv x = (case x of (s, log) \<Rightarrow>
     sm_sent s \<le> length (sm_body s) \<and>
     (\<not> sm_fellBack s \<longrightarrow> native_text log = take (sm_sent s) (sm_body s)) \<and>
     (sm_native s \<noteq> None \<longrightarrow> \<not> sm_fellBack s))"

lemma native_inv_same: "native_inv (s, log) \<Longrightarrow> same_output s s' \<Longrightarrow> native_inv (s', log)"
  by (auto simp: native_inv_def same_output_def)

lemma native_inv_edit:
  assumes "sm_fellBack s" "sm_native s = None" "sm_sent s \<le> length (sm_body s)"
  shows "native_inv (fst (pushEdit e f s), log @ snd (pushEdit e f s)) \<and> sm_fellBack (fst (pushEdit e f s))"
  using assms by (auto simp: native_inv_def pushEdit_def commit_def Let_def split: option.splits)

lemma take_drop_body: "n \<le> length b \<Longrightarrow> take n b @ drop n b = b"
  by simp

lemma native_inv_push:
  assumes "native_inv (s, log)" "sm_native s = Some r" "pushNative e r f s = (s', out, ok)"
  shows "if ok then native_inv (s', log @ out)
         else out = [] \<and> sm_fellBack s' \<and> sm_native s' = None \<and> sm_sent s' \<le> length (sm_body s')"
  using assms
  by (auto simp: native_inv_def pushNative_def push_begin_def push_end_def commit_def take_update_def
      empty_update_def Let_def split: if_splits)

lemma native_inv_enter:
  "native_inv (s, log) \<Longrightarrow> flush_enter f s = Some s' \<Longrightarrow> native_inv (s', log)"
  by (auto simp: flush_enter_def native_inv_def split: if_splits)

lemma native_inv_open:
  "native_inv (s, log) \<Longrightarrow> \<not> sm_fellBack s \<Longrightarrow> sm_native s = None \<Longrightarrow> open_native e s = (s', out) \<Longrightarrow>
     sm_sent s' \<le> length (sm_body s') \<and> (sm_native s' \<noteq> None \<longrightarrow> native_inv (s', log @ out)) \<and>
     (sm_native s' = None \<longrightarrow> sm_fellBack s' \<and> out = [])"
  by (auto simp: open_native_def native_inv_def split: if_splits option.splits)

lemma native_inv_flush:
  assumes "native_inv (s, log)"
  shows "native_inv (fst (flushWith e f s), log @ snd (flushWith e f s))"
proof (cases "flush_enter f s")
  case None
  with assms show ?thesis by (simp add: flushWith_def)
next
  case (Some t)
  note t = native_inv_enter [OF assms Some]
  then have le: "sm_sent t \<le> length (sm_body t)" by (simp add: native_inv_def)
  consider (quiet) "(sm_native t = None \<and> nothingToSend t) \<or> \<not> fe_surface e"
    | (edit) "\<not> (sm_native t = None \<and> nothingToSend t)" "fe_surface e" "sm_fellBack t"
    | (native) "\<not> (sm_native t = None \<and> nothingToSend t)" "fe_surface e" "\<not> sm_fellBack t" by blast
  then show ?thesis
  proof cases
    case quiet
    with t Some show ?thesis by (auto simp: flushWith_def)
  next
    case edit
    with t have "sm_native t = None" by (auto simp: native_inv_def)
    with native_inv_edit [of t e f log] edit le Some show ?thesis by (simp add: flushWith_def)
  next
    case native
    obtain t1 o1 where o: "(if sm_native t = None then open_native e t else (t, [])) = (t1, o1)" by fastforce
    have t1: "sm_sent t1 \<le> length (sm_body t1)" "sm_native t1 \<noteq> None \<longrightarrow> native_inv (t1, log @ o1)"
      "sm_native t1 = None \<longrightarrow> sm_fellBack t1 \<and> o1 = []"
      using native_inv_open [OF t native(3), of e t1 o1] o t le by (auto split: if_splits)
    have t0: "native_inv (t, log)" by (rule t)
    show ?thesis
    proof (cases "sm_native t1")
      case None
      obtain t2 o2 where p: "pushEdit e f t1 = (t2, o2)" by fastforce
      have "native_inv (t2, log @ o2)" using native_inv_edit [of t1 e f log] None t1 p by simp
      with None t1(3) o p native Some t0 show ?thesis by (simp add: flushWith_def)
    next
      case (Some r)
      obtain t2 o2 ok where p: "pushNative e r f t1 = (t2, o2, ok)" by (metis prod_cases3)
      note pn = native_inv_push [OF _ Some p, of "log @ o1"]
      show ?thesis
      proof (cases ok)
        case True
        with pn t1(2) Some have "native_inv (t2, (log @ o1) @ o2)" by simp
        with True o p Some native t0 \<open>flush_enter f s = Some t\<close> show ?thesis by (simp add: flushWith_def)
      next
        case False
        obtain t3 o3 where q: "pushEdit e f t2 = (t3, o3)" by fastforce
        from False pn t1(2) Some have "o2 = []" "sm_fellBack t2" "sm_native t2 = None"
          "sm_sent t2 \<le> length (sm_body t2)" by simp_all
        with native_inv_edit [of t2 e f "log @ o1"] q have "native_inv (t3, (log @ o1) @ o3)" by simp
        with False o p q Some native t0 \<open>flush_enter f s = Some t\<close> \<open>o2 = []\<close> show ?thesis
          by (simp add: flushWith_def)
      qed
    qed
  qed
qed

lemma native_inv_close:
  "native_inv (s, log) \<Longrightarrow> native_inv (fst (Close e s), log @ snd (Close e s))"
  using native_inv_flush [of s log e True] by (auto simp: Close_def native_inv_def split_beta)

lemma native_inv_step: "native_inv x \<Longrightarrow> native_inv (stream_step ev x)"
proof (cases x)
  case (Pair s log)
  assume "native_inv x"
  with Pair have i: "native_inv (s, log)" by simp
  show ?thesis unfolding Pair
    by (cases ev) (use native_inv_same [OF i] native_inv_flush [OF i] native_inv_close [OF i] in
      \<open>simp_all add: frame_simps split_beta\<close>)
qed

lemma native_inv_run: "native_inv (run_stream a evs)"
  unfolding run_stream_def
  by (rule fold_invariant_keep, erule native_inv_step) (simp add: native_inv_def new_stream_def)


definition all_good :: flush_env where
  "all_good = \<lparr>fe_surface = True, fe_streamer = True, fe_open = Some \<lparr>ref_Channel = ''C'', ref_Thread = ''T'', ref_ID = ''1''\<rparr>,
     fe_push = True, fe_post = Some \<lparr>ref_Channel = ''C'', ref_Thread = ''T'', ref_ID = ''2''\<rparr>, fe_update = True\<rparr>"


subsection \<open>Hidden activity\<close>

definition prose_of :: "stream_event \<Rightarrow> string" where
  "prose_of ev = (case ev of EvText t \<Rightarrow> t | _ \<Rightarrow> [])"

definition same_prose :: "stream \<Rightarrow> stream \<Rightarrow> bool" where
  "same_prose s s' \<longleftrightarrow> sm_body s' @ sm_pending s' = sm_body s @ sm_pending s \<and> sm_order s' = sm_order s \<and>
     sm_Activity s' = sm_Activity s"

lemma same_prose_edit: "same_prose s (fst (pushEdit e f s))"
  by (simp add: same_prose_def pushEdit_def commit_def Let_def split: option.split)

lemma same_prose_native: "same_prose s (fst (pushNative e r f s))"
  by (simp add: same_prose_def pushNative_def push_begin_def push_end_def commit_def Let_def)

lemma same_prose_open: "same_prose s (fst (open_native e s))"
  by (simp add: same_prose_def open_native_def split: option.split)

lemma same_prose_trans: "same_prose a b \<Longrightarrow> same_prose b c \<Longrightarrow> same_prose a c"
  by (simp add: same_prose_def)

lemma same_prose_enter: "flush_enter f s = Some t \<Longrightarrow> same_prose s t"
  by (auto simp: same_prose_def flush_enter_def split: if_splits)

lemma same_prose_flush: "same_prose s (fst (flushWith e f s))"
proof (cases "flush_enter f s")
  case None
  then show ?thesis by (simp add: flushWith_def same_prose_def)
next
  case (Some t)
  note st = same_prose_enter [OF Some]
  obtain t1 o1 where o: "(if sm_native t = None then open_native e t else (t, [])) = (t1, o1)" by fastforce
  have t1: "same_prose t t1" using o same_prose_open [of t e] by (auto simp: same_prose_def split: if_splits)
  have e1: "same_prose s (fst (pushEdit e f t))" using same_prose_trans [OF st same_prose_edit] .
  have e2: "same_prose s (fst (pushEdit e f t1))"
    using same_prose_trans [OF st same_prose_trans [OF t1 same_prose_edit]] .
  have n: "same_prose s (fst (pushNative e r f t1))" for r
    using same_prose_trans [OF st same_prose_trans [OF t1 same_prose_native]] .
  have ne: "same_prose s (fst (pushEdit e f (fst (pushNative e r f t1))))" for r
    using same_prose_trans [OF n same_prose_edit] .
  show ?thesis using st e1 e2 n ne
    by (simp add: flushWith_def Some o Let_def split_beta split: option.split)
qed

lemma same_prose_close: "same_prose s (fst (Close e s))"
  using same_prose_flush [of s e True] by (simp add: Close_def same_prose_def split_beta)

text \<open>
  With hidden activity nothing the model says is lost or turned into a step: after any events, what has
  been sent plus what is pending is the prose of the turn, every byte in order, and no step was recorded.
\<close>

theorem hidden_keeps_all_prose:
  "case run_stream ActivityHidden evs of (s, log) \<Rightarrow>
     sm_body s @ sm_pending s = concat (map prose_of evs) \<and> sm_order s = []"
proof -
  define P where "P = (\<lambda>evs x. case x of (s, log :: surface_call list) \<Rightarrow>
    sm_body s @ sm_pending s = concat (map prose_of evs) \<and> sm_order s = [] \<and> hidden s)"
  have "P evs (fold stream_step evs (new_stream ActivityHidden, []))"
  proof (induction evs rule: rev_induct)
    case Nil
    show ?case by (simp add: P_def new_stream_def hidden_def)
  next
    case (snoc ev evs)
    obtain s log where s: "fold stream_step evs (new_stream ActivityHidden, []) = (s, log)" by fastforce
    with snoc.IH have h: "sm_body s @ sm_pending s = concat (map prose_of evs)" "sm_order s = []" "hidden s"
      by (simp_all add: P_def)
    show ?case
    proof (cases ev)
      case (EvText t)
      then show ?thesis using h by (simp add: s P_def AppendText_def prose_of_def hidden_def)
    next
      case (EvFlush e f)
      then show ?thesis using h same_prose_flush [of s e f]
        by (simp add: s P_def prose_of_def hidden_def same_prose_def split_beta)
    next
      case (EvClose e)
      then show ?thesis using h same_prose_close [of s e]
        by (simp add: s P_def prose_of_def hidden_def same_prose_def split_beta)
    qed (use h in \<open>simp_all add: s P_def prose_of_def Thought_step_def StartStep_def EndStep_def NoteStep_def\<close>)
  qed
  then show ?thesis by (simp add: P_def run_stream_def split_beta)
qed

subsection \<open>Where output is lost\<close>

text \<open>
  A step that ends while an increment is in flight is lost: committing the increment clears every
  change mark, the ones set since the increment was taken too, so no later update, the closing one
  included, ever tells the surface that the step is no longer running.
\<close>

theorem step_change_during_push_is_lost:
  assumes "\<not> hidden s" "i \<noteq> []" "sm_native s = Some r" "\<not> sm_fellBack s" "\<not> sm_closed s"
    "fe_surface v" "fe_push v"
    "s2 = push_end True (EndStep i ok e d (snd (push_begin s)))"
  shows "(\<exists>st. map_of (sm_steps s2) i = Some st \<and> st_Status st \<noteq> StepRunning) \<and>
    (\<exists>u. snd (Close v s2) = [ClosedStream r u] \<and> su_Steps u = [])"
proof -
  have h: "\<not> hidden (snd (push_begin s))" using assms(1) by (simp add: push_begin_def hidden_def)
  have so: "same_output (snd (push_begin s)) (EndStep i ok e d (snd (push_begin s)))" by (simp add: frame_simps)
  have "\<exists>st. map_of (sm_steps s2) i = Some st \<and> st_Status st \<noteq> StepRunning"
    using h assms(2) by (simp add: assms(8) EndStep_def push_end_def commit_def put_step_def Let_def)
  moreover have "sm_native s2 = Some r" "\<not> sm_fellBack s2" "\<not> sm_closed s2" "sm_changed s2 = []"
    using so assms(3-5) by (auto simp: assms(8) push_end_def commit_def same_output_def push_begin_def)
  then have "\<exists>u. snd (Close v s2) = [ClosedStream r u] \<and> su_Steps u = []" using assms(6,7)
    by (simp add: Close_def flushWith_def flush_enter_def pushNative_def push_begin_def take_update_def)
  ultimately show ?thesis by blast
qed

theorem step_change_during_push_is_lost_witness:
  "\<exists>s r. sm_native s = Some r \<and> map_of (sm_steps s) ''c1'' \<noteq> None \<and>
    (\<exists>u. snd (Close all_good (push_end True (EndStep ''c1'' True [] 5 (snd (push_begin s))))) = [ClosedStream r u] \<and>
       su_Steps u = [])"
proof -
  define r where "r = \<lparr>ref_Channel = ''C'', ref_Thread = ''T'', ref_ID = ''1''\<rparr>"
  define s where "s = (StartStep ''c1'' ''Bash'' ''ls'' (new_stream ''transient''))\<lparr>sm_native := Some r\<rparr>"
  have a: "\<not> hidden s" "sm_native s = Some r" "\<not> sm_fellBack s" "\<not> sm_closed s" "map_of (sm_steps s) ''c1'' \<noteq> None"
    using same_output_frames(2) [of "new_stream ''transient''" "''c1''" "''Bash''" "''ls''"]
    by (simp_all add: s_def hidden_def ActivityHidden_def same_output_def new_stream_def)
      (simp add: StartStep_def hidden_def ActivityHidden_def put_step_def)
  from step_change_during_push_is_lost [OF a(1) _ a(2-4), of "''c1''" all_good _ True "[]" 5] a show ?thesis
    by (auto simp: all_good_def)
qed

text \<open>
  On the edit path the last flush has no retry: when posting the answer fails as the turn closes, the
  stream is closed with the answer unsent, no later flush or close emits anything, and
  \<open>HasOutput\<close> still claims there was output, so nobody is told.
\<close>

theorem failed_final_post_loses_answer:
  assumes "\<not> sm_closed s" "sm_native s = None" "sm_fellBack s" "\<not> sm_posted s" "sm_pending s \<noteq> []"
    "fe_post e = None"
    "s' = fst (Close e s)"
  shows "snd (Close e s) = [] \<and> HasOutput s' \<and> (\<forall>e' f. flushWith e' f s' = (s', [])) \<and> (\<forall>e'. Close e' s' = (s', []))"
proof -
  let ?t = "s\<lparr>sm_body := sm_body s @ sm_pending s, sm_pending := []\<rparr>"
  have enter: "flush_enter True s = Some ?t" using assms(1) by (simp add: flush_enter_def)
  have "snd (flushWith e True s) = [] \<and> sm_body (fst (flushWith e True s)) = sm_body ?t"
    using assms(2-4,6) by (simp add: flushWith_def enter pushEdit_def Let_def)
  then have o: "snd (Close e s) = []" "sm_body s' \<noteq> []" "sm_closed s'"
    using assms(1,5) by (simp_all add: Close_def assms(7) split_beta)
  then show ?thesis by (simp add: HasOutput_def flushWith_def flush_enter_def Close_def)
qed

theorem failed_final_post_loses_answer_witness:
  "\<exists>e s. snd (Close e (AppendText ''The answer.'' s)) = [] \<and> HasOutput (fst (Close e (AppendText ''The answer.'' s)))"
proof -
  define e where "e = all_good\<lparr>fe_post := None\<rparr>"
  define s where "s = (new_stream ''transient'')\<lparr>sm_fellBack := True\<rparr>"
  have "snd (Close e (AppendText ''The answer.'' s)) = [] \<and> HasOutput (fst (Close e (AppendText ''The answer.'' s)))"
    using failed_final_post_loses_answer [of "AppendText ''The answer.'' s" e "fst (Close e (AppendText ''The answer.'' s))"]
    by (simp add: s_def new_stream_def AppendText_def e_def)
  then show ?thesis by blast
qed

end
