(* ===== verification/Gateway.thy ===== *)
theory Gateway
  imports Wire Validate Pricing Policy Grants Store Stream
begin

text \<open>
  The gateway's in-memory state (internal/gateway/gateway.go, hub.go and the types of inbound.go,
  working.go, wake.go) and the primitive operations its handlers are built from: surface calls, sends
  on a runner connection, the working indicator and in-thread notices. A handler is a function on the
  state \<open>gw\<close>; what it does to the outside is appended to the effect log \<open>gw_out\<close>. The
  environment \<open>env\<close> of a call holds the clock, fresh identifiers, the adapters that exist and how
  the outside answers: the n-th answer is asked with the length of the effect log. Proxied servers, the
  credential provider, the secret backend, the price table and the rendered reports are part of it. The configuration
  has been validated, so a runner entry is never nil; logging to the process log is not modelled, and a
  store statement whose failure the code only logs is taken to succeed.
\<close>

subsection \<open>Surface data\<close>

record User =
  usr_ID :: string
  usr_Display :: string
  usr_Email :: string

record Persona =
  pe_Name :: string
  pe_Icon :: string

text \<open>A file's \<open>Open\<close> is what opening it and reading it to the end yields.\<close>

datatype opened = OpenFails string | Reads "string list" "string option"

record File =
  fl_Name :: string
  fl_Mime :: string
  fl_Size :: int
  fl_Open :: opened

record Inbound =
  in_Surface :: string
  in_Channel :: string
  in_Thread :: string
  in_User :: User
  in_Text :: string
  in_IsDM :: bool
  in_Addressed :: bool
  in_Files :: "File list"
  in_ChannelName :: string
  in_BotID :: string

record Post =
  po_Channel :: string
  po_Thread :: string
  po_Text :: string
  po_Persona :: Persona
  po_Ephemeral :: bool
  po_User :: string

record Prompt =
  pt_Channel :: string
  pt_Thread :: string
  pt_Persona :: Persona
  pt_RequestID :: string
  pt_Tool :: string
  pt_Summary :: string
  pt_Detail :: string

subsection \<open>The gateway's own records\<close>

record turnContext =
  tc_TurnID :: string
  tc_ThreadID :: string
  tc_Surface :: string
  tc_Channel :: string
  tc_Thread :: string
  tc_Runner :: string
  tc_User :: User
  tc_Persona :: Persona
  tc_Activity :: string
  tc_StartedAt :: int
  tc_queued :: bool
  tc_lastActivity :: int

record queuedTurn =
  qt_in :: Inbound
  qt_runner :: string
  qt_rc :: Runner
  qt_persona :: Persona
  qt_noticeRef :: "Ref option"

record runnerQueue =
  rq_active :: nat
  rq_waiting :: "queuedTurn list"

record pendingPrompt =
  pp_RequestID :: string
  pp_Runner :: string
  pp_Turn :: turnContext
  pp_Ref :: Ref
  pp_Tool :: string

record workingEntry =
  we_surface :: string
  we_channel :: string
  we_thread :: string
  we_text :: string
  we_persona :: Persona
  we_running :: bool
  we_setAt :: int
  we_lastSent :: int

record wakeNotice =
  wn_surface :: string
  wn_channel :: string
  wn_thread :: string
  wn_persona :: Persona
  wn_ref :: Ref

record wakeState =
  ws_last :: "int option"
  ws_retrying :: bool
  ws_notices :: "wakeNotice list"

record Conn =
  cn_runner :: string
  cn_queued :: nat
  cn_done :: bool
  cn_closed :: bool
  cn_lastSeen :: int
  cn_bundleVersion :: int
  cn_bundleDigest :: string

record incomingBlob =
  ib_meta :: BlobBegin
  ib_data :: string
  ib_closed :: bool
  ib_turn :: "turnContext option"

record bundleState =
  bs_Version :: int
  bs_Digest :: string

datatype effect =
    EPost string Post "Ref option"
  | EUpdate string Ref Post
  | EPrompt string Prompt "Ref option"
  | EResolve string Ref string
  | ESend nat Frame
  | ERaw nat string
  | EBinary nat string
  | EWorking workingEntry
  | EStream string surface_call
  | EUpload string string string string string string
  | EStart string string

record gw =
  gw_cfg :: Config
  gw_store :: Store
  gw_hub :: "nat gomap"
  gw_conns :: "(nat \<times> Conn) list"
  gw_streams :: "stream gomap"
  gw_prompts :: "pendingPrompt gomap"
  gw_turns :: "turnContext gomap"
  gw_queues :: "runnerQueue gomap"
  gw_threadActive :: "bool gomap"
  gw_threadWaiting :: "queuedTurn list gomap"
  gw_grants :: grantStore
  gw_heldFiles :: "File list gomap"
  gw_wakes :: "wakeState gomap"
  gw_working :: "workingEntry gomap"
  gw_latched :: "bool gomap"
  gw_bundles :: "bundleState gomap"
  gw_blobs :: "((nat \<times> string) \<times> incomingBlob) list"
  gw_ids :: nat
  gw_out :: "effect list"

text \<open>What a credential provider mints.\<close>

record Credential =
  cd_Username :: string
  cd_Token :: string
  cd_ExpiresAt :: "int option"

datatype start_result = Stopping | StartFailed string | StartOK bool

record env =
  en_now :: int
  en_clock :: string
  en_id :: "string \<Rightarrow> nat \<Rightarrow> string"
  en_surface :: "string \<Rightarrow> bool"
  en_post :: "nat \<Rightarrow> Ref option"
  en_flush :: "nat \<Rightarrow> flush_env"
  en_json :: JSON
  en_startTurn :: "string \<Rightarrow> bool"
  en_enqueue :: "string \<Rightarrow> bool"
  en_deleteQueued :: "nat \<Rightarrow> bool"
  en_tempfile :: "string \<Rightarrow> string option"
  en_spool :: "nat \<Rightarrow> bool"
  en_upload :: "nat \<Rightarrow> string option"
  en_header :: "ChunkHeader \<Rightarrow> string option"
  en_sha256 :: "string \<Rightarrow> string"
  en_waker :: bool
  en_start :: "nat \<Rightarrow> start_result"
  en_input :: json_object
  en_prompt :: "nat \<Rightarrow> string + Ref"
  en_proxied :: "string \<Rightarrow> bool"
  en_mcp :: "string \<Rightarrow> string \<Rightarrow> string \<Rightarrow> string + string"
  en_mint :: "(string \<Rightarrow> bool \<Rightarrow> string + Credential) option"
  en_prices :: Table
  en_secret :: "string \<Rightarrow> string + string"
  en_report :: "string \<Rightarrow> gw \<Rightarrow> string"

subsection \<open>Primitive operations\<close>

definition emit :: "effect \<Rightarrow> gw \<Rightarrow> gw" where
  "emit x g = g\<lparr>gw_out := gw_out g @ [x]\<rparr>"

definition threadKey :: "string \<Rightarrow> string \<Rightarrow> string \<Rightarrow> string" where
  "threadKey surfaceName channel thread = surfaceName @ '':'' @ channel @ '':'' @ thread"

definition newID :: "env \<Rightarrow> string \<Rightarrow> gw \<Rightarrow> string \<times> gw" where
  "newID e p g = (en_id e p (gw_ids g), g\<lparr>gw_ids := gw_ids g + 1\<rparr>)"

definition runnerConfig :: "gw \<Rightarrow> string \<Rightarrow> Runner option" where
  "runnerConfig g name = (case map_of (Runners (gw_cfg g)) name of Some (Some r) \<Rightarrow> Some r | _ \<Rightarrow> None)"

definition no_persona :: Persona where "no_persona = \<lparr>pe_Name = [], pe_Icon = []\<rparr>"

definition personaFor :: "Runner option \<Rightarrow> Persona" where
  "personaFor r = (case r of None \<Rightarrow> no_persona
     | Some r \<Rightarrow> \<lparr>pe_Name = dp_Name (r_Display r), pe_Icon = dp_Icon (r_Display r)\<rparr>)"

definition post :: "env \<Rightarrow> string \<Rightarrow> Post \<Rightarrow> gw \<Rightarrow> gw \<times> Ref option" where
  "post e surf p g = (let r = en_post e (length (gw_out g)) in (emit (EPost surf p r) g, r))"

definition update_post :: "string \<Rightarrow> Ref \<Rightarrow> Post \<Rightarrow> gw \<Rightarrow> gw" where
  "update_post surf r p g = emit (EUpdate surf r p) g"

text \<open>An ephemeral message to the requesting user.\<close>

definition notice :: "env \<Rightarrow> Inbound \<Rightarrow> string \<Rightarrow> gw \<Rightarrow> gw" where
  "notice e inb text g =
     (if \<not> en_surface e (in_Surface inb) then g
      else fst (post e (in_Surface inb)
        \<lparr>po_Channel = in_Channel inb, po_Thread = in_Thread inb, po_Text = text, po_Persona = no_persona,
         po_Ephemeral = True, po_User = usr_ID (in_User inb)\<rparr> g))"

definition plain_post :: "turnContext \<Rightarrow> string \<Rightarrow> Post" where
  "plain_post t text = \<lparr>po_Channel = tc_Channel t, po_Thread = tc_Thread t, po_Text = text,
     po_Persona = tc_Persona t, po_Ephemeral = False, po_User = []\<rparr>"

definition post_turn :: "env \<Rightarrow> turnContext \<Rightarrow> string \<Rightarrow> gw \<Rightarrow> gw" where
  "post_turn e t text g =
     (if en_surface e (tc_Surface t) then fst (post e (tc_Surface t) (plain_post t text) g) else g)"

subsection \<open>Connections\<close>

datatype ConnState = StateConnected | StateDegraded | StateDisconnected

definition Conn_State :: "int \<Rightarrow> Conn \<Rightarrow> int \<Rightarrow> ConnState" where
  "Conn_State now c heartbeat =
     (if cn_closed c then StateDisconnected
      else let silence = now - cn_lastSeen c in
        if silence > 5 * heartbeat then StateDisconnected
        else if silence > 2 * heartbeat then StateDegraded
        else StateConnected)"

definition conn_of :: "gw \<Rightarrow> nat \<Rightarrow> Conn option" where
  "conn_of g i = map_of (gw_conns g) i"

definition upd_conn :: "nat \<Rightarrow> (Conn \<Rightarrow> Conn) \<Rightarrow> gw \<Rightarrow> gw" where
  "upd_conn i f g = (case conn_of g i of None \<Rightarrow> g | Some c \<Rightarrow> g\<lparr>gw_conns := put i (f c) (gw_conns g)\<rparr>)"

definition CloseWith :: "nat \<Rightarrow> gw \<Rightarrow> gw" where
  "CloseWith i = upd_conn i (\<lambda>c. c\<lparr>cn_closed := True, cn_done := True\<rparr>)"

definition out_capacity :: nat where "out_capacity = 256"

text \<open>Queueing a frame: refused on a closed connection; a full queue closes the connection.\<close>

definition sendRaw :: "nat \<Rightarrow> effect \<Rightarrow> gw \<Rightarrow> gw \<times> bool" where
  "sendRaw i x g =
     (case conn_of g i of None \<Rightarrow> (g, False)
      | Some c \<Rightarrow>
          if cn_done c then (g, False)
          else if cn_queued c < out_capacity
          then (emit x (upd_conn i (\<lambda>c. c\<lparr>cn_queued := cn_queued c + 1\<rparr>) g), True)
          else (CloseWith i g, False))"

definition Send :: "env \<Rightarrow> nat \<Rightarrow> Frame \<Rightarrow> gw \<Rightarrow> gw \<times> bool" where
  "Send e i f g = (case Encode (en_json e) (Some f) of Inl _ \<Rightarrow> (g, False) | Inr _ \<Rightarrow> sendRaw i (ESend i f) g)"

definition hub_Get :: "gw \<Rightarrow> string \<Rightarrow> nat option" where
  "hub_Get g runner = map_of (gw_hub g) runner"

definition Register :: "nat \<Rightarrow> string \<Rightarrow> gw \<Rightarrow> gw \<times> nat option" where
  "Register i runner g = (g\<lparr>gw_hub := put runner i (gw_hub g)\<rparr>, hub_Get g runner)"

definition Unregister :: "nat \<Rightarrow> string \<Rightarrow> gw \<Rightarrow> gw" where
  "Unregister i runner g = (if hub_Get g runner = Some i then g\<lparr>gw_hub := del runner (gw_hub g)\<rparr> else g)"

subsection \<open>The working indicator\<close>

definition seconds :: "int \<Rightarrow> int" where "seconds n = n * 1000000000"

definition setWorking ::
  "env \<Rightarrow> string \<Rightarrow> string \<Rightarrow> string \<Rightarrow> string \<Rightarrow> Persona \<Rightarrow> string \<Rightarrow> bool \<Rightarrow> gw \<Rightarrow> gw" where
  "setWorking e key surf channel thread persona text running g =
     (if text = [] then g
      else if get_or False (gw_latched g) (surf @ '':'' @ channel) then g
      else let w = \<lparr>we_surface = surf, we_channel = channel, we_thread = thread, we_text = text,
                    we_persona = persona, we_running = running, we_setAt = en_now e, we_lastSent = en_now e\<rparr>
        in emit (EWorking w) (g\<lparr>gw_working := put key w (gw_working g)\<rparr>))"

definition setWorkingForTurn :: "env \<Rightarrow> turnContext \<Rightarrow> gw \<Rightarrow> gw" where
  "setWorkingForTurn e t g =
     (case runnerConfig g (tc_Runner t) of None \<Rightarrow> g
      | Some rc \<Rightarrow> setWorking e (tc_ThreadID t) (tc_Surface t) (tc_Channel t) (tc_Thread t) (tc_Persona t)
          (WorkingText (Some rc)) True g)"

definition setWaiting :: "env \<Rightarrow> Inbound \<Rightarrow> Runner \<Rightarrow> string \<Rightarrow> gw \<Rightarrow> gw" where
  "setWaiting e inb rc text g =
     (if WorkingText (Some rc) = [] then g
      else setWorking e (threadKey (in_Surface inb) (in_Channel inb) (in_Thread inb)) (in_Surface inb)
        (in_Channel inb) (in_Thread inb) (personaFor (Some rc)) text False g)"

definition touchWorking :: "env \<Rightarrow> string \<Rightarrow> gw \<Rightarrow> gw" where
  "touchWorking e key g =
     (case map_of (gw_working g) key of None \<Rightarrow> g
      | Some w \<Rightarrow>
          if en_now e - we_lastSent w < seconds 30 then g
          else let w' = w\<lparr>we_lastSent := en_now e\<rparr> in
            emit (EWorking w') (g\<lparr>gw_working := put key w' (gw_working g)\<rparr>))"

definition clearWorking :: "string \<Rightarrow> gw \<Rightarrow> gw" where
  "clearWorking key g =
     (case map_of (gw_working g) key of None \<Rightarrow> g\<lparr>gw_working := del key (gw_working g)\<rparr>
      | Some w \<Rightarrow> emit (EWorking (w\<lparr>we_text := []\<rparr>)) (g\<lparr>gw_working := del key (gw_working g)\<rparr>))"

subsection \<open>Streams of turns\<close>

definition streamFor :: "turnContext \<Rightarrow> gw \<Rightarrow> stream" where
  "streamFor t g = get_or (new_stream (tc_Activity t)) (gw_streams g) (tc_TurnID t)"

definition upd_stream :: "turnContext \<Rightarrow> (stream \<Rightarrow> stream) \<Rightarrow> gw \<Rightarrow> gw" where
  "upd_stream t f g = g\<lparr>gw_streams := put (tc_TurnID t) (f (streamFor t g)) (gw_streams g)\<rparr>"

definition flush_stream :: "env \<Rightarrow> turnContext \<Rightarrow> gw \<Rightarrow> gw" where
  "flush_stream e t g =
     (let (s', out) = flushWith (en_flush e (length (gw_out g))) False (streamFor t g) in
      g\<lparr>gw_streams := put (tc_TurnID t) s' (gw_streams g),
        gw_out := gw_out g @ map (EStream (tc_TurnID t)) out\<rparr>)"

text \<open>Closing a turn's stream, when there is one; a closed stream has been removed from the map.\<close>

definition close_stream :: "env \<Rightarrow> turnContext \<Rightarrow> gw \<Rightarrow> gw \<times> stream option" where
  "close_stream e t g =
     (case map_of (gw_streams g) (tc_TurnID t) of None \<Rightarrow> (g, None)
      | Some s \<Rightarrow>
          let (s', out) = Close (en_flush e (length (gw_out g))) s in
          (g\<lparr>gw_streams := del (tc_TurnID t) (gw_streams g),
             gw_out := gw_out g @ map (EStream (tc_TurnID t)) out\<rparr>, Some s'))"

text \<open>\<open>turnFor\<close>: any frame that names a live turn is activity on it.\<close>

definition turnFor :: "env \<Rightarrow> string \<Rightarrow> gw \<Rightarrow> gw \<times> turnContext option" where
  "turnFor e turnID g =
     (case map_of (gw_turns g) turnID of None \<Rightarrow> (g, None)
      | Some t \<Rightarrow> let t' = t\<lparr>tc_lastActivity := en_now e\<rparr> in
          (touchWorking e (tc_ThreadID t) (g\<lparr>gw_turns := put turnID t' (gw_turns g)\<rparr>), Some t'))"

definition log_event :: "Event \<Rightarrow> gw \<Rightarrow> gw" where
  "log_event ev g = g\<lparr>gw_store := Log ev (gw_store g)\<rparr>"

definition upd_store :: "(Store \<Rightarrow> Store) \<Rightarrow> gw \<Rightarrow> gw" where
  "upd_store f g = g\<lparr>gw_store := f (gw_store g)\<rparr>"

subsection \<open>A sample state\<close>

text \<open>A gateway with one configured runner that is connected; used by the witnesses.\<close>

definition sample_json :: JSON where
  "sample_json = \<lparr>marshal_frame = (\<lambda>f. Some []), unmarshal_fields = (\<lambda>b. Some []), marshal_string = (\<lambda>s. Some s),
     marshal_fields = (\<lambda>m. Some ''{}''), unmarshal_probe = (\<lambda>d. None), unmarshal_frame = (\<lambda>d z. None)\<rparr>"

definition sample_env :: env where
  "sample_env = \<lparr>en_now = 0, en_clock = ''now'', en_id = (\<lambda>p n. p @ ''_'' @ replicate n (CHR ''x'')),
     en_surface = (\<lambda>s. s = ''slack''), en_post = (\<lambda>n. None), en_flush = (\<lambda>n. all_good),
     en_json = sample_json, en_startTurn = (\<lambda>i. True), en_enqueue = (\<lambda>i. True),
     en_deleteQueued = (\<lambda>i. True), en_tempfile = (\<lambda>i. None), en_spool = (\<lambda>n. True),
     en_upload = (\<lambda>n. None), en_header = (\<lambda>h. Some ''h''), en_sha256 = (\<lambda>s. ''SUM''), en_waker = False,
     en_start = (\<lambda>n. StartOK True), en_input = (\<lambda>s. None), en_prompt = (\<lambda>n. Inr \<lparr>ref_Channel = ''C1'', ref_Thread = ''1.2'', ref_ID = ''9''\<rparr>),
     en_proxied = (\<lambda>s. False), en_mcp = (\<lambda>s t a. Inl ''down''), en_mint = None,
     en_prices = \<lparr>t_Version = ''v1'', t_Rates = [], t_Default = None\<rparr>, en_secret = (\<lambda>n. Inr ''tok''),
     en_report = (\<lambda>k g. k)\<rparr>"

definition sample_user :: User where
  "sample_user = \<lparr>usr_ID = ''U1'', usr_Display = ''Ann'', usr_Email = []\<rparr>"

definition sample_turn :: turnContext where
  "sample_turn = \<lparr>tc_TurnID = ''turn_1'', tc_ThreadID = ''slack:C1:1.2'', tc_Surface = ''slack'',
     tc_Channel = ''C1'', tc_Thread = ''1.2'', tc_Runner = ''box'', tc_User = sample_user,
     tc_Persona = no_persona, tc_Activity = ''transient'', tc_StartedAt = 0, tc_queued = False,
     tc_lastActivity = 0\<rparr>"

definition sample_gw :: gw where
  "sample_gw = \<lparr>gw_cfg = sample_config, gw_store = Open, gw_hub = [(''box'', 0)],
     gw_conns = [(0, \<lparr>cn_runner = ''box'', cn_queued = 0, cn_done = False, cn_closed = False, cn_lastSeen = 0,
        cn_bundleVersion = 0, cn_bundleDigest = []\<rparr>)],
     gw_streams = [], gw_prompts = [], gw_turns = [], gw_queues = [], gw_threadActive = [],
     gw_threadWaiting = [], gw_grants = newGrantStore, gw_heldFiles = [], gw_wakes = [], gw_working = [],
     gw_latched = [], gw_bundles = [], gw_blobs = [], gw_ids = 0, gw_out = []\<rparr>"

end
