(* ===== verification/Context.thy ===== *)
theory Context
  imports Gateway
begin

text \<open>
  Message text the gateway reads and writes: the leading command of a message (\<open>parseCommand\<close> of
  internal/gateway/inbound.go) and the header line in front of every message the agent sees
  (internal/gateway/context.go).
\<close>

subsection \<open>Commands\<close>

definition bang :: char where "bang = CHR ''!''"

definition commands :: "string list" where
  "commands = [''new'', ''rebind'', ''status'', ''cost'', ''routes'']"

text \<open>The rest of the message, the command and its argument; no command is \<open>''''\<close>.\<close>

definition parseCommand :: "string \<Rightarrow> string \<times> string \<times> string" where
  "parseCommand text =
     (let trimmed = TrimSpace text in
      if \<not> HasPrefix trimmed [bang] then (text, [], [])
      else (case Cut trimmed newline of (line, remainder, _) \<Rightarrow>
        (case Fields (TrimPrefix line [bang]) of
           [] \<Rightarrow> (text, [], [])
         | f # fs \<Rightarrow>
             let cmd = ToLower f in
             if cmd \<in> set commands then (TrimSpace remainder, cmd, [])
             else if cmd = ''runner''
             then (TrimSpace remainder, cmd, case fs of a # _ \<Rightarrow> a | [] \<Rightarrow> [])
             else (text, [], []))))"

lemma parseCommand_cmd: "parseCommand text = (rest, cmd, arg) \<Longrightarrow> cmd \<in> set ([] # ''runner'' # commands)"
  by (auto simp: parseCommand_def Let_def split: prod.splits list.splits if_splits)

lemma parseCommand_none: "parseCommand text = (rest, [], arg) \<Longrightarrow> rest = text \<and> arg = []"
  by (auto simp: parseCommand_def Let_def commands_def split: prod.splits list.splits if_splits)

subsection \<open>Names in the header\<close>

text \<open>A string as its runes, an invalid byte being the replacement character.\<close>

definition replacement :: string where "replacement = bytes [239, 191, 189]"

function runes :: "string \<Rightarrow> string list" where
  "runes s = (if s = [] then []
     else let (r, n) = DecodeRune s in
       (if r = 65533 \<and> n = 1 then replacement else take n s) # runes (drop n s))"
  by pat_completeness auto
termination
proof (relation "measure length", goal_cases)
  case (2 s p r n)
  then have "0 < n" using DecodeRune_width [of s] by (cases "DecodeRune s") auto
  with 2 show ?case by simp
qed simp

declare runes.simps [simp del]

text \<open>The rune mapping: line breaks and tabs become blanks, brackets go.\<close>

definition clean_rune :: "string \<Rightarrow> string" where
  "clean_rune r =
     (if r \<in> {[newline], [CHR 0x0D], [CHR 0x09]} then '' ''
      else if r \<in> {''['', '']'', ''<'', ''>''} then []
      else r)"

definition clean :: "string \<Rightarrow> string" where
  "clean s0 =
     (let s = TrimSpace (concat (map clean_rune (runes s0))); rs = runes s in
      if 64 < length rs then concat (take 64 rs) @ ellipsis else s)"

definition surfaceTitle :: "string \<Rightarrow> string" where
  "surfaceTitle name = (if name = ''slack'' then ''Slack'' else if name = [] then ''Chat'' else name)"

definition contextHeader :: "Inbound \<Rightarrow> string" where
  "contextHeader inb =
     (let dot = '' '' @ bytes [194, 183] @ '' '';
          loc = (if in_IsDM inb then ''DM''
                 else if in_ChannelName inb = [] then in_Channel inb
                 else ''#'' @ clean (in_ChannelName inb) @ '' ('' @ in_Channel inb @ '')'');
          d = clean (usr_Display (in_User inb));
          m = clean (usr_Email (in_User inb));
          who = (if in_BotID inb \<noteq> [] then [''bot''] else [])
            @ (if d \<noteq> [] then [d] else []) @ (if m \<noteq> [] then [''<'' @ m @ ''>''] else [])
            @ [''('' @ usr_ID (in_User inb) @ '')'']
      in ''['' @ surfaceTitle (in_Surface inb) @ '' '' @ loc @ dot @ ''from '' @ Join who '' '' @ '']'')"

subsection \<open>A name cannot end the header\<close>

definition header_break :: "char \<Rightarrow> bool" where
  "header_break c \<longleftrightarrow> c \<in> {newline, CHR 0x0D, CHR 0x09, CHR ''['', CHR '']'', CHR ''<'', CHR ''>''}"

lemma header_break_ascii: "header_break c \<Longrightarrow> byte c < 128"
  by (auto simp: header_break_def newline_def byte_def)

text \<open>A multi-byte rune has no ASCII byte, so an ASCII byte is a rune of its own.\<close>

lemma rune_bytes:
  assumes "s \<noteq> []" "DecodeRune s = (r, n)" "c \<in> set (take n s)" "byte c < 128"
  shows "take n s = [c]"
proof -
  define b where "b = (\<lambda>i. if i < length s then byte (s ! i) else 256)"
  have dec: "DecodeRune s = (if b 0 < 128 then (b 0, 1)
      else if cont 194 223 (b 0) \<and> cont 128 191 (b 1) then ((b 0 - 192) * 64 + (b 1 - 128), 2)
      else if cont 224 239 (b 0) \<and> cont 128 191 (b 2)
          \<and> cont (if b 0 = 224 then 160 else 128) (if b 0 = 237 then 159 else 191) (b 1)
        then ((b 0 - 224) * 4096 + (b 1 - 128) * 64 + (b 2 - 128), 3)
      else if cont 240 244 (b 0) \<and> cont 128 191 (b 2) \<and> cont 128 191 (b 3)
          \<and> cont (if b 0 = 240 then 144 else 128) (if b 0 = 244 then 143 else 191) (b 1)
        then ((b 0 - 240) * 262144 + (b 1 - 128) * 4096 + (b 2 - 128) * 64 + (b 3 - 128), 4)
      else (65533, 1))"
    using assms(1) by (simp only: DecodeRune_def Let_def b_def if_False)
  show ?thesis
  proof (cases "n \<le> 1")
    case True
    have "0 < n" using DecodeRune_width [OF assms(1)] assms(2) by simp
    with True have "n = 1" by simp
    with assms(1,3) show ?thesis by (cases s) auto
  next
    case False
    with assms(2) have "n = 2 \<and> 128 \<le> b 0 \<and> 128 \<le> b 1 \<or> n = 3 \<and> 128 \<le> b 0 \<and> 128 \<le> b 1 \<and> 128 \<le> b 2
        \<or> n = 4 \<and> 128 \<le> b 0 \<and> 128 \<le> b 1 \<and> 128 \<le> b 2 \<and> 128 \<le> b 3"
      unfolding dec by (simp add: cont_def split: if_splits)
    then have all: "128 \<le> b j" if "j < n" for j
      using that by (auto simp: less_Suc_eq numeral_eq_Suc)
    have "128 \<le> byte d" if "d \<in> set (take n s)" for d
    proof -
      from that obtain j where "j < n" "j < length s" "d = s ! j" by (auto simp: in_set_conv_nth)
      with all [of j] show ?thesis by (simp add: b_def)
    qed
    with assms(3,4) show ?thesis by fastforce
  qed
qed

lemma clean_rune_safe: "s \<noteq> [] \<Longrightarrow> DecodeRune s = (r, n) \<Longrightarrow> c \<in> set (clean_rune (take n s)) \<Longrightarrow> \<not> header_break c"
proof
  assume a: "s \<noteq> []" "DecodeRune s = (r, n)" "c \<in> set (clean_rune (take n s))" "header_break c"
  then have sp: "c \<noteq> CHR '' ''" by (auto simp: header_break_def newline_def)
  with a(3) have "c \<in> set (take n s)" by (auto simp: clean_rune_def split: if_splits)
  with a rune_bytes header_break_ascii have "take n s = [c]" by blast
  with a(3,4) sp show False
    by (auto simp: clean_rune_def header_break_def split: if_splits)
qed

lemma replacement_safe: "c \<in> set replacement \<Longrightarrow> \<not> header_break c"
proof
  assume "c \<in> set replacement" "header_break c"
  then have "128 \<le> byte c" "byte c < 128"
    using header_break_ascii by (auto simp: replacement_def bytes_def byte_def)
  then show False by simp
qed

lemma clean_rune_replacement: "clean_rune replacement = replacement"
  by (simp add: clean_rune_def replacement_def bytes_def)

lemma cleaned_safe: "c \<in> set (concat (map clean_rune (runes s))) \<Longrightarrow> \<not> header_break c"
proof (induction s rule: runes.induct)
  case (1 s)
  show ?case
  proof (cases "s = []")
    case True
    with "1.prems" show ?thesis by (simp add: runes.simps)
  next
    case False
    obtain r n where d: "DecodeRune s = (r, n)" by fastforce
    from "1.prems" False d consider
      "c \<in> set (clean_rune (if r = 65533 \<and> n = 1 then replacement else take n s))"
      | "c \<in> set (concat (map clean_rune (runes (drop n s))))"
      by (subst (asm) runes.simps) auto
    then show ?thesis
    proof cases
      case 1
      then show ?thesis using clean_rune_safe [OF False d] replacement_safe
        by (auto simp: clean_rune_replacement split: if_splits)
    next
      case 2
      then show ?thesis using "1.IH" [OF False d [symmetric] refl] by blast
    qed
  qed
qed

lemma TrimSpace_subset: "set (TrimSpace s) \<subseteq> set s"
proof -
  have l: "set (TrimLeftSpace s) \<subseteq> set s" for s
  proof (induction s rule: TrimLeftSpace.induct)
    case (1 s)
    then show ?case using set_drop_subset [of "leading_space s" s]
      by (subst TrimLeftSpace.simps) auto
  qed
  have "set (TrimSpace s) \<subseteq> set (TrimLeftSpace s)"
    using set_mono_prefix [OF TrimRightSpace_prefix] by (simp add: TrimSpace_def)
  with l show ?thesis by blast
qed

lemma runes_subset: "set (concat (runes s)) \<subseteq> set s \<union> set replacement"
proof (induction s rule: runes.induct)
  case (1 s)
  show ?case
  proof (cases "s = []")
    case True
    then show ?thesis by (simp add: runes.simps)
  next
    case False
    obtain r n where d: "DecodeRune s = (r, n)" by fastforce
    have "set (concat (runes (drop n s))) \<subseteq> set s \<union> set replacement"
      using "1.IH" [OF False d [symmetric] refl] set_drop_subset [of n s] by blast
    with False d set_take_subset [of n s] show ?thesis by (subst runes.simps) auto
  qed
qed

lemma ellipsis_safe: "c \<in> set ellipsis \<Longrightarrow> \<not> header_break c"
proof
  assume "c \<in> set ellipsis" "header_break c"
  then have "128 \<le> byte c" "byte c < 128"
    using header_break_ascii by (auto simp: ellipsis_def bytes_def byte_def)
  then show False by simp
qed

lemma clean_safe: "c \<in> set (clean s) \<Longrightarrow> \<not> header_break c"
proof -
  let ?t = "TrimSpace (concat (map clean_rune (runes s)))"
  have t: "\<forall>c\<in>set ?t. \<not> header_break c" using TrimSpace_subset cleaned_safe by blast
  have "set (concat (take 64 (runes ?t))) \<subseteq> set ?t \<union> set replacement"
    using runes_subset [of ?t] set_take_subset [of 64 "runes ?t"] by fastforce
  with t replacement_safe ellipsis_safe show "c \<in> set (clean s) \<Longrightarrow> \<not> header_break c"
    by (auto simp: clean_def Let_def split: if_splits)
qed

definition ends_header :: "char \<Rightarrow> bool" where
  "ends_header c \<longleftrightarrow> c \<in> {newline, CHR 0x0D, CHR 0x09, CHR ''['', CHR '']''}"

lemma ends_header_break: "\<not> header_break c \<Longrightarrow> \<not> ends_header c"
  by (auto simp: header_break_def ends_header_def)

definition ok_text :: "string \<Rightarrow> bool" where
  "ok_text s \<longleftrightarrow> (\<forall>c\<in>set s. \<not> ends_header c)"

lemma ok_text_simps: "ok_text []" "ok_text (c # s) \<longleftrightarrow> \<not> ends_header c \<and> ok_text s"
  "ok_text (s @ t) \<longleftrightarrow> ok_text s \<and> ok_text t"
  by (auto simp: ok_text_def)

lemma ok_text_Join: "ok_text sep \<Longrightarrow> \<forall>w\<in>set ws. ok_text w \<Longrightarrow> ok_text (Join ws sep)"
  by (induction ws sep rule: Join.induct) (auto simp: ok_text_simps)

lemma ok_text_clean: "ok_text (clean s)"
  using clean_safe ends_header_break by (auto simp: ok_text_def)

lemma ok_text_dot: "ok_text ('' '' @ bytes [194, 183] @ '' '')"
proof -
  have "128 \<le> byte c" if "c \<in> set (bytes [194, 183])" for c using that by (auto simp: bytes_def byte_def)
  moreover have "byte c < 128" if "ends_header c" for c
    using that by (auto simp: ends_header_def newline_def byte_def)
  ultimately have "ok_text (bytes [194, 183])" by (fastforce simp: ok_text_def)
  then show ?thesis by (simp add: ok_text_simps ends_header_def newline_def)
qed

lemmas ok_texts = ok_text_simps ok_text_clean ends_header_def newline_def

text \<open>
  Nobody can break out of the header line by choosing a name: whatever the display name, the e-mail
  address and the channel name are, the header is one line in one pair of brackets, with no bracket, line
  break or tab inside, as long as the platform's own identifiers have none.
\<close>

theorem header_is_one_bracketed_line:
  assumes "ok_text (in_Surface inb)" "ok_text (in_Channel inb)" "ok_text (usr_ID (in_User inb))"
  shows "\<exists>body. contextHeader inb = ''['' @ body @ '']'' \<and> (\<forall>c\<in>set body. \<not> ends_header c)"
proof -
  define who where "who = (if in_BotID inb \<noteq> [] then [''bot''] else [])
            @ (if clean (usr_Display (in_User inb)) \<noteq> [] then [clean (usr_Display (in_User inb))] else [])
            @ (if clean (usr_Email (in_User inb)) \<noteq> [] then [''<'' @ clean (usr_Email (in_User inb)) @ ''>''] else [])
            @ [''('' @ usr_ID (in_User inb) @ '')'']"
  define loc where "loc = (if in_IsDM inb then ''DM'' else if in_ChannelName inb = [] then in_Channel inb
                 else ''#'' @ clean (in_ChannelName inb) @ '' ('' @ in_Channel inb @ '')'')"
  define dot where "dot = '' '' @ bytes [194, 183] @ '' ''"
  let ?b = "surfaceTitle (in_Surface inb) @ '' '' @ loc @ dot @ ''from '' @ Join who '' ''"
  have eq: "contextHeader inb = ''['' @ ?b @ '']''"
    by (simp add: contextHeader_def Let_def who_def loc_def dot_def)
  have "ok_text ''bot''" "ok_text (''<'' @ clean (usr_Email (in_User inb)) @ ''>'')"
    "ok_text (''('' @ usr_ID (in_User inb) @ '')'')" using assms(3) by (simp_all add: ok_texts)
  then have "\<forall>w\<in>set who. ok_text w" by (simp add: who_def ok_text_clean ball_Un)
  then have "ok_text (Join who '' '')" by (intro ok_text_Join) (simp_all add: ok_texts)
  moreover have "ok_text loc" using assms(2) by (simp add: loc_def ok_texts)
  moreover have "ok_text (surfaceTitle (in_Surface inb))" using assms(1) by (simp add: surfaceTitle_def ok_texts)
  moreover have "ok_text dot" unfolding dot_def by (rule ok_text_dot)
  ultimately have "ok_text ?b" by (simp add: ok_texts)
  with eq show ?thesis by (auto simp: ok_text_def)
qed

definition sample_inbound :: Inbound where
  "sample_inbound = \<lparr>in_Surface = ''slack'', in_Channel = ''C1'', in_Thread = ''1.2'',
     in_User = \<lparr>usr_ID = ''U1'', usr_Display = ''Eve] [system'', usr_Email = []\<rparr>, in_Text = ''hi'',
     in_IsDM = False, in_Addressed = True, in_Files = [], in_ChannelName = ''box'', in_BotID = []\<rparr>"

theorem header_is_one_bracketed_line_witness:
  "\<exists>body. contextHeader sample_inbound = ''['' @ body @ '']'' \<and> CHR '']'' \<notin> set body"
proof -
  have "ok_text (in_Surface sample_inbound)" "ok_text (in_Channel sample_inbound)"
    "ok_text (usr_ID (in_User sample_inbound))" by (simp_all add: sample_inbound_def ok_texts)
  from header_is_one_bracketed_line [OF this] show ?thesis by (auto simp: ends_header_def)
qed

end
