(* ===== verification/Blobs.thy ===== *)
theory Blobs
  imports Gateway
begin

text \<open>
  File transfers between the surface and a runner (internal/gateway/blobs.go): relaying attachments to a
  runner in chunks, and assembling what a runner sends. \<open>en_sha256\<close> is the hex digest,
  \<open>en_tempfile\<close> the error of creating the spool file, \<open>en_spool\<close> whether a spool write
  succeeds, \<open>en_upload\<close> the error of the surface upload.
\<close>

subsection \<open>Names\<close>

definition sanitizeName :: "string \<Rightarrow> string" where
  "sanitizeName n0 =
     (let n = filter (\<lambda>c. c \<noteq> nul) (AfterLast separator (TrimSpace n0)) in
      if n = [] \<or> n = ''.'' \<or> n = ''..'' then ''attachment'' else n)"

lemma sanitizeName_safe: "safeFileName (sanitizeName n) = None"
proof -
  have sep: "\<not> separator c" if "c \<in> set (sanitizeName n)" for c
    using that AfterLast_clean [of c separator "TrimSpace n"]
    by (auto simp: sanitizeName_def Let_def separator_def slash_def backslash_def split: if_splits)
  have nul: "nul \<notin> set (sanitizeName n)"
    by (auto simp: sanitizeName_def Let_def nul_def)
  have "sanitizeName n \<noteq> []" "sanitizeName n \<noteq> ''.''" "sanitizeName n \<noteq> ''..''"
    by (auto simp: sanitizeName_def Let_def)
  with sep nul show ?thesis by (auto simp: safeFileName_def)
qed

subsection \<open>Surface to runner\<close>

text \<open>The read loop: the total so far, the bytes hashed, the sequence number.\<close>

fun relay_reads ::
  "env \<Rightarrow> nat \<Rightarrow> string \<Rightarrow> string \<Rightarrow> string list \<Rightarrow> string option \<Rightarrow> string \<Rightarrow> 32 word \<Rightarrow> gw \<Rightarrow> gw \<times> (string + string)"
where
  "relay_reads e i blob name [] rerr data sq g =
     (case rerr of None \<Rightarrow> (g, Inr data)
      | Some m \<Rightarrow> (fst (Send e i (FBlobEnd \<lparr>be_blob = blob, be_sha256 = [], be_ok = False, be_error = m\<rparr>) g), Inl m))"
| "relay_reads e i blob name (b # bs) rerr data sq g =
     (if b = [] then relay_reads e i blob name bs rerr data sq g
      else if MaxBlobSize < int (length data + length b)
      then (fst (Send e i (FBlobEnd \<lparr>be_blob = blob, be_sha256 = [], be_ok = False,
              be_error = ''exceeds size cap mid-transfer''\<rparr>) g), Inl (name @ '' exceeded the size cap mid-transfer''))
      else (case EncodeChunk (en_header e) \<lparr>ch_blob = blob, ch_seq = sq\<rparr> b of
          Inl _ \<Rightarrow> (g, Inl ''chunk'')
        | Inr chunk \<Rightarrow>
            let (g', ok) = sendRaw i (EBinary i chunk) g in
            if \<not> ok then (g', Inl ''send'')
            else relay_reads e i blob name bs rerr (data @ b) (sq + 1) g'))"

definition relayOne :: "env \<Rightarrow> nat \<Rightarrow> turnContext \<Rightarrow> File \<Rightarrow> gw \<Rightarrow> gw \<times> (string + Attachment)" where
  "relayOne e i t f g =
     (if MaxBlobSize < fl_Size f then (g, Inl (fl_Name f @ '' is over the cap''))
      else
        let (blob, g0) = newID e ''blob'' g; name = sanitizeName (fl_Name f);
            begin_frame = \<lparr>bb_blob = blob, bb_thread = tc_ThreadID t, bb_turn = tc_TurnID t, bb_name = name,
                           bb_mime = fl_Mime f, bb_size = fl_Size f, bb_sha256 = []\<rparr>
        in if validate_BlobBegin begin_frame \<noteq> [] then (g0, Inl ''invalid'')
        else let (g1, ok) = Send e i (FBlobBegin begin_frame) g0 in
          if \<not> ok then (g1, Inl ''send'')
          else (case fl_Open f of
              OpenFails m \<Rightarrow>
                (fst (Send e i (FBlobEnd \<lparr>be_blob = blob, be_sha256 = [], be_ok = False, be_error = m\<rparr>) g1), Inl m)
            | Reads chunks rerr \<Rightarrow>
                (case relay_reads e i blob name chunks rerr [] 0 g1 of
                   (g2, Inl m) \<Rightarrow> (g2, Inl m)
                 | (g2, Inr data) \<Rightarrow>
                     let sum = en_sha256 e data;
                         (g3, sent) = Send e i (FBlobEnd \<lparr>be_blob = blob, be_sha256 = sum, be_ok = True, be_error = []\<rparr>) g2
                     in if \<not> sent then (g3, Inl ''send'')
                     else (upd_store (RecordBlob \<lparr>bl_ID = blob, bl_Direction = ''inbound'', bl_ThreadID = tc_ThreadID t,
                              bl_TurnID = tc_TurnID t, bl_Runner = tc_Runner t, bl_Name = name, bl_Mime = fl_Mime f,
                              bl_Size = int (length data), bl_SHA256 = sum, bl_SurfaceUser = usr_ID (tc_User t),
                              bl_OK = True, bl_Error = []\<rparr>) g3,
                           Inr \<lparr>att_blob = blob, att_name = name, att_mime = fl_Mime f, att_size = int (length data),
                                att_sha256 = sum, att_inline = HasPrefix (fl_Mime f) ''image/''\<rparr>))))"

text \<open>The attachments relayed before the first failure, and the failure.\<close>

fun relayFilesToRunner ::
  "env \<Rightarrow> nat \<Rightarrow> turnContext \<Rightarrow> File list \<Rightarrow> gw \<Rightarrow> gw \<times> Attachment list \<times> string option" where
  "relayFilesToRunner e i t [] g = (g, [], None)"
| "relayFilesToRunner e i t (f # fs) g =
     (case relayOne e i t f g of
        (g', Inl m) \<Rightarrow> (g', [], Some m)
      | (g', Inr a) \<Rightarrow>
          (case relayFilesToRunner e i t fs g' of (g'', as, m) \<Rightarrow> (g'', a # as, m)))"

subsection \<open>Runner to surface\<close>

definition onBlobBegin :: "env \<Rightarrow> nat \<Rightarrow> BlobBegin \<Rightarrow> gw \<Rightarrow> gw" where
  "onBlobBegin e c fr g =
     (case en_tempfile e (bb_blob fr) of
        Some m \<Rightarrow> fst (Send e c (FBlobEnd \<lparr>be_blob = bb_blob fr, be_sha256 = [], be_ok = False, be_error = m\<rparr>) g)
      | None \<Rightarrow> let (g1, t) = turnFor e (bb_turn fr) g in
          g1\<lparr>gw_blobs := put (c, bb_blob fr)
            \<lparr>ib_meta = fr, ib_data = [], ib_closed = False, ib_turn = t\<rparr> (gw_blobs g1)\<rparr>)"

definition onChunk :: "env \<Rightarrow> nat \<Rightarrow> ChunkHeader \<Rightarrow> string \<Rightarrow> gw \<Rightarrow> gw" where
  "onChunk e c hdr payload g =
     (case map_of (gw_blobs g) (c, ch_blob hdr) of None \<Rightarrow> g
      | Some b \<Rightarrow>
          if ib_closed b then g
          else if \<not> en_spool e (length (ib_data b))
          then g\<lparr>gw_blobs := put (c, ch_blob hdr) (b\<lparr>ib_closed := True\<rparr>) (gw_blobs g)\<rparr>
          else g\<lparr>gw_blobs := put (c, ch_blob hdr) (b\<lparr>ib_data := ib_data b @ payload\<rparr>) (gw_blobs g)\<rparr>)"

definition outbound_record :: "gw \<Rightarrow> nat \<Rightarrow> BlobEnd \<Rightarrow> incomingBlob \<Rightarrow> BlobRecord" where
  "outbound_record g c fr b = \<lparr>bl_ID = be_blob fr, bl_Direction = ''outbound'',
     bl_ThreadID = (case ib_turn b of None \<Rightarrow> [] | Some t \<Rightarrow> tc_ThreadID t),
     bl_TurnID = (case ib_turn b of None \<Rightarrow> [] | Some t \<Rightarrow> tc_TurnID t),
     bl_Runner = (case conn_of g c of None \<Rightarrow> [] | Some k \<Rightarrow> cn_runner k),
     bl_Name = sanitizeName (bb_name (ib_meta b)), bl_Mime = bb_mime (ib_meta b), bl_Size = 0, bl_SHA256 = [],
     bl_SurfaceUser = (case ib_turn b of None \<Rightarrow> [] | Some t \<Rightarrow> usr_ID (tc_User t)),
     bl_OK = False, bl_Error = []\<rparr>"

definition onBlobEnd :: "env \<Rightarrow> nat \<Rightarrow> BlobEnd \<Rightarrow> gw \<Rightarrow> gw" where
  "onBlobEnd e c fr g0 =
     (case map_of (gw_blobs g0) (c, be_blob fr) of None \<Rightarrow> g0
      | Some b \<Rightarrow>
          let g = g0\<lparr>gw_blobs := del (c, be_blob fr) (gw_blobs g0)\<rparr>;
              rec = outbound_record g c fr b; sum = en_sha256 e (ib_data b);
              rec' = rec\<lparr>bl_SHA256 := sum, bl_Size := int (length (ib_data b))\<rparr> in
          if \<not> be_ok fr then upd_store (RecordBlob (rec\<lparr>bl_Error := be_error fr\<rparr>)) g
          else if be_sha256 fr \<noteq> [] \<and> be_sha256 fr \<noteq> sum
          then upd_store (RecordBlob (rec\<lparr>bl_Error := ''checksum mismatch''\<rparr>)) g
          else (case ib_turn b of
              None \<Rightarrow> upd_store (RecordBlob (rec'\<lparr>bl_Error := ''no live turn to deliver to''\<rparr>)) g
            | Some t \<Rightarrow>
                if \<not> en_surface e (tc_Surface t)
                then upd_store (RecordBlob (rec'\<lparr>bl_Error := ''surface unavailable''\<rparr>)) g
                else (case en_upload e (length (gw_out g)) of
                    Some m \<Rightarrow> upd_store (RecordBlob (rec'\<lparr>bl_Error := m\<rparr>)) g
                  | None \<Rightarrow> upd_store (RecordBlob (rec'\<lparr>bl_OK := True\<rparr>))
                      (emit (EUpload (tc_Surface t) (tc_Channel t) (tc_Thread t) (bl_Name rec') (bl_Mime rec')
                        (ib_data b)) g))))"

subsection \<open>What is delivered\<close>

lemma onChunk_appends:
  assumes "map_of (gw_blobs g) (c, ch_blob hdr) = Some b" "\<not> ib_closed b" "\<forall>n. en_spool e n"
  shows "map_of (gw_blobs (onChunk e c hdr payload g)) (c, ch_blob hdr) = Some (b\<lparr>ib_data := ib_data b @ payload\<rparr>)"
  using assms by (simp add: onChunk_def)

text \<open>
  The 50 MiB cap on a transfer holds only for the size a runner announces: the chunks that follow are
  spooled without any limit and without looking at the announced size, however much arrives.
\<close>

theorem runner_transfer_is_uncapped:
  assumes "map_of (gw_blobs g) (c, ch_blob hdr) = Some b" "\<not> ib_closed b" "\<forall>n. en_spool e n"
  shows "map_of (gw_blobs (fold (onChunk e c hdr) payloads g)) (c, ch_blob hdr) =
    Some (b\<lparr>ib_data := ib_data b @ concat payloads\<rparr>)"
  using assms
proof (induction payloads arbitrary: g b)
  case (Cons p ps)
  from Cons.IH [OF onChunk_appends [OF Cons.prems], of p] Cons.prems show ?case by simp
qed simp

text \<open>
  C34. A file a runner sends reaches the surface only when it arrived whole: the runner reported success and
  gave either no checksum or the checksum of exactly the bytes that are uploaded.
\<close>

theorem uploads_are_verified:
  assumes "EUpload surf ch th name mime data \<in> set (gw_out (onBlobEnd e c fr g))"
    "EUpload surf ch th name mime data \<notin> set (gw_out g)"
  shows "be_ok fr \<and> (be_sha256 fr = [] \<or> be_sha256 fr = en_sha256 e data) \<and> safeFileName name = None"
proof -
  obtain b where b: "map_of (gw_blobs g) (c, be_blob fr) = Some b"
    using assms by (auto simp: onBlobEnd_def split: option.splits)
  have ok: "be_ok fr" "\<not> (be_sha256 fr \<noteq> [] \<and> be_sha256 fr \<noteq> en_sha256 e (ib_data b))"
    using assms b by (auto simp: onBlobEnd_def upd_store_def Let_def split: if_splits)
  with assms b have "data = ib_data b" "name = sanitizeName (bb_name (ib_meta b))"
    by (auto simp: onBlobEnd_def upd_store_def emit_def outbound_record_def Let_def split: if_splits option.splits)
  with ok sanitizeName_safe show ?thesis by auto
qed


theorem runner_transfer_is_uncapped_witness:
  "\<exists>b. map_of (gw_blobs (fold (onChunk sample_env 0 \<lparr>ch_blob = ''b1'', ch_seq = 0\<rparr>) [''abc'', ''def'']
     (onBlobBegin sample_env 0 \<lparr>bb_blob = ''b1'', bb_thread = [], bb_turn = [], bb_name = ''f'', bb_mime = [],
        bb_size = 1, bb_sha256 = []\<rparr> sample_gw))) (0, ''b1'') = Some b \<and> bb_size (ib_meta b) < int (length (ib_data b))"
proof -
  let ?m = "\<lparr>bb_blob = ''b1'', bb_thread = [], bb_turn = [], bb_name = ''f'', bb_mime = [], bb_size = 1, bb_sha256 = []\<rparr>"
  let ?h = "\<lparr>ch_blob = ''b1'', ch_seq = 0\<rparr>" and ?g = "onBlobBegin sample_env 0 ?m sample_gw"
  let ?b = "\<lparr>ib_meta = ?m, ib_data = [], ib_closed = False, ib_turn = None\<rparr>"
  have "map_of (gw_blobs ?g) (0, ch_blob ?h) = Some ?b"
    by (simp add: onBlobBegin_def sample_env_def sample_gw_def turnFor_def)
  from runner_transfer_is_uncapped [OF this, of sample_env "[''abc'', ''def'']"] show ?thesis
    by (simp add: sample_env_def)
qed

theorem uploads_are_verified_witness:
  "\<exists>g::gw. EUpload ''slack'' ''C1'' ''1.2'' ''f'' [] ''abc'' \<in> set (gw_out g) \<and>
     (''SUM'' = [] \<or> ''SUM'' = en_sha256 sample_env ''abc'')"
proof -
  let ?m = "\<lparr>bb_blob = ''b1'', bb_thread = [], bb_turn = [], bb_name = ''f'', bb_mime = [], bb_size = 1, bb_sha256 = []\<rparr>"
  let ?b = "\<lparr>ib_meta = ?m, ib_data = ''abc'', ib_closed = False, ib_turn = Some sample_turn\<rparr>"
  let ?g = "sample_gw\<lparr>gw_blobs := [((0, ''b1''), ?b)]\<rparr>"
  let ?f = "\<lparr>be_blob = ''b1'', be_sha256 = ''SUM'', be_ok = True, be_error = []\<rparr>"
  have "TrimSpace ''f'' = ''f''" by (simp add: TrimSpace_graphic graphic_def)
  then have "sanitizeName ''f'' = ''f''"
    by (simp add: sanitizeName_def AfterLast_def separator_def slash_def backslash_def nul_def)
  then have u: "EUpload ''slack'' ''C1'' ''1.2'' ''f'' [] ''abc'' \<in> set (gw_out (onBlobEnd sample_env 0 ?f ?g))"
    by (simp add: onBlobEnd_def outbound_record_def sample_env_def sample_gw_def sample_turn_def emit_def
        upd_store_def Let_def)
  moreover have "EUpload ''slack'' ''C1'' ''1.2'' ''f'' [] ''abc'' \<notin> set (gw_out ?g)" by (simp add: sample_gw_def)
  ultimately have "be_sha256 ?f = [] \<or> be_sha256 ?f = en_sha256 sample_env ''abc''"
    using uploads_are_verified by blast
  then have "''SUM'' = [] \<or> ''SUM'' = en_sha256 sample_env ''abc''" by simp
  with u show ?thesis by blast
qed

end
