(* ===== verification/Sched.thy ===== *)
theory Sched
  imports Context Blobs
begin

text \<open>
  Dispatch of admitted messages (internal/gateway/inbound.go, with the wake requests of wake.go): the
  per-thread turn slot, the per-runner concurrency cap and its waiting list, opening a turn and handing it
  to the runner or to the persisted offline queue. Each handler runs without interruption. The recursion
  of the code (abandoning a turn ends it, which dispatches the next message of the thread, which may be
  abandoned in turn) is cut where it consumes a parked message: \<open>dispatch_start\<close> is
  \<open>dispatchTurn\<close> up to the call of \<open>abandonTurn\<close>, which it returns as a request;
  theory Turns carries it out, and its equations \<open>dispatchTurn_code\<close>, \<open>dispatchAdmitted_code\<close> and
  \<open>endThreadTurn_code\<close> restate the code's shape.
\<close>

subsection \<open>Notices\<close>

definition play :: string where "play = bytes [226, 150, 182, 239, 184, 143]"
definition hourglass :: string where "hourglass = bytes [226, 143, 179]"
definition emdash :: string where "emdash = '' '' @ bytes [226, 128, 148] @ '' ''"
definition apos :: string where "apos = [CHR 0x27]"
definition tick :: string where "tick = [CHR 0x60]"
definition quoted :: "string \<Rightarrow> string" where "quoted s = tick @ s @ tick"

definition queueNoticeText :: "string \<Rightarrow> nat \<Rightarrow> nat \<Rightarrow> string" where
  "queueNoticeText runner pos active =
     (if pos = 0 then play @ '' A slot freed'' @ emdash @ ''starting now'' @ ellipsis
      else hourglass @ '' '' @ quoted runner @ '' is at capacity ('' @ Itoa (int active) @ '' running)'' @ emdash
        @ ''you'' @ apos @ ''re #'' @ Itoa (int pos)
        @ '' in the queue. I'' @ apos @ ''ll start this automatically as soon as a slot frees.'')"

definition threadNoticeText :: "nat \<Rightarrow> string" where
  "threadNoticeText pos =
     (if pos = 0 then play @ '' The earlier turn in this thread finished'' @ emdash @ ''starting yours now'' @ ellipsis
      else hourglass @ '' This thread already has a turn running'' @ emdash @ ''you'' @ apos @ ''re #'' @ Itoa (int pos)
        @ '' behind it. I'' @ apos @ ''ll start yours when it finishes (one turn per thread at a time).'')"

definition queued_post :: "Inbound \<Rightarrow> Persona \<Rightarrow> string \<Rightarrow> Post" where
  "queued_post inb persona text = \<lparr>po_Channel = in_Channel inb, po_Thread = in_Thread inb, po_Text = text,
     po_Persona = persona, po_Ephemeral = False, po_User = []\<rparr>"

definition postQueueNotice ::
  "env \<Rightarrow> Inbound \<Rightarrow> Persona \<Rightarrow> string \<Rightarrow> nat \<Rightarrow> nat \<Rightarrow> gw \<Rightarrow> gw \<times> Ref option" where
  "postQueueNotice e inb persona runner pos active g =
     (if \<not> en_surface e (in_Surface inb) then (g, None)
      else post e (in_Surface inb) (queued_post inb persona (queueNoticeText runner pos active)) g)"

definition postThreadNotice :: "env \<Rightarrow> Inbound \<Rightarrow> Persona \<Rightarrow> nat \<Rightarrow> gw \<Rightarrow> gw \<times> Ref option" where
  "postThreadNotice e inb persona pos g =
     (if \<not> en_surface e (in_Surface inb) then (g, None)
      else post e (in_Surface inb) (queued_post inb persona (threadNoticeText pos)) g)"

definition editNotice :: "env \<Rightarrow> queuedTurn \<Rightarrow> string \<Rightarrow> gw \<Rightarrow> gw" where
  "editNotice e qt text g =
     (case qt_noticeRef qt of None \<Rightarrow> g
      | Some r \<Rightarrow>
          if en_surface e (in_Surface (qt_in qt))
          then update_post (in_Surface (qt_in qt)) r (queued_post (qt_in qt) (qt_persona qt) text) g
          else g)"

definition editQueueNotice :: "env \<Rightarrow> queuedTurn \<Rightarrow> nat \<Rightarrow> nat \<Rightarrow> gw \<Rightarrow> gw" where
  "editQueueNotice e qt pos active = editNotice e qt (queueNoticeText (qt_runner qt) pos active)"

definition editThreadNotice :: "env \<Rightarrow> queuedTurn \<Rightarrow> nat \<Rightarrow> gw \<Rightarrow> gw" where
  "editThreadNotice e qt pos = editNotice e qt (threadNoticeText pos)"

text \<open>Positions 1, 2, ... for those still parked.\<close>

fun edit_queue_rest :: "env \<Rightarrow> nat \<Rightarrow> nat \<Rightarrow> queuedTurn list \<Rightarrow> gw \<Rightarrow> gw" where
  "edit_queue_rest e i active [] g = g"
| "edit_queue_rest e i active (qt # qts) g = edit_queue_rest e (Suc i) active qts (editQueueNotice e qt i active g)"

fun edit_thread_rest :: "env \<Rightarrow> nat \<Rightarrow> queuedTurn list \<Rightarrow> gw \<Rightarrow> gw" where
  "edit_thread_rest e i [] g = g"
| "edit_thread_rest e i (qt # qts) g = edit_thread_rest e (Suc i) qts (editThreadNotice e qt i g)"

subsection \<open>Waking a machine\<close>

datatype wakeStatus = wakeStarted | wakeAlreadyUp | wakeAlreadyRequested | wakeWaitingForStop | wakeFailed string

definition wakeStateFor :: "gw \<Rightarrow> string \<Rightarrow> wakeState" where
  "wakeStateFor g runner = get_or \<lparr>ws_last = None, ws_retrying = False, ws_notices = []\<rparr> (gw_wakes g) runner"

definition set_wake :: "string \<Rightarrow> wakeState \<Rightarrow> gw \<Rightarrow> gw" where
  "set_wake runner w g = g\<lparr>gw_wakes := put runner w (gw_wakes g)\<rparr>"

definition startMachine :: "env \<Rightarrow> string \<Rightarrow> Runner \<Rightarrow> gw \<Rightarrow> gw \<times> wakeStatus" where
  "startMachine e runner rc g =
     (let w = (case r_Wake rc of None \<Rightarrow> \<lparr>wk_EC2Instance = [], wk_Region = []\<rparr> | Some w \<Rightarrow> w);
          res = en_start e (length (gw_out g));
          status = (case res of Stopping \<Rightarrow> wakeWaitingForStop | StartFailed m \<Rightarrow> wakeFailed m
                    | StartOK started \<Rightarrow> if started then wakeStarted else wakeAlreadyUp)
      in (log_event \<lparr>ev_Kind = ''runner.wake'', ev_Runner = runner, ev_ThreadID = [], ev_TurnID = [],
            ev_SurfaceUser = [], ev_Detail = [(''instance'', wk_EC2Instance w)]\<rparr>
            (emit (EStart (wk_Region w) (wk_EC2Instance w)) g), status))"

definition requestWake :: "env \<Rightarrow> string \<Rightarrow> Runner \<Rightarrow> gw \<Rightarrow> gw \<times> wakeStatus" where
  "requestWake e runner rc g =
     (if \<not> en_waker e then (g, wakeFailed ''this gateway has no way to start machines'')
      else let st = wakeStateFor g runner in
        if ws_retrying st then (set_wake runner st g, wakeWaitingForStop)
        else if (case ws_last st of None \<Rightarrow> False | Some t \<Rightarrow> en_now e - t < seconds 120)
        then (set_wake runner st g, wakeAlreadyRequested)
        else
          let (g1, status) = startMachine e runner rc (set_wake runner (st\<lparr>ws_last := Some (en_now e)\<rparr>) g) in
          (if status = wakeWaitingForStop
           then set_wake runner ((wakeStateFor g1 runner)\<lparr>ws_retrying := True\<rparr>) g1 else g1, status))"

definition wakeText :: "string \<Rightarrow> wakeStatus \<Rightarrow> int \<Rightarrow> string" where
  "wakeText runner st depth =
     (let queued = (if 0 < depth then ''Your message is queued ('' @ Itoa depth @ '' waiting)'' else ''Your message is queued'');
          zzz = bytes [240, 159, 146, 164]; warn = bytes [226, 154, 160, 239, 184, 143]
      in case st of
         wakeStarted \<Rightarrow> zzz @ '' '' @ quoted runner @ '' is asleep'' @ emdash @ ''starting it now. '' @ queued
           @ '' and runs as soon as it connects, usually within 1'' @ bytes [226, 128, 147] @ ''2 minutes.''
       | wakeAlreadyUp \<Rightarrow> hourglass @ '' '' @ quoted runner @ '' is starting up. '' @ queued @ '' and runs as soon as it connects.''
       | wakeAlreadyRequested \<Rightarrow> hourglass @ '' '' @ quoted runner @ '' is starting up. '' @ queued @ '' and runs as soon as it connects.''
       | wakeWaitingForStop \<Rightarrow> zzz @ '' '' @ quoted runner @ '' is still shutting down'' @ emdash
           @ ''I'' @ apos @ ''ll start it again as soon as it has stopped. '' @ queued @ ''.''
       | wakeFailed m \<Rightarrow> warn @ '' '' @ quoted runner @ '' is offline and could not be started: '' @ m @ ''. '' @ queued
           @ '' and runs whenever it next connects.'')"

definition postWakeNotice :: "env \<Rightarrow> Inbound \<Rightarrow> string \<Rightarrow> Persona \<Rightarrow> string \<Rightarrow> gw \<Rightarrow> gw" where
  "postWakeNotice e inb runner persona text g =
     (if \<not> en_surface e (in_Surface inb) then g
      else (case post e (in_Surface inb) (queued_post inb persona text) g of
          (g1, None) \<Rightarrow> g1
        | (g1, Some r) \<Rightarrow> let st = wakeStateFor g1 runner in
            set_wake runner (st\<lparr>ws_notices := ws_notices st @
              [\<lparr>wn_surface = in_Surface inb, wn_channel = in_Channel inb, wn_thread = in_Thread inb,
                wn_persona = persona, wn_ref = r\<rparr>]\<rparr>) g1))"

definition wakeConnected :: "env \<Rightarrow> string \<Rightarrow> gw \<Rightarrow> gw" where
  "wakeConnected e runner g =
     (case map_of (gw_wakes g) runner of None \<Rightarrow> g
      | Some st \<Rightarrow>
          fold (\<lambda>n g. if en_surface e (wn_surface n)
                then update_post (wn_surface n) (wn_ref n)
                  \<lparr>po_Channel = wn_channel n, po_Thread = wn_thread n,
                   po_Text = bytes [226, 156, 133] @ '' '' @ quoted runner @ '' is awake'' @ emdash @ ''running your message now.'',
                   po_Persona = wn_persona n, po_Ephemeral = False, po_User = []\<rparr> g
                else g)
            (ws_notices st) (g\<lparr>gw_wakes := del runner (gw_wakes g)\<rparr>))"

subsection \<open>The runner's concurrency cap\<close>

definition maxQueueDepth :: nat where "maxQueueDepth = 25"

definition no_queue :: runnerQueue where "no_queue = \<lparr>rq_active = 0, rq_waiting = []\<rparr>"

definition queue_of :: "gw \<Rightarrow> string \<Rightarrow> runnerQueue" where
  "queue_of g runner = get_or no_queue (gw_queues g) runner"

definition set_queue :: "string \<Rightarrow> runnerQueue \<Rightarrow> gw \<Rightarrow> gw" where
  "set_queue runner q g = g\<lparr>gw_queues := put runner q (gw_queues g)\<rparr>"

definition workingQueuedText :: string where
  "workingQueuedText = ''is waiting for a free slot'' @ ellipsis"

definition workingStartingText :: string where
  "workingStartingText = ''is starting up'' @ ellipsis"

text \<open>\<open>False\<close>: a slot was taken, dispatch now. \<open>True\<close>: parked or turned away.\<close>

definition admit :: "env \<Rightarrow> Inbound \<Rightarrow> string \<Rightarrow> Runner \<Rightarrow> Persona \<Rightarrow> gw \<Rightarrow> gw \<times> bool" where
  "admit e inb runner rc persona g =
     (let q = queue_of g runner in
      if int (rq_active q) < r_MaxConcurrent rc \<and> rq_waiting q = []
      then (set_queue runner (q\<lparr>rq_active := rq_active q + 1\<rparr>) g, False)
      else if maxQueueDepth \<le> length (rq_waiting q)
      then (notice e inb (quoted runner @ '' is busy and its queue is full ('' @ Itoa (int maxQueueDepth)
              @ '' waiting). Please try again in a bit.'') (set_queue runner q g), True)
      else
        let qt = \<lparr>qt_in = inb, qt_runner = runner, qt_rc = rc, qt_persona = persona, qt_noticeRef = None\<rparr>;
            g1 = setWaiting e inb rc workingQueuedText
                   (set_queue runner (q\<lparr>rq_waiting := rq_waiting q @ [qt]\<rparr>) g);
            (g2, ref) = postQueueNotice e inb persona runner (length (rq_waiting q) + 1) (rq_active q) g1
        in (set_queue runner (q\<lparr>rq_waiting := rq_waiting q @ [qt\<lparr>qt_noticeRef := ref\<rparr>]\<rparr>) g2, True))"

subsection \<open>Handing a turn to its runner\<close>

definition elapsed_ms :: "env \<Rightarrow> turnContext \<Rightarrow> int" where
  "elapsed_ms e t = (en_now e - tc_StartedAt t) div 1000000"

text \<open>A turn whose message reached no queue: the turn, the reason, and the notice that follows.\<close>

type_synonym abandoned = "(turnContext \<times> string \<times> string option) option"

definition queueMessage_start ::
  "env \<Rightarrow> Inbound \<Rightarrow> string \<Rightarrow> turnContext \<Rightarrow> Message \<Rightarrow> gw \<Rightarrow> gw \<times> abandoned" where
  "queueMessage_start e inb runner t msg g =
     (let depth = QueueDepth (gw_store g) runner; limit = g_QueueLimit (Gateway (gw_cfg g)) in
      if 0 < limit \<and> limit \<le> int depth
      then (g, Some (t, ''queue_full: runner offline and its queue is full'',
              Some (quoted runner @ '' is offline and its queue is full ('' @ Itoa (int depth) @ ''). This message was dropped.'')))
      else (case Encode (en_json e) (Some (FMessage msg)) of
          Inl _ \<Rightarrow> (g, Some (t, ''queue_failed: encode'', None))
        | Inr raw \<Rightarrow>
            if \<not> en_enqueue e (tc_TurnID t) then (g, Some (t, ''queue_failed: enqueue'', None))
            else
              let g1 = upd_store (Enqueue runner (tc_ThreadID t) raw) g;
                  g2 = (case map_of (gw_turns g1) (tc_TurnID t) of None \<Rightarrow> g1
                        | Some t' \<Rightarrow> g1\<lparr>gw_turns := put (tc_TurnID t) (t'\<lparr>tc_queued := True\<rparr>) (gw_turns g1)\<rparr>);
                  held_text = (if in_Files inb \<noteq> [] then '' Attachments are held until it connects (a gateway restart before then drops them).'' else [])
              in (case runnerConfig g2 runner of
                    Some rc \<Rightarrow>
                      if Wakeable (Some rc)
                      then
                        let (g3, status) = requestWake e runner rc g2;
                            g4 = postWakeNotice e inb runner (personaFor (Some rc))
                                   (wakeText runner status (int depth + 1) @ held_text) g3
                        in ((case status of wakeFailed _ \<Rightarrow> g4 | _ \<Rightarrow> setWaiting e inb rc workingStartingText g4), None)
                      else (notice e inb (quoted runner @ '' is offline'' @ emdash @ ''queued ('' @ Itoa (int depth + 1)
                              @ '' waiting).'' @ held_text) g2, None)
                  | None \<Rightarrow> (notice e inb (quoted runner @ '' is offline'' @ emdash @ ''queued ('' @ Itoa (int depth + 1)
                              @ '' waiting).'' @ held_text) g2, None))))"

definition new_turn :: "env \<Rightarrow> Inbound \<Rightarrow> string \<Rightarrow> Runner \<Rightarrow> Persona \<Rightarrow> string \<Rightarrow> turnContext" where
  "new_turn e inb runner rc persona i =
     \<lparr>tc_TurnID = i, tc_ThreadID = threadKey (in_Surface inb) (in_Channel inb) (in_Thread inb),
      tc_Surface = in_Surface inb, tc_Channel = in_Channel inb, tc_Thread = in_Thread inb,
      tc_Runner = runner, tc_User = in_User inb, tc_Persona = persona,
      tc_Activity = EffectiveActivity (r_Display rc), tc_StartedAt = en_now e, tc_queued = False,
      tc_lastActivity = en_now e\<rparr>"

definition new_message :: "Inbound \<Rightarrow> Runner \<Rightarrow> turnContext \<Rightarrow> Message" where
  "new_message inb rc t =
     \<lparr>m_thread = tc_ThreadID t, m_turn = tc_TurnID t, m_channel = in_Channel inb,
      m_user = \<lparr>ur_id = usr_ID (in_User inb), ur_display = usr_Display (in_User inb),
                ur_email = usr_Email (in_User inb)\<rparr>,
      m_text = fst (parseCommand (in_Text inb)), m_attachments = [], m_command = [],
      m_channel_name = in_ChannelName inb,
      m_context = (if WantsContextHeader (Some rc) then contextHeader inb else [])\<rparr>"

text \<open>The connection to use: a registered one whose heartbeat is not dead; a dead one is closed.\<close>

definition live_conn :: "env \<Rightarrow> string \<Rightarrow> gw \<Rightarrow> gw \<times> nat option" where
  "live_conn e runner g =
     (case hub_Get g runner of None \<Rightarrow> (g, None)
      | Some i \<Rightarrow> (case conn_of g i of None \<Rightarrow> (g, None)
          | Some c \<Rightarrow>
              if Conn_State (en_now e) c (g_Heartbeat (Gateway (gw_cfg g))) = StateDisconnected
              then (CloseWith i g, None) else (g, Some i)))"

definition open_turn ::
  "env \<Rightarrow> Inbound \<Rightarrow> string \<Rightarrow> Runner \<Rightarrow> Persona \<Rightarrow> gw \<Rightarrow> gw \<times> turnContext option" where
  "open_turn e inb runner rc persona g =
     (let (i, g0) = newID e ''turn'' g; t = new_turn e inb runner rc persona i in
      case (if en_startTurn e i
            then StartTurn (en_clock e) i (tc_ThreadID t) (in_Channel inb) runner (usr_ID (in_User inb)) (gw_store g0)
            else None) of
        None \<Rightarrow> (g0, None)
      | Some s \<Rightarrow> (g0\<lparr>gw_store := s, gw_turns := put i t (gw_turns g0)\<rparr>, Some t))"

definition hand_over :: "env \<Rightarrow> Inbound \<Rightarrow> string \<Rightarrow> Runner \<Rightarrow> turnContext \<Rightarrow> gw \<Rightarrow> gw \<times> abandoned" where
  "hand_over e inb runner rc t g =
     (let msg = new_message inb rc t; (g1, conn) = live_conn e runner g in
      case conn of
        None \<Rightarrow> queueMessage_start e inb runner t msg
          (if in_Files inb \<noteq> [] then g1\<lparr>gw_heldFiles := put (tc_TurnID t) (in_Files inb) (gw_heldFiles g1)\<rparr> else g1)
      | Some i \<Rightarrow>
          let (g2, atts) =
                (if in_Files inb = [] then (g1, [])
                 else (case relayFilesToRunner e i t (in_Files inb) g1 of
                     (g', as, None) \<Rightarrow> (g', as)
                   | (g', as, Some m) \<Rightarrow> (notice e inb (''Could not transfer an attachment: '' @ m) g', as)));
              msg' = msg\<lparr>m_attachments := atts\<rparr>;
              (g3, ok) = Send e i (FMessage msg') g2
          in if ok then (setWorkingForTurn e t g3, None)
             else queueMessage_start e inb runner t msg' g3)"

text \<open>\<open>dispatchTurn\<close> up to \<open>abandonTurn\<close>.\<close>

definition dispatch_start ::
  "env \<Rightarrow> Inbound \<Rightarrow> string \<Rightarrow> Runner \<Rightarrow> Persona \<Rightarrow> gw \<Rightarrow> gw \<times> abandoned" where
  "dispatch_start e inb runner rc persona g =
     (case open_turn e inb runner rc persona g of
        (g1, None) \<Rightarrow> (g1, None)
      | (g1, Some t) \<Rightarrow> hand_over e inb runner rc t g1)"

text \<open>\<open>dispatchAdmitted\<close> up to \<open>abandonTurn\<close>: the cap applies only to a connected runner.\<close>

definition admitted_start ::
  "env \<Rightarrow> Inbound \<Rightarrow> string \<Rightarrow> Runner \<Rightarrow> Persona \<Rightarrow> gw \<Rightarrow> gw \<times> abandoned" where
  "admitted_start e inb runner rc persona g =
     (if hub_Get g runner \<noteq> None \<and> 0 < r_MaxConcurrent rc
      then (case admit e inb runner rc persona g of
          (g1, True) \<Rightarrow> (g1, None)
        | (g1, False) \<Rightarrow> dispatch_start e inb runner rc persona g1)
      else dispatch_start e inb runner rc persona g)"

text \<open>\<open>abandonTurn\<close> before it ends the thread's turn.\<close>

definition forget_turn :: "env \<Rightarrow> turnContext \<Rightarrow> string \<Rightarrow> gw \<Rightarrow> gw" where
  "forget_turn e t reason g =
     upd_store (FinishTurn (en_clock e) (tc_TurnID t) TurnError reason (elapsed_ms e t) 0)
       (clearWorking (tc_ThreadID t)
         (g\<lparr>gw_turns := del (tc_TurnID t) (gw_turns g), gw_heldFiles := del (tc_TurnID t) (gw_heldFiles g)\<rparr>))"

definition after_abandon :: "env \<Rightarrow> Inbound \<Rightarrow> string option \<Rightarrow> gw \<Rightarrow> gw" where
  "after_abandon e inb text g = (case text of None \<Rightarrow> g | Some s \<Rightarrow> notice e inb s g)"

subsection \<open>What leaves the scheduler's tables alone\<close>

text \<open>No operation of the store removes a turn's row.\<close>

definition rows_kept :: "Store \<Rightarrow> Store \<Rightarrow> bool" where
  "rows_kept s s' \<longleftrightarrow> (\<forall>i. TurnRow s i \<noteq> None \<longrightarrow> TurnRow s' i \<noteq> None)"

lemma rows_kept_refl [simp]: "rows_kept s s"
  by (simp add: rows_kept_def)

lemma rows_kept_trans: "rows_kept a b \<Longrightarrow> rows_kept b c \<Longrightarrow> rows_kept a c"
  by (simp add: rows_kept_def)

lemma rows_kept_same: "Turns s' = Turns s \<Longrightarrow> rows_kept s s'"
  by (simp add: rows_kept_def TurnRow_def)

lemma rows_kept_update: "rows_kept s (update_turn i f s)"
  by (simp add: rows_kept_def TurnRow_update)

lemma rows_kept_ops [simp]:
  "rows_kept s (Enqueue r t fr s)" "rows_kept s (DeleteQueued qid s)" "rows_kept s (Log ev s)"
  "rows_kept s (RecordBlob b s)" "rows_kept s (RecordMCPCall m s)" "rows_kept s (fst (PurgeQueue r s))"
  "rows_kept s (RecordUsage i u s)" "rows_kept s (FinishTurn now i st msg d n s)"
  "rows_kept s (IncrementToolCalls i s)" "rows_kept s (thread_step x s)"
  by (auto simp: RecordUsage_def FinishTurn_def IncrementToolCalls_def rows_kept_update Enqueue_def DeleteQueued_def
      Log_def RecordBlob_def RecordMCPCall_def PurgeQueue_def intro!: rows_kept_same)
    (cases x; simp add: thread_ops update_thread_def BindThread_def MarkRunnerThreadsStale_def Let_def
      rows_kept_same split: option.split)

definition same_sched :: "gw \<Rightarrow> gw \<Rightarrow> bool" where
  "same_sched g g' \<longleftrightarrow> gw_cfg g' = gw_cfg g \<and> gw_turns g' = gw_turns g \<and> gw_queues g' = gw_queues g \<and>
     gw_threadActive g' = gw_threadActive g \<and> gw_threadWaiting g' = gw_threadWaiting g \<and>
     rows_kept (gw_store g) (gw_store g')"

lemma same_sched_refl [frame_simps]: "same_sched g g"
  by (simp add: same_sched_def)

lemma same_sched_trans: "same_sched a b \<Longrightarrow> same_sched b c \<Longrightarrow> same_sched a c"
  using rows_kept_trans by (auto simp: same_sched_def)

lemma same_sched_upd_store [frame_simps]: "rows_kept (gw_store g) (f (gw_store g)) \<Longrightarrow> same_sched g (upd_store f g)"
  by (simp add: same_sched_def upd_store_def)

lemma same_sched_prims [frame_simps]:
  "same_sched g (emit x g)" "same_sched g (upd_store (Log ev) g)" "same_sched g (log_event ev g)"
  "same_sched g (fst (post e s p g))" "same_sched g (update_post s r p g)" "same_sched g (notice e inb text g)"
  "same_sched g (upd_conn i h g)" "same_sched g (CloseWith i g)" "same_sched g (fst (sendRaw i x g))"
  "same_sched g (fst (Send e i fr g))" "same_sched g (set_wake rn w g)" "same_sched g (snd (newID e pre g))"
  "same_sched g (clearWorking k g)" "same_sched g (after_abandon e inb txt g)"
  by (auto simp: same_sched_def emit_def upd_store_def log_event_def post_def update_post_def notice_def
      upd_conn_def CloseWith_def sendRaw_def Send_def set_wake_def newID_def clearWorking_def
      after_abandon_def Let_def split: option.split sum.split)

lemma same_sched_working [frame_simps]:
  "same_sched g (setWorking e k s c th p x r g)" "same_sched g (setWorkingForTurn e t g)"
  "same_sched g (setWaiting e inb rc x g)" "same_sched g (touchWorking e k g)"
  by (auto simp: same_sched_def emit_def setWorking_def setWorkingForTurn_def setWaiting_def touchWorking_def
      Let_def split: option.split)

lemma same_sched_notices [frame_simps]:
  "same_sched g (fst (postQueueNotice e inb p r pos a g))" "same_sched g (fst (postThreadNotice e inb p pos g))"
  "same_sched g (editQueueNotice e qt i a g)" "same_sched g (editThreadNotice e qt i g)"
  by (auto simp: postQueueNotice_def postThreadNotice_def editQueueNotice_def editThreadNotice_def
      editNotice_def frame_simps split: option.split)

lemma same_sched_rest [frame_simps]:
  "same_sched g (edit_queue_rest e i a qts g)" "same_sched g (edit_thread_rest e i qts g)"
proof -
  show "same_sched g (edit_queue_rest e i a qts g)"
    by (induction e i a qts g rule: edit_queue_rest.induct)
      (simp_all add: frame_simps, metis same_sched_trans same_sched_notices(3))
  show "same_sched g (edit_thread_rest e i qts g)"
    by (induction e i qts g rule: edit_thread_rest.induct)
      (simp_all add: frame_simps, metis same_sched_trans same_sched_notices(4))
qed

lemma same_sched_Send: "Send e i f g = (g', ok) \<Longrightarrow> same_sched g g'"
  by (metis same_sched_prims(10) fst_conv)

lemma same_sched_sendRaw: "sendRaw i x g = (g', ok) \<Longrightarrow> same_sched g g'"
  by (metis same_sched_prims(9) fst_conv)

lemma same_sched_reads: "same_sched g (fst (relay_reads e i blob name bs rerr data sq g))"
proof (induction e i blob name bs rerr data sq g rule: relay_reads.induct)
  case (1 e i blob name rerr data sq g)
  show ?case by (cases rerr) (simp_all add: frame_simps)
next
  case (2 e i blob name b bs rerr data sq g)
  show ?case
  proof (cases "b = [] \<or> MaxBlobSize < int (length data + length b)")
    case True
    then show ?thesis using "2.IH"(1) by (auto simp: frame_simps)
  next
    case False
    show ?thesis
    proof (cases "EncodeChunk (en_header e) \<lparr>ch_blob = blob, ch_seq = sq\<rparr> b")
      case (Inl x)
      with False show ?thesis by (simp add: frame_simps)
    next
      case (Inr chunk)
      obtain g' ok where s: "sendRaw i (EBinary i chunk) g = (g', ok)" by fastforce
      note g' = same_sched_sendRaw [OF s]
      show ?thesis
      proof (cases ok)
        case True
        with False Inr s have "same_sched g' (fst (relay_reads e i blob name bs rerr (data @ b) (sq + 1) g'))"
          using "2.IH"(2) by auto
        with same_sched_trans [OF g'] True False Inr s show ?thesis by (simp add: Let_def)
      next
        case f: False
        with False Inr s g' show ?thesis by (simp add: Let_def)
      qed
    qed
  qed
qed

lemma same_sched_newID: "newID e p g = (i, g') \<Longrightarrow> same_sched g g'"
  by (metis same_sched_prims(12) snd_conv)

lemma same_sched_relayOne: "same_sched g (fst (relayOne e i t f g))"
proof (cases "MaxBlobSize < fl_Size f")
  case True
  then show ?thesis by (simp add: relayOne_def frame_simps)
next
  case big: False
  obtain blob g0 where b: "newID e ''blob'' g = (blob, g0)" by fastforce
  let ?bf = "\<lparr>bb_blob = blob, bb_thread = tc_ThreadID t, bb_turn = tc_TurnID t, bb_name = sanitizeName (fl_Name f),
                           bb_mime = fl_Mime f, bb_size = fl_Size f, bb_sha256 = []\<rparr>"
  obtain g1 ok where s: "Send e i (FBlobBegin ?bf) g0 = (g1, ok)" by fastforce
  have g1: "same_sched g g1" using same_sched_trans [OF same_sched_newID [OF b] same_sched_Send [OF s]] .
  note g0 = same_sched_newID [OF b]
  show ?thesis
  proof (cases "validate_BlobBegin ?bf \<noteq> [] \<or> \<not> ok")
    case True
    then show ?thesis using big b s g0 g1 by (auto simp: relayOne_def Let_def)
  next
    case valid: False
    show ?thesis
    proof (cases "fl_Open f")
      case (OpenFails m)
      with big b s valid show ?thesis using same_sched_trans [OF g1 same_sched_prims(10)]
        by (simp add: relayOne_def Let_def)
    next
      case (Reads chunks rerr)
      obtain g2 r where r: "relay_reads e i blob (sanitizeName (fl_Name f)) chunks rerr [] 0 g1 = (g2, r)" by fastforce
      have g2: "same_sched g g2" using same_sched_trans [OF g1] same_sched_reads r by (metis fst_conv)
      show ?thesis
      proof (cases r)
        case (Inl m)
        with big b s valid Reads r g2 show ?thesis by (simp add: relayOne_def Let_def)
      next
        case (Inr data)
        obtain g3 sent where k: "Send e i (FBlobEnd \<lparr>be_blob = blob, be_sha256 = en_sha256 e data, be_ok = True, be_error = []\<rparr>) g2 = (g3, sent)"
          by fastforce
        have g3: "same_sched g g3" using same_sched_trans [OF g2 same_sched_Send [OF k]] .
        have "same_sched g (upd_store (RecordBlob h) g3)" for h
          using same_sched_trans [OF g3 same_sched_upd_store] by simp
        with big b s valid Reads r Inr k g3 show ?thesis by (simp add: relayOne_def Let_def)
      qed
    qed
  qed
qed

lemma same_sched_relay: "same_sched g (fst (relayFilesToRunner e i t fs g))"
proof (induction fs arbitrary: g)
  case (Cons f fs)
  obtain g' r where r: "relayOne e i t f g = (g', r)" by fastforce
  have g': "same_sched g g'" using same_sched_relayOne r by (metis fst_conv)
  show ?case
  proof (cases r)
    case (Inl m)
    with r g' show ?thesis by simp
  next
    case (Inr a)
    obtain g'' as m where q: "relayFilesToRunner e i t fs g' = (g'', as, m)" by (metis prod_cases3)
    with Cons [of g'] have "same_sched g' g''" by simp
    with r Inr q same_sched_trans [OF g'] show ?thesis by simp
  qed
qed (simp add: frame_simps)

lemma same_sched_startMachine: "same_sched g (fst (startMachine e r rc g))"
  by (simp add: startMachine_def Let_def same_sched_def log_event_def emit_def)

lemma same_sched_requestWake: "same_sched g (fst (requestWake e r rc g))"
proof -
  have "same_sched g (fst (startMachine e r rc (set_wake r w g)))" for w
    using same_sched_trans [OF same_sched_prims(11) same_sched_startMachine] .
  then have "same_sched g (set_wake r v (fst (startMachine e r rc (set_wake r w g))))" for v w
    using same_sched_trans same_sched_prims(11) by blast
  with \<open>\<And>w. same_sched g (fst (startMachine e r rc (set_wake r w g)))\<close> show ?thesis
    by (simp add: requestWake_def Let_def split_beta frame_simps)
qed

lemma same_sched_postWake: "same_sched g (postWakeNotice e inb r p x g)"
proof -
  obtain g1 r' where q: "post e (in_Surface inb) (queued_post inb p x) g = (g1, r')" by fastforce
  then have g1: "same_sched g g1" by (metis same_sched_prims(4) fst_conv)
  then show ?thesis using same_sched_trans [OF g1 same_sched_prims(11)]
    by (simp add: postWakeNotice_def q Let_def frame_simps split: option.split)
qed

text \<open>Dispatching does not touch the per-thread tables.\<close>

definition same_threads :: "gw \<Rightarrow> gw \<Rightarrow> bool" where
  "same_threads g g' \<longleftrightarrow> gw_cfg g' = gw_cfg g \<and> gw_threadActive g' = gw_threadActive g \<and>
     gw_threadWaiting g' = gw_threadWaiting g \<and> rows_kept (gw_store g) (gw_store g')"

lemma same_threads_sched: "same_sched g g' \<Longrightarrow> same_threads g g'"
  by (simp add: same_sched_def same_threads_def)

lemma same_threads_trans: "same_threads a b \<Longrightarrow> same_threads b c \<Longrightarrow> same_threads a c"
  using rows_kept_trans by (auto simp: same_threads_def)

subsection \<open>The effect of opening a turn and handing it over\<close>

lemma open_turn_None: "open_turn e inb runner rc p g = (g1, None) \<Longrightarrow> same_sched g g1"
  by (auto simp: open_turn_def newID_def same_sched_def Let_def split: option.splits if_splits)

lemma open_turn_Some:
  "open_turn e inb runner rc p g = (g1, Some t) \<Longrightarrow>
     t = new_turn e inb runner rc p (en_id e ''turn'' (gw_ids g)) \<and>
     gw_turns g1 = put (tc_TurnID t) t (gw_turns g) \<and> gw_cfg g1 = gw_cfg g \<and> gw_queues g1 = gw_queues g \<and>
     gw_threadActive g1 = gw_threadActive g \<and> gw_threadWaiting g1 = gw_threadWaiting g \<and>
     TurnRow (gw_store g) (tc_TurnID t) = None \<and> TurnRow (gw_store g1) (tc_TurnID t) \<noteq> None"
  by (auto simp: open_turn_def newID_def new_turn_def StartTurn_def TurnRow_def has_key_def Let_def
      split: option.splits if_splits)

text \<open>Handing over changes at most the turn's queued mark, and abandons only the turn itself.\<close>

definition hand_over_frame :: "turnContext \<Rightarrow> gw \<Rightarrow> gw \<times> abandoned \<Rightarrow> bool" where
  "hand_over_frame t g r \<longleftrightarrow> (case r of (g', ab) \<Rightarrow>
     same_threads g g' \<and> gw_queues g' = gw_queues g \<and>
     (case ab of
        None \<Rightarrow> gw_turns g' = gw_turns g \<or>
          (\<exists>t'. map_of (gw_turns g) (tc_TurnID t) = Some t' \<and>
             gw_turns g' = put (tc_TurnID t) (t'\<lparr>tc_queued := True\<rparr>) (gw_turns g))
      | Some (t', _) \<Rightarrow> t' = t \<and> gw_turns g' = gw_turns g))"

lemma hand_over_frame_sched:
  "same_sched g g1 \<Longrightarrow> hand_over_frame t g1 r \<Longrightarrow> hand_over_frame t g r"
  by (cases r) (auto simp: hand_over_frame_def same_sched_def same_threads_def split: option.splits
      intro: rows_kept_trans)

lemma hand_over_frame_then:
  "hand_over_frame t g (g1, None) \<Longrightarrow> same_sched g1 g2 \<Longrightarrow> hand_over_frame t g (g2, None)"
  by (auto simp: hand_over_frame_def same_sched_def same_threads_def intro: rows_kept_trans)

lemma hand_over_frame_quiet: "same_sched g g1 \<Longrightarrow> hand_over_frame t g (g1, None)"
  by (simp add: hand_over_frame_def same_sched_def same_threads_def)

lemma queueMessage_frame: "hand_over_frame t g (queueMessage_start e inb runner t msg g)"
proof (cases "Encode (en_json e) (Some (FMessage msg))")
  case (Inl x)
  then show ?thesis by (simp add: queueMessage_start_def hand_over_frame_def same_threads_def Let_def)
next
  case (Inr raw)
  define g1 where "g1 = upd_store (Enqueue runner (tc_ThreadID t) raw) g"
  define g2 where "g2 = (case map_of (gw_turns g1) (tc_TurnID t) of None \<Rightarrow> g1
      | Some t' \<Rightarrow> g1\<lparr>gw_turns := put (tc_TurnID t) (t'\<lparr>tc_queued := True\<rparr>) (gw_turns g1)\<rparr>)"
  have g2: "hand_over_frame t g (g2, None)"
    by (auto simp: g2_def g1_def hand_over_frame_def same_threads_def upd_store_def split: option.splits)
  have n: "hand_over_frame t g (notice e inb x g2, None)" for x
    using hand_over_frame_then [OF g2 same_sched_prims(6)] .
  have w: "hand_over_frame t g (postWakeNotice e inb runner p x (fst (requestWake e runner rc g2)), None)" for p x rc
    using hand_over_frame_then [OF g2 same_sched_trans [OF same_sched_requestWake same_sched_postWake]] .
  have w': "hand_over_frame t g (setWaiting e inb rc y (postWakeNotice e inb runner p x (fst (requestWake e runner rc g2))), None)" for p x rc y
    using hand_over_frame_then [OF w same_sched_working(3)] .
  show ?thesis unfolding queueMessage_start_def Let_def Inr sum.case g1_def [symmetric] g2_def [symmetric]
    using n w w' by (auto simp: hand_over_frame_def [of t g "(g, Some x)" for x] same_threads_def split_beta
        split: option.split wakeStatus.split)
qed

lemma live_conn_sched: "live_conn e r g = (g1, c) \<Longrightarrow> same_sched g g1"
  by (auto simp: live_conn_def frame_simps split: option.splits if_splits)

lemma held_files_frame:
  "hand_over_frame t (g\<lparr>gw_heldFiles := h\<rparr>) r \<Longrightarrow> hand_over_frame t g r"
  by (erule hand_over_frame_sched [rotated]) (simp add: same_sched_def)

lemma hand_over_frame: "hand_over_frame t g (hand_over e inb runner rc t g)"
proof -
  obtain g1 c where l: "live_conn e runner g = (g1, c)" by fastforce
  note g1 = live_conn_sched [OF l]
  show ?thesis
  proof (cases c)
    case None
    have "hand_over_frame t g (queueMessage_start e inb runner t (new_message inb rc t)
        (if in_Files inb \<noteq> [] then g1\<lparr>gw_heldFiles := put (tc_TurnID t) (in_Files inb) (gw_heldFiles g1)\<rparr> else g1))"
      by (rule hand_over_frame_sched [OF g1]) (simp add: queueMessage_frame held_files_frame [OF queueMessage_frame])
    with None l show ?thesis by (simp add: hand_over_def Let_def)
  next
    case (Some i)
    define r where "r = (if in_Files inb = [] then (g1, [])
                 else (case relayFilesToRunner e i t (in_Files inb) g1 of
                     (g', as, None) \<Rightarrow> (g', as)
                   | (g', as, Some m) \<Rightarrow> (notice e inb (''Could not transfer an attachment: '' @ m) g', as)))"
    obtain g2 atts where r2: "r = (g2, atts)" by fastforce
    have g2: "same_sched g g2"
    proof (cases "in_Files inb = []")
      case True
      with r2 g1 show ?thesis by (simp add: r_def)
    next
      case False
      obtain g' as m where q: "relayFilesToRunner e i t (in_Files inb) g1 = (g', as, m)" by (metis prod_cases3)
      have "same_sched g g'" using same_sched_trans [OF g1 same_sched_relay] q by (metis fst_conv)
      then have "same_sched g (notice e inb x g')" "same_sched g g'" for x
        using same_sched_trans same_sched_prims(6) by blast+
      with False q r2 show ?thesis by (auto simp: r_def split: option.splits)
    qed
    obtain g3 ok where k: "Send e i (FMessage (new_message inb rc t\<lparr>m_attachments := atts\<rparr>)) g2 = (g3, ok)" by fastforce
    have g3: "same_sched g g3" using same_sched_trans [OF g2 same_sched_Send [OF k]] .
    have "hand_over e inb runner rc t g = (if ok then (setWorkingForTurn e t g3, None)
        else queueMessage_start e inb runner t (new_message inb rc t\<lparr>m_attachments := atts\<rparr>) g3)"
      using l Some r2 k by (simp add: hand_over_def Let_def r_def)
    moreover have "hand_over_frame t g (setWorkingForTurn e t g3, None)"
      using hand_over_frame_quiet [OF same_sched_trans [OF g3 same_sched_working(2)]] .
    moreover have "hand_over_frame t g (queueMessage_start e inb runner t m g3)" for m
      using hand_over_frame_sched [OF g3 queueMessage_frame] .
    ultimately show ?thesis by simp
  qed
qed

end
