(* ===== verification/Turns.thy ===== *)
theory Turns
  imports Sched
begin

text \<open>
  The life of a turn slot (internal/gateway/inbound.go): a thread's single slot (\<open>beginThreadTurn\<close>,
  \<open>endThreadTurn\<close>), a runner's slots (\<open>turnSlotFreed\<close>), and turns that are given up
  (\<open>abandonTurn\<close>). The code's recursion (abandoning a turn ends it, which dispatches the next
  message of the thread, which may be abandoned in turn) terminates because every round takes one
  parked message. The invariants: one turn per thread, the bounds on a runner's slots and waiting list,
  and first-in-first-out order.
\<close>

subsection \<open>Slots\<close>

text \<open>
  The head of the thread's waiting list starts: its notice says so, the others move up, and it is
  dispatched through the runner's cap.
\<close>

definition advance_thread ::
  "env \<Rightarrow> string \<Rightarrow> queuedTurn \<Rightarrow> queuedTurn list \<Rightarrow> gw \<Rightarrow> gw \<times> abandoned" where
  "advance_thread e key nxt rest g =
     (let g1 = g\<lparr>gw_threadWaiting := put key rest (gw_threadWaiting g)\<rparr>;
          g2 = edit_thread_rest e 1 rest (editThreadNotice e nxt 0 g1)
      in admitted_start e (qt_in nxt) (qt_runner nxt) (qt_rc nxt) (qt_persona nxt) g2)"

lemma same_threads_hand_over: "same_threads g (fst (hand_over e inb r rc t g))"
  using hand_over_frame [of t g e inb r rc] by (auto simp: hand_over_frame_def split: prod.splits)

lemma open_turn_rows: "open_turn e inb r rc p g = (g1, Some t) \<Longrightarrow> rows_kept (gw_store g) (gw_store g1)"
  by (auto simp: open_turn_def newID_def StartTurn_def TurnRow_def rows_kept_def Let_def
      split: option.splits if_splits)

lemma same_threads_dispatch_start: "same_threads g (fst (dispatch_start e inb r rc p g))"
proof (cases "open_turn e inb r rc p g")
  case (Pair g1 o1)
  show ?thesis
  proof (cases o1)
    case None
    with Pair show ?thesis using same_threads_sched [OF open_turn_None]
      by (auto simp: dispatch_start_def)
  next
    case (Some t)
    with Pair open_turn_Some [of e inb r rc p g g1 t] open_turn_rows [of e inb r rc p g g1 t]
    have "same_threads g g1" by (simp add: same_threads_def)
    with Pair Some show ?thesis using same_threads_trans [OF _ same_threads_hand_over]
      by (simp add: dispatch_start_def)
  qed
qed

lemma same_threads_set_queue: "same_threads g (set_queue r q g)"
  by (simp add: same_threads_def set_queue_def)

lemma same_threads_admit: "same_threads g (fst (admit e inb r rc p g))"
proof -
  have w: "same_threads g (setWaiting e inb rc x (set_queue r q g))" for x q
    using same_threads_trans [OF same_threads_set_queue same_threads_sched [OF same_sched_working(3)]] .
  have p: "same_threads g (fst (postQueueNotice e inb p r n a (setWaiting e inb rc x (set_queue r q g))))" for n a x q
    using same_threads_trans [OF w same_threads_sched [OF same_sched_notices(1)]] .
  have "same_threads g (notice e inb x (set_queue r q g))" for x q
    using same_threads_trans [OF same_threads_set_queue same_threads_sched [OF same_sched_prims(6)]] .
  with same_threads_trans [OF p same_threads_set_queue] same_threads_set_queue show ?thesis
    by (simp add: admit_def Let_def split_beta)
qed

lemma same_threads_admitted: "same_threads g (fst (admitted_start e inb r rc p g))"
proof (cases "admit e inb r rc p g")
  case (Pair g1 b)
  then have "same_threads g g1" by (metis same_threads_admit fst_conv)
  then show ?thesis using same_threads_trans [OF _ same_threads_dispatch_start] Pair same_threads_dispatch_start
    by (cases b) (simp_all add: admitted_start_def)
qed

lemma advance_thread_waiting:
  "gw_threadWaiting (fst (advance_thread e key nxt rest g)) = put key rest (gw_threadWaiting g)"
  "gw_threadActive (fst (advance_thread e key nxt rest g)) = gw_threadActive g"
proof -
  let ?g1 = "g\<lparr>gw_threadWaiting := put key rest (gw_threadWaiting g)\<rparr>"
  have "same_threads ?g1 (fst (advance_thread e key nxt rest g))"
    unfolding advance_thread_def Let_def
    using same_threads_trans [OF same_threads_sched [OF same_sched_trans [OF same_sched_notices(4) same_sched_rest(2)]]
        same_threads_admitted] .
  then show "gw_threadWaiting (fst (advance_thread e key nxt rest g)) = put key rest (gw_threadWaiting g)"
    "gw_threadActive (fst (advance_thread e key nxt rest g)) = gw_threadActive g"
    by (simp_all add: same_threads_def)
qed

lemma forget_turn_threads: "same_threads g (forget_turn e t reason g)"
  by (simp add: forget_turn_def same_threads_def upd_store_def clearWorking_def emit_def
      split: option.split)

lemma advance_thread_held:
  assumes "get_or [] (gw_threadWaiting g) key = nxt # rest" "advance_thread e key nxt rest g = (g1, ab)"
  shows "held (gw_threadWaiting (forget_turn e t reason g1)) < held (gw_threadWaiting g)"
proof -
  have "gw_threadWaiting g1 = put key rest (gw_threadWaiting g)"
    using advance_thread_waiting(1) [of e key nxt rest g] assms(2) by simp
  moreover have "gw_threadWaiting (forget_turn e t reason g1) = gw_threadWaiting g1"
    using forget_turn_threads [of g1 e t reason] by (simp add: same_threads_def)
  ultimately show ?thesis using held_pop [OF assms(1)] by simp
qed

function endThreadTurn :: "env \<Rightarrow> string \<Rightarrow> gw \<Rightarrow> gw" where
  "endThreadTurn e key g =
     (case get_or [] (gw_threadWaiting g) key of
        [] \<Rightarrow> g\<lparr>gw_threadActive := del key (gw_threadActive g), gw_threadWaiting := del key (gw_threadWaiting g)\<rparr>
      | nxt # rest \<Rightarrow>
          (case advance_thread e key nxt rest g of
             (g1, None) \<Rightarrow> g1
           | (g1, Some (t, reason, text)) \<Rightarrow>
               after_abandon e (qt_in nxt) text
                 (endThreadTurn e (tc_ThreadID t) (forget_turn e t reason g1))))"
  by pat_completeness auto

termination
  by (relation "measure (\<lambda>(e, key, g). held (gw_threadWaiting g))") (auto intro: advance_thread_held [OF _ sym])

declare endThreadTurn.simps [simp del]

definition abandonTurn :: "env \<Rightarrow> turnContext \<Rightarrow> string \<Rightarrow> gw \<Rightarrow> gw" where
  "abandonTurn e t reason g = endThreadTurn e (tc_ThreadID t) (forget_turn e t reason g)"

text \<open>\<open>queueMessage\<close>, \<open>dispatchTurn\<close>, \<open>dispatchAdmitted\<close>: the start, then the abandonment it asked for.\<close>

definition finish_start :: "env \<Rightarrow> Inbound \<Rightarrow> gw \<times> abandoned \<Rightarrow> gw" where
  "finish_start e inb r =
     (case r of (g, None) \<Rightarrow> g
      | (g, Some (t, reason, text)) \<Rightarrow> after_abandon e inb text (abandonTurn e t reason g))"

definition queueMessage :: "env \<Rightarrow> Inbound \<Rightarrow> string \<Rightarrow> turnContext \<Rightarrow> Message \<Rightarrow> gw \<Rightarrow> gw" where
  "queueMessage e inb runner t msg g = finish_start e inb (queueMessage_start e inb runner t msg g)"

definition dispatchTurn :: "env \<Rightarrow> Inbound \<Rightarrow> string \<Rightarrow> Runner \<Rightarrow> Persona \<Rightarrow> gw \<Rightarrow> gw" where
  "dispatchTurn e inb runner rc persona g = finish_start e inb (dispatch_start e inb runner rc persona g)"

definition dispatchAdmitted :: "env \<Rightarrow> Inbound \<Rightarrow> string \<Rightarrow> Runner \<Rightarrow> Persona \<Rightarrow> gw \<Rightarrow> gw" where
  "dispatchAdmitted e inb runner rc persona g = finish_start e inb (admitted_start e inb runner rc persona g)"

definition turnSlotFreed :: "env \<Rightarrow> string \<Rightarrow> gw \<Rightarrow> gw" where
  "turnSlotFreed e runner g =
     (case map_of (gw_queues g) runner of None \<Rightarrow> g
      | Some q \<Rightarrow>
          let active = rq_active q - 1 in
          (case rq_waiting q of
             [] \<Rightarrow> set_queue runner (q\<lparr>rq_active := active\<rparr>) g
           | nxt # rest \<Rightarrow>
               edit_queue_rest e 1 (active + 1) rest
                 (dispatchTurn e (qt_in nxt) (qt_runner nxt) (qt_rc nxt) (qt_persona nxt)
                   (editQueueNotice e nxt 0 (active + 1)
                     (set_queue runner (q\<lparr>rq_active := active + 1, rq_waiting := rest\<rparr>) g)))))"

text \<open>\<open>True\<close>: the thread was free. Otherwise the message is parked with a notice.\<close>

definition beginThreadTurn ::
  "env \<Rightarrow> Inbound \<Rightarrow> string \<Rightarrow> string \<Rightarrow> Runner \<Rightarrow> Persona \<Rightarrow> gw \<Rightarrow> gw \<times> bool" where
  "beginThreadTurn e inb key runner rc persona g =
     (if \<not> get_or False (gw_threadActive g) key
      then (g\<lparr>gw_threadActive := put key True (gw_threadActive g)\<rparr>, True)
      else
        let qt = \<lparr>qt_in = inb, qt_runner = runner, qt_rc = rc, qt_persona = persona, qt_noticeRef = None\<rparr>;
            w = get_or [] (gw_threadWaiting g) key;
            g1 = g\<lparr>gw_threadWaiting := put key (w @ [qt]) (gw_threadWaiting g)\<rparr>;
            (g2, ref) = postThreadNotice e inb persona (length w + 1) g1
        in (g2\<lparr>gw_threadWaiting := put key (w @ [qt\<lparr>qt_noticeRef := ref\<rparr>]) (gw_threadWaiting g2)\<rparr>, False))"

subsection \<open>The code's own shape\<close>

lemma endThreadTurn_code:
  "endThreadTurn e key g =
     (case get_or [] (gw_threadWaiting g) key of
        [] \<Rightarrow> g\<lparr>gw_threadActive := del key (gw_threadActive g), gw_threadWaiting := del key (gw_threadWaiting g)\<rparr>
      | nxt # rest \<Rightarrow>
          dispatchAdmitted e (qt_in nxt) (qt_runner nxt) (qt_rc nxt) (qt_persona nxt)
            (edit_thread_rest e 1 rest (editThreadNotice e nxt 0
              (g\<lparr>gw_threadWaiting := put key rest (gw_threadWaiting g)\<rparr>))))"
  by (subst endThreadTurn.simps)
    (simp add: advance_thread_def dispatchAdmitted_def finish_start_def abandonTurn_def Let_def split: list.split)

lemma dispatchTurn_code:
  "dispatchTurn e inb runner rc persona g =
     (case open_turn e inb runner rc persona g of
        (g1, None) \<Rightarrow> g1
      | (g1, Some t) \<Rightarrow>
          let msg = new_message inb rc t; (g2, conn) = live_conn e runner g1 in
          case conn of
            None \<Rightarrow> queueMessage e inb runner t msg
              (if in_Files inb \<noteq> [] then g2\<lparr>gw_heldFiles := put (tc_TurnID t) (in_Files inb) (gw_heldFiles g2)\<rparr> else g2)
          | Some i \<Rightarrow>
              let (g3, atts) =
                    (if in_Files inb = [] then (g2, [])
                     else (case relayFilesToRunner e i t (in_Files inb) g2 of
                         (g', as, None) \<Rightarrow> (g', as)
                       | (g', as, Some m) \<Rightarrow> (notice e inb (''Could not transfer an attachment: '' @ m) g', as)));
                  (g4, sent) = Send e i (FMessage (msg\<lparr>m_attachments := atts\<rparr>)) g3
              in if sent then setWorkingForTurn e t g4
                 else queueMessage e inb runner t (msg\<lparr>m_attachments := atts\<rparr>) g4)"
proof (cases "open_turn e inb runner rc persona g")
  case (Pair g1 o1)
  show ?thesis
  proof (cases o1)
    case None
    with Pair show ?thesis by (simp add: dispatchTurn_def dispatch_start_def finish_start_def)
  next
    case (Some t)
    have "finish_start e inb (hand_over e inb runner rc t g1) =
       (let msg = new_message inb rc t; (g2, conn) = live_conn e runner g1 in
          case conn of
            None \<Rightarrow> queueMessage e inb runner t msg
              (if in_Files inb \<noteq> [] then g2\<lparr>gw_heldFiles := put (tc_TurnID t) (in_Files inb) (gw_heldFiles g2)\<rparr> else g2)
          | Some i \<Rightarrow>
              let (g3, atts) =
                    (if in_Files inb = [] then (g2, [])
                     else (case relayFilesToRunner e i t (in_Files inb) g2 of
                         (g', as, None) \<Rightarrow> (g', as)
                       | (g', as, Some m) \<Rightarrow> (notice e inb (''Could not transfer an attachment: '' @ m) g', as)));
                  (g4, sent) = Send e i (FMessage (msg\<lparr>m_attachments := atts\<rparr>)) g3
              in if sent then setWorkingForTurn e t g4
                 else queueMessage e inb runner t (msg\<lparr>m_attachments := atts\<rparr>) g4)"
    proof (cases "live_conn e runner g1")
      case l: (Pair g2 c)
      show ?thesis
      proof (cases c)
        case None
        with l show ?thesis by (simp add: hand_over_def queueMessage_def Let_def)
      next
        case (Some i)
        obtain g3 atts where r: "(if in_Files inb = [] then (g2, [])
                     else (case relayFilesToRunner e i t (in_Files inb) g2 of
                         (g', as, None) \<Rightarrow> (g', as)
                       | (g', as, Some m) \<Rightarrow> (notice e inb (''Could not transfer an attachment: '' @ m) g', as))) = (g3, atts)"
          by fastforce
        obtain g4 sent where k: "Send e i (FMessage (new_message inb rc t\<lparr>m_attachments := atts\<rparr>)) g3 = (g4, sent)"
          by fastforce
        from l Some k show ?thesis
          by (simp add: hand_over_def queueMessage_def Let_def r) (simp add: finish_start_def)
      qed
    qed
    with Pair Some show ?thesis by (simp add: dispatchTurn_def dispatch_start_def)
  qed
qed

lemma dispatchAdmitted_code:
  "dispatchAdmitted e inb runner rc persona g =
     (if hub_Get g runner \<noteq> None \<and> 0 < r_MaxConcurrent rc
      then (case admit e inb runner rc persona g of
          (g1, True) \<Rightarrow> g1
        | (g1, False) \<Rightarrow> dispatchTurn e inb runner rc persona g1)
      else dispatchTurn e inb runner rc persona g)"
  by (simp add: dispatchAdmitted_def admitted_start_def dispatchTurn_def finish_start_def split: prod.split bool.split)

end
