(* ===== verification/Slots.thy ===== *)
theory Slots
  imports Turns
begin

text \<open>
  The invariants of the turn slots. \<open>load g k\<close> counts what occupies thread \<open>k\<close>:
  its live turns and its messages parked for a runner slot. \<open>slots y g\<close> bounds the load by the
  thread's slot plus a slack \<open>y\<close>, which is negative where the caller has reserved the slot and
  positive where a finished turn has not been removed yet. \<open>caps_ok\<close> bounds a runner's counter and
  waiting list, and \<open>grows\<close> is the order of the waiting lists.
\<close>

subsection \<open>Sums over a map\<close>

definition total :: "('v \<Rightarrow> nat) \<Rightarrow> ('k \<times> 'v) list \<Rightarrow> nat" where
  "total f m = sum_list (map (\<lambda>p. f (snd p)) m)"

lemma total_put:
  "distinct (map fst m) \<Longrightarrow>
     total f (put k v m) + (case map_of m k of None \<Rightarrow> 0 | Some w \<Rightarrow> f w) = total f m + f v"
proof (induction m)
  case (Cons p m)
  show ?case
  proof (cases "fst p = k")
    case True
    with Cons.prems have "map_of m k = None" by (simp add: map_of_eq_None_iff)
    with True show ?thesis by (cases p) (simp add: total_def put_def)
  next
    case False
    with Cons show ?thesis by (cases p) (simp add: total_def put_def)
  qed
qed (simp add: total_def put_def)

lemma total_del:
  "distinct (map fst m) \<Longrightarrow> total f (del k m) + (case map_of m k of None \<Rightarrow> 0 | Some w \<Rightarrow> f w) = total f m"
proof (induction m)
  case (Cons p m)
  show ?case
  proof (cases "fst p = k")
    case True
    with Cons.prems have n: "map_of m k = None" by (simp add: map_of_eq_None_iff)
    then have "del k m = m" by (simp add: del_def map_of_eq_None_iff delete_idem)
    with True n show ?thesis by (cases p) (simp add: total_def del_def)
  next
    case False
    with Cons show ?thesis by (cases p) (simp add: total_def del_def)
  qed
qed (simp add: total_def del_def)

lemma total_put_same:
  "distinct (map fst m) \<Longrightarrow> map_of m k = Some w \<Longrightarrow> f w = f v \<Longrightarrow> total f (put k v m) = total f m"
  using total_put [of m f k v] by simp

lemma put_put [simp]: "put k v (put k w m) = put k v m"
  by (induction m) (auto simp: put_def)

subsection \<open>One turn per thread\<close>

definition inb_key :: "Inbound \<Rightarrow> string" where
  "inb_key inb = threadKey (in_Surface inb) (in_Channel inb) (in_Thread inb)"

definition parked :: "string \<Rightarrow> runnerQueue \<Rightarrow> nat" where
  "parked k q = length (filter (\<lambda>qt. inb_key (qt_in qt) = k) (rq_waiting q))"

definition on_thread :: "string \<Rightarrow> turnContext \<Rightarrow> nat" where
  "on_thread k t = (if tc_ThreadID t = k then 1 else 0)"

definition load :: "gw \<Rightarrow> string \<Rightarrow> nat" where
  "load g k = total (on_thread k) (gw_turns g) + total (parked k) (gw_queues g)"

definition active :: "gw \<Rightarrow> string \<Rightarrow> bool" where
  "active g k = get_or False (gw_threadActive g) k"

definition slots :: "(string \<Rightarrow> int) \<Rightarrow> gw \<Rightarrow> bool" where
  "slots y g \<longleftrightarrow> (\<forall>k. int (load g k) \<le> (if active g k then 1 else 0) + y k)"

definition reserve :: "string \<Rightarrow> (string \<Rightarrow> int) \<Rightarrow> string \<Rightarrow> int" where
  "reserve key y k = (if k = key then y k - 1 else y k)"

text \<open>Keys are unique, live turns are recorded under their own identifier, and parked messages sit behind an active turn of their thread.\<close>

definition recorded :: "gw \<Rightarrow> bool" where
  "recorded g \<longleftrightarrow> (\<forall>i t. map_of (gw_turns g) i = Some t \<longrightarrow> TurnRow (gw_store g) i \<noteq> None \<and> tc_TurnID t = i)"

definition wf_sched :: "gw \<Rightarrow> bool" where
  "wf_sched g \<longleftrightarrow> distinct (map fst (gw_turns g)) \<and> distinct (map fst (gw_queues g)) \<and>
     recorded g \<and>
     (\<forall>k. get_or [] (gw_threadWaiting g) k \<noteq> [] \<longrightarrow> active g k) \<and>
     (\<forall>k. \<forall>qt\<in>set (get_or [] (gw_threadWaiting g) k). inb_key (qt_in qt) = k)"

lemma recorded_mono:
  assumes "recorded g" "rows_kept (gw_store g) (gw_store g')"
    "\<And>i t'. map_of (gw_turns g') i = Some t' \<Longrightarrow> \<exists>t. map_of (gw_turns g) i = Some t \<and> tc_TurnID t' = tc_TurnID t"
  shows "recorded g'"
  unfolding recorded_def
proof (intro allI impI)
  fix i t'
  assume "map_of (gw_turns g') i = Some t'"
  with assms(3) obtain t where "map_of (gw_turns g) i = Some t" "tc_TurnID t' = tc_TurnID t" by blast
  with assms(1,2) show "TurnRow (gw_store g') i \<noteq> None \<and> tc_TurnID t' = i"
    unfolding recorded_def rows_kept_def by simp
qed

text \<open>Live turns stay live, on their thread.\<close>

definition kept :: "gw \<Rightarrow> gw \<Rightarrow> bool" where
  "kept g g' \<longleftrightarrow> (\<forall>i t. map_of (gw_turns g) i = Some t \<longrightarrow>
     (\<exists>t'. map_of (gw_turns g') i = Some t' \<and> tc_ThreadID t' = tc_ThreadID t \<and> tc_Runner t' = tc_Runner t))"

lemma kept_refl [simp]: "kept g g"
  by (simp add: kept_def)

lemma kept_trans: "kept a b \<Longrightarrow> kept b c \<Longrightarrow> kept a c"
  unfolding kept_def by metis

lemma kept_same: "gw_turns g' = gw_turns g \<Longrightarrow> kept g g'"
  by (simp add: kept_def)

lemma total_queued:
  "map_of m i = Some t \<Longrightarrow> distinct (map fst m) \<Longrightarrow>
     total (on_thread k) (put i (t\<lparr>tc_queued := b\<rparr>) m) = total (on_thread k) m"
  by (rule total_put_same) (auto simp: on_thread_def)

lemma sched_frame:
  assumes "same_sched g g'"
  shows "load g' k = load g k" "slots y g' = slots y g" "wf_sched g \<Longrightarrow> wf_sched g'" "kept g g'"
    "kept g' g" "active g' k = active g k"
proof -
  show "wf_sched g \<Longrightarrow> wf_sched g'"
    using assms recorded_mono [of g g'] by (simp add: same_sched_def wf_sched_def active_def)
qed (use assms in \<open>simp_all add: same_sched_def load_def slots_def active_def kept_same\<close>)

subsection \<open>Opening and handing over\<close>

lemma open_turn_spec:
  assumes o: "open_turn e inb r rc p g = (g1, Some t)" and wf: "wf_sched g" and s: "slots (reserve (inb_key inb) y) g"
  shows "wf_sched g1" "slots y g1" "kept g g1" "map_of (gw_turns g1) (tc_TurnID t) = Some t"
    "tc_ThreadID t = inb_key inb" "map_of (gw_turns g) (tc_TurnID t) = None"
proof -
  note f = open_turn_Some [OF o]
  from f have t: "gw_turns g1 = put (tc_TurnID t) t (gw_turns g)" by simp
  show th: "tc_ThreadID t = inb_key inb" using f by (auto simp: new_turn_def inb_key_def)
  show new: "map_of (gw_turns g) (tc_TurnID t) = None" 
    using f wf unfolding wf_sched_def recorded_def by (metis not_None_eq)
  have "recorded g1"
    using wf t open_turn_rows [OF o] f by (auto simp: wf_sched_def rows_kept_def recorded_def)
  then show "wf_sched g1" using wf f t by (simp add: wf_sched_def active_def)
  have "load g1 k = load g k + on_thread k t" for k
    using total_put [of "gw_turns g" "on_thread k" "tc_TurnID t" t] new wf t f
    by (simp add: load_def wf_sched_def)
  with s show "slots y g1" using f th by (auto simp: slots_def reserve_def on_thread_def active_def split: if_splits)
  show "kept g g1" using new t by (auto simp: kept_def)
  show "map_of (gw_turns g1) (tc_TurnID t) = Some t" using t by simp
qed

lemma hand_over_spec:
  assumes h: "hand_over_frame t g (g', ab)" and wf: "wf_sched g" and s: "slots y g"
  shows "wf_sched g'" "slots y g'" "kept g g'" "\<And>t' x. ab = Some (t', x) \<Longrightarrow> t' = t \<and> gw_turns g' = gw_turns g"
proof -
  have ld: "load g' k = load g k" for k
    using h wf by (auto simp: hand_over_frame_def load_def wf_sched_def total_queued split: option.splits)
  have st: "same_threads g g'" using h by (simp add: hand_over_frame_def)
  then show "slots y g'" using s ld by (simp add: slots_def active_def same_threads_def)
  show "kept g g'" using h by (auto simp: hand_over_frame_def kept_def split: option.splits)
  have "\<exists>t0. map_of (gw_turns g) i = Some t0 \<and> tc_TurnID t1 = tc_TurnID t0" if "map_of (gw_turns g') i = Some t1" for i t1
    using h that by (auto simp: hand_over_frame_def split: option.splits if_splits)
  then have "recorded g'"
    using recorded_mono [of g g'] st wf by (simp add: wf_sched_def same_threads_def)
  moreover have "distinct (map fst (gw_turns g'))" "gw_queues g' = gw_queues g"
    using h wf by (auto simp: hand_over_frame_def wf_sched_def split: option.splits)
  ultimately show "wf_sched g'" using st wf by (simp add: wf_sched_def same_threads_def active_def)
  show "\<And>t' x. ab = Some (t', x) \<Longrightarrow> t' = t \<and> gw_turns g' = gw_turns g"
    using h by (auto simp: hand_over_frame_def)
qed

text \<open>What a start promises: the invariants, and that an abandoned turn is the one just opened.\<close>

definition start_ok :: "Inbound \<Rightarrow> (string \<Rightarrow> int) \<Rightarrow> gw \<Rightarrow> gw \<times> abandoned \<Rightarrow> bool" where
  "start_ok inb y g r \<longleftrightarrow> (case r of (g', ab) \<Rightarrow>
     wf_sched g' \<and> slots y g' \<and> kept g g' \<and>
     (\<forall>t x. ab = Some (t, x) \<longrightarrow> tc_ThreadID t = inb_key inb \<and> map_of (gw_turns g') (tc_TurnID t) = Some t \<and>
        map_of (gw_turns g) (tc_TurnID t) = None))"

lemma slots_reserve: "slots (reserve k y) g \<Longrightarrow> slots y g"
proof -
  assume s: "slots (reserve k y) g"
  have "reserve k y j \<le> y j" for j by (simp add: reserve_def)
  with s show "slots y g" unfolding slots_def by (metis add_left_mono order_trans)
qed

lemma dispatch_start_ok:
  assumes wf: "wf_sched g" and s: "slots (reserve (inb_key inb) y) g"
  shows "start_ok inb y g (dispatch_start e inb r rc p g)"
proof (cases "open_turn e inb r rc p g")
  case (Pair g1 o1)
  show ?thesis
  proof (cases o1)
    case None
    with Pair have "same_sched g g1" using open_turn_None by simp
    with Pair None show ?thesis using wf slots_reserve [OF s] sched_frame [of g g1]
      by (simp add: dispatch_start_def start_ok_def)
  next
    case (Some t)
    with Pair have o: "open_turn e inb r rc p g = (g1, Some t)" by simp
    note a = open_turn_spec [OF o wf s]
    obtain g2 ab where h: "hand_over e inb r rc t g1 = (g2, ab)" by fastforce
    have hf: "hand_over_frame t g1 (g2, ab)" using hand_over_frame [of t g1 e inb r rc] h by simp
    note b = hand_over_spec [OF hf a(1,2)]
    have "kept g g2" using kept_trans [OF a(3) b(3)] .
    with o h a b show ?thesis by (auto simp: dispatch_start_def start_ok_def)
  qed
qed

subsection \<open>The runner's slots\<close>

lemma wf_set_queue: "wf_sched g \<Longrightarrow> wf_sched (set_queue r q g)"
  by (simp add: wf_sched_def set_queue_def active_def recorded_def)

lemma load_set_queue:
  "wf_sched g \<Longrightarrow> load (set_queue r q g) k + parked k (queue_of g r) = load g k + parked k q"
  using total_put [of "gw_queues g" "parked k" r q]
  by (cases "map_of (gw_queues g) r")
    (simp_all add: load_def set_queue_def queue_of_def get_or_def wf_sched_def parked_def no_queue_def)

lemma slots_set_queue:
  assumes wf: "wf_sched g" and le: "\<And>k. int (parked k q) + y k \<le> int (parked k (queue_of g r)) + z k" and s: "slots y g"
  shows "slots z (set_queue r q g)"
proof -
  have "int (load (set_queue r q g) k) \<le> (if active g k then 1 else 0) + z k" for k
  proof -
    have "int (load g k) \<le> (if active g k then 1 else 0) + y k" using s unfolding slots_def by blast
    with load_set_queue [OF wf, of r q k] le [of k] show ?thesis by linarith
  qed
  moreover have "active (set_queue r q g) k = active g k" for k by (simp add: active_def set_queue_def)
  ultimately show ?thesis unfolding slots_def by presburger
qed

lemma admit_ok:
  assumes wf: "wf_sched g" and s: "slots (reserve (inb_key inb) y) g" and a: "admit e inb r rc p g = (g', b)"
  shows "wf_sched g'" "kept g g'" "b \<Longrightarrow> slots y g'" "\<not> b \<Longrightarrow> slots (reserve (inb_key inb) y) g'"
proof -
  let ?q = "queue_of g r"
  let ?S = "\<lambda>q. set_queue r q g"
  have sq: "kept g (?S q)" for q by (simp add: kept_same set_queue_def)
  have fin: "wf_sched g' \<and> kept g g' \<and> (b \<longrightarrow> slots y g') \<and> (\<not> b \<longrightarrow> slots (reserve (inb_key inb) y) g')"
  proof (cases "int (rq_active ?q) < r_MaxConcurrent rc \<and> rq_waiting ?q = []")
    case True
    then have "g' = ?S (?q\<lparr>rq_active := rq_active ?q + 1\<rparr>)" "\<not> b" using a by (auto simp: admit_def Let_def)
    moreover have "slots (reserve (inb_key inb) y) (?S (?q\<lparr>rq_active := rq_active ?q + 1\<rparr>))"
      by (rule slots_set_queue [OF wf _ s]) (simp add: parked_def)
    ultimately show ?thesis using wf_set_queue [OF wf] sq by simp
  next
    case nf: False
    show ?thesis
    proof (cases "maxQueueDepth \<le> length (rq_waiting ?q)")
      case True
      define x where "x = quoted r @ '' is busy and its queue is full ('' @ Itoa (int maxQueueDepth)
              @ '' waiting). Please try again in a bit.''"
      have g': "g' = notice e inb x (?S ?q)" "b" using a nf True by (auto simp: admit_def Let_def x_def)
      note fr = sched_frame [OF same_sched_prims(6) [of "?S ?q" e inb x]]
      have "slots y (?S ?q)" by (rule slots_set_queue [OF wf _ slots_reserve [OF s]]) simp
      with g' fr wf_set_queue [OF wf] kept_trans [OF sq fr(4)] show ?thesis by simp
    next
      case False
      define qt where "qt = \<lparr>qt_in = inb, qt_runner = r, qt_rc = rc, qt_persona = p, qt_noticeRef = None\<rparr>"
      define g1 where "g1 = setWaiting e inb rc workingQueuedText (?S (?q\<lparr>rq_waiting := rq_waiting ?q @ [qt]\<rparr>))"
      obtain g2 ref where n: "postQueueNotice e inb p r (length (rq_waiting ?q) + 1) (rq_active ?q) g1 = (g2, ref)"
        by fastforce
      have g': "g' = set_queue r (?q\<lparr>rq_waiting := rq_waiting ?q @ [qt\<lparr>qt_noticeRef := ref\<rparr>]\<rparr>) g2" "b"
        using a nf False n by (auto simp: admit_def Let_def qt_def g1_def)
      have fr: "same_sched (?S (?q\<lparr>rq_waiting := rq_waiting ?q @ [qt]\<rparr>)) g2"
        using same_sched_trans [OF same_sched_working(3) same_sched_notices(1)] n
        by (metis fst_conv g1_def)
      have s1: "slots y (?S (?q\<lparr>rq_waiting := rq_waiting ?q @ [qt]\<rparr>))"
        by (rule slots_set_queue [OF wf _ s]) (simp add: parked_def qt_def reserve_def)
      have q2: "queue_of g2 r = ?q\<lparr>rq_waiting := rq_waiting ?q @ [qt]\<rparr>"
        using fr by (simp add: same_sched_def queue_of_def set_queue_def)
      have wf2: "wf_sched g2" using sched_frame(3) [OF fr wf_set_queue [OF wf]] .
      have "slots y g2" using s1 sched_frame(2) [OF fr] by simp
      then have "slots y g'" unfolding g'(1)
        by (rule slots_set_queue [OF wf2, rotated]) (simp add: q2 parked_def qt_def)
      moreover have "kept g2 g'" by (simp add: g'(1) kept_same set_queue_def)
      ultimately show ?thesis
        using g' wf_set_queue [OF wf2] kept_trans [OF kept_trans [OF sq sched_frame(4) [OF fr]]] by simp
    qed
  qed
  from fin show "wf_sched g'" by simp
  from fin show "kept g g'" by simp
  from fin show "b \<Longrightarrow> slots y g'" by simp
  from fin show "\<not> b \<Longrightarrow> slots (reserve (inb_key inb) y) g'" by simp
qed

lemma admitted_start_ok:
  assumes wf: "wf_sched g" and s: "slots (reserve (inb_key inb) y) g"
  shows "start_ok inb y g (admitted_start e inb r rc p g)"
proof (cases "hub_Get g r \<noteq> None \<and> 0 < r_MaxConcurrent rc")
  case True
  obtain g1 b where a: "admit e inb r rc p g = (g1, b)" by fastforce
  note k = admit_ok [OF wf s a]
  show ?thesis
  proof (cases b)
    case b: True
    with k a True show ?thesis by (simp add: admitted_start_def start_ok_def)
  next
    case False
    obtain g2 ab where d: "dispatch_start e inb r rc p g1 = (g2, ab)" by fastforce
    from dispatch_start_ok [OF k(1) k(4) [OF False], of e r rc p]
    have "start_ok inb y g1 (g2, ab)" by (simp add: d)
    moreover have "map_of (gw_turns g) i = None" if "map_of (gw_turns g1) i = None" for i
      using that k(2) unfolding kept_def by (metis option.exhaust option.simps(3))
    ultimately have "start_ok inb y g (g2, ab)" using kept_trans [OF k(2), of g2]
      by (simp add: start_ok_def)
    with True a False d show ?thesis by (simp add: admitted_start_def)
  qed
next
  case False
  then show ?thesis using dispatch_start_ok [OF assms] by (auto simp: admitted_start_def)
qed

subsection \<open>Ending a turn\<close>

definition release :: "string \<Rightarrow> gw \<Rightarrow> (string \<Rightarrow> int) \<Rightarrow> string \<Rightarrow> int" where
  "release key g y k = (if k = key \<and> active g key then y k - 1 else y k)"

lemma wf_del_turn: "wf_sched g \<Longrightarrow> wf_sched (g\<lparr>gw_turns := del i (gw_turns g)\<rparr>)"
  by (simp add: wf_sched_def active_def recorded_def)

lemma load_del_turn:
  "wf_sched g \<Longrightarrow> map_of (gw_turns g) i = Some t \<Longrightarrow>
     load (g\<lparr>gw_turns := del i (gw_turns g)\<rparr>) k + on_thread k t = load g k"
  using total_del [of "gw_turns g" "on_thread k" i] by (simp add: load_def wf_sched_def)

lemma slots_del_turn:
  assumes "wf_sched g" "map_of (gw_turns g) i = Some t" "slots y g"
  shows "slots (reserve (tc_ThreadID t) y) (g\<lparr>gw_turns := del i (gw_turns g)\<rparr>)"
  unfolding slots_def
proof
  fix k
  let ?g = "g\<lparr>gw_turns := del i (gw_turns g)\<rparr>"
  have "int (load ?g k) + int (on_thread k t) = int (load g k)"
    using load_del_turn [OF assms(1,2), of k] by (simp flip: of_nat_add)
  moreover have "int (load g k) \<le> (if active g k then 1 else 0) + y k" using assms(3) by (simp add: slots_def)
  ultimately show "int (load ?g k) \<le> (if active ?g k then 1 else 0) + reserve (tc_ThreadID t) y k"
    by (simp add: active_def reserve_def on_thread_def split: if_splits)
qed

lemma forget_turn_sched:
  "same_sched (g\<lparr>gw_turns := del (tc_TurnID t) (gw_turns g)\<rparr>) (forget_turn e t reason g)"
  by (simp add: forget_turn_def same_sched_def upd_store_def clearWorking_def emit_def split: option.split)

lemma wf_waiting: "wf_sched g \<Longrightarrow> get_or [] (gw_threadWaiting g) k \<noteq> [] \<Longrightarrow> active g k"
  by (simp add: wf_sched_def)

lemma wf_parked: "wf_sched g \<Longrightarrow> qt \<in> set (get_or [] (gw_threadWaiting g) k) \<Longrightarrow> inb_key (qt_in qt) = k"
  by (simp add: wf_sched_def)

lemma forget_turn_ok:
  assumes wf: "wf_sched g" and t: "map_of (gw_turns g) (tc_TurnID t) = Some t" and s: "slots y g"
  shows "wf_sched (forget_turn e t reason g)" "slots (reserve (tc_ThreadID t) y) (forget_turn e t reason g)"
    "gw_turns (forget_turn e t reason g) = del (tc_TurnID t) (gw_turns g)"
proof -
  note fr = forget_turn_sched [where g = g and t = t and e = e and reason = reason]
  show "wf_sched (forget_turn e t reason g)" using sched_frame(3) [OF fr wf_del_turn [OF wf]] .
  show "slots (reserve (tc_ThreadID t) y) (forget_turn e t reason g)"
    using sched_frame(2) [OF fr] slots_del_turn [OF wf t s] by simp
  show "gw_turns (forget_turn e t reason g) = del (tc_TurnID t) (gw_turns g)"
    using fr by (simp add: same_sched_def)
qed

lemma advance_thread_ok:
  assumes wf: "wf_sched g" and w: "get_or [] (gw_threadWaiting g) key = nxt # rest" and s: "slots (release key g y) g"
  shows "start_ok (qt_in nxt) y g (advance_thread e key nxt rest g)" "inb_key (qt_in nxt) = key" "active g key"
proof -
  show a: "active g key" using wf_waiting [OF wf] w by simp
  show k: "inb_key (qt_in nxt) = key" using wf_parked [OF wf, of nxt key] w by simp
  define g1 where "g1 = g\<lparr>gw_threadWaiting := put key rest (gw_threadWaiting g)\<rparr>"
  define g2 where "g2 = edit_thread_rest e 1 rest (editThreadNotice e nxt 0 g1)"
  have act: "active g1 j = active g j" for j by (simp add: active_def g1_def)
  have "\<forall>qt\<in>set rest. inb_key (qt_in qt) = key" using wf_parked [OF wf, of _ key] w by simp
  then have wf1: "wf_sched g1"
    using wf a by (simp add: wf_sched_def g1_def active_def recorded_def)
  have fr: "same_sched g1 g2"
    unfolding g2_def using same_sched_trans [OF same_sched_notices(4) same_sched_rest(2)] .
  have "release key g y = reserve key y" using a by (auto simp: release_def reserve_def fun_eq_iff)
  then have "slots (reserve key y) g1" using s act by (simp add: slots_def load_def g1_def)
  then have s2: "slots (reserve (inb_key (qt_in nxt)) y) g2" using sched_frame(2) [OF fr] k by simp
  have "start_ok (qt_in nxt) y g2 (advance_thread e key nxt rest g)"
    unfolding advance_thread_def Let_def g1_def [symmetric] g2_def [symmetric]
    by (rule admitted_start_ok [OF sched_frame(3) [OF fr wf1] s2])
  moreover have "gw_turns g2 = gw_turns g" using fr by (simp add: same_sched_def g1_def)
  ultimately show "start_ok (qt_in nxt) y g (advance_thread e key nxt rest g)" by (simp add: start_ok_def kept_def)
qed

definition settled :: "(string \<Rightarrow> int) \<Rightarrow> gw \<Rightarrow> gw \<Rightarrow> bool" where
  "settled y g g' \<longleftrightarrow> wf_sched g' \<and> slots y g' \<and> kept g g'"

lemma settled_frame: "settled y g g1 \<Longrightarrow> same_sched g1 g2 \<Longrightarrow> settled y g g2"
  using sched_frame(2) [of g1 g2] sched_frame(3,4) [of g1 g2] kept_trans [of g g1 g2] by (simp add: settled_def)

lemma settled_after: "kept g g1 \<Longrightarrow> settled y g1 g2 \<Longrightarrow> settled y g g2"
  using kept_trans [of g g1 g2] by (simp add: settled_def)

lemma abandoned_kept:
  assumes "start_ok inb y g (g1, Some (t, reason, x))" "gw_turns g2 = del (tc_TurnID t) (gw_turns g1)"
  shows "kept g g2"
  using assms by (auto simp: start_ok_def kept_def)

lemma endThreadTurn_ok: "wf_sched g \<Longrightarrow> slots (release key g y) g \<Longrightarrow> settled y g (endThreadTurn e key g)"
proof (induction e key g rule: endThreadTurn.induct)
  case (1 e key g)
  note wf = "1.prems"(1) and s = "1.prems"(2)
  show ?case
  proof (cases "get_or [] (gw_threadWaiting g) key")
    case Nil
    let ?g = "g\<lparr>gw_threadActive := del key (gw_threadActive g), gw_threadWaiting := del key (gw_threadWaiting g)\<rparr>"
    have "wf_sched ?g" using wf by (auto simp: wf_sched_def active_def recorded_def)
    moreover have "slots y ?g"
      unfolding slots_def
    proof
      fix k
      have "int (load g k) \<le> (if active g k then 1 else 0) + release key g y k" using s by (simp add: slots_def)
      then show "int (load ?g k) \<le> (if active ?g k then 1 else 0) + y k"
        by (auto simp: load_def active_def release_def split: if_splits)
    qed
    ultimately have "settled y g ?g" by (simp add: settled_def kept_same)
    with Nil show ?thesis by (subst endThreadTurn.simps) simp
  next
    case (Cons nxt rest)
    note a = advance_thread_ok(1) [OF wf Cons s, of e] advance_thread_ok(2,3) [OF wf Cons s]
    obtain g1 ab where ad: "advance_thread e key nxt rest g = (g1, ab)" by fastforce
    show ?thesis
    proof (cases ab)
      case None
      with a(1) ad Cons show ?thesis by (subst endThreadTurn.simps) (simp add: start_ok_def settled_def)
    next
      case (Some ab')
      then obtain t reason x where ab: "ab = Some (t, reason, x)" by (metis prod_cases3)
      let ?f = "forget_turn e t reason g1"
      from a(1) ad ab have st: "start_ok (qt_in nxt) y g (g1, Some (t, reason, x))" by simp
      then have wf1: "wf_sched g1" and s1: "slots y g1" and th: "tc_ThreadID t = key"
        and lv: "map_of (gw_turns g1) (tc_TurnID t) = Some t" using a(2) by (auto simp: start_ok_def)
      note f = forget_turn_ok [OF wf1 lv s1, of e reason]
      have "active ?f key"
        using a(3) advance_thread_waiting(2) [of e key nxt rest g] ad forget_turn_threads [of g1 e t reason]
        by (simp add: active_def same_threads_def)
      then have "release key ?f y = reserve key y" by (auto simp: release_def reserve_def fun_eq_iff)
      with f th have "slots (release (tc_ThreadID t) ?f y) ?f" by simp
      then have "settled y ?f (endThreadTurn e (tc_ThreadID t) ?f)"
        using "1.IH" [OF Cons ad [symmetric] ab refl refl f(1)] by simp
      then have "settled y g (endThreadTurn e (tc_ThreadID t) ?f)"
        using settled_after [OF abandoned_kept [OF st f(3)]] by blast
      from settled_frame [OF this same_sched_prims(14)]
      show ?thesis using Cons ad ab by (subst endThreadTurn.simps) simp
    qed
  qed
qed

lemma finish_start_ok:
  assumes st: "start_ok inb y g r"
  shows "settled y g (finish_start e inb r)"
proof -
  obtain g1 ab where r: "r = (g1, ab)" by fastforce
  show ?thesis
  proof (cases ab)
    case None
    with r st show ?thesis by (simp add: finish_start_def start_ok_def settled_def)
  next
    case (Some ab')
    then obtain t reason x where ab: "ab = Some (t, reason, x)" by (metis prod_cases3)
    with st r have wf1: "wf_sched g1" and s1: "slots y g1"
        and lv: "map_of (gw_turns g1) (tc_TurnID t) = Some t" by (auto simp: start_ok_def)
    let ?f = "forget_turn e t reason g1"
    note f = forget_turn_ok [OF wf1 lv s1, of e reason]
    have "release (tc_ThreadID t) ?f y = (if active ?f (tc_ThreadID t) then reserve (tc_ThreadID t) y else y)"
      by (auto simp: release_def reserve_def fun_eq_iff)
    then have "slots (release (tc_ThreadID t) ?f y) ?f"
      using f(2) slots_reserve [OF f(2)] by (simp split: if_split)
    from endThreadTurn_ok [OF f(1) this] have "settled y ?f (abandonTurn e t reason g1)"
      by (simp add: abandonTurn_def)
    then have "settled y g (abandonTurn e t reason g1)"
      using settled_after abandoned_kept [OF _ f(3)] st r ab by blast
    from settled_frame [OF this same_sched_prims(14)] show ?thesis by (simp add: finish_start_def r ab)
  qed
qed

lemma dispatchTurn_ok:
  "wf_sched g \<Longrightarrow> slots (reserve (inb_key inb) y) g \<Longrightarrow> settled y g (dispatchTurn e inb r rc p g)"
  unfolding dispatchTurn_def by (rule finish_start_ok [OF dispatch_start_ok])

lemma dispatchAdmitted_ok:
  "wf_sched g \<Longrightarrow> slots (reserve (inb_key inb) y) g \<Longrightarrow> settled y g (dispatchAdmitted e inb r rc p g)"
  unfolding dispatchAdmitted_def by (rule finish_start_ok [OF admitted_start_ok])

lemma turnSlotFreed_ok:
  assumes wf: "wf_sched g" and s: "slots y g"
  shows "settled y g (turnSlotFreed e r g)"
proof (cases "map_of (gw_queues g) r")
  case None
  with wf s show ?thesis by (simp add: turnSlotFreed_def settled_def)
next
  case (Some q)
  then have q: "queue_of g r = q" by (simp add: queue_of_def get_or_def)
  show ?thesis
  proof (cases "rq_waiting q")
    case Nil
    have "slots y (set_queue r (q\<lparr>rq_active := rq_active q - 1\<rparr>) g)"
      by (rule slots_set_queue [OF wf _ s]) (simp add: q parked_def)
    with wf_set_queue [OF wf] have "settled y g (set_queue r (q\<lparr>rq_active := rq_active q - 1\<rparr>) g)"
      by (simp add: settled_def kept_same set_queue_def)
    with Some Nil show ?thesis by (simp add: turnSlotFreed_def)
  next
    case (Cons nxt rest)
    define a where "a = rq_active q - 1 + 1"
    define g1 where "g1 = set_queue r (q\<lparr>rq_active := a, rq_waiting := rest\<rparr>) g"
    define g2 where "g2 = editQueueNotice e nxt 0 a g1"
    have s1: "slots (reserve (inb_key (qt_in nxt)) y) g1"
      unfolding g1_def by (rule slots_set_queue [OF wf _ s]) (simp add: q Cons parked_def reserve_def)
    have fr: "same_sched g1 g2" unfolding g2_def by (rule same_sched_notices(3))
    have wf1: "wf_sched g1" unfolding g1_def by (rule wf_set_queue [OF wf])
    have "slots (reserve (inb_key (qt_in nxt)) y) g2" using s1 sched_frame(2) [OF fr] by simp
    from dispatchTurn_ok [OF sched_frame(3) [OF fr wf1] this]
    have "settled y g2 (dispatchTurn e (qt_in nxt) (qt_runner nxt) (qt_rc nxt) (qt_persona nxt) g2)" .
    moreover have "kept g g2" using fr by (simp add: same_sched_def g1_def set_queue_def kept_same)
    ultimately have "settled y g (dispatchTurn e (qt_in nxt) (qt_runner nxt) (qt_rc nxt) (qt_persona nxt) g2)"
      using settled_after by blast
    from settled_frame [OF this same_sched_rest(1)]
    have "settled y g (edit_queue_rest e 1 a rest (dispatchTurn e (qt_in nxt) (qt_runner nxt) (qt_rc nxt) (qt_persona nxt) g2))" .
    with Some Cons show ?thesis by (simp add: turnSlotFreed_def Let_def a_def g1_def g2_def)
  qed
qed

lemma beginThreadTurn_ok:
  assumes wf: "wf_sched g" and s: "slots y g" and b: "beginThreadTurn e inb key r rc p g = (g', started)"
    and key: "key = inb_key inb"
  shows "wf_sched g'" "kept g g'" "started \<Longrightarrow> slots (reserve key y) g'" "\<not> started \<Longrightarrow> slots y g'"
proof -
  have "wf_sched g' \<and> kept g g' \<and> (started \<longrightarrow> slots (reserve key y) g') \<and> (\<not> started \<longrightarrow> slots y g')"
  proof (cases "active g key")
    case False
    define h where "h = g\<lparr>gw_threadActive := put key True (gw_threadActive g)\<rparr>"
    have g': "g' = h" "started" using b False by (simp_all add: beginThreadTurn_def active_def h_def)
    have "wf_sched h" using wf by (auto simp: wf_sched_def h_def active_def recorded_def)
    moreover have "int (load h k) \<le> (if active h k then 1 else 0) + reserve key y k" for k
    proof -
      have "int (load g k) \<le> (if active g k then 1 else 0) + y k" using s by (simp add: slots_def)
      with False show ?thesis by (auto simp: load_def h_def active_def reserve_def split: if_splits)
    qed
    ultimately show ?thesis using g' by (simp add: slots_def kept_same h_def)
  next
    case True
    define w where "w = get_or [] (gw_threadWaiting g) key"
    define qt where "qt = \<lparr>qt_in = inb, qt_runner = r, qt_rc = rc, qt_persona = p, qt_noticeRef = None\<rparr>"
    define h where "h = (\<lambda>q (g::gw). g\<lparr>gw_threadWaiting := put key (w @ [q]) (gw_threadWaiting g)\<rparr>)"
    obtain g2 ref where n: "postThreadNotice e inb p (length w + 1) (h qt g) = (g2, ref)" by fastforce
    have g': "g' = h (qt\<lparr>qt_noticeRef := ref\<rparr>) g2" "\<not> started"
      using b True n by (auto simp: beginThreadTurn_def active_def Let_def w_def qt_def h_def)
    have fr: "same_sched (h qt g) g2" using same_sched_notices(2) n by (metis fst_conv)
    have wfh: "wf_sched (h q G)" if "inb_key (qt_in q) = key" "wf_sched G" "get_or [] (gw_threadWaiting G) key = w \<or>
        get_or [] (gw_threadWaiting G) key = w @ [qt]" "active G key" for q G
    proof -
      have "\<forall>x\<in>set w. inb_key (qt_in x) = key" using wf_parked [OF wf, of _ key] by (simp add: w_def)
      with that show ?thesis by (auto simp: wf_sched_def h_def active_def recorded_def)
    qed
    have k: "inb_key (qt_in qt) = key" using key by (simp add: qt_def)
    have wf1: "wf_sched (h qt g)" by (rule wfh [OF k wf _ True]) (simp add: w_def)
    have wf2: "wf_sched g2" using sched_frame(3) [OF fr wf1] .
    have "get_or [] (gw_threadWaiting g2) key = w @ [qt]" "active g2 key"
      using fr True by (simp_all add: same_sched_def h_def active_def)
    with wfh [OF _ wf2, of "qt\<lparr>qt_noticeRef := ref\<rparr>"] k g' have "wf_sched g'" by (simp add: qt_def)
    moreover have "slots y g'" "kept g g'"
      using s fr g' by (simp_all add: slots_def load_def active_def h_def same_sched_def kept_same)
    ultimately show ?thesis using g' by simp
  qed
  then show "wf_sched g'" "kept g g'" "started \<Longrightarrow> slots (reserve key y) g'" "\<not> started \<Longrightarrow> slots y g'" by simp_all
qed

subsection \<open>Bounds and order of the waiting lists\<close>

definition bounded :: "(string \<Rightarrow> int) \<Rightarrow> gw \<Rightarrow> bool" where
  "bounded M g \<longleftrightarrow>
     (\<forall>r. int (rq_active (queue_of g r)) \<le> M r \<and> length (rq_waiting (queue_of g r)) \<le> maxQueueDepth \<and>
        (\<forall>qt\<in>set (rq_waiting (queue_of g r)). r_MaxConcurrent (qt_rc qt) \<le> M (qt_runner qt))) \<and>
     (\<forall>k. \<forall>qt\<in>set (get_or [] (gw_threadWaiting g) k). r_MaxConcurrent (qt_rc qt) \<le> M (qt_runner qt))"

text \<open>Waiting lists only grow at the end.\<close>

definition grows :: "gw \<Rightarrow> gw \<Rightarrow> bool" where
  "grows g g' \<longleftrightarrow> (\<forall>r. prefix (rq_waiting (queue_of g r)) (rq_waiting (queue_of g' r)))"

definition fair :: "(string \<Rightarrow> int) \<Rightarrow> gw \<Rightarrow> gw \<Rightarrow> bool" where
  "fair M g g' \<longleftrightarrow> (bounded M g \<longrightarrow> bounded M g') \<and> grows g g'"

lemma fair_trans: "fair M a b \<Longrightarrow> fair M b c \<Longrightarrow> fair M a c"
  unfolding fair_def grows_def by (meson prefix_order.trans)

lemma fair_same: "gw_queues g' = gw_queues g \<Longrightarrow> gw_threadWaiting g' = gw_threadWaiting g \<Longrightarrow> fair M g g'"
  by (simp add: fair_def bounded_def grows_def queue_of_def)

lemma fair_sched: "same_sched g g' \<Longrightarrow> fair M g g'"
  by (simp add: same_sched_def fair_same)

lemma fair_dispatch_start: "fair M g (fst (dispatch_start e inb r rc p g))"
proof (cases "open_turn e inb r rc p g")
  case (Pair g1 o1)
  show ?thesis
  proof (cases o1)
    case None
    with Pair show ?thesis using fair_sched [OF open_turn_None] by (auto simp: dispatch_start_def)
  next
    case (Some t)
    with Pair have o: "open_turn e inb r rc p g = (g1, Some t)" by simp
    have "gw_queues (fst (hand_over e inb r rc t g1)) = gw_queues g1"
      using hand_over_frame [of t g1 e inb r rc] by (auto simp: hand_over_frame_def split: prod.splits)
    moreover have "gw_threadWaiting (fst (hand_over e inb r rc t g1)) = gw_threadWaiting g1"
      using same_threads_hand_over [of g1 e inb r rc t] by (simp add: same_threads_def)
    ultimately show ?thesis using open_turn_Some [OF o] o
      by (simp add: dispatch_start_def fair_same)
  qed
qed

lemma queue_of_set [simp]: "queue_of (set_queue r q g) r' = (if r' = r then q else queue_of g r')"
  by (simp add: queue_of_def set_queue_def)

lemma fair_set_queue:
  assumes "int (rq_active q) \<le> M r \<or> rq_active q \<le> rq_active (queue_of g r)"
    "length (rq_waiting q) \<le> maxQueueDepth \<or> rq_waiting q = rq_waiting (queue_of g r)"
    "prefix (rq_waiting (queue_of g r)) (rq_waiting q)"
    "\<forall>qt\<in>set (rq_waiting q) - set (rq_waiting (queue_of g r)). r_MaxConcurrent (qt_rc qt) \<le> M (qt_runner qt)"
  shows "fair M g (set_queue r q g)"
proof -
  have "bounded M (set_queue r q g)" if b: "bounded M g"
  proof -
    from b have "int (rq_active (queue_of g r)) \<le> M r" by (simp add: bounded_def)
    with assms(1) have a: "int (rq_active q) \<le> M r" by linarith
    from b assms(2) have l: "length (rq_waiting q) \<le> maxQueueDepth" by (auto simp: bounded_def)
    from b assms(4) have "\<forall>qt\<in>set (rq_waiting q). r_MaxConcurrent (qt_rc qt) \<le> M (qt_runner qt)"
      by (auto simp: bounded_def)
    with a l b show ?thesis by (simp add: bounded_def set_queue_def [of r q g])
      (simp add: queue_of_def)
  qed
  moreover have "grows g (set_queue r q g)" using assms(3) by (simp add: grows_def)
  ultimately show ?thesis by (simp add: fair_def)
qed

lemma fair_admit:
  assumes M: "r_MaxConcurrent rc \<le> M r"
  shows "fair M g (fst (admit e inb r rc p g))"
proof -
  let ?q = "queue_of g r"
  show ?thesis
  proof (cases "int (rq_active ?q) < r_MaxConcurrent rc \<and> rq_waiting ?q = []")
    case True
    then have "fair M g (set_queue r (?q\<lparr>rq_active := rq_active ?q + 1\<rparr>) g)"
      using M by (intro fair_set_queue) auto
    with True show ?thesis by (simp add: admit_def Let_def)
  next
    case nf: False
    show ?thesis
    proof (cases "maxQueueDepth \<le> length (rq_waiting ?q)")
      case True
      have "fair M g (set_queue r ?q g)" by (intro fair_set_queue) auto
      then have "fair M g (notice e inb x (set_queue r ?q g))" for x
        using fair_trans fair_sched [OF same_sched_prims(6)] by blast
      with nf True show ?thesis by (auto simp: admit_def Let_def)
    next
      case False
      define qt where "qt = \<lparr>qt_in = inb, qt_runner = r, qt_rc = rc, qt_persona = p, qt_noticeRef = None\<rparr>"
      define g1 where "g1 = setWaiting e inb rc workingQueuedText (set_queue r (?q\<lparr>rq_waiting := rq_waiting ?q @ [qt]\<rparr>) g)"
      obtain g2 ref where n: "postQueueNotice e inb p r (length (rq_waiting ?q) + 1) (rq_active ?q) g1 = (g2, ref)"
        by fastforce
      have fr: "same_sched (set_queue r (?q\<lparr>rq_waiting := rq_waiting ?q @ [qt]\<rparr>) g) g2"
        using same_sched_trans [OF same_sched_working(3) same_sched_notices(1)] n by (metis fst_conv g1_def)
      let ?qt = "qt\<lparr>qt_noticeRef := ref\<rparr>"
      let ?h = "set_queue r (?q\<lparr>rq_waiting := rq_waiting ?q @ [?qt]\<rparr>) g"
      have a: "fair M g ?h" using False M by (intro fair_set_queue) (auto simp: qt_def)
      have b: "fair M ?h (set_queue r (?q\<lparr>rq_waiting := rq_waiting ?q @ [?qt]\<rparr>) g2)"
        using fr by (intro fair_same) (simp_all add: same_sched_def set_queue_def)
      have "fst (admit e inb r rc p g) = set_queue r (?q\<lparr>rq_waiting := rq_waiting ?q @ [?qt]\<rparr>) g2"
        using nf False n by (simp only: admit_def Let_def if_False qt_def g1_def split_conv fst_conv)
      with fair_trans [OF a b] show ?thesis by simp
    qed
  qed
qed

lemma fair_admitted_start:
  assumes "r_MaxConcurrent rc \<le> M r"
  shows "fair M g (fst (admitted_start e inb r rc p g))"
proof (cases "admit e inb r rc p g")
  case (Pair g1 b)
  have a: "fair M g g1" using fair_admit [of rc M r g e inb p] assms Pair by simp
  show ?thesis using fair_trans [OF a fair_dispatch_start] fair_dispatch_start a Pair
    by (cases b) (simp_all add: admitted_start_def)
qed

lemma fair_forget: "fair M g (forget_turn e t reason g)"
proof -
  have "same_sched (g\<lparr>gw_turns := del (tc_TurnID t) (gw_turns g)\<rparr>) (forget_turn e t reason g)"
    by (rule forget_turn_sched)
  then show ?thesis by (simp add: same_sched_def fair_same)
qed

lemma bounded_parked:
  "bounded M g \<Longrightarrow> qt \<in> set (get_or [] (gw_threadWaiting g) k) \<Longrightarrow> r_MaxConcurrent (qt_rc qt) \<le> M (qt_runner qt)"
  by (simp add: bounded_def)

lemma fair_advance_thread:
  assumes b: "bounded M g" and w: "get_or [] (gw_threadWaiting g) key = nxt # rest"
  shows "fair M g (fst (advance_thread e key nxt rest g))"
proof -
  define g1 where "g1 = g\<lparr>gw_threadWaiting := put key rest (gw_threadWaiting g)\<rparr>"
  define g2 where "g2 = edit_thread_rest e 1 rest (editThreadNotice e nxt 0 g1)"
  have parked: "\<forall>qt\<in>set rest. r_MaxConcurrent (qt_rc qt) \<le> M (qt_runner qt)"
    using bounded_parked [OF b, of _ key] w by simp
  have "bounded M g1" using b parked by (simp add: bounded_def g1_def queue_of_def)
  moreover have "grows g g1" by (simp add: grows_def g1_def queue_of_def)
  ultimately have 1: "fair M g g1" by (simp add: fair_def)
  have 2: "fair M g1 g2" unfolding g2_def
    by (rule fair_sched [OF same_sched_trans [OF same_sched_notices(4) same_sched_rest(2)]])
  have "r_MaxConcurrent (qt_rc nxt) \<le> M (qt_runner nxt)" using bounded_parked [OF b, of nxt key] w by simp
  from fair_trans [OF fair_trans [OF 1 2] fair_admitted_start [of "qt_rc nxt" M, OF this]]
  show ?thesis unfolding advance_thread_def Let_def g1_def [symmetric] g2_def [symmetric] .
qed

lemma fair_clear_thread:
  "fair M g (g\<lparr>gw_threadActive := a, gw_threadWaiting := del key (gw_threadWaiting g)\<rparr>)"
  by (simp add: fair_def bounded_def grows_def queue_of_def)

lemma fair_endThreadTurn: "bounded M g \<Longrightarrow> fair M g (endThreadTurn e key g)"
proof (induction e key g rule: endThreadTurn.induct)
  case (1 e key g)
  note b = "1.prems"
  show ?case
  proof (cases "get_or [] (gw_threadWaiting g) key")
    case Nil
    then show ?thesis using fair_clear_thread by (subst endThreadTurn.simps) simp
  next
    case (Cons nxt rest)
    obtain g1 ab where ad: "advance_thread e key nxt rest g = (g1, ab)" by fastforce
    have f1: "fair M g g1" using fair_advance_thread [OF b Cons, of e] ad by simp
    show ?thesis
    proof (cases ab)
      case None
      with f1 ad Cons show ?thesis by (subst endThreadTurn.simps) simp
    next
      case (Some ab')
      then obtain t reason x where ab: "ab = Some (t, reason, x)" by (metis prod_cases3)
      have f2: "fair M g (forget_turn e t reason g1)" using fair_trans [OF f1 fair_forget] .
      then have "bounded M (forget_turn e t reason g1)" using b by (simp add: fair_def)
      from fair_trans [OF f2 "1.IH" [OF Cons ad [symmetric] ab refl refl this]]
      have "fair M g (endThreadTurn e (tc_ThreadID t) (forget_turn e t reason g1))" .
      from fair_trans [OF this fair_sched [OF same_sched_prims(14)]]
      show ?thesis using Cons ad ab by (subst endThreadTurn.simps) simp
    qed
  qed
qed

lemma fair_finish_start:
  assumes b: "bounded M g" and f: "fair M g (fst r)"
  shows "fair M g (finish_start e inb r)"
proof -
  obtain g1 ab where r: "r = (g1, ab)" by fastforce
  from f r have f: "fair M g g1" by simp
  have b1: "bounded M (forget_turn e t reason g1)" for t reason
    using fair_trans [OF f fair_forget] b by (simp add: fair_def)
  have "fair M g (abandonTurn e t reason g1)" for t reason
    using fair_trans [OF fair_trans [OF f fair_forget] fair_endThreadTurn [OF b1]] by (simp add: abandonTurn_def)
  from fair_trans [OF this fair_sched [OF same_sched_prims(14)]] f r
  show ?thesis by (cases ab) (auto simp: finish_start_def)
qed

lemma fair_dispatchTurn: "bounded M g \<Longrightarrow> fair M g (dispatchTurn e inb r rc p g)"
  unfolding dispatchTurn_def by (rule fair_finish_start [OF _ fair_dispatch_start])

lemma fair_dispatchAdmitted:
  "bounded M g \<Longrightarrow> r_MaxConcurrent rc \<le> M r \<Longrightarrow> fair M g (dispatchAdmitted e inb r rc p g)"
  unfolding dispatchAdmitted_def by (rule fair_finish_start [OF _ fair_admitted_start])

lemma bounded_begin:
  assumes b: "bounded M g" and M: "r_MaxConcurrent rc \<le> M r" and t: "beginThreadTurn e inb key r rc p g = (g', started)"
  shows "fair M g g'"
proof (cases "active g key")
  case False
  with t show ?thesis by (auto simp: beginThreadTurn_def active_def fair_same)
next
  case True
  define w where "w = get_or [] (gw_threadWaiting g) key"
  define qt where "qt = \<lparr>qt_in = inb, qt_runner = r, qt_rc = rc, qt_persona = p, qt_noticeRef = None\<rparr>"
  define h where "h = (\<lambda>q (g::gw). g\<lparr>gw_threadWaiting := put key (w @ [q]) (gw_threadWaiting g)\<rparr>)"
  obtain g2 ref where n: "postThreadNotice e inb p (length w + 1) (h qt g) = (g2, ref)" by fastforce
  have g': "g' = h (qt\<lparr>qt_noticeRef := ref\<rparr>) g2"
    using t True n by (auto simp: beginThreadTurn_def active_def Let_def w_def qt_def h_def)
  have fr: "same_sched (h qt g) g2" using same_sched_notices(2) n by (metis fst_conv)
  have "\<forall>x\<in>set w. r_MaxConcurrent (qt_rc x) \<le> M (qt_runner x)"
    using bounded_parked [OF b, of _ key] by (simp add: w_def)
  then have "bounded M g'"
    using b M fr by (simp add: g' bounded_def h_def same_sched_def queue_of_def qt_def)
  moreover have "grows g g'" using fr by (simp add: grows_def g' h_def queue_of_def same_sched_def)
  ultimately show ?thesis by (simp add: fair_def)
qed

text \<open>
  Freeing a slot takes the head of the runner's list and keeps the rest, in order, ahead of anything new.
\<close>

lemma turnSlotFreed_fifo:
  assumes b: "bounded M g" and M: "\<forall>r. 1 \<le> M r"
  shows "bounded M (turnSlotFreed e r g)"
    "prefix (tl (rq_waiting (queue_of g r))) (rq_waiting (queue_of (turnSlotFreed e r g) r))"
    "r' \<noteq> r \<Longrightarrow> prefix (rq_waiting (queue_of g r')) (rq_waiting (queue_of (turnSlotFreed e r g) r'))"
proof -
  let ?g = "turnSlotFreed e r g"
  have "\<exists>h. bounded M h \<and> queue_of h r = (queue_of g r)\<lparr>rq_active := rq_active (queue_of h r), rq_waiting := tl (rq_waiting (queue_of g r))\<rparr> \<and>
      (\<forall>r'. r' \<noteq> r \<longrightarrow> queue_of h r' = queue_of g r') \<and> fair M h ?g"
  proof (cases "map_of (gw_queues g) r")
    case None
    then have "queue_of g r = no_queue" "?g = g" by (simp_all add: queue_of_def get_or_def turnSlotFreed_def)
    with b show ?thesis by (intro exI [of _ g]) (simp add: no_queue_def fair_def grows_def)
  next
    case (Some q)
    then have q: "queue_of g r = q" by (simp add: queue_of_def get_or_def)
    have bd: "bounded M (set_queue r (q\<lparr>rq_active := a, rq_waiting := w\<rparr>) g)"
      if "int a \<le> M r" "set w \<subseteq> set (rq_waiting q)" "length w \<le> length (rq_waiting q)" for a w
    proof -
      have "length w \<le> maxQueueDepth" "\<forall>qt\<in>set w. r_MaxConcurrent (qt_rc qt) \<le> M (qt_runner qt)"
        using b that(2,3) unfolding bounded_def q [symmetric] by (meson le_trans subsetD)+
      with b that(1) show ?thesis by (simp add: bounded_def) (simp add: set_queue_def queue_of_def)
    qed
    have act: "int (rq_active q) \<le> M r" using b q unfolding bounded_def by blast
    show ?thesis
    proof (cases "rq_waiting q")
      case Nil
      let ?h = "set_queue r (q\<lparr>rq_active := rq_active q - 1, rq_waiting := []\<rparr>) g"
      have "bounded M ?h" using act by (intro bd) auto
      moreover have e: "q\<lparr>rq_active := rq_active q - 1\<rparr> = q\<lparr>rq_active := rq_active q - 1, rq_waiting := []\<rparr>"
        using Nil by (cases q) simp
      have "?g = ?h" unfolding e [symmetric] using Some Nil by (simp add: turnSlotFreed_def Let_def)
      ultimately show ?thesis by (intro exI [of _ ?h]) (simp add: q Nil fair_def grows_def del: One_nat_def)
    next
      case (Cons nxt rest)
      define a where "a = rq_active q - 1 + 1"
      define h where "h = set_queue r (q\<lparr>rq_active := a, rq_waiting := rest\<rparr>) g"
      have "int a \<le> M r" using act M unfolding a_def by (cases "rq_active q") auto
      then have bh: "bounded M h" unfolding h_def using Cons by (intro bd) auto
      have f: "fair M h (editQueueNotice e nxt 0 a h)" by (rule fair_sched [OF same_sched_notices(3)])
      then have "bounded M (editQueueNotice e nxt 0 a h)" using bh by (simp add: fair_def)
      from fair_trans [OF fair_trans [OF f fair_dispatchTurn [OF this]] fair_sched [OF same_sched_rest(1)]]
      have "fair M h (edit_queue_rest e 1 a rest (dispatchTurn e (qt_in nxt) (qt_runner nxt) (qt_rc nxt) (qt_persona nxt)
          (editQueueNotice e nxt 0 a h)))" .
      then have "fair M h ?g" using Some Cons by (simp add: turnSlotFreed_def Let_def a_def h_def)
      with bh show ?thesis by (intro exI [of _ h]) (simp add: q Cons h_def)
    qed
  qed
  then obtain h where h: "bounded M h"
    "queue_of h r = (queue_of g r)\<lparr>rq_active := rq_active (queue_of h r), rq_waiting := tl (rq_waiting (queue_of g r))\<rparr>"
    "\<forall>r'. r' \<noteq> r \<longrightarrow> queue_of h r' = queue_of g r'" "fair M h ?g" by blast
  from h(1,4) show "bounded M ?g" by (simp add: fair_def)
  have w: "rq_waiting (queue_of h r) = tl (rq_waiting (queue_of g r))"
    using arg_cong [OF h(2), of rq_waiting] by simp
  from h(4) w show "prefix (tl (rq_waiting (queue_of g r))) (rq_waiting (queue_of ?g r))"
    unfolding fair_def grows_def by metis
  show "prefix (rq_waiting (queue_of g r')) (rq_waiting (queue_of ?g r'))" if "r' \<noteq> r"
    using h(3,4) that unfolding fair_def grows_def by metis
qed

end
