(* ===== verification/Dispatch.thy ===== *)
theory Dispatch
  imports Slots
begin

text \<open>
  What the gateway does with a frame from a runner (internal/gateway/dispatch.go): the turn's output,
  permission requests and the decisions of people, proxied tool calls, credential requests, usage, and
  the end of a turn. A connection is its index. \<open>OnDecision\<close> is split where another click can
  come between its two look-ups of the prompt. The handlers the code runs in their own goroutine
  (\<open>onMCPCall\<close>, \<open>onCredentialRequest\<close>) are split at the call they wait for.
\<close>

subsection \<open>Shared pieces\<close>

definition reply :: "env \<Rightarrow> nat \<Rightarrow> Frame \<Rightarrow> gw \<Rightarrow> gw" where
  "reply e i f g = fst (Send e i f g)"

definition conn_runner :: "gw \<Rightarrow> nat \<Rightarrow> string" where
  "conn_runner g i = (case conn_of g i of None \<Rightarrow> [] | Some c \<Rightarrow> cn_runner c)"

definition try_store :: "(Store \<Rightarrow> Store option) \<Rightarrow> gw \<Rightarrow> gw" where
  "try_store f g = (case f (gw_store g) of None \<Rightarrow> g | Some s \<Rightarrow> g\<lparr>gw_store := s\<rparr>)"

definition turn_event :: "string \<Rightarrow> string \<Rightarrow> turnContext \<Rightarrow> string \<Rightarrow> (string \<times> string) list \<Rightarrow> Event" where
  "turn_event kind runner t user detail = \<lparr>ev_Kind = kind, ev_Runner = runner, ev_ThreadID = tc_ThreadID t,
     ev_TurnID = tc_TurnID t, ev_SurfaceUser = user, ev_Detail = detail\<rparr>"

subsection \<open>Output\<close>

definition onTextDelta :: "env \<Rightarrow> TextDelta \<Rightarrow> gw \<Rightarrow> gw" where
  "onTextDelta e fr g =
     (case turnFor e (td_turn fr) g of (g1, None) \<Rightarrow> g1
      | (g1, Some t) \<Rightarrow> upd_stream t (AppendText (td_text fr)) g1)"

definition onThought :: "env \<Rightarrow> Thought \<Rightarrow> gw \<Rightarrow> gw" where
  "onThought e fr g =
     (case turnFor e (th_turn fr) g of (g1, None) \<Rightarrow> g1
      | (g1, Some t) \<Rightarrow>
          log_event (turn_event ''thought'' (tc_Runner t) t [] [(''text'', th_text fr)])
            (upd_stream t (Thought_step (th_text fr)) g1))"

definition onToolStart :: "env \<Rightarrow> ToolStart \<Rightarrow> gw \<Rightarrow> gw" where
  "onToolStart e fr g =
     (case turnFor e (ts_turn fr) g of (g1, None) \<Rightarrow> g1
      | (g1, Some t) \<Rightarrow>
          log_event (turn_event ''tool.start'' (tc_Runner t) t (usr_ID (tc_User t))
              [(''tool'', ts_tool fr), (''call'', ts_call fr), (''summary'', ts_summary fr)])
            (upd_stream t (StartStep (ts_call fr) (ts_tool fr) (truncateLine (ts_summary fr) 200))
              (upd_store (IncrementToolCalls (ts_turn fr)) g1)))"

definition onToolEnd :: "env \<Rightarrow> ToolEnd \<Rightarrow> gw \<Rightarrow> gw" where
  "onToolEnd e fr g =
     (case turnFor e (te_turn fr) g of (g1, None) \<Rightarrow> g1
      | (g1, Some t) \<Rightarrow>
          log_event (turn_event ''tool.end'' (tc_Runner t) t []
              [(''call'', te_call fr), (''ok'', if te_ok fr then ''true'' else ''false''), (''error'', te_error fr),
               (''duration_ms'', Itoa (te_duration_ms fr))])
            (upd_stream t (EndStep (te_call fr) (te_ok fr) (truncateLine (te_error fr) 160) (te_duration_ms fr)) g1))"

subsection \<open>Permissions\<close>

definition deny_response :: "string \<Rightarrow> string \<Rightarrow> Frame" where
  "deny_response request reason = FPermissionResponse \<lparr>pr_request = request, pr_decision = DecisionDeny,
     pr_decided_by = None, pr_reason = reason, pr_policy_denied = True, pr_auto_approved = False\<rparr>"

definition allow_response :: "string \<Rightarrow> string \<Rightarrow> Frame" where
  "allow_response request reason = FPermissionResponse \<lparr>pr_request = request, pr_decision = DecisionAllow,
     pr_decided_by = None, pr_reason = reason, pr_policy_denied = False, pr_auto_approved = True\<rparr>"

fun decision_string :: "Decision \<Rightarrow> string" where
  "decision_string DecisionAllow = ''allow''"
| "decision_string DecisionAllowSession = ''allow_session''"
| "decision_string DecisionAllowAlways = ''allow_always''"
| "decision_string DecisionDeny = ''deny''"

text \<open>\<open>autoAllow\<close>: answer without a click, and say why in the audit log.\<close>

definition autoAllow :: "env \<Rightarrow> nat \<Rightarrow> PermissionRequest \<Rightarrow> turnContext \<Rightarrow> string \<Rightarrow> string \<Rightarrow> gw \<Rightarrow> gw" where
  "autoAllow e i fr t reason kind g =
     log_event (turn_event kind (conn_runner g i) t (usr_ID (tc_User t)) [(''tool'', pq_tool fr), (''reason'', reason)])
       (upd_store (RecordPermissionDecision (pq_request fr) (decision_string DecisionAllow) [] reason False)
         (reply e i (allow_response (pq_request fr) reason) g))"

definition policyDeny :: "env \<Rightarrow> nat \<Rightarrow> PermissionRequest \<Rightarrow> turnContext \<Rightarrow> string \<Rightarrow> gw \<Rightarrow> gw" where
  "policyDeny e i fr t rule g =
     (let reason = ''denied by gateway policy: '' @ rule in
      upd_stream t (NoteStep (''policy_'' @ pq_request fr) (''blocked by policy: '' @ pq_tool fr @ '' ('' @ rule @ '')'') True)
        (log_event (turn_event ''permission.policy_denied'' (conn_runner g i) t [] [(''tool'', pq_tool fr), (''rule'', rule)])
          (upd_store (RecordPermissionDecision (pq_request fr) (decision_string DecisionDeny) [] reason True)
            (reply e i (deny_response (pq_request fr) reason) g))))"

definition askPerson :: "env \<Rightarrow> nat \<Rightarrow> PermissionRequest \<Rightarrow> turnContext \<Rightarrow> gw \<Rightarrow> gw" where
  "askPerson e i fr t g =
     (if \<not> en_surface e (tc_Surface t)
      then reply e i (deny_response (pq_request fr) ''surface unavailable'') g
      else
        let g1 = flush_stream e t g;
            p = \<lparr>pt_Channel = tc_Channel t, pt_Thread = tc_Thread t, pt_Persona = tc_Persona t, pt_RequestID = pq_request fr,
                 pt_Tool = pq_tool fr, pt_Summary = pq_summary fr, pt_Detail = SummarizeInput (en_input e) (pq_input fr)\<rparr>
        in (case en_prompt e (length (gw_out g1)) of
              Inl m \<Rightarrow> reply e i (deny_response (pq_request fr) (''could not post prompt: '' @ m))
                         (emit (EPrompt (tc_Surface t) p None) g1)
            | Inr r \<Rightarrow>
                let g2 = emit (EPrompt (tc_Surface t) p (Some r)) g1 in
                g2\<lparr>gw_prompts := put (pq_request fr)
                  \<lparr>pp_RequestID = pq_request fr, pp_Runner = conn_runner g i, pp_Turn = t, pp_Ref = r, pp_Tool = pq_tool fr\<rparr>
                  (gw_prompts g2)\<rparr>))"

text \<open>Deny rules first, then a session grant, then the static allow rules, then a person.\<close>

definition onPermissionRequest :: "env \<Rightarrow> nat \<Rightarrow> PermissionRequest \<Rightarrow> gw \<Rightarrow> gw" where
  "onPermissionRequest e i fr g =
     (case turnFor e (pq_turn fr) g of
        (g1, None) \<Rightarrow> reply e i (deny_response (pq_request fr) ''no live turn for this request'') g1
      | (g1, Some t) \<Rightarrow>
          let runner = conn_runner g1 i; rc = runnerConfig g1 runner;
              g2 = try_store (RecordPermissionRequest (pq_request fr) (tc_ThreadID t) (pq_turn fr) runner
                     (pq_tool fr) (pq_input fr)) g1
          in (case (case rc of None \<Rightarrow> None
                    | Some r \<Rightarrow> MatchDeny (en_input e) (Deny (r_Policy r)) (pq_tool fr) (pq_input fr)) of
                Some rule \<Rightarrow> policyDeny e i fr t rule g2
              | None \<Rightarrow>
                  (case Held (gw_grants g2) (tc_ThreadID t) (pq_tool fr) of
                     Some gr \<Rightarrow> autoAllow e i fr t (''allowed for this session by <@'' @ sg_By gr @ ''>'') ''permission.session_grant'' g2
                   | None \<Rightarrow>
                       (case (case rc of None \<Rightarrow> None | Some r \<Rightarrow> autoApprove (en_input e) (Some r) (pq_tool fr) (pq_input fr)) of
                          Some reason \<Rightarrow> autoAllow e i fr t reason ''permission.auto_approved'' g2
                        | None \<Rightarrow> askPerson e i fr t g2))))"

subsection \<open>Decisions\<close>

record SurfaceDecision =
  sd_RequestID :: string
  sd_User :: User
  sd_Decision :: Decision

definition approverAllowed :: "Runner option \<Rightarrow> string \<Rightarrow> bool" where
  "approverAllowed rc user =
     (case rc of None \<Rightarrow> True
      | Some r \<Rightarrow> Approvers (r_Policy r) = [] \<or> user \<in> set (Approvers (r_Policy r)))"

definition unauthorized :: "env \<Rightarrow> SurfaceDecision \<Rightarrow> pendingPrompt \<Rightarrow> gw \<Rightarrow> gw" where
  "unauthorized e d p g =
     (let t = pp_Turn p;
          g1 = (if en_surface e (tc_Surface t)
                then fst (post e (tc_Surface t)
                  \<lparr>po_Channel = tc_Channel t, po_Thread = tc_Thread t,
                   po_Text = ''You are not an approver for '' @ quoted (pp_Runner p) @ ''.'', po_Persona = no_persona,
                   po_Ephemeral = True, po_User = usr_ID (sd_User d)\<rparr> g)
                else g)
      in log_event \<lparr>ev_Kind = ''permission.unauthorized'', ev_Runner = pp_Runner p, ev_ThreadID = tc_ThreadID t,
           ev_TurnID = [], ev_SurfaceUser = usr_ID (sd_User d), ev_Detail = [(''request'', sd_RequestID d)]\<rparr> g1)"

text \<open>The first half: the prompt as loaded, when the person may decide it.\<close>

definition decision_load :: "env \<Rightarrow> SurfaceDecision \<Rightarrow> gw \<Rightarrow> gw \<times> pendingPrompt option" where
  "decision_load e d g =
     (case map_of (gw_prompts g) (sd_RequestID d) of None \<Rightarrow> (g, None)
      | Some p \<Rightarrow>
          if \<not> approverAllowed (runnerConfig g (pp_Runner p)) (usr_ID (sd_User d))
          then (unauthorized e d p g, None) else (g, Some p))"

definition session_scoped :: "Decision \<Rightarrow> bool" where
  "session_scoped d \<longleftrightarrow> d = DecisionAllowSession \<or> d = DecisionAllowAlways"

definition resolve_text :: "SurfaceDecision \<Rightarrow> pendingPrompt \<Rightarrow> bool \<Rightarrow> string" where
  "resolve_text d p online =
     quoted (pp_Tool p) @ emdash
     @ (if session_scoped (sd_Decision d) then ''allowed for the rest of this session by <@'' @ usr_ID (sd_User d) @ ''>''
        else ''*'' @ decision_string (sd_Decision d) @ ''* by <@'' @ usr_ID (sd_User d) @ ''>'')
     @ (if online then [] else '' _(runner disconnected before the decision reached it)_'')"

text \<open>The second half: claim the prompt, record, grant, answer the runner, update the prompt.\<close>

definition decision_claim :: "env \<Rightarrow> SurfaceDecision \<Rightarrow> pendingPrompt \<Rightarrow> gw \<Rightarrow> gw" where
  "decision_claim e d p g =
     (if map_of (gw_prompts g) (sd_RequestID d) = None then g
      else
        let t = pp_Turn p; user = usr_ID (sd_User d);
            g1 = g\<lparr>gw_prompts := del (sd_RequestID d) (gw_prompts g)\<rparr>;
            g2 = log_event (turn_event ''permission.decided'' (pp_Runner p) t user
                   [(''request'', sd_RequestID d), (''tool'', pp_Tool p), (''decision'', decision_string (sd_Decision d))])
                   (upd_store (RecordPermissionDecision (sd_RequestID d) (decision_string (sd_Decision d)) user [] False) g1);
            g3 = (if session_scoped (sd_Decision d)
                  then g2\<lparr>gw_grants := Grant (en_now e) (tc_ThreadID t) (pp_Tool p) user (gw_grants g2)\<rparr> else g2);
            g4 = (case hub_Get g3 (pp_Runner p) of None \<Rightarrow> g3
                  | Some i \<Rightarrow> reply e i (FPermissionResponse \<lparr>pr_request = sd_RequestID d, pr_decision = sd_Decision d,
                      pr_decided_by = Some \<lparr>ur_id = user, ur_display = usr_Display (sd_User d), ur_email = []\<rparr>,
                      pr_reason = [], pr_policy_denied = False, pr_auto_approved = False\<rparr>) g3)
        in if en_surface e (tc_Surface t)
           then emit (EResolve (tc_Surface t) (pp_Ref p) (resolve_text d p (hub_Get g3 (pp_Runner p) \<noteq> None))) g4
           else g4)"

definition OnDecision :: "env \<Rightarrow> SurfaceDecision \<Rightarrow> gw \<Rightarrow> gw" where
  "OnDecision e d g =
     (case decision_load e d g of (g1, None) \<Rightarrow> g1 | (g1, Some p) \<Rightarrow> decision_claim e d p g1)"

text \<open>When a runner drops, its outstanding prompts are resolved as cancelled.\<close>

definition fail_prompt :: "env \<Rightarrow> string \<Rightarrow> string \<times> pendingPrompt \<Rightarrow> gw \<Rightarrow> gw" where
  "fail_prompt e runner kp g =
     (case kp of (k, p) \<Rightarrow>
        if pp_Runner p \<noteq> runner then g
        else
          let g1 = upd_store (RecordPermissionDecision (pp_RequestID p) (decision_string DecisionDeny) []
                     ''runner disconnected before a decision'' True) (g\<lparr>gw_prompts := del k (gw_prompts g)\<rparr>)
          in if en_surface e (tc_Surface (pp_Turn p))
             then emit (EResolve (tc_Surface (pp_Turn p)) (pp_Ref p)
               (quoted (pp_Tool p) @ emdash @ ''cancelled: '' @ quoted runner @ '' disconnected'')) g1
             else g1)"

definition failPendingFor :: "env \<Rightarrow> string \<Rightarrow> gw \<Rightarrow> gw" where
  "failPendingFor e runner g = fold (fail_prompt e runner) (gw_prompts g) g"

end
