(* ===== verification/Handlers.thy ===== *)
theory Handlers
  imports Dispatch
begin

text \<open>
  The rest of internal/gateway/dispatch.go: proxied tool calls, forge credentials, accounting, the end
  of a turn by \<open>done\<close>, by an error, by its runner staying away and by silence, and the
  dispatcher itself. \<open>sync.Map.Range\<close> visits the keys present when it starts and reads each
  value when it gets there.
\<close>

definition gq :: "string \<Rightarrow> string" where "gq s = CHR 0x22 # s @ [CHR 0x22]"

subsection \<open>Proxied tool calls\<close>

definition mcp_record :: "string \<Rightarrow> MCPCall \<Rightarrow> turnContext option \<Rightarrow> MCPRecord" where
  "mcp_record runner fr t =
     \<lparr>mq_CallID = mc_call fr, mq_Runner = runner,
      mq_ThreadID = (case t of None \<Rightarrow> [] | Some t \<Rightarrow> tc_ThreadID t), mq_TurnID = mc_turn fr,
      mq_SurfaceUser = (case t of None \<Rightarrow> [] | Some t \<Rightarrow> usr_ID (tc_User t)),
      mq_Server = mc_server fr, mq_Tool = mc_tool fr, mq_Args = mc_args fr, mq_OK = False, mq_Error = [],
      mq_DurationMS = 0\<rparr>"

text \<open>\<open>respond\<close>: record the outcome, then answer.\<close>

definition mcp_respond :: "env \<Rightarrow> nat \<Rightarrow> MCPCall \<Rightarrow> MCPRecord \<Rightarrow> int \<Rightarrow> string + string \<Rightarrow> gw \<Rightarrow> gw" where
  "mcp_respond e i fr rec started r g =
     (let rec' = rec\<lparr>mq_DurationMS := (en_now e - started) div 1000000, mq_OK := (\<not> is_err r),
                     mq_Error := (case r of Inl m \<Rightarrow> m | Inr _ \<Rightarrow> mq_Error rec)\<rparr>;
          resp = (case r of
              Inl m \<Rightarrow> \<lparr>mr_call = mc_call fr, mr_result = None, mr_error = Some \<lparr>re_code = ''mcp_error'', re_message = m\<rparr>\<rparr>
            | Inr v \<Rightarrow> \<lparr>mr_call = mc_call fr, mr_result = Some (if v = [] then ''{}'' else v), mr_error = None\<rparr>)
      in reply e i (FMCPResponse resp) (upd_store (RecordMCPCall rec') g))"

definition mcp_begin :: "env \<Rightarrow> nat \<Rightarrow> MCPCall \<Rightarrow> gw \<Rightarrow> gw \<times> MCPRecord" where
  "mcp_begin e i fr g =
     (case turnFor e (mc_turn fr) g of (g1, t) \<Rightarrow> (g1, mcp_record (conn_runner g1 i) fr t))"

definition mcp_result :: "env \<Rightarrow> MCPCall \<Rightarrow> string + string" where
  "mcp_result e fr =
     (if \<not> en_proxied e (mc_server fr)
      then Inl (''server '' @ gq (mc_server fr) @ '' is not proxied by this gateway'')
      else en_mcp e (mc_server fr) (mc_tool fr) (mc_args fr))"

definition onMCPCall :: "env \<Rightarrow> nat \<Rightarrow> MCPCall \<Rightarrow> gw \<Rightarrow> gw" where
  "onMCPCall e i fr g =
     (case mcp_begin e i fr g of (g1, rec) \<Rightarrow> mcp_respond e i fr rec (en_now e) (mcp_result e fr) g1)"

subsection \<open>Forge credentials\<close>

definition credential_record :: "string \<Rightarrow> CredentialRequest \<Rightarrow> turnContext option \<Rightarrow> CredentialRecord" where
  "credential_record runner fr t =
     \<lparr>cr_RequestID = cq_request fr, cr_Runner = runner,
      cr_Kind = (case cq_kind fr of CredentialForge \<Rightarrow> ''forge'' | CredentialHarness \<Rightarrow> ''harness'' | CredentialOther s \<Rightarrow> s),
      cr_Resource = cq_resource fr,
      cr_ThreadID = (case t of None \<Rightarrow> [] | Some t \<Rightarrow> tc_ThreadID t), cr_TurnID = cq_turn fr,
      cr_SurfaceUser = (case t of None \<Rightarrow> [] | Some t \<Rightarrow> usr_ID (tc_User t)),
      cr_Granted = False, cr_Reason = [], cr_ExpiresAt = None\<rparr>"

text \<open>What is allowed before anything is minted: a refusal, or whether the credential may write.\<close>

definition credential_policy :: "gw \<Rightarrow> string \<Rightarrow> CredentialRequest \<Rightarrow> string + bool" where
  "credential_policy g runner fr =
     (if cq_kind fr \<noteq> CredentialForge then Inl ''only forge credentials are minted on request''
      else (case runnerConfig g runner of
          None \<Rightarrow> Inl ''runner is not configured''
        | Some rc \<Rightarrow>
            if RepoAllowed (Repos (r_Policy rc)) (cq_resource fr) then Inr True
            else if MarketplaceReadable (gw_cfg g) runner (cq_resource fr) = Ok True then Inr False
            else Inl (''repository '' @ gq (cq_resource fr) @ '' is outside this runner'' @ apos @ ''s forge policy'')))"

definition credential_deny :: "env \<Rightarrow> nat \<Rightarrow> CredentialRequest \<Rightarrow> CredentialRecord \<Rightarrow> string \<Rightarrow> gw \<Rightarrow> gw" where
  "credential_deny e i fr rec reason g =
     reply e i (FCredentialGrant \<lparr>cg_request = cq_request fr, cg_kind = cq_kind fr, cg_username = [], cg_value = [],
        cg_expires = None, cg_denied = True, cg_reason = reason\<rparr>)
       (try_store (RecordCredential (rec\<lparr>cr_Granted := False, cr_Reason := reason\<rparr>)) g)"

definition credential_grant :: "env \<Rightarrow> nat \<Rightarrow> CredentialRequest \<Rightarrow> CredentialRecord \<Rightarrow> Credential \<Rightarrow> gw \<Rightarrow> gw" where
  "credential_grant e i fr rec c g =
     reply e i (FCredentialGrant \<lparr>cg_request = cq_request fr, cg_kind = cq_kind fr, cg_username = cd_Username c,
        cg_value = cd_Token c, cg_expires = cd_ExpiresAt c, cg_denied = False, cg_reason = []\<rparr>)
       (try_store (RecordCredential (rec\<lparr>cr_Granted := True, cr_ExpiresAt := cd_ExpiresAt c\<rparr>)) g)"

definition onCredentialRequest :: "env \<Rightarrow> nat \<Rightarrow> CredentialRequest \<Rightarrow> gw \<Rightarrow> gw" where
  "onCredentialRequest e i fr g =
     (case turnFor e (cq_turn fr) g of
        (g1, t) \<Rightarrow>
          let runner = conn_runner g1 i; rec = credential_record runner fr t in
          (case credential_policy g1 runner fr of
             Inl reason \<Rightarrow> credential_deny e i fr rec reason g1
           | Inr rw \<Rightarrow>
               (case en_mint e of
                  None \<Rightarrow> credential_deny e i fr rec ''no forge provider is configured on the gateway'' g1
                | Some mint \<Rightarrow>
                    (case mint (cq_resource fr) rw of
                       Inl m \<Rightarrow> credential_deny e i fr rec (''mint failed: '' @ m) g1
                     | Inr c \<Rightarrow> credential_grant e i fr rec c g1))))"

subsection \<open>Accounting\<close>

definition usage_of :: "env \<Rightarrow> bool \<Rightarrow> UsageFrame \<Rightarrow> Usage" where
  "usage_of e dollars fr =
     (let cost = (if us_known fr \<and> dollars
                  then Cost (en_prices e) (us_model fr)
                    \<lparr>c_Input = us_input fr, c_CacheWrite = us_cache_write fr, c_CacheRead = us_cache_read fr,
                     c_Output = us_output fr, c_TTLHint = us_ttl_hint fr\<rparr>
                  else None)
      in \<lparr>u_Model = us_model fr, u_InputTokens = us_input fr, u_CacheWriteTokens = us_cache_write fr,
          u_CacheReadTokens = us_cache_read fr, u_OutputTokens = us_output fr, u_TTLHint = us_ttl_hint fr,
          u_Known = us_known fr, u_ComputedUSD = cost, u_ReportedUSD = us_provider_cost fr,
          u_PriceTableVer = (if cost = None then [] else t_Version (en_prices e))\<rparr>)"

definition bills_in_dollars :: "Runner option \<Rightarrow> bool" where
  "bills_in_dollars rc = (case rc of None \<Rightarrow> True | Some r \<Rightarrow> r_Billing r \<noteq> ''subscription'')"

definition onUsage :: "env \<Rightarrow> nat \<Rightarrow> UsageFrame \<Rightarrow> gw \<Rightarrow> gw" where
  "onUsage e i fr g =
     upd_store (RecordUsage (us_turn fr)
       (usage_of e (bills_in_dollars (runnerConfig g (conn_runner g i))) fr)) g"

subsection \<open>The end of a turn\<close>

text \<open>What every way of ending a turn does last.\<close>

definition turn_over :: "env \<Rightarrow> turnContext \<Rightarrow> gw \<Rightarrow> gw" where
  "turn_over e t g =
     endThreadTurn e (tc_ThreadID t) (turnSlotFreed e (tc_Runner t) (clearWorking (tc_ThreadID t) g))"

definition onDone :: "env \<Rightarrow> Done \<Rightarrow> gw \<Rightarrow> gw" where
  "onDone e fr g =
     (case turnFor e (d_turn fr) g of (g1, None) \<Rightarrow> g1
      | (g1, Some t) \<Rightarrow>
          let g2 = (case close_stream e t g1 of
                      (h, None) \<Rightarrow> h
                    | (h, Some s) \<Rightarrow> if HasOutput s then h else post_turn e t ''_(no output)_'' h);
              g3 = (if d_session fr = [] then g2 else upd_store (SetThreadSession (tc_ThreadID t) (d_session fr)) g2);
              duration = (if d_duration_ms fr = 0 then elapsed_ms e t else d_duration_ms fr);
              g4 = upd_store (TouchThread (en_clock e) (tc_ThreadID t))
                     (upd_store (FinishTurn (en_clock e) (d_turn fr) TurnDone [] duration (d_num_tool_calls fr)) g3);
              g5 = turn_over e t g4
          in g5\<lparr>gw_turns := del (d_turn fr) (gw_turns g5)\<rparr>)"

definition onRunnerError :: "env \<Rightarrow> nat \<Rightarrow> ErrorFrame \<Rightarrow> gw \<Rightarrow> gw" where
  "onRunnerError e i fr g =
     (let g0 = log_event \<lparr>ev_Kind = ''runner.error'', ev_Runner = conn_runner g i, ev_ThreadID = [], ev_TurnID = e_turn fr,
                 ev_SurfaceUser = [], ev_Detail = [(''code'', e_code fr), (''message'', e_message fr),
                   (''fatal'', if e_fatal fr then ''true'' else ''false'')]\<rparr> g;
          g1 = (case turnFor e (e_turn fr) g0 of (h, None) \<Rightarrow> h
                | (h, Some t) \<Rightarrow>
                    let h1 = fst (close_stream e t h);
                        h2 = post_turn e t ('':warning: '' @ quoted (e_code fr) @ emdash @ truncateLine (e_message fr) 500) h1;
                        h3 = upd_store (FinishTurn (en_clock e) (e_turn fr) TurnError (e_code fr @ '': '' @ e_message fr)
                               (elapsed_ms e t) 0) h2
                    in turn_over e t (h3\<lparr>gw_turns := del (e_turn fr) (gw_turns h3)\<rparr>))
      in if e_fatal fr then CloseWith i g1 else g1)"

text \<open>A turn the gateway gives up on: removed, its stream closed, its row failed.\<close>

definition fail_turn :: "env \<Rightarrow> turnContext \<Rightarrow> string \<Rightarrow> gw \<Rightarrow> gw" where
  "fail_turn e t reason g =
     upd_store (FinishTurn (en_clock e) (tc_TurnID t) TurnError reason (elapsed_ms e t) 0)
       (fst (close_stream e t (g\<lparr>gw_turns := del (tc_TurnID t) (gw_turns g)\<rparr>)))"

definition offline_text :: "string \<Rightarrow> string" where
  "offline_text runner = '':warning: '' @ quoted runner @
     '' went offline mid-turn. Completed file changes are saved on the runner; message again to pick the session back up''
     @ emdash @ ''if it is still down, the message will queue and deliver when it returns.''"

definition reconcile_turn :: "env \<Rightarrow> string \<Rightarrow> string \<Rightarrow> gw \<Rightarrow> gw" where
  "reconcile_turn e runner i g =
     (case map_of (gw_turns g) i of None \<Rightarrow> g
      | Some t \<Rightarrow>
          if tc_Runner t \<noteq> runner \<or> tc_queued t then g
          else turn_over e t (post_turn e t (offline_text runner)
                 (fail_turn e t ''runner_offline: connection lost mid-turn'' g)))"

text \<open>\<open>reconcileTurns\<close> after its grace period.\<close>

definition reconcileTurns :: "env \<Rightarrow> string \<Rightarrow> gw \<Rightarrow> gw" where
  "reconcileTurns e runner g =
     (if (case hub_Get g runner of None \<Rightarrow> False
          | Some i \<Rightarrow> (case conn_of g i of None \<Rightarrow> False | Some c \<Rightarrow> \<not> cn_closed c))
      then g
      else fold (reconcile_turn e runner) (map fst (gw_turns g)) g)"

definition strandedTurnTimeout :: int where "strandedTurnTimeout = seconds 3600"

definition sweep_turn :: "env \<Rightarrow> int \<Rightarrow> string \<Rightarrow> gw \<times> nat \<Rightarrow> gw \<times> nat" where
  "sweep_turn e timeout i gn =
     (case gn of (g, n) \<Rightarrow>
        (case map_of (gw_turns g) i of None \<Rightarrow> (g, n)
         | Some t \<Rightarrow>
             if en_now e - tc_lastActivity t < timeout \<or> tc_queued t then (g, n)
             else (turn_over e t (fail_turn e t
                     ''stranded: no activity past timeout (Done lost or misattributed)'' g), n + 1)))"

definition sweepStrandedOnce :: "env \<Rightarrow> int \<Rightarrow> gw \<Rightarrow> gw \<times> nat" where
  "sweepStrandedOnce e timeout g = fold (sweep_turn e timeout) (map fst (gw_turns g)) (g, 0)"

subsection \<open>The dispatcher\<close>

fun dispatch :: "env \<Rightarrow> nat \<Rightarrow> Frame \<Rightarrow> gw \<Rightarrow> gw" where
  "dispatch e i (FPong n) g = g"
| "dispatch e i (FPing n) g = reply e i (FPong n) g"
| "dispatch e i (FTextDelta fr) g = onTextDelta e fr g"
| "dispatch e i (FThought fr) g = onThought e fr g"
| "dispatch e i (FToolStart fr) g = onToolStart e fr g"
| "dispatch e i (FToolEnd fr) g = onToolEnd e fr g"
| "dispatch e i (FPermissionRequest fr) g = onPermissionRequest e i fr g"
| "dispatch e i (FMCPCall fr) g = onMCPCall e i fr g"
| "dispatch e i (FCredentialRequest fr) g = onCredentialRequest e i fr g"
| "dispatch e i (FUsage fr) g = onUsage e i fr g"
| "dispatch e i (FDone fr) g = onDone e fr g"
| "dispatch e i (FError fr) g = onRunnerError e i fr g"
| "dispatch e i (FBlobBegin fr) g = onBlobBegin e i fr g"
| "dispatch e i (FBlobEnd fr) g = onBlobEnd e i fr g"
| "dispatch e i _ g = g"

end
