(* ===== verification/Inbound.thy ===== *)
theory Inbound
  imports Handlers
begin

text \<open>
  Messages from people and the replay of what was accepted while a runner was away
  (internal/gateway/inbound.go): \<open>OnMessage\<close> with its commands, \<open>drainQueue\<close> and
  \<open>withHeldFiles\<close>. The reports of \<open>!status\<close>, \<open>!cost\<close> and \<open>!routes\<close> are the environment's
  \<open>en_report\<close>.
\<close>

subsection \<open>A message\<close>

text \<open>Commands other than \<open>!runner\<close>: the state after the command, and whether the message still runs.\<close>

definition run_command :: "env \<Rightarrow> Inbound \<Rightarrow> string \<Rightarrow> string \<Rightarrow> Thread \<Rightarrow> string \<Rightarrow> string \<Rightarrow> gw \<Rightarrow> gw \<times> bool" where
  "run_command e inb key runnerName thread text cmd g =
     (if cmd = ''new'' then
        (notice e inb (''Started a fresh session on '' @ quoted runnerName @ ''.'')
          ((upd_store (ClearSession key) g)\<lparr>gw_grants := fst (Clear key (gw_grants g))\<rparr>), text \<noteq> [])
      else if cmd = ''rebind'' then
        (case RunnerFor (gw_cfg g) (in_Channel inb) (in_IsDM inb) of
           None \<Rightarrow> (notice e inb ''This channel has no route to rebind to.'' g, False)
         | Some target \<Rightarrow>
             if target = tr_Runner thread then (notice e inb (''Already on '' @ quoted target @ ''.'') g, False)
             else (notice e inb (''Rebound to '' @ quoted target @ ''; a fresh session starts on the next message.'')
                 (log_event \<lparr>ev_Kind = ''thread.rebound'', ev_Runner = target, ev_ThreadID = key, ev_TurnID = [],
                     ev_SurfaceUser = usr_ID (in_User inb), ev_Detail = [(''from'', tr_Runner thread), (''to'', target)]\<rparr>
                   (upd_store (RebindThread key target) (g\<lparr>gw_grants := fst (Clear key (gw_grants g))\<rparr>))), False))
      else if cmd = ''status'' \<or> cmd = ''cost'' \<or> cmd = ''routes'' then (notice e inb (en_report e cmd g) g, False)
      else (g, True))"

text \<open>Which runner answers: the thread's binding, else the channel's route, else \<open>None\<close>.\<close>

definition pick_runner :: "gw \<Rightarrow> Inbound \<Rightarrow> string \<Rightarrow> string option" where
  "pick_runner g inb key =
     (case ThreadRow (gw_store g) key of Some t \<Rightarrow> Some (tr_Runner t)
      | None \<Rightarrow> RunnerFor (gw_cfg g) (in_Channel inb) (in_IsDM inb))"

definition ignored :: "gw \<Rightarrow> Inbound \<Rightarrow> bool" where
  "ignored g inb \<longleftrightarrow>
     (in_BotID inb \<noteq> [] \<and>
        (in_IsDM inb \<or> \<not> BotAllowed (gw_cfg g) (in_Channel inb) [in_BotID inb, usr_ID (in_User inb)]))
     \<or> (ThreadRow (gw_store g) (inb_key inb) = None \<and> \<not> in_Addressed inb \<and> fst (snd (parseCommand (in_Text inb))) = [])"

definition OnMessage :: "env \<Rightarrow> Inbound \<Rightarrow> gw \<Rightarrow> gw" where
  "OnMessage e inb g =
     (let key = inb_key inb; (text, cmd, cmdArg) = parseCommand (in_Text inb);
          isNew = (ThreadRow (gw_store g) key = None) in
      if ignored g inb then g
      else (case pick_runner g inb key of None \<Rightarrow> g
      | Some routed \<Rightarrow>
          if cmd = ''runner'' \<and> \<not> isNew
          then notice e inb (''This thread is already bound to '' @ quoted routed @ ''. Start a new thread, or use `!rebind`.'') g
          else if cmd = ''runner'' \<and> map_of (Runners (gw_cfg g)) cmdArg = None
          then notice e inb (''No runner named '' @ quoted cmdArg @ ''.'') g
          else
            let runnerName = (if cmd = ''runner'' then cmdArg else routed) in
            (case runnerConfig g runnerName of
               None \<Rightarrow> notice e inb (''Runner '' @ quoted runnerName @ '' is no longer configured.'') g
             | Some rc \<Rightarrow>
                 let persona = personaFor (Some rc);
                     (s1, thread, created) = BindThread (en_clock e) key (in_Surface inb) (in_Channel inb) runnerName (gw_store g);
                     g1 = g\<lparr>gw_store := TouchThread (en_clock e) key s1\<rparr>;
                     (g2, go) = run_command e inb key runnerName thread text cmd g1
                 in if \<not> go then g2
                    else if TrimSpace text = [] \<and> in_Files inb = [] then g2
                    else (case beginThreadTurn e inb key runnerName rc persona g2 of
                        (g3, False) \<Rightarrow> g3
                      | (g3, True) \<Rightarrow> dispatchAdmitted e inb runnerName rc persona g3))))"

subsection \<open>The offline queue\<close>

text \<open>The frame to send, rewritten when attachments were held for it, and its live turn.\<close>

definition withHeldFiles :: "env \<Rightarrow> nat \<Rightarrow> string \<Rightarrow> gw \<Rightarrow> gw \<times> string \<times> turnContext option" where
  "withHeldFiles e i frame g =
     (case Decode (en_json e) frame DirDown of
        Inr (FMessage msg) \<Rightarrow>
          (case map_of (gw_turns g) (m_turn msg) of None \<Rightarrow> (g, frame, None)
           | Some t \<Rightarrow>
               (case map_of (gw_heldFiles g) (m_turn msg) of None \<Rightarrow> (g, frame, Some t)
                | Some files \<Rightarrow>
                    let g1 = g\<lparr>gw_heldFiles := del (m_turn msg) (gw_heldFiles g)\<rparr>;
                        (g2, as, bad) = relayFilesToRunner e i t files g1;
                        g3 = (case bad of None \<Rightarrow> g2
                              | Some m \<Rightarrow> post_turn e t (''Could not transfer a held attachment: '' @ m) g2)
                    in (case Encode (en_json e) (Some (FMessage (msg\<lparr>m_attachments := m_attachments msg @ as\<rparr>))) of
                          Inl _ \<Rightarrow> (g3, frame, Some t) | Inr out \<Rightarrow> (g3, out, Some t))))
      | _ \<Rightarrow> (g, frame, None))"

text \<open>A delivered message's turn starts now; the turn is a pointer into the live turns.\<close>

definition start_queued :: "env \<Rightarrow> turnContext \<Rightarrow> gw \<Rightarrow> gw" where
  "start_queued e t g =
     (case map_of (gw_turns g) (tc_TurnID t) of None \<Rightarrow> setWorkingForTurn e t g
      | Some t' \<Rightarrow> setWorkingForTurn e t
          (g\<lparr>gw_turns := put (tc_TurnID t) (t'\<lparr>tc_lastActivity := en_now e, tc_queued := False\<rparr>) (gw_turns g)\<rparr>))"

text \<open>Send in order; the first failure ends the drain with the message still queued.\<close>

fun drain_msgs :: "env \<Rightarrow> nat \<Rightarrow> QueuedMessage list \<Rightarrow> gw \<Rightarrow> gw" where
  "drain_msgs e i [] g = g"
| "drain_msgs e i (m # ms) g =
     (case withHeldFiles e i (qm_Frame m) g of
        (g1, frame, t) \<Rightarrow>
          (case sendRaw i (ERaw i frame) g1 of
             (g2, False) \<Rightarrow> g2
           | (g2, True) \<Rightarrow>
               let g3 = (case t of None \<Rightarrow> g2 | Some t \<Rightarrow> start_queued e t g2);
                   g4 = (if en_deleteQueued e (qm_ID m) then upd_store (DeleteQueued (qm_ID m)) g3 else g3)
               in drain_msgs e i ms g4))"

definition drainQueue :: "env \<Rightarrow> nat \<Rightarrow> gw \<Rightarrow> gw" where
  "drainQueue e i g =
     (let g1 = wakeConnected e (conn_runner g i) g
      in drain_msgs e i (Dequeue (gw_store g1) (conn_runner g i) 1000) g1)"

subsection \<open>A removed runner\<close>

definition removed_turn :: "env \<Rightarrow> string \<Rightarrow> string \<Rightarrow> gw \<Rightarrow> gw" where
  "removed_turn e name i g =
     (case map_of (gw_turns g) i of None \<Rightarrow> g
      | Some t \<Rightarrow>
          if tc_Runner t = name \<and> tc_queued t
          then post_turn e t (quoted name @ '' was removed before it came back; your queued message was discarded.'')
                 (abandonTurn e t ''runner_removed: queued for a runner that was removed'' g)
          else g)"

definition dropRemovedRunner :: "env \<Rightarrow> string \<Rightarrow> gw \<Rightarrow> gw" where
  "dropRemovedRunner e name g =
     (let g1 = upd_store (\<lambda>s. fst (PurgeQueue name s)) g;
          g2 = fold (removed_turn e name) (map fst (gw_turns g1)) g1
      in g2\<lparr>gw_wakes := del name (gw_wakes g2)\<rparr>)"

end
