(* ===== verification/Quiet.thy ===== *)
theory Quiet
  imports Inbound
begin

text \<open>
  What the gateway's handlers do to the turn slots. \<open>quiet\<close> is the frame of the handlers that start
  and end no turn: they may refresh a live turn's clock, nothing else the scheduler looks at. The
  handlers that end turns keep \<open>settled\<close> and \<open>bounded\<close>.
\<close>

subsection \<open>The quiet frame\<close>

definition shape :: "gw \<Rightarrow> (string \<times> string \<times> string \<times> string) list" where
  "shape g = map (\<lambda>(i, t). (i, tc_TurnID t, tc_ThreadID t, tc_Runner t)) (gw_turns g)"

definition quiet :: "gw \<Rightarrow> gw \<Rightarrow> bool" where
  "quiet g g' \<longleftrightarrow> gw_cfg g' = gw_cfg g \<and> shape g' = shape g \<and> gw_queues g' = gw_queues g \<and>
     gw_threadActive g' = gw_threadActive g \<and> gw_threadWaiting g' = gw_threadWaiting g \<and>
     rows_kept (gw_store g) (gw_store g')"

lemma quiet_refl [simp]: "quiet g g"
  by (simp add: quiet_def)

lemma quiet_trans: "quiet a b \<Longrightarrow> quiet b c \<Longrightarrow> quiet a c"
  using rows_kept_trans by (auto simp: quiet_def)

lemma quiet_sched: "same_sched g g' \<Longrightarrow> quiet g g'"
  by (simp add: same_sched_def quiet_def shape_def)

lemma map_put_same:
  "map_of m k = Some w \<Longrightarrow> f v = f w \<Longrightarrow> map (\<lambda>(i, t). (i, f t)) (put k v m) = map (\<lambda>(i, t). (i, f t)) m"
  by (induction m) (auto simp: put_def)

lemma shape_put:
  "map_of (gw_turns g) i = Some t \<Longrightarrow> tc_TurnID t' = tc_TurnID t \<Longrightarrow>
     tc_ThreadID t' = tc_ThreadID t \<Longrightarrow> tc_Runner t' = tc_Runner t \<Longrightarrow>
     shape (g\<lparr>gw_turns := put i t' (gw_turns g)\<rparr>) = shape g"
  using map_put_same [of "gw_turns g" i t "\<lambda>t. (tc_TurnID t, tc_ThreadID t, tc_Runner t)" t'] by (simp add: shape_def)

lemma shape_total: "total (on_thread k) (gw_turns g) = sum_list (map (\<lambda>(i, n, th, r). if th = k then 1 else 0) (shape g))"
  unfolding shape_def total_def by (rule arg_cong [of _ _ sum_list]) (auto simp: on_thread_def)

lemma shape_map_of:
  "map_of (gw_turns g) i = None \<longleftrightarrow> map_of (shape g) i = None"
  "map_of (gw_turns g) i = Some t \<Longrightarrow> map_of (shape g) i = Some (tc_TurnID t, tc_ThreadID t, tc_Runner t)"
  "map_of (shape g) i = Some p \<Longrightarrow> \<exists>t. map_of (gw_turns g) i = Some t \<and> p = (tc_TurnID t, tc_ThreadID t, tc_Runner t)"
proof -
  have "map_of (map (\<lambda>(i, t). (i, tc_TurnID t, tc_ThreadID t, tc_Runner t)) m) i =
      map_option (\<lambda>t. (tc_TurnID t, tc_ThreadID t, tc_Runner t)) (map_of m i)" for m
    by (induction m) auto
  then have e: "map_of (shape g) i = map_option (\<lambda>t. (tc_TurnID t, tc_ThreadID t, tc_Runner t)) (map_of (gw_turns g) i)"
    by (simp add: shape_def)
  show "map_of (gw_turns g) i = None \<longleftrightarrow> map_of (shape g) i = None" by (simp add: e)
  show "map_of (gw_turns g) i = Some t \<Longrightarrow> map_of (shape g) i = Some (tc_TurnID t, tc_ThreadID t, tc_Runner t)" by (simp add: e)
  show "map_of (shape g) i = Some p \<Longrightarrow> \<exists>t. map_of (gw_turns g) i = Some t \<and> p = (tc_TurnID t, tc_ThreadID t, tc_Runner t)"
    by (auto simp: e)
qed

lemma shape_keys: "map fst (gw_turns g) = map fst (shape g)"
  by (simp add: shape_def split_beta comp_def)

lemma quiet_frame:
  assumes q: "quiet g g'"
  shows "load g' k = load g k" "active g' k = active g k" "slots y g' = slots y g"
    "wf_sched g \<Longrightarrow> wf_sched g'" "kept g g'" "fair M g g'" "gw_cfg g' = gw_cfg g"
proof -
  have s: "shape g' = shape g" and ld: "load g' k = load g k" and ac: "active g' k = active g k" for k
    using q shape_total [of k g] shape_total [of k g'] by (simp_all add: quiet_def load_def active_def)
  show "load g' k = load g k" "active g' k = active g k" by (rule ld ac)+
  show "slots y g' = slots y g" using ld ac by (simp add: slots_def)
  have "recorded g'" if "recorded g"
  proof (rule recorded_mono [OF that])
    show "rows_kept (gw_store g) (gw_store g')" using q by (simp add: quiet_def)
    show "\<exists>t. map_of (gw_turns g) i = Some t \<and> tc_TurnID t' = tc_TurnID t" if "map_of (gw_turns g') i = Some t'" for i t'
      using shape_map_of(2) [OF that] shape_map_of(3) [of g i] s by auto
  qed
  then show "wf_sched g \<Longrightarrow> wf_sched g'"
    using q ac shape_keys [of g] shape_keys [of g'] by (simp add: wf_sched_def quiet_def)
  show "kept g g'" unfolding kept_def using shape_map_of(2) [of g] shape_map_of(3) [of g'] s by fastforce
  show "fair M g g'" using q by (simp add: quiet_def fair_same)
  show "gw_cfg g' = gw_cfg g" using q by (simp add: quiet_def)
qed

lemma settled_quiet: "wf_sched g \<Longrightarrow> slots y g \<Longrightarrow> quiet g g' \<Longrightarrow> settled y g g'"
  using quiet_frame(3,4,5) [of g g'] by (simp add: settled_def)

lemma settled_then_quiet: "settled y g g1 \<Longrightarrow> quiet g1 g2 \<Longrightarrow> settled y g g2"
  using quiet_frame(3,4,5) [of g1 g2] kept_trans [of g g1 g2] by (simp add: settled_def)

lemma quiet_then_settled: "quiet g g1 \<Longrightarrow> settled y g1 g2 \<Longrightarrow> settled y g g2"
  using quiet_frame(5) [of g g1] kept_trans [of g g1 g2] by (simp add: settled_def)

subsection \<open>The quiet operations\<close>

named_theorems quiet_rules \<open>operations that start and end no turn\<close>

lemma quiet_prims [quiet_rules]:
  "quiet g (emit x g)" "quiet g (log_event ev g)" "quiet g (fst (post e s p g))" "quiet g (update_post s r p g)"
  "quiet g (notice e inb text g)" "quiet g (upd_conn i h g)" "quiet g (CloseWith i g)" "quiet g (reply e i fr g)"
  "quiet g (clearWorking k g)" "quiet g (post_turn e t text g)" "quiet g (upd_stream t f g)"
  "quiet g (flush_stream e t g)" "quiet g (fst (close_stream e t g))" "quiet g (setWorkingForTurn e t g)"
  "quiet g (touchWorking e k g)"
proof -
  show "quiet g (post_turn e t text g)"
    by (simp add: post_turn_def quiet_sched frame_simps)
  show "quiet g (upd_stream t f g)" by (simp add: upd_stream_def quiet_def shape_def)
  show "quiet g (flush_stream e t g)" by (simp add: flush_stream_def split_beta Let_def quiet_def shape_def)
  show "quiet g (fst (close_stream e t g))"
    by (simp add: close_stream_def split_beta Let_def quiet_def shape_def split: option.split)
qed (simp_all add: quiet_sched frame_simps reply_def)

lemma quiet_upd_store [quiet_rules]: "rows_kept (gw_store g) (f (gw_store g)) \<Longrightarrow> quiet g (upd_store f g)"
  by (rule quiet_sched [OF same_sched_upd_store])

lemma rows_kept_perm [simp]: "rows_kept s (RecordPermissionDecision r d b m p s)"
  by (simp add: RecordPermissionDecision_def rows_kept_same)

lemma rows_kept_threads [simp]:
  "rows_kept s (SetThreadSession i x s)" "rows_kept s (TouchThread now i s)" "rows_kept s (ClearSession i s)"
  "rows_kept s (RebindThread i x s)" "rows_kept s (fst (BindThread now i sf ch r s))"
  using rows_kept_ops(10) [of s "OSession i x"] rows_kept_ops(10) [of s "OTouch now i"] rows_kept_ops(10) [of s "OClearSession i"]
    rows_kept_ops(10) [of s "ORebind i x"] rows_kept_ops(10) [of s "OBind now i sf ch r"] by simp_all

lemma quiet_try_store [quiet_rules]:
  "(\<And>s. f (gw_store g) = Some s \<Longrightarrow> rows_kept (gw_store g) s) \<Longrightarrow> quiet g (try_store f g)"
  by (auto simp: try_store_def quiet_def shape_def split: option.split)

lemma quiet_turnFor: "turnFor e i g = (g', t) \<Longrightarrow> quiet g g'"
proof (cases "map_of (gw_turns g) i")
  case (Some t)
  have "quiet g (g\<lparr>gw_turns := put i (t\<lparr>tc_lastActivity := en_now e\<rparr>) (gw_turns g)\<rparr>)"
    using shape_put [OF Some] by (simp add: quiet_def)
  from quiet_trans [OF this quiet_prims(15)]
  show "turnFor e i g = (g', t') \<Longrightarrow> quiet g g'" for t' using Some by (auto simp: turnFor_def Let_def)
qed (simp add: turnFor_def)

lemma turnFor_Some:
  "turnFor e i g = (g', Some t) \<Longrightarrow> map_of (gw_turns g') i = Some t \<and> (\<exists>t0. map_of (gw_turns g) i = Some t0 \<and>
     tc_ThreadID t = tc_ThreadID t0 \<and> tc_TurnID t = tc_TurnID t0 \<and> tc_Runner t = tc_Runner t0)"
  by (auto simp: turnFor_def touchWorking_def emit_def Let_def split: option.splits)

text \<open>The same rules, chained: what a handler built from quiet operations needs.\<close>

lemma quiet_intros:
  assumes "quiet g h"
  shows "quiet g (emit x h)" "quiet g (log_event ev h)" "quiet g (fst (post e s p h))" "quiet g (update_post s r p h)"
    "quiet g (notice e inb text h)" "quiet g (CloseWith i h)" "quiet g (reply e i fr h)"
    "quiet g (clearWorking k h)" "quiet g (post_turn e t text h)" "quiet g (upd_stream t f h)"
    "quiet g (flush_stream e t h)" "quiet g (fst (close_stream e t h))" "quiet g (setWorkingForTurn e t h)"
    "rows_kept (gw_store h) (u (gw_store h)) \<Longrightarrow> quiet g (upd_store u h)"
    "(\<And>s. v (gw_store h) = Some s \<Longrightarrow> rows_kept (gw_store h) s) \<Longrightarrow> quiet g (try_store v h)"
proof -
  note q = quiet_trans [OF assms]
  show "rows_kept (gw_store h) (u (gw_store h)) \<Longrightarrow> quiet g (upd_store u h)" by (rule q [OF quiet_upd_store])
  show "(\<And>s. v (gw_store h) = Some s \<Longrightarrow> rows_kept (gw_store h) s) \<Longrightarrow> quiet g (try_store v h)"
    by (rule q [OF quiet_try_store])
qed (rule quiet_trans [OF assms quiet_prims(1)] quiet_trans [OF assms quiet_prims(2)] quiet_trans [OF assms quiet_prims(3)]
    quiet_trans [OF assms quiet_prims(4)] quiet_trans [OF assms quiet_prims(5)] quiet_trans [OF assms quiet_prims(7)]
    quiet_trans [OF assms quiet_prims(8)] quiet_trans [OF assms quiet_prims(9)] quiet_trans [OF assms quiet_prims(10)]
    quiet_trans [OF assms quiet_prims(11)] quiet_trans [OF assms quiet_prims(12)] quiet_trans [OF assms quiet_prims(13)]
    quiet_trans [OF assms quiet_prims(14)])+

lemma quiet_fields:
  assumes "quiet g h"
  shows "quiet g (h\<lparr>gw_prompts := pr\<rparr>)" "quiet g (h\<lparr>gw_grants := gr\<rparr>)" "quiet g (h\<lparr>gw_heldFiles := hf\<rparr>)"
    "quiet g (h\<lparr>gw_wakes := wk\<rparr>)" "quiet g (h\<lparr>gw_blobs := bs\<rparr>)" "quiet g (h\<lparr>gw_hub := hb\<rparr>)"
    "quiet g (h\<lparr>gw_conns := cs\<rparr>)" "quiet g (h\<lparr>gw_bundles := bu\<rparr>)" "quiet g (h\<lparr>gw_latched := la\<rparr>)"
    "quiet g (h\<lparr>gw_working := wo\<rparr>)"
  using assms by (simp_all add: quiet_def shape_def)

lemmas quiet_all = quiet_intros quiet_fields

lemma quiet_output:
  "quiet g (onTextDelta e td g)" "quiet g (onThought e th g)" "quiet g (onToolStart e ts g)" "quiet g (onToolEnd e te g)"
  by (auto simp: onTextDelta_def onThought_def onToolStart_def onToolEnd_def dest: quiet_turnFor
      split: prod.split option.split intro!: quiet_all)

lemma rows_kept_request: "RecordPermissionRequest r th tn ru tool ip s = Some s' \<Longrightarrow> rows_kept s s'"
  by (auto simp: RecordPermissionRequest_def rows_kept_same split: if_splits)

lemma rows_kept_credential: "RecordCredential c s = Some s' \<Longrightarrow> rows_kept s s'"
  by (auto simp: RecordCredential_def rows_kept_same split: if_splits)

lemma quiet_permission_parts:
  "quiet g (autoAllow e i fr t reason kind g)" "quiet g (policyDeny e i fr t rule g)" "quiet g (askPerson e i fr t g)"
  by (auto simp: autoAllow_def policyDeny_def askPerson_def Let_def split: sum.split intro!: quiet_all)

lemma quiet_onPermissionRequest: "quiet g (onPermissionRequest e i fr g)"
proof (cases "turnFor e (pq_turn fr) g")
  case (Pair g1 o1)
  then have q: "quiet g g1" by (rule quiet_turnFor)
  have 2: "quiet g (try_store (RecordPermissionRequest a b c d x y) g1)" for a b c d x y
    by (intro quiet_all q rows_kept_request)
  show ?thesis
    by (auto simp: onPermissionRequest_def Pair Let_def split: option.split
        intro!: quiet_all q quiet_trans [OF 2 quiet_permission_parts(1)]
          quiet_trans [OF 2 quiet_permission_parts(2)] quiet_trans [OF 2 quiet_permission_parts(3)])
qed

lemma quiet_decision_load: "quiet g (fst (decision_load e d g))"
  by (auto simp: decision_load_def unauthorized_def Let_def split: option.split intro!: quiet_all)

lemma quiet_decision_claim: "quiet g (decision_claim e d p g)"
  by (auto simp: decision_claim_def Let_def split: option.split intro!: quiet_all)

lemma quiet_OnDecision: "quiet g (OnDecision e d g)"
  using quiet_decision_load [of g e d] quiet_trans [OF _ quiet_decision_claim]
  by (auto simp: OnDecision_def split: prod.split option.split)

lemma quiet_fold: "(\<And>x h. quiet h (f x h)) \<Longrightarrow> quiet g (fold f xs g)"
proof (induction xs arbitrary: g)
  case (Cons x xs)
  then show ?case using quiet_trans [of g "f x g"] by simp
qed simp

lemma quiet_failPendingFor: "quiet g (failPendingFor e r g)"
  unfolding failPendingFor_def
  by (rule quiet_fold) (auto simp: fail_prompt_def Let_def split: prod.split intro!: quiet_all)

lemma quiet_onMCPCall: "quiet g (onMCPCall e i fr g)"
  by (auto simp: onMCPCall_def mcp_begin_def mcp_respond_def Let_def dest: quiet_turnFor
      split: prod.split intro!: quiet_all)

lemma quiet_credential_parts:
  "quiet g (credential_deny e i fr rec reason g)" "quiet g (credential_grant e i fr rec c g)"
  by (auto simp: credential_deny_def credential_grant_def intro!: quiet_all dest: rows_kept_credential)

lemma quiet_onCredentialRequest: "quiet g (onCredentialRequest e i fr g)"
  using quiet_trans [OF _ quiet_credential_parts(1)] quiet_trans [OF _ quiet_credential_parts(2)]
  by (auto simp: onCredentialRequest_def Let_def dest!: quiet_turnFor split: prod.split sum.split option.split)

lemma quiet_onUsage: "quiet g (onUsage e i fr g)"
  by (auto simp: onUsage_def intro!: quiet_all)

lemma quiet_onBlobBegin: "quiet g (onBlobBegin e i fr g)"
  by (auto simp: onBlobBegin_def reply_def [symmetric] dest: quiet_turnFor split: option.split prod.split
      intro!: quiet_all)

lemma quiet_onChunk: "quiet g (onChunk e i h pl g)"
  by (auto simp: onChunk_def Let_def split: option.split intro!: quiet_all)

lemma quiet_onBlobEnd: "quiet g (onBlobEnd e i fr g)"
  by (auto simp: onBlobEnd_def Let_def split: option.split intro!: quiet_all)

subsection \<open>The offline queue\<close>

lemma quiet_wakeConnected: "quiet g (wakeConnected e r g)"
proof (cases "map_of (gw_wakes g) r")
  case (Some st)
  have "quiet h (fold (\<lambda>n g. if en_surface e (wn_surface n) then update_post (wn_surface n) (wn_ref n) (p n) g else g) ns h)"
    for h ns p by (rule quiet_fold) (simp add: quiet_prims(4))
  with quiet_trans [OF quiet_fields(4) [OF quiet_refl]] Some show ?thesis unfolding wakeConnected_def by fastforce
qed (simp add: wakeConnected_def)

lemma quiet_sendRaw: "sendRaw i x g = (g', ok) \<Longrightarrow> quiet g g'"
  by (rule quiet_sched [OF same_sched_sendRaw])

lemma withHeldFiles_turn:
  assumes "withHeldFiles e i frame g = (g', out, t)"
  shows "quiet g g'"
proof -
  have r: "quiet g g2" if "relayFilesToRunner e i t fs (g\<lparr>gw_heldFiles := hf\<rparr>) = (g2, as, bad)" for t fs hf g2 as bad
    using quiet_trans [OF quiet_fields(3) [OF quiet_refl] quiet_sched [OF same_sched_relay]] that by (metis fst_conv)
  show ?thesis
    using assms
    by (auto simp: withHeldFiles_def Let_def split: sum.splits Frame.splits option.splits prod.splits
        intro!: quiet_all dest!: r)
qed

lemma quiet_start_queued: "quiet g (start_queued e t g)"
proof (cases "map_of (gw_turns g) (tc_TurnID t)")
  case None
  then show ?thesis by (simp add: start_queued_def quiet_prims(14))
next
  case (Some t')
  have "quiet g (g\<lparr>gw_turns := put (tc_TurnID t) (t'\<lparr>tc_lastActivity := en_now e, tc_queued := False\<rparr>) (gw_turns g)\<rparr>)"
    using shape_put [OF Some] by (simp add: quiet_def)
  with Some show ?thesis by (simp add: start_queued_def quiet_all(13))
qed

lemma quiet_drain: "quiet g (drain_msgs e i ms g)"
proof (induction ms arbitrary: g)
  case (Cons m ms)
  obtain g1 frame t where w: "withHeldFiles e i (qm_Frame m) g = (g1, frame, t)" by (metis prod_cases3)
  note q1 = withHeldFiles_turn [OF w]
  obtain g2 ok where k: "sendRaw i (ERaw i frame) g1 = (g2, ok)" by fastforce
  note q2 = quiet_trans [OF q1 quiet_sendRaw [OF k]]
  show ?case
  proof (cases ok)
    case False
    with w k q2 show ?thesis by simp
  next
    case True
    define g3 where "g3 = (case t of None \<Rightarrow> g2 | Some t \<Rightarrow> start_queued e t g2)"
    define g4 where "g4 = (if en_deleteQueued e (qm_ID m) then upd_store (DeleteQueued (qm_ID m)) g3 else g3)"
    have "quiet g g3" using quiet_trans [OF q2 quiet_start_queued] q2 by (simp add: g3_def split: option.split)
    then have "quiet g g4" by (simp add: g4_def quiet_all)
    moreover have "drain_msgs e i (m # ms) g = drain_msgs e i ms g4"
      using w k True by (simp add: g3_def [symmetric] g4_def Let_def)
    ultimately show ?thesis using quiet_trans [OF _ Cons [of g4]] by simp
  qed
qed simp

lemma quiet_drainQueue: "quiet g (drainQueue e i g)"
  unfolding drainQueue_def Let_def by (rule quiet_trans [OF quiet_wakeConnected quiet_drain])

end
