(* ===== verification/Bundles.thy ===== *)
theory Bundles
  imports Quiet
begin

text \<open>
  Building and pushing a runner's bundle (internal/gateway/bundle.go). The file system below the bundle
  root is the record \<open>bundle_env\<close>: the working directory, the config path, reading a file, and
  walking a tree in lexical order. SHA-256 is a function on byte strings. \<open>sort.Slice\<close> is a sort by
  the key; its order of equal keys does not arise, because paths and server names of a valid push are
  distinct.
\<close>

subsection \<open>Source files\<close>

datatype tree = TreeFails string | TreeFile string | TreeDir "(string \<times> (string + string)) list"

record bundle_env =
  bu_cwd :: string
  bu_cfgPath :: string
  bu_read :: "string \<Rightarrow> string + string"
  bu_tree :: "string \<Rightarrow> tree"
  bu_manifest :: "string list \<Rightarrow> (string \<times> string \<times> string) list \<Rightarrow> string + string"
  bu_sha :: "string \<Rightarrow> string"

definition path_abs :: "bundle_env \<Rightarrow> string \<Rightarrow> string" where
  "path_abs b p = (if IsAbs p then Clean p else path_join [bu_cwd b, p])"

definition bundleBase :: "bundle_env \<Rightarrow> string" where
  "bundleBase b = (if bu_cfgPath b = [] then ''bundles'' else path_join [path_dir (bu_cfgPath b), ''bundles''])"

definition resolveBundlePath :: "bundle_env \<Rightarrow> string \<Rightarrow> string outcome" where
  "resolveBundlePath b rel =
     (if IsAbs rel then Ok rel
      else let base = bundleBase b; absBase = path_abs b base; absFull = path_abs b (path_join [base, rel]) in
        if absFull \<noteq> absBase \<and> \<not> HasPrefix absFull (absBase @ [slash])
        then Fail (Err ''gateway: bundle path %q escapes %s'' [rel, base]) else Ok absFull)"

definition readBundleFile :: "bundle_env \<Rightarrow> string \<Rightarrow> string outcome" where
  "readBundleFile b rel =
     (case resolveBundlePath b rel of
        Ok p \<Rightarrow> (case bu_read b p of Inl m \<Rightarrow> Fail (Err ''gateway: bundle file %q: %w'' [rel, m]) | Inr c \<Rightarrow> Ok c)
      | Fail e \<Rightarrow> Fail e | Panic \<Rightarrow> Panic)"

fun walk_files :: "string list \<Rightarrow> (string \<times> (string + string)) list \<Rightarrow> BundleFile list outcome" where
  "walk_files pre [] = Ok []"
| "walk_files pre ((rel, r) # fs) =
     (case r of Inl m \<Rightarrow> Fail (Err m [])
      | Inr content \<Rightarrow>
          (case walk_files pre fs of
             Ok out \<Rightarrow> Ok (\<lparr>bf_path = path_join (pre @ [rel]), bf_content = content, bf_mode = 384\<rparr> # out)
           | Fail e \<Rightarrow> Fail e | Panic \<Rightarrow> Panic))"

definition readBundleTree :: "bundle_env \<Rightarrow> string \<Rightarrow> string \<Rightarrow> BundleFile list outcome" where
  "readBundleTree b rel pre =
     (case resolveBundlePath b rel of
        Ok dir \<Rightarrow>
          (case bu_tree b dir of
             TreeFails m \<Rightarrow> Fail (Err ''gateway: bundle tree %q: %w'' [rel, m])
           | TreeFile content \<Rightarrow> Ok [\<lparr>bf_path = path_join [pre, path_base rel], bf_content = content, bf_mode = 384\<rparr>]
           | TreeDir fs \<Rightarrow> walk_files [pre, path_base rel] fs)
      | Fail e \<Rightarrow> Fail e | Panic \<Rightarrow> Panic)"

subsection \<open>Building a bundle\<close>

fun memory_files :: "bundle_env \<Rightarrow> string list \<Rightarrow> BundleFile list outcome" where
  "memory_files b [] = Ok []"
| "memory_files b (rel # rels) =
     (case readBundleFile b rel of
        Ok c \<Rightarrow> (case memory_files b rels of
            Ok fs \<Rightarrow> Ok (\<lparr>bf_path = path_join [''memory'', path_base rel], bf_content = c, bf_mode = 384\<rparr> # fs)
          | Fail e \<Rightarrow> Fail e | Panic \<Rightarrow> Panic)
      | Fail e \<Rightarrow> Fail e | Panic \<Rightarrow> Panic)"

fun skill_files :: "bundle_env \<Rightarrow> string list \<Rightarrow> BundleFile list outcome" where
  "skill_files b [] = Ok []"
| "skill_files b (rel # rels) =
     (case readBundleTree b rel ''skills'' of
        Ok fs \<Rightarrow> (case skill_files b rels of Ok fs' \<Rightarrow> Ok (fs @ fs') | Fail e \<Rightarrow> Fail e | Panic \<Rightarrow> Panic)
      | Fail e \<Rightarrow> Fail e | Panic \<Rightarrow> Panic)"

definition push_server :: "string \<Rightarrow> MCPServerCfg \<Rightarrow> MCPServer" where
  "push_server name s =
     (if s_Kind s = ''local''
      then \<lparr>ms_name = name, ms_kind = MCPLocal, ms_command = s_Command s, ms_args = s_Args s, ms_env = s_Env s\<rparr>
      else if s_Kind s = MCPProxied_kind
      then \<lparr>ms_name = name, ms_kind = MCPProxied, ms_command = [], ms_args = [], ms_env = []\<rparr>
      else \<lparr>ms_name = name, ms_kind = MCPOther [], ms_command = [], ms_args = [], ms_env = []\<rparr>)"

text \<open>Every name once, in order of first mention.\<close>

fun push_servers :: "Config \<Rightarrow> string list \<Rightarrow> string list \<Rightarrow> MCPServer list outcome" where
  "push_servers c seen [] = Ok []"
| "push_servers c seen (n # ns) =
     (if n \<in> set seen then push_servers c seen ns
      else (case map_of (MCP c) n of
          None \<Rightarrow> Fail (Err ''gateway: bundle references unknown mcp server %q'' [n])
        | Some None \<Rightarrow> Panic
        | Some (Some s) \<Rightarrow> (case push_servers c (n # seen) ns of
              Ok ms \<Rightarrow> Ok (push_server n s # ms) | Fail e \<Rightarrow> Fail e | Panic \<Rightarrow> Panic)))"

fun markets :: "Marketplace option gomap \<Rightarrow> (string \<times> string \<times> string) list outcome" where
  "markets [] = Ok []"
| "markets ((n, mo) # ms) =
     (case mo of None \<Rightarrow> Panic
      | Some m \<Rightarrow> (case markets ms of Ok r \<Rightarrow> Ok ((n, mp_Repo m, mp_Ref m) # r) | Fail e \<Rightarrow> Fail e | Panic \<Rightarrow> Panic))"

definition PluginManifestFile :: string where "PluginManifestFile = ''plugins.json''"

definition manifest_files :: "bundle_env \<Rightarrow> Config \<Rightarrow> ResolvedBundle \<Rightarrow> BundleFile list outcome" where
  "manifest_files b c rb =
     (if rb_Plugins rb = [] then Ok []
      else (case markets (MarketplacesFor c rb) of
          Ok ms \<Rightarrow> (case bu_manifest b (rb_Plugins rb) ms of
              Inl m \<Rightarrow> Fail (Err m [])
            | Inr body \<Rightarrow> Ok [\<lparr>bf_path = PluginManifestFile, bf_content = body, bf_mode = 384\<rparr>])
        | Fail e \<Rightarrow> Fail e | Panic \<Rightarrow> Panic))"

definition bundle_content :: "bundle_env \<Rightarrow> Config \<Rightarrow> Runner \<Rightarrow> BundlePush \<Rightarrow> BundlePush outcome" where
  "bundle_content b c rc push =
     (if r_Bundle rc = [] then Ok push
      else (case ResolveBundle c (r_Bundle rc) of
          Fail e \<Rightarrow> Fail e | Panic \<Rightarrow> Panic
        | Ok rb \<Rightarrow>
            (case memory_files b (rb_Memory rb) of Fail e \<Rightarrow> Fail e | Panic \<Rightarrow> Panic
             | Ok mem \<Rightarrow> (case skill_files b (rb_Skills rb) of Fail e \<Rightarrow> Fail e | Panic \<Rightarrow> Panic
             | Ok skills \<Rightarrow> (case push_servers c [] (rb_MCP rb) of Fail e \<Rightarrow> Fail e | Panic \<Rightarrow> Panic
             | Ok servers \<Rightarrow> (case manifest_files b c rb of Fail e \<Rightarrow> Fail e | Panic \<Rightarrow> Panic
             | Ok man \<Rightarrow> Ok (push\<lparr>bp_loose_mcp := (\<not> rb_StrictMCP rb), bp_files := bp_files push @ mem @ skills @ man,
                          bp_mcp := bp_mcp push @ servers\<rparr>)))))))"

definition harness_secrets :: "env \<Rightarrow> string \<Rightarrow> Runner \<Rightarrow> string gomap outcome" where
  "harness_secrets e runner rc =
     (if r_HarnessSecret rc = [] then Ok []
      else (case en_secret e (r_HarnessSecret rc) of
          Inl m \<Rightarrow> Fail (Err ''gateway: harness secret %q for runner %q: %w'' [r_HarnessSecret rc, runner, m])
        | Inr v \<Rightarrow> Ok [(if r_HarnessEnv rc = [] then ''ANTHROPIC_API_KEY'' else r_HarnessEnv rc, v)]))"

subsection \<open>The digest\<close>

fun octal :: "nat \<Rightarrow> string" where
  "octal n = (if n < 8 then [digit n] else octal (n div 8) @ [digit (n mod 8)])"

definition nul :: char where "nul = CHR 0x00"

fun kind_string :: "MCPKind \<Rightarrow> string" where
  "kind_string MCPLocal = ''local''" | "kind_string MCPProxied = ''proxied''" | "kind_string (MCPOther s) = s"

definition digest_file :: "BundleFile \<Rightarrow> string" where
  "digest_file f = ''file:'' @ bf_path f @ '':'' @ octal (bf_mode f) @ '':'' @ bf_content f @ [nul]"

definition digest_server :: "MCPServer \<Rightarrow> string" where
  "digest_server s = ''mcp:'' @ ms_name s @ '':'' @ kind_string (ms_kind s) @ '':'' @ ms_command s @ '':''
     @ ''['' @ Join (ms_args s) '' '' @ '']'' @ [nul]"

definition digest_secret :: "(string \<Rightarrow> string) \<Rightarrow> string \<times> string \<Rightarrow> string" where
  "digest_secret sha nv = ''secret:'' @ fst nv @ '':''
     @ take 16 (sha (''splitscreen-bundle-secret'' @ [nul] @ snd nv)) @ [nul]"

definition digestBundle :: "(string \<Rightarrow> string) \<Rightarrow> BundlePush \<Rightarrow> string" where
  "digestBundle sha p = ''sha256:'' @ sha
     (''model:'' @ bp_model p @ [nul]
      @ ''loose_mcp:'' @ (if bp_loose_mcp p then ''true'' else ''false'') @ [nul]
      @ concat (map digest_file (sort_key bf_path (bp_files p)))
      @ concat (map digest_server (sort_key ms_name (bp_mcp p)))
      @ concat (map (digest_secret sha) (sort_key fst (bp_secrets p))))"

definition buildBundle :: "env \<Rightarrow> bundle_env \<Rightarrow> Config \<Rightarrow> string \<Rightarrow> BundlePush outcome" where
  "buildBundle e b c runner =
     (case map_of (Runners c) runner of
        None \<Rightarrow> Fail (Err ''gateway: runner %q is not configured'' [runner])
      | Some None \<Rightarrow> Panic
      | Some (Some rc) \<Rightarrow>
          (case bundle_content b c rc \<lparr>bp_version = 0, bp_digest = [], bp_files = [], bp_mcp = [], bp_model = r_Model rc,
                  bp_loose_mcp = False, bp_secrets = []\<rparr> of
             Fail er \<Rightarrow> Fail er | Panic \<Rightarrow> Panic
           | Ok push \<Rightarrow> (case harness_secrets e runner rc of
                 Fail er \<Rightarrow> Fail er | Panic \<Rightarrow> Panic
               | Ok sec \<Rightarrow> let push' = push\<lparr>bp_secrets := sec\<rparr> in Ok (push'\<lparr>bp_digest := digestBundle (bu_sha b) push'\<rparr>))))"

subsection \<open>Pushing it\<close>

definition no_bundle_state :: bundleState where "no_bundle_state = \<lparr>bs_Version = 0, bs_Digest = []\<rparr>"

definition setBundle :: "nat \<Rightarrow> int \<Rightarrow> string \<Rightarrow> gw \<Rightarrow> gw" where
  "setBundle i v d = upd_conn i (\<lambda>c. c\<lparr>cn_bundleVersion := v, cn_bundleDigest := d\<rparr>)"

text \<open>The version of a push that is sent: the next one, or the last one when its content is the same.\<close>

definition next_version :: "bundleState \<Rightarrow> int \<Rightarrow> string \<Rightarrow> int" where
  "next_version prev reported digest =
     (if bs_Digest prev = digest \<and> 0 < bs_Version prev then bs_Version prev
      else (if bs_Version prev < reported then reported else bs_Version prev) + 1)"

text \<open>The version when the runner already has the content.\<close>

definition kept_version :: "bundleState \<Rightarrow> int \<Rightarrow> int" where
  "kept_version prev reported =
     (let v = (if bs_Version prev < reported then reported else bs_Version prev) in if v = 0 then 1 else v)"

definition pushBundle :: "env \<Rightarrow> bundle_env \<Rightarrow> nat \<Rightarrow> gw \<Rightarrow> gw" where
  "pushBundle e b i g =
     (case conn_of g i of None \<Rightarrow> g
      | Some c \<Rightarrow>
          (case buildBundle e b (gw_cfg g) (cn_runner c) of
             Fail _ \<Rightarrow> g | Panic \<Rightarrow> g
           | Ok push \<Rightarrow>
               let prev = get_or no_bundle_state (gw_bundles g) (cn_runner c); d = bp_digest push in
               if cn_bundleDigest c = d
               then let v = kept_version prev (cn_bundleVersion c) in
                 setBundle i v d (g\<lparr>gw_bundles := put (cn_runner c) \<lparr>bs_Version = v, bs_Digest = d\<rparr> (gw_bundles g)\<rparr>)
               else
                 let v = next_version prev (cn_bundleVersion c) d;
                     g1 = g\<lparr>gw_bundles := put (cn_runner c) \<lparr>bs_Version = v, bs_Digest = d\<rparr> (gw_bundles g)\<rparr>;
                     (g2, sent) = Send e i (FBundlePush (push\<lparr>bp_version := v\<rparr>)) g1
                 in if \<not> sent then g2
                    else
                      let g3 = log_event \<lparr>ev_Kind = ''bundle.pushed'', ev_Runner = cn_runner c, ev_ThreadID = [], ev_TurnID = [],
                                 ev_SurfaceUser = [], ev_Detail = [(''version'', Itoa v), (''digest'', d)]\<rparr> (setBundle i v d g2)
                      in if 0 < bs_Version prev
                         then upd_store (\<lambda>s. fst (MarkRunnerThreadsStale (cn_runner c) v s)) g3 else g3))"

subsection \<open>What the digest covers\<close>

lemma insort_key_map: "(\<And>x. k (f x) = k x) \<Longrightarrow> insort_key k (f x) (map f xs) = map f (insort_key k x xs)"
  by (induction xs) auto

lemma sort_key_map: "(\<And>x. k (f x) = k x) \<Longrightarrow> sort_key k (map f xs) = map f (sort_key k xs)"
  by (induction xs) (simp_all add: insort_key_map)

text \<open>Everything but the environment of a local server.\<close>

lemma digest_ignores_env:
  assumes "\<And>s. \<exists>v. f s = s\<lparr>ms_env := v\<rparr>"
  shows "digestBundle sha (p\<lparr>bp_mcp := map f (bp_mcp p)\<rparr>) = digestBundle sha p"
proof -
  have n: "ms_name (f s) = ms_name s" and d: "digest_server (f s) = digest_server s" for s
    using assms [of s] by (auto simp: digest_server_def)
  have "map digest_server (map f xs) = map digest_server xs" for xs by (simp add: d)
  then show ?thesis by (simp add: digestBundle_def sort_key_map n del: map_map)
qed

definition set_env :: "string \<Rightarrow> string gomap \<Rightarrow> Config \<Rightarrow> Config" where
  "set_env name v c = c\<lparr>MCP := map (\<lambda>(n, so). (n, if n = name then map_option (\<lambda>s. s\<lparr>s_Env := v\<rparr>) so else so)) (MCP c)\<rparr>"

definition server_env :: "string \<Rightarrow> string gomap \<Rightarrow> MCPServer \<Rightarrow> MCPServer" where
  "server_env name v s = (if ms_name s = name \<and> ms_kind s = MCPLocal then s\<lparr>ms_env := v\<rparr> else s)"

lemma push_server_env:
  "push_server n (if n = name then s\<lparr>s_Env := v\<rparr> else s) = server_env name v (push_server n s)"
  by (simp add: push_server_def server_env_def)

lemma push_servers_env:
  "push_servers (set_env name v c) seen ns =
     (case push_servers c seen ns of Ok ms \<Rightarrow> Ok (map (server_env name v) ms) | Fail e \<Rightarrow> Fail e | Panic \<Rightarrow> Panic)"
proof (induction ns arbitrary: seen)
  case (Cons n ns)
  have m: "map_of (MCP (set_env name v c)) n =
      map_option (\<lambda>so. if n = name then map_option (\<lambda>s. s\<lparr>s_Env := v\<rparr>) so else so) (map_of (MCP c) n)"
  proof -
    have "map_of (map (\<lambda>(n, so). (n, if n = name then map_option g so else so)) xs) n =
        map_option (\<lambda>so. if n = name then map_option g so else so) (map_of xs n)" for xs and g :: "MCPServerCfg \<Rightarrow> MCPServerCfg"
      by (induction xs) auto
    then show ?thesis by (simp add: set_env_def)
  qed
  show ?case
  proof (cases "n \<in> set seen")
    case True
    with Cons show ?thesis by simp
  next
    case False
    show ?thesis
    proof (cases "map_of (MCP c) n")
      case None
      with False m show ?thesis by simp
    next
      case (Some so)
      show ?thesis
      proof (cases so)
        case None
        with Some False m show ?thesis by simp
      next
        case s: (Some s)
        define s' where "s' = (if n = name then s\<lparr>s_Env := v\<rparr> else s)"
        have "map_of (MCP (set_env name v c)) n = Some (Some s')"
          using m Some s by (simp add: s'_def)
        moreover have "push_server n s' = server_env name v (push_server n s)"
          unfolding s'_def by (rule push_server_env)
        ultimately show ?thesis using Cons [of "n # seen"] Some s False
          by (cases "push_servers c (n # seen) ns") simp_all
      qed
    qed
  qed
qed simp

lemma set_env_fields [simp]:
  "Runners (set_env name v c) = Runners c" "Bundles (set_env name v c) = Bundles c"
  "Marketplaces (set_env name v c) = Marketplaces c"
  by (simp_all add: set_env_def)

lemma bundle_content_env:
  assumes "bundle_content b c rc push = Ok p" "bp_mcp push = []"
  shows "bundle_content b (set_env name v c) rc push = Ok (p\<lparr>bp_mcp := map (server_env name v) (bp_mcp p)\<rparr>)"
proof (cases "r_Bundle rc = []")
  case True
  with assms show ?thesis by (cases p) (auto simp: bundle_content_def)
next
  case False
  have r: "ResolveBundle (set_env name v c) x = ResolveBundle c x" for x by (simp add: ResolveBundle_def)
  have m: "manifest_files b (set_env name v c) rb = manifest_files b c rb" for rb
    unfolding manifest_files_def MarketplacesFor_def set_env_fields by (rule refl)
  from assms False show ?thesis
    by (auto simp: bundle_content_def r m push_servers_env split: outcome.splits)
qed

lemma env_change_same_digest:
  assumes "buildBundle e b c runner = Ok p"
  shows "\<exists>p'. buildBundle e b (set_env name v c) runner = Ok p' \<and> bp_digest p' = bp_digest p"
proof -
  have ign: "digestBundle sha (p0\<lparr>bp_mcp := map (server_env name v) (bp_mcp p0), bp_secrets := sec\<rparr>) =
      digestBundle sha (p0\<lparr>bp_secrets := sec\<rparr>)" for sha p0 sec
  proof -
    have "\<exists>w. server_env name v s = s\<lparr>ms_env := w\<rparr>" for s
      by (cases "ms_name s = name \<and> ms_kind s = MCPLocal") (auto simp: server_env_def intro: exI [of _ "ms_env s"])
    from digest_ignores_env [OF this, of sha "p0\<lparr>bp_secrets := sec\<rparr>"] show ?thesis by (cases p0) simp
  qed
  let ?z = "\<lambda>rc. \<lparr>bp_version = 0, bp_digest = [], bp_files = [], bp_mcp = [], bp_model = r_Model rc,
                  bp_loose_mcp = False, bp_secrets = []\<rparr>"
  from assms obtain rc push sec where r: "map_of (Runners c) runner = Some (Some rc)"
    and bc: "bundle_content b c rc (?z rc) = Ok push" and hs: "harness_secrets e runner rc = Ok sec"
    and p: "p = push\<lparr>bp_secrets := sec, bp_digest := digestBundle (bu_sha b) (push\<lparr>bp_secrets := sec\<rparr>)\<rparr>"
    by (auto simp: buildBundle_def Let_def split: option.splits outcome.splits)
  let ?push = "push\<lparr>bp_mcp := map (server_env name v) (bp_mcp push)\<rparr>"
  have "bundle_content b (set_env name v c) rc (?z rc) = Ok ?push"
    by (rule bundle_content_env [OF bc]) simp
  then have "buildBundle e b (set_env name v c) runner =
      Ok (?push\<lparr>bp_secrets := sec, bp_digest := digestBundle (bu_sha b) (?push\<lparr>bp_secrets := sec\<rparr>)\<rparr>)"
    using r hs by (simp add: buildBundle_def Let_def)
  moreover have "digestBundle (bu_sha b) (?push\<lparr>bp_secrets := sec\<rparr>) = bp_digest p" using ign p by simp
  ultimately show ?thesis by simp
qed

text \<open>
  C40. The environment of a local MCP server is not part of the bundle digest, which decides whether a bundle
  is pushed: after editing only that environment, a reload sends a connected runner that has the previous
  bundle nothing, and records no new version.
\<close>

theorem env_change_is_never_pushed:
  assumes "conn_of g i = Some c" "buildBundle e b (gw_cfg g) (cn_runner c) = Ok p"
    "cn_bundleDigest c = bp_digest p"
  shows "gw_out (pushBundle e b i (g\<lparr>gw_cfg := set_env name v (gw_cfg g)\<rparr>)) = gw_out g \<and>
    Threads (gw_store (pushBundle e b i (g\<lparr>gw_cfg := set_env name v (gw_cfg g)\<rparr>))) = Threads (gw_store g)"
proof -
  obtain p' where p': "buildBundle e b (set_env name v (gw_cfg g)) (cn_runner c) = Ok p'" "bp_digest p' = bp_digest p"
    using env_change_same_digest [OF assms(2)] by blast
  have c: "conn_of (g\<lparr>gw_cfg := x\<rparr>) i = Some c" for x using assms(1) by (simp add: conn_of_def)
  show ?thesis using p' assms(3) by (simp add: pushBundle_def c Let_def setBundle_def upd_conn_def split: option.split)
qed

definition sample_bundle_env :: bundle_env where
  "sample_bundle_env = \<lparr>bu_cwd = ''/srv'', bu_cfgPath = [], bu_read = (\<lambda>p. Inl ''missing''),
     bu_tree = (\<lambda>p. TreeFails ''missing''), bu_manifest = (\<lambda>ps ms. Inr []), bu_sha = (\<lambda>s. ''d'')\<rparr>"

definition env_config :: "string gomap \<Rightarrow> Config" where
  "env_config v = sample_config\<lparr>Bundles := [(''b'', Some ((sample_bundle [] [])\<lparr>b_MCP := [''db'']\<rparr>))],
     MCP := [(''db'', Some \<lparr>s_Kind = ''local'', s_Command = ''mcp-db'', s_Args = [], s_Env = v, s_URL = [], s_Auth = [],
       s_User = [], s_Secret = [], s_Deny = []\<rparr>)]\<rparr>"

theorem env_change_is_never_pushed_witness:
  "\<exists>g::gw. gw_cfg g = env_config [(''URL'', ''old'')] \<and>
     set_env ''db'' [(''URL'', ''new'')] (gw_cfg g) = env_config [(''URL'', ''new'')] \<and>
     gw_out (pushBundle sample_env sample_bundle_env 0 (g\<lparr>gw_cfg := set_env ''db'' [(''URL'', ''new'')] (gw_cfg g)\<rparr>)) = gw_out g"
proof -
  let ?c = "\<lparr>cn_runner = ''box'', cn_queued = 0, cn_done = False, cn_closed = False, cn_lastSeen = 0,
        cn_bundleVersion = 1, cn_bundleDigest = ''sha256:d''\<rparr>"
  let ?g = "sample_gw\<lparr>gw_cfg := env_config [(''URL'', ''old'')], gw_conns := [(0, ?c)]\<rparr>"
  have "walk_extends (Bundles (env_config v)) ''b'' [] [] ''b'' = Ok [(sample_bundle [] [])\<lparr>b_MCP := [''db'']\<rparr>]" for v
    by (subst walk_extends.simps, simp add: env_config_def, subst walk_extends.simps, simp add: sample_bundle_def)
  then have "\<exists>p. buildBundle sample_env sample_bundle_env (gw_cfg ?g) (cn_runner ?c) = Ok p \<and> bp_digest p = ''sha256:d''"
    by (simp add: buildBundle_def bundle_content_def harness_secrets_def ResolveBundle_def overlay_def manifest_files_def
        env_config_def sample_defs Let_def digestBundle_def sample_bundle_env_def push_server_def)
  then obtain p where p: "buildBundle sample_env sample_bundle_env (gw_cfg ?g) (cn_runner ?c) = Ok p" "bp_digest p = ''sha256:d''"
    by blast
  have c: "conn_of ?g 0 = Some ?c" by (simp add: conn_of_def)
  from p(2) have d: "cn_bundleDigest ?c = bp_digest p" by simp
  have "set_env ''db'' [(''URL'', ''new'')] (gw_cfg ?g) = env_config [(''URL'', ''new'')]"
    by (simp add: set_env_def env_config_def)
  with env_change_is_never_pushed [OF c p(1) d, of "''db''" "[(''URL'', ''new'')]"] show ?thesis
    by (intro exI [of _ ?g]) simp
qed

subsection \<open>Versions\<close>

lemma Send_ok: "Send e i f g = (g', True) \<Longrightarrow> gw_out g' = gw_out g @ [ESend i f] \<and> gw_store g' = gw_store g"
  by (auto simp: Send_def sendRaw_def emit_def upd_conn_def CloseWith_def conn_of_def split: sum.splits option.splits if_splits)

lemma Send_failed: "Send e i f g = (g', False) \<Longrightarrow> gw_out g' = gw_out g \<and> gw_store g' = gw_store g"
  by (auto simp: Send_def sendRaw_def emit_def upd_conn_def CloseWith_def conn_of_def split: sum.splits option.splits if_splits)

lemma setBundle_frame: "gw_out (setBundle i v d g) = gw_out g" "gw_store (setBundle i v d g) = gw_store g"
  by (simp_all add: setBundle_def upd_conn_def split: option.split)

lemma pushBundle_sent:
  assumes c: "conn_of g i = Some c" and m: "ESend i (FBundlePush p) \<in> set (drop (length (gw_out g)) (gw_out (pushBundle e b i g)))"
  shows "\<exists>push. buildBundle e b (gw_cfg g) (cn_runner c) = Ok push \<and> cn_bundleDigest c \<noteq> bp_digest push \<and>
    p = push\<lparr>bp_version := next_version (get_or no_bundle_state (gw_bundles g) (cn_runner c)) (cn_bundleVersion c) (bp_digest push)\<rparr> \<and>
    gw_store (pushBundle e b i g) =
      (let s = Log \<lparr>ev_Kind = ''bundle.pushed'', ev_Runner = cn_runner c, ev_ThreadID = [], ev_TurnID = [],
                 ev_SurfaceUser = [], ev_Detail = [(''version'', Itoa (bp_version p)), (''digest'', bp_digest p)]\<rparr> (gw_store g) in
       if 0 < bs_Version (get_or no_bundle_state (gw_bundles g) (cn_runner c))
       then fst (MarkRunnerThreadsStale (cn_runner c) (bp_version p) s) else s)"
proof (cases "buildBundle e b (gw_cfg g) (cn_runner c)")
  case (Ok push)
  let ?prev = "get_or no_bundle_state (gw_bundles g) (cn_runner c)"
  define v where "v = next_version ?prev (cn_bundleVersion c) (bp_digest push)"
  define g1 where "g1 = g\<lparr>gw_bundles := put (cn_runner c) \<lparr>bs_Version = v, bs_Digest = bp_digest push\<rparr> (gw_bundles g)\<rparr>"
  obtain g2 sent where k: "Send e i (FBundlePush (push\<lparr>bp_version := v\<rparr>)) g1 = (g2, sent)" by fastforce
  have d: "cn_bundleDigest c \<noteq> bp_digest push"
    using m c Ok by (auto simp: pushBundle_def setBundle_frame Let_def split: if_splits)
  have g1: "gw_out g1 = gw_out g" "gw_store g1 = gw_store g" by (simp_all add: g1_def)
  have s: sent
  proof (rule ccontr)
    assume "\<not> sent"
    then have "pushBundle e b i g = g2" "gw_out g2 = gw_out g"
      using c Ok d k Send_failed [of e i _ g1 g2] g1 by (simp_all add: pushBundle_def Let_def v_def g1_def)
    with m show False by simp
  qed
  note o = Send_ok [OF k [unfolded s [THEN eqTrueI]]]
  have st: "gw_store (pushBundle e b i g) =
      (let s = Log \<lparr>ev_Kind = ''bundle.pushed'', ev_Runner = cn_runner c, ev_ThreadID = [], ev_TurnID = [],
                 ev_SurfaceUser = [], ev_Detail = [(''version'', Itoa v), (''digest'', bp_digest push)]\<rparr> (gw_store g) in
       if 0 < bs_Version ?prev then fst (MarkRunnerThreadsStale (cn_runner c) v s) else s)"
    and out: "gw_out (pushBundle e b i g) = gw_out g @ [ESend i (FBundlePush (push\<lparr>bp_version := v\<rparr>))]"
    using c Ok d k s o g1
    by (simp_all add: pushBundle_def Let_def v_def [symmetric] g1_def [symmetric] log_event_def upd_store_def setBundle_frame)
  from m out have p: "p = push\<lparr>bp_version := v\<rparr>" by simp
  then have "bp_version p = v" "bp_digest p = bp_digest push" by simp_all
  with st Ok d p show ?thesis by (intro exI [of _ push]) (simp only: v_def [symmetric] simp_thms)
qed (use assms in \<open>auto simp: pushBundle_def\<close>)

text \<open>
  When the gateway sends a runner a bundle whose content differs from the one it sent before, the bundle's
  version is greater than that one's and than the version the runner reported, and every thread of that
  runner that was on a lower version is marked stale. (No code reads the mark, and no code records the
  version a thread runs under, so nothing is announced to its users.)
\<close>

theorem changed_bundle_marks_threads_stale:
  assumes "conn_of g i = Some c"
    and "ESend i (FBundlePush p) \<in> set (drop (length (gw_out g)) (gw_out (pushBundle e b i g)))"
    and "0 < bs_Version (get_or no_bundle_state (gw_bundles g) (cn_runner c))"
    and "bs_Digest (get_or no_bundle_state (gw_bundles g) (cn_runner c)) \<noteq> bp_digest p"
  shows "bs_Version (get_or no_bundle_state (gw_bundles g) (cn_runner c)) < bp_version p \<and> cn_bundleVersion c < bp_version p \<and>
    (\<forall>k t. ThreadRow (gw_store (pushBundle e b i g)) k = Some t \<and> tr_Runner t = cn_runner c \<and>
       tr_BundleVersion t < bp_version p \<longrightarrow> tr_Stale t)"
proof -
  obtain push where p: "p = push\<lparr>bp_version := next_version (get_or no_bundle_state (gw_bundles g) (cn_runner c)) (cn_bundleVersion c) (bp_digest push)\<rparr>"
    and st: "gw_store (pushBundle e b i g) =
      fst (MarkRunnerThreadsStale (cn_runner c) (bp_version p) (Log \<lparr>ev_Kind = ''bundle.pushed'', ev_Runner = cn_runner c, ev_ThreadID = [], ev_TurnID = [],
                 ev_SurfaceUser = [], ev_Detail = [(''version'', Itoa (bp_version p)), (''digest'', bp_digest p)]\<rparr> (gw_store g)))"
    using pushBundle_sent [OF assms(1,2)] assms(3) by (auto simp: Let_def)
  have "tr_Stale t" if "ThreadRow (gw_store (pushBundle e b i g)) k = Some t" "tr_Runner t = cn_runner c"
      "tr_BundleVersion t < bp_version p" for k t
    using that unfolding st ThreadRow_Mark
    by (auto simp: is_outdated_def split: if_splits dest: arg_cong [where f = tr_Stale])
  with p assms(4) show ?thesis by (auto simp: next_version_def)
qed

text \<open>A gateway that pushed version 1 and a runner that reports it, after the content changed.\<close>

definition pushed_gw :: "bundleState gomap \<Rightarrow> gw" where
  "pushed_gw bs = sample_gw\<lparr>gw_cfg := sample_config\<lparr>Runners := [(''box'', Some (sample_runner\<lparr>r_Bundle := []\<rparr>))]\<rparr>,
     gw_bundles := bs,
     gw_store := fst (BindThread ''now'' ''slack:C1:1'' ''slack'' ''C1'' ''box'' Open),
     gw_conns := [(0, \<lparr>cn_runner = ''box'', cn_queued = 0, cn_done = False, cn_closed = False, cn_lastSeen = 0,
        cn_bundleVersion = 1, cn_bundleDigest = ''sha256:old''\<rparr>)]\<rparr>"

lemma pushed_gw_conn: "conn_of (pushed_gw bs) 0 = Some \<lparr>cn_runner = ''box'', cn_queued = 0, cn_done = False,
    cn_closed = False, cn_lastSeen = 0, cn_bundleVersion = 1, cn_bundleDigest = ''sha256:old''\<rparr>"
  by (simp add: conn_of_def pushed_gw_def)

definition pushed_frame :: "int \<Rightarrow> BundlePush" where
  "pushed_frame v = \<lparr>bp_version = v, bp_digest = ''sha256:d'', bp_files = [], bp_mcp = [], bp_model = [],
     bp_loose_mcp = False, bp_secrets = []\<rparr>"

lemma pushed_gw_push:
  assumes "next_version (get_or no_bundle_state bs ''box'') 1 ''sha256:d'' = 2"
  shows "gw_out (pushBundle sample_env sample_bundle_env 0 (pushed_gw bs)) = [ESend 0 (FBundlePush (pushed_frame 2))]"
proof -
  have b: "buildBundle sample_env sample_bundle_env (gw_cfg (pushed_gw bs)) ''box'' = Ok (pushed_frame 0)"
    by (simp add: buildBundle_def bundle_content_def harness_secrets_def pushed_gw_def sample_runner_def Let_def
        digestBundle_def sample_bundle_env_def pushed_frame_def)
  have e: "Encode (en_json sample_env) (Some (FBundlePush (pushed_frame 2))) \<noteq> Inl x" for x
    by (simp add: Encode_def sample_env_def sample_json_def pushed_frame_def validate_BundlePush_def has_key_def)
  have "(pushed_frame 0)\<lparr>bp_version := 2\<rparr> = pushed_frame 2" by (simp add: pushed_frame_def)
  then show ?thesis using assms e b
    by (cases "Encode (en_json sample_env) (Some (FBundlePush (pushed_frame 2)))")
      (auto simp: pushBundle_def pushed_gw_conn Let_def pushed_frame_def [of 0] Send_def sendRaw_def emit_def upd_conn_def
        setBundle_def log_event_def upd_store_def out_capacity_def conn_of_def pushed_gw_def sample_gw_def split: if_split)
qed

lemma pushed_gw_store:
  assumes "next_version (get_or no_bundle_state bs ''box'') 1 ''sha256:d'' = 2" "0 < bs_Version (get_or no_bundle_state bs ''box'')"
  shows "map_option (\<lambda>t. (tr_Runner t, tr_BundleVersion t))
    (ThreadRow (gw_store (pushBundle sample_env sample_bundle_env 0 (pushed_gw bs))) ''slack:C1:1'') = Some (''box'', 0)"
proof -
  have o: "ESend 0 (FBundlePush (pushed_frame 2)) \<in> set (drop (length (gw_out (pushed_gw bs)))
      (gw_out (pushBundle sample_env sample_bundle_env 0 (pushed_gw bs))))"
    by (subst pushed_gw_push [OF assms(1)]) (simp add: pushed_gw_def sample_gw_def)
  have bs: "gw_bundles (pushed_gw bs) = bs" by (simp add: pushed_gw_def)
  show ?thesis
    using pushBundle_sent [OF pushed_gw_conn o] assms(2) unfolding bs
    by (auto simp: Let_def MarkRunnerThreadsStale_def Log_def pushed_gw_def BindThread_def ThreadRow_def Open_def put_def has_key_def)
qed

theorem changed_bundle_marks_threads_stale_witness:
  "1 < bp_version (pushed_frame 2) \<and>
   map_option tr_Stale (ThreadRow (gw_store (pushBundle sample_env sample_bundle_env 0
        (pushed_gw [(''box'', \<lparr>bs_Version = 1, bs_Digest = ''sha256:prev''\<rparr>)]))) ''slack:C1:1'') = Some True"
proof -
  let ?bs = "[(''box'', \<lparr>bs_Version = 1, bs_Digest = ''sha256:prev''\<rparr>)]"
  have v: "next_version (get_or no_bundle_state ?bs ''box'') 1 ''sha256:d'' = 2" by (simp add: next_version_def get_or_def)
  have o: "ESend 0 (FBundlePush (pushed_frame 2)) \<in> set (drop (length (gw_out (pushed_gw ?bs)))
      (gw_out (pushBundle sample_env sample_bundle_env 0 (pushed_gw ?bs))))"
    by (subst pushed_gw_push [OF v]) (simp add: pushed_gw_def sample_gw_def)
  show ?thesis
    using changed_bundle_marks_threads_stale [OF pushed_gw_conn o] pushed_gw_store [OF v]
    by (simp add: get_or_def pushed_gw_def pushed_frame_def) (auto simp: map_option_case split: option.splits)
qed

text \<open>
  After a restart the gateway remembers no pushed bundle, so the first push of a changed bundle to a
  reconnecting runner marks none of its threads stale.
\<close>

theorem push_after_restart_is_unannounced:
  assumes "conn_of g i = Some c" "map_of (gw_bundles g) (cn_runner c) = None"
    and "ESend i (FBundlePush p) \<in> set (drop (length (gw_out g)) (gw_out (pushBundle e b i g)))"
  shows "Threads (gw_store (pushBundle e b i g)) = Threads (gw_store g)"
  using pushBundle_sent [OF assms(1,3)] assms(2) by (auto simp: get_or_def no_bundle_state_def Let_def Log_def)

theorem push_after_restart_is_unannounced_witness:
  "\<exists>t. ThreadRow (gw_store (pushBundle sample_env sample_bundle_env 0 (pushed_gw []))) ''slack:C1:1'' = Some t \<and>
     tr_BundleVersion t < bp_version (pushed_frame 2) \<and> \<not> tr_Stale t"
proof -
  have "ESend 0 (FBundlePush (pushed_frame 2)) \<in> set (drop (length (gw_out (pushed_gw [])))
      (gw_out (pushBundle sample_env sample_bundle_env 0 (pushed_gw []))))"
    by (subst pushed_gw_push) (simp_all add: next_version_def get_or_def no_bundle_state_def pushed_gw_def sample_gw_def)
  from push_after_restart_is_unannounced [OF pushed_gw_conn _ this] show ?thesis
    by (simp add: ThreadRow_def pushed_gw_def pushed_frame_def BindThread_def Open_def Let_def put_def)
qed

end
