(* ===== verification/Conns.thy ===== *)
theory Conns
  imports Bundles
begin

text \<open>
  The life of a runner connection (internal/gateway/server.go, hub.go): the handshake, the frames and
  chunks read, the heartbeat and the teardown; reloading the configuration
  (internal/gateway/gateway.go); and the background work on wakes and working indicators (wake.go,
  working.go). A socket that has been accepted is an index into \<open>gw_conns\<close>; its goroutines
  are the operations below, each run to its end. A message read from the socket is its bytes; the
  chunk header's JSON decoder and the rendering of a protocol error are arguments.
\<close>

subsection \<open>The handshake\<close>

definition new_index :: "gw \<Rightarrow> nat" where
  "new_index g = fold max (map fst (gw_conns g)) 0 + 1"

definition newConn :: "env \<Rightarrow> Hello \<Rightarrow> Conn" where
  "newConn e h = \<lparr>cn_runner = hello_runner h, cn_queued = 0, cn_done = False, cn_closed = False, cn_lastSeen = en_now e,
     cn_bundleVersion = (case hello_bundle h of None \<Rightarrow> 0 | Some b \<Rightarrow> br_version b),
     cn_bundleDigest = (case hello_bundle h of None \<Rightarrow> [] | Some b \<Rightarrow> br_digest b)\<rparr>"

text \<open>\<open>None\<close>: the runner is who it says it is. Comparing in constant time is comparing.\<close>

definition authenticate :: "env \<Rightarrow> Hello \<Rightarrow> Runner \<Rightarrow> string option" where
  "authenticate e h rc =
     (case a_mode (hello_auth h) of
        AuthToken \<Rightarrow>
          (let name = EffectiveTokenSecret rc (hello_runner h) in
           case en_secret e name of
             Inl m \<Rightarrow> Some (''enrollment secret '' @ gq name @ '' is unavailable: '' @ m)
           | Inr want \<Rightarrow>
               if want = [] then Some (''enrollment secret '' @ gq name @ '' is empty'')
               else if want \<noteq> a_value (hello_auth h) then Some ''enrollment token does not match''
               else None)
      | AuthInstanceIdentity \<Rightarrow> Some ''instance-identity auth is not enabled on this gateway''
      | AuthOther m \<Rightarrow> Some (''unsupported auth mode '' @ gq m))"

definition routesFor :: "Config \<Rightarrow> string \<Rightarrow> string list" where
  "routesFor c runner =
     map (\<lambda>r. if rt_DM r then ''<dm>'' else rt_Channel r) (filter (\<lambda>r. rt_Runner r = runner) (Routes c))"

text \<open>The checks before a connection exists: a reason to refuse, with what is logged, or the runner's entry.\<close>

datatype verdict = Refused "string option" | Accepted Hello Runner

definition check_hello :: "env \<Rightarrow> bool \<Rightarrow> string \<Rightarrow> gw \<Rightarrow> verdict" where
  "check_hello e is_text data g =
     (if \<not> is_text then Refused None
      else (case Decode (en_json e) data DirUp of
          Inl _ \<Rightarrow> Refused None
        | Inr fr \<Rightarrow>
            (case fr of
               FHello h \<Rightarrow>
                 (case NegotiateString (hello_protocol h) of
                    Inl _ \<Rightarrow> Refused None
                  | Inr (v, cmp) \<Rightarrow>
                      if \<not> Compatibility_OK cmp then Refused None
                      else (case runnerConfig g (hello_runner h) of
                          None \<Rightarrow> Refused None
                        | Some rc \<Rightarrow>
                            (case authenticate e h rc of
                               Some reason \<Rightarrow> Refused (Some (hello_runner h))
                             | None \<Rightarrow> Accepted h rc)))
             | _ \<Rightarrow> Refused None)))"

definition hello_ack :: "Config \<Rightarrow> Hello \<Rightarrow> Runner \<Rightarrow> HelloAck" where
  "hello_ack c h rc = \<lparr>ack_protocol = Version, ack_runner = hello_runner h,
     ack_bundle = \<lparr>br_version = 0, br_digest = []\<rparr>, ack_routes = routesFor c (hello_runner h),
     ack_policy = Some \<lparr>wp_deny = Deny (r_Policy rc), wp_forge_repos = Repos (r_Policy rc)\<rparr>\<rparr>"

definition conn_event :: "string \<Rightarrow> string \<Rightarrow> Event" where
  "conn_event kind runner = \<lparr>ev_Kind = kind, ev_Runner = runner, ev_ThreadID = [], ev_TurnID = [], ev_SurfaceUser = [],
     ev_Detail = []\<rparr>"

text \<open>The new connection displaces the runner's old one.\<close>

definition handshake :: "env \<Rightarrow> bool \<Rightarrow> string \<Rightarrow> gw \<Rightarrow> gw \<times> nat option" where
  "handshake e is_text data g =
     (case check_hello e is_text data g of
        Refused None \<Rightarrow> (g, None)
      | Refused (Some r) \<Rightarrow> (log_event (conn_event ''runner.auth_failed'' r) g, None)
      | Accepted h rc \<Rightarrow>
          let i = new_index g;
              (g1, old) = Register i (hello_runner h) (g\<lparr>gw_conns := put i (newConn e h) (gw_conns g)\<rparr>);
              g2 = (case old of None \<Rightarrow> g1 | Some j \<Rightarrow> CloseWith j g1);
              (g3, sent) = Send e i (FHelloAck (hello_ack (gw_cfg g) h rc)) g2
          in if \<not> sent then (Unregister i (hello_runner h) g3, None)
             else (log_event (conn_event ''runner.connected'' (hello_runner h)) g3, Some i))"

subsection \<open>Serving\<close>

text \<open>What a connection does before it reads: its bundle, then what was queued for its runner.\<close>

definition serve_start :: "env \<Rightarrow> bundle_env \<Rightarrow> nat \<Rightarrow> gw \<Rightarrow> gw" where
  "serve_start e b i g = drainQueue e i (pushBundle e b i g)"

definition handleRunner :: "env \<Rightarrow> bundle_env \<Rightarrow> bool \<Rightarrow> string \<Rightarrow> gw \<Rightarrow> gw" where
  "handleRunner e b is_text data g =
     (case handshake e is_text data g of (g1, None) \<Rightarrow> g1 | (g1, Some i) \<Rightarrow> serve_start e b i g1)"

text \<open>What it does after the read loop has ended; \<open>reconcileTurns\<close> follows after its grace period.\<close>

definition serve_end :: "env \<Rightarrow> nat \<Rightarrow> gw \<Rightarrow> gw" where
  "serve_end e i g =
     (let r = conn_runner g i in
      log_event (conn_event ''runner.disconnected'' r)
        (failPendingFor e r (Unregister i r (CloseWith i g))))"

text \<open>The ping of a quiet connection, or its end after five silent periods.\<close>

definition heartbeat_tick :: "env \<Rightarrow> int \<Rightarrow> nat \<Rightarrow> int \<Rightarrow> gw \<Rightarrow> gw" where
  "heartbeat_tick e period i nonce g =
     (case conn_of g i of None \<Rightarrow> g
      | Some c \<Rightarrow>
          if cn_closed c then g
          else if en_now e - cn_lastSeen c > 5 * period then CloseWith i g
          else reply e i (FPing (nonce + 1)) g)"

text \<open>The write loop takes one frame off the queue; a write that fails closes the connection for sends.\<close>

definition write_one :: "nat \<Rightarrow> bool \<Rightarrow> gw \<Rightarrow> gw" where
  "write_one i ok g =
     (case conn_of g i of None \<Rightarrow> g
      | Some c \<Rightarrow>
          if cn_done c \<or> cn_queued c = 0 then g
          else upd_conn i (\<lambda>c. c\<lparr>cn_queued := cn_queued c - 1, cn_closed := (cn_closed c \<or> \<not> ok)\<rparr>) g)"

definition unknown_frame :: "fmt_err \<Rightarrow> bool" where
  "unknown_frame x = (case x of Err f as \<Rightarrow> f = ''%w: %q'' \<and> as \<noteq> [] \<and> hd as = ''unknown frame type'')"

datatype wire = TextMessage string | BinaryMessage string

definition read_one ::
  "env \<Rightarrow> (string \<Rightarrow> ChunkHeader option) \<Rightarrow> (fmt_err \<Rightarrow> string) \<Rightarrow> nat \<Rightarrow> wire \<Rightarrow> gw \<Rightarrow> gw" where
  "read_one e unmarshal show_err i m g =
     (let g1 = upd_conn i (\<lambda>c. c\<lparr>cn_lastSeen := en_now e\<rparr>) g in
      case m of
        TextMessage data \<Rightarrow>
          (case Decode (en_json e) data DirUp of
             Inl x \<Rightarrow> if unknown_frame x then g1
                      else reply e i (FError \<lparr>e_thread = [], e_turn = [], e_code = ''bad_frame'', e_message = show_err x,
                             e_fatal = False\<rparr>) g1
           | Inr fr \<Rightarrow> dispatch e i fr g1)
      | BinaryMessage data \<Rightarrow>
          (case DecodeChunk unmarshal data of Inl _ \<Rightarrow> g1 | Inr (h, payload) \<Rightarrow> onChunk e i h payload g1))"

subsection \<open>Reloading the configuration\<close>

text \<open>The proxied servers handed to the MCP proxy: a missing credential leaves the server without one.\<close>

record ProxyServer =
  ps_Name :: string
  ps_URL :: string
  ps_Auth :: string
  ps_User :: string
  ps_Secret :: string
  ps_Deny :: "string list"

definition proxy_server :: "env \<Rightarrow> string \<Rightarrow> MCPServerCfg \<Rightarrow> ProxyServer" where
  "proxy_server e name s = \<lparr>ps_Name = name, ps_URL = s_URL s, ps_Auth = s_Auth s, ps_User = s_User s,
     ps_Secret = (if s_Secret s = [] then [] else (case en_secret e (s_Secret s) of Inl _ \<Rightarrow> [] | Inr v \<Rightarrow> v)),
     ps_Deny = s_Deny s\<rparr>"

definition applyConfig :: "env \<Rightarrow> Config \<Rightarrow> gw \<Rightarrow> gw \<times> ProxyServer list" where
  "applyConfig e c g =
     (g\<lparr>gw_cfg := c\<rparr>,
      concat (map (\<lambda>(name, s). case s of None \<Rightarrow> [] | Some s \<Rightarrow>
        if s_Kind s = ''proxied'' then [proxy_server e name s] else []) (MCP c)))"

definition secretOf :: "Config \<Rightarrow> string \<Rightarrow> string" where
  "secretOf c name = (case map_of (Runners c) name of Some (Some r) \<Rightarrow> EffectiveTokenSecret r name | _ \<Rightarrow> [])"

text \<open>The enrollment secrets whose cached values are dropped.\<close>

definition invalidateRunnerSecrets :: "Config \<Rightarrow> Config \<Rightarrow> string list" where
  "invalidateRunnerSecrets old new =
     concat (map (\<lambda>name. let before = secretOf old name; after = secretOf new name in
         if before = after then [] else filter (\<lambda>s. s \<noteq> []) [before, after])
       (remdups (map fst (Runners new) @ map fst (Runners old))))"

definition push_live :: "env \<Rightarrow> bundle_env \<Rightarrow> string \<Rightarrow> gw \<Rightarrow> gw" where
  "push_live e b name g = (case hub_Get g name of None \<Rightarrow> g | Some i \<Rightarrow> pushBundle e b i g)"

definition drop_gone :: "env \<Rightarrow> Config \<Rightarrow> string \<Rightarrow> gw \<Rightarrow> gw" where
  "drop_gone e c name g =
     (if map_of (Runners c) name \<noteq> None then g
      else dropRemovedRunner e name (case hub_Get g name of None \<Rightarrow> g | Some i \<Rightarrow> CloseWith i g))"

text \<open>\<open>next\<close> is what loading the file gave: a bad file leaves the running configuration.\<close>

definition Reload :: "env \<Rightarrow> bundle_env \<Rightarrow> string + Config \<Rightarrow> gw \<Rightarrow> gw" where
  "Reload e b loaded g =
     (case loaded of Inl _ \<Rightarrow> g
      | Inr c \<Rightarrow>
          fold (drop_gone e c) (map fst (Runners (gw_cfg g)))
            (fold (push_live e b) (map fst (Runners c)) (fst (applyConfig e c g))))"

subsection \<open>Waking, retried\<close>

definition edit_wake :: "env \<Rightarrow> string \<Rightarrow> wakeNotice \<Rightarrow> gw \<Rightarrow> gw" where
  "edit_wake e x n g =
     (if en_surface e (wn_surface n)
      then update_post (wn_surface n) (wn_ref n) \<lparr>po_Channel = wn_channel n, po_Thread = wn_thread n, po_Text = x,
             po_Persona = wn_persona n, po_Ephemeral = False, po_User = []\<rparr> g
      else g)"

definition editWakeNotices :: "env \<Rightarrow> string \<Rightarrow> string \<Rightarrow> gw \<Rightarrow> gw" where
  "editWakeNotices e runner x g =
     (let st = wakeStateFor g runner in fold (edit_wake e x) (ws_notices st) (set_wake runner st g))"

definition finish_retry :: "env \<Rightarrow> string \<Rightarrow> string \<Rightarrow> gw \<Rightarrow> gw" where
  "finish_retry e runner x g =
     (let g1 = set_wake runner ((wakeStateFor g runner)\<lparr>ws_retrying := False, ws_last := Some (en_now e)\<rparr>) g
      in if x = [] then g1 else editWakeNotices e runner x g1)"

text \<open>One round of \<open>retryWakeAfterStop\<close> after its sleep; \<open>True\<close>: it goes on.\<close>

definition retry_round :: "env \<Rightarrow> string \<Rightarrow> Runner \<Rightarrow> gw \<Rightarrow> gw \<times> bool" where
  "retry_round e runner rc g =
     (if hub_Get g runner \<noteq> None then (finish_retry e runner [] g, False)
      else (case startMachine e runner rc g of
          (g1, status) \<Rightarrow>
            if status = wakeWaitingForStop then (g1, True)
            else (finish_retry e runner (wakeText runner status (-1)) g1, False)))"

text \<open>The rounds so far, each at its own moment; \<open>wakeRetryFor\<close> is five minutes.\<close>

definition retry_timeout_text :: string where
  "retry_timeout_text = ''it was still shutting down after 5m0s''"

fun retryWakeAfterStop :: "string \<Rightarrow> Runner \<Rightarrow> int \<Rightarrow> env list \<Rightarrow> gw \<Rightarrow> gw" where
  "retryWakeAfterStop runner rc deadline [] g = g"
| "retryWakeAfterStop runner rc deadline (e # es) g =
     (if en_now e < deadline
      then (case retry_round e runner rc g of
          (g1, False) \<Rightarrow> g1 | (g1, True) \<Rightarrow> retryWakeAfterStop runner rc deadline es g1)
      else finish_retry e runner (wakeText runner (wakeFailed retry_timeout_text) (-1)) g)"

subsection \<open>The working indicators\<close>

definition refresh_entry :: "env \<Rightarrow> string \<Rightarrow> gw \<Rightarrow> gw" where
  "refresh_entry e key g =
     (case map_of (gw_working g) key of None \<Rightarrow> g
      | Some w \<Rightarrow>
          if \<not> we_running w \<and> en_now e - we_setAt w > seconds 600 then g\<lparr>gw_working := del key (gw_working g)\<rparr>
          else if en_now e - we_lastSent w \<ge> seconds 55
          then emit (EWorking (w\<lparr>we_lastSent := en_now e\<rparr>))
                 (g\<lparr>gw_working := put key (w\<lparr>we_lastSent := en_now e\<rparr>) (gw_working g)\<rparr>)
          else g)"

definition refreshWorking :: "env \<Rightarrow> gw \<Rightarrow> gw" where
  "refreshWorking e g = fold (refresh_entry e) (map fst (gw_working g)) g"

datatype status_answer = StatusSet | StatusUnavailable | StatusFailed

text \<open>The worker's call for one indicator; \<open>statuser\<close>: the surface can show one.\<close>

definition run_working :: "env \<Rightarrow> bool \<Rightarrow> status_answer \<Rightarrow> workingEntry \<Rightarrow> gw \<Rightarrow> gw" where
  "run_working e statuser answer w g =
     (if \<not> en_surface e (we_surface w) \<or> \<not> statuser \<or> get_or False (gw_latched g) (we_surface w @ '':'' @ we_channel w)
      then g
      else if answer = StatusUnavailable
      then g\<lparr>gw_latched := put (we_surface w @ '':'' @ we_channel w) True (gw_latched g),
             gw_working := filter (\<lambda>(k, x). \<not> (we_surface x = we_surface w \<and> we_channel x = we_channel w)) (gw_working g)\<rparr>
      else g)"

subsection \<open>Frames\<close>

text \<open>No operation on connections starts or ends a turn.\<close>

lemma quiet_conns_field: "quiet g (g\<lparr>gw_conns := cs\<rparr>)"
  by (simp add: quiet_def shape_def)

lemma quiet_Unregister: "quiet g h \<Longrightarrow> quiet g (Unregister i r h)"
  by (simp add: Unregister_def quiet_fields)

lemma quiet_handshake: "quiet g (fst (handshake e x d g))"
proof (cases "check_hello e x d g")
  case (Refused o1)
  then show ?thesis by (cases o1) (simp_all add: handshake_def quiet_prims(2))
next
  case (Accepted h rc)
  let ?i = "new_index g"
  obtain g1 old where r: "Register ?i (hello_runner h) (g\<lparr>gw_conns := put ?i (newConn e h) (gw_conns g)\<rparr>) = (g1, old)"
    by fastforce
  then have q1: "quiet g g1" by (auto simp: Register_def intro!: quiet_fields quiet_conns_field)
  define g2 where "g2 = (case old of None \<Rightarrow> g1 | Some j \<Rightarrow> CloseWith j g1)"
  have q2: "quiet g g2" using q1 by (auto simp: g2_def quiet_intros split: option.split)
  obtain g3 sent where s: "Send e ?i (FHelloAck (hello_ack (gw_cfg g) h rc)) g2 = (g3, sent)" by fastforce
  have q3: "quiet g g3" using quiet_intros(7) [OF q2, of e ?i] s by (metis fst_conv reply_def)
  from Accepted r s q3 show ?thesis
    by (auto simp: handshake_def Let_def g2_def quiet_intros quiet_Unregister)
qed

lemma quiet_pushBundle: "quiet g (pushBundle e b i g)"
proof -
  have sb: "quiet g h \<Longrightarrow> quiet g (setBundle i v d h)" for h v d
    unfolding setBundle_def by (rule quiet_trans [OF _ quiet_prims(6)])
  have st: "rows_kept s (fst (MarkRunnerThreadsStale r v s))" for r v s
    using rows_kept_ops(10) [of s "OStale r v"] by simp
  show ?thesis
    by (auto simp: pushBundle_def Let_def reply_def [symmetric] st
        split: option.split sum.split outcome.split prod.split
        intro!: quiet_all sb dest!: arg_cong [of _ _ fst])
qed

lemma quiet_serve_end: "quiet g (serve_end e i g)"
  unfolding serve_end_def Let_def
  by (rule quiet_intros(2), rule quiet_trans [OF quiet_Unregister quiet_failPendingFor], rule quiet_prims(7))

lemma quiet_handleRunner: "quiet g (handleRunner e b x d g)"
  using quiet_handshake [of g e x d] quiet_trans [OF _ quiet_trans [OF quiet_pushBundle quiet_drainQueue]]
  by (auto simp: handleRunner_def serve_start_def split: prod.split option.split)

lemma quiet_heartbeat: "quiet g (heartbeat_tick e p i n g)"
  by (auto simp: heartbeat_tick_def split: option.split intro!: quiet_all)

lemma quiet_write: "quiet g (write_one i ok g)"
  by (auto simp: write_one_def quiet_prims(6) split: option.split)

lemma quiet_wake_ops:
  "quiet g (editWakeNotices e r x g)" "quiet g (finish_retry e r x g)" "quiet g (fst (retry_round e r rc g))"
proof -
  have w: "quiet h (set_wake r st h)" for h st by (simp add: set_wake_def quiet_fields)
  show ed: "quiet h (editWakeNotices e r x h)" for h x
    unfolding editWakeNotices_def Let_def
    by (rule quiet_trans [OF w quiet_fold]) (simp add: edit_wake_def quiet_prims)
  show fin: "quiet h (finish_retry e r x h)" for h x
    by (simp add: finish_retry_def Let_def w quiet_trans [OF w ed])
  have "quiet g (fst (startMachine e r rc g))" by (rule quiet_sched [OF same_sched_startMachine])
  then show "quiet g (fst (retry_round e r rc g))"
    using quiet_trans [OF _ fin] fin by (auto simp: retry_round_def split: prod.split)
qed

lemma quiet_retry: "quiet g (retryWakeAfterStop r rc d es g)"
proof (induction es arbitrary: g)
  case (Cons e es)
  then show ?case using quiet_wake_ops(2,3) [of g] quiet_trans [OF _ Cons]
    by (simp split: prod.split bool.split) (metis fst_conv)
qed simp

lemma quiet_working_ops: "quiet g (refreshWorking e g)" "quiet g (run_working e s a w g)"
proof -
  show "quiet g (refreshWorking e g)" unfolding refreshWorking_def
    by (rule quiet_fold) (auto simp: refresh_entry_def Let_def split: option.split intro!: quiet_all)
  show "quiet g (run_working e s a w g)" by (simp add: run_working_def quiet_def shape_def)
qed

lemma quiet_but_config: "quiet (g\<lparr>gw_cfg := c\<rparr>) h \<Longrightarrow> shape h = shape g \<and> gw_queues h = gw_queues g"
  by (simp add: quiet_def shape_def)

lemma quiet_push_live: "quiet g (push_live e b n g)"
  by (simp add: push_live_def quiet_pushBundle split: option.split)

subsection \<open>Who may connect\<close>

lemma check_hello_accepted:
  assumes "check_hello e x data g = Accepted h rc"
  shows "x" "Decode (en_json e) data DirUp = Inr (FHello h)" "runnerConfig g (hello_runner h) = Some rc"
    "authenticate e h rc = None" "\<exists>v. ParseVersion (hello_protocol h) = Inr v \<and> Major v = Major Ours"
  using assms
  by (auto simp: check_hello_def NegotiateString_def Negotiate_def Compatibility_OK_def
      split: if_splits sum.splits Frame.splits option.splits)

lemma handshake_Some:
  assumes "handshake e x data g = (g', Some i)"
  obtains h rc where "check_hello e x data g = Accepted h rc" "i = new_index g" "hub_Get g' (hello_runner h) = Some i"
proof -
  from assms obtain h rc where c: "check_hello e x data g = Accepted h rc"
    by (auto simp: handshake_def split: verdict.splits option.splits)
  have u: "gw_hub (upd_conn j f k) = gw_hub k" "gw_hub (emit y k) = gw_hub k" for j f k y
    by (simp_all add: upd_conn_def emit_def split: option.split)
  have hb: "gw_hub (fst (Send e j fr k)) = gw_hub k" for j fr k
    by (auto simp: Send_def sendRaw_def CloseWith_def u split: sum.split option.split)
  obtain g1 old where r: "Register (new_index g) (hello_runner h) (g\<lparr>gw_conns := put (new_index g) (newConn e h) (gw_conns g)\<rparr>) = (g1, old)"
    by fastforce
  define g2 where "g2 = (case old of None \<Rightarrow> g1 | Some j \<Rightarrow> CloseWith j g1)"
  obtain g3 sent where s: "Send e (new_index g) (FHelloAck (hello_ack (gw_cfg g) h rc)) g2 = (g3, sent)" by fastforce
  from r have "gw_hub g1 = put (hello_runner h) (new_index g) (gw_hub g)" by (auto simp: Register_def)
  then have "gw_hub g3 = put (hello_runner h) (new_index g) (gw_hub g)"
    using hb [of "new_index g" "FHelloAck (hello_ack (gw_cfg g) h rc)" g2] s
    by (simp add: g2_def CloseWith_def u split: option.splits)
  moreover have "i = new_index g" "g' = log_event (conn_event ''runner.connected'' (hello_runner h)) g3"
    using assms c r s by (auto simp: handshake_def Let_def g2_def split: if_splits)
  ultimately show thesis using that [OF c] by (simp add: hub_Get_def log_event_def)
qed

text \<open>
  C3. Nothing is served on a socket before its runner has proved itself: a handshake succeeds only for a
  text hello frame of the same protocol major from a configured runner whose token is that runner's
  enrollment secret, which is not empty; the connection is then the runner's current one.
\<close>

theorem handshake_authenticates:
  assumes "handshake e is_text data g = (g', Some i)"
  shows "\<exists>h rc secret. is_text \<and> Decode (en_json e) data DirUp = Inr (FHello h) \<and>
     runnerConfig g (hello_runner h) = Some rc \<and> a_mode (hello_auth h) = AuthToken \<and>
     en_secret e (EffectiveTokenSecret rc (hello_runner h)) = Inr secret \<and> secret \<noteq> [] \<and> a_value (hello_auth h) = secret \<and>
     (\<exists>v. ParseVersion (hello_protocol h) = Inr v \<and> Major v = Major Ours) \<and> hub_Get g' (hello_runner h) = Some i"
proof -
  from assms obtain h rc where c: "check_hello e is_text data g = Accepted h rc" "hub_Get g' (hello_runner h) = Some i"
    by (rule handshake_Some)
  note a = check_hello_accepted [OF c(1)]
  from a(4) obtain secret where "a_mode (hello_auth h) = AuthToken"
    "en_secret e (EffectiveTokenSecret rc (hello_runner h)) = Inr secret" "secret \<noteq> []" "a_value (hello_auth h) = secret"
    by (auto simp: authenticate_def Let_def split: AuthMode.splits sum.splits if_splits)
  with a c(2) show ?thesis by blast
qed

text \<open>A hello of the sample runner with the sample secret.\<close>

definition sample_hello :: Hello where
  "sample_hello = \<lparr>hello_protocol = Version, hello_runner = ''box'', hello_auth = \<lparr>a_mode = AuthToken, a_value = ''tok''\<rparr>,
     hello_host = \<lparr>h_id = ''h'', h_os = [], h_arch = []\<rparr>, hello_harness = \<lparr>hi_adapter = ''cc'', hi_version = []\<rparr>,
     hello_capabilities = [], hello_bundle = None\<rparr>"

definition hello_env :: env where
  "hello_env = sample_env\<lparr>en_json := sample_json\<lparr>unmarshal_probe := (\<lambda>d. Some ''hello''),
     unmarshal_frame := (\<lambda>d z. Some (FHello sample_hello))\<rparr>\<rparr>"

lemma our_version: "ParseVersion Version = Inr Ours" "ValidSlug ''box''" by code_simp+

lemma hello_accepted_sample: "check_hello hello_env True [] sample_gw = Accepted sample_hello sample_runner"
proof -
  have r: "map_of registry ''hello'' \<noteq> None" by (simp add: registry_def)
  have v: "Validate (FHello sample_hello) = []"
    using our_version by (simp add: validate_Hello_def version_problem_def sample_hello_def)
  have d: "Decode (en_json hello_env) [] DirUp = Inr (FHello sample_hello)"
    using r v by (auto simp: Decode_def hello_env_def sample_json_def permits_def split: option.splits)
  have n: "NegotiateString (hello_protocol sample_hello) = Inr (Ours, Compatible)"
    using our_version by (simp add: NegotiateString_def Negotiate_def sample_hello_def)
  have a: "authenticate hello_env sample_hello sample_runner = None"
    by (simp add: authenticate_def sample_hello_def hello_env_def sample_env_def)
  have c: "runnerConfig sample_gw (hello_runner sample_hello) = Some sample_runner"
    by (simp add: runnerConfig_def sample_gw_def sample_hello_def sample_config_def)
  show ?thesis by (simp add: check_hello_def d n c a Compatibility_OK_def)
qed

lemma Send_fresh:
  "conn_of g i = Some c \<Longrightarrow> Encode (en_json e) (Some f) = Inr raw \<Longrightarrow> \<not> cn_done c \<Longrightarrow> cn_queued c < out_capacity \<Longrightarrow> snd (Send e i f g)"
  by (simp add: Send_def sendRaw_def)

theorem handshake_authenticates_witness:
  "\<exists>i secret. snd (handshake hello_env True [] sample_gw) = Some i \<and>
     en_secret hello_env (EffectiveTokenSecret sample_runner ''box'') = Inr secret \<and> secret \<noteq> []"
proof -
  let ?g = "sample_gw\<lparr>gw_conns := put 1 (newConn hello_env sample_hello) (gw_conns sample_gw)\<rparr>"
  let ?h = "CloseWith 0 (?g\<lparr>gw_hub := put ''box'' 1 (gw_hub ?g)\<rparr>)"
  let ?f = "FHelloAck (hello_ack sample_config sample_hello sample_runner)"
  have i: "new_index sample_gw = 1" by (simp add: new_index_def sample_gw_def)
  have cfg: "gw_cfg sample_gw = sample_config" and hub: "hub_Get ?g ''box'' = Some 0" by (simp_all add: sample_gw_def hub_Get_def)
  have n: "hello_runner sample_hello = ''box''" by (simp add: sample_hello_def)
  have "Validate ?f = []"
    using our_version by (simp add: validate_HelloAck_def version_problem_def hello_ack_def sample_hello_def)
  then obtain raw where raw: "Encode (en_json hello_env) (Some ?f) = Inr raw"
    by (simp add: Encode_def hello_env_def sample_json_def has_key_def)
  have c: "conn_of ?h 1 = Some (newConn hello_env sample_hello)"
    by (simp add: conn_of_def CloseWith_def upd_conn_def sample_gw_def)
  have s: "snd (Send hello_env 1 ?f ?h)"
    by (rule Send_fresh [OF c raw]) (simp_all add: newConn_def out_capacity_def)
  obtain g3 where g3: "Send hello_env 1 ?f ?h = (g3, True)" using s by (metis prod.collapse)
  have "snd (handshake hello_env True [] sample_gw) = Some 1"
    by (simp only: handshake_def hello_accepted_sample verdict.case Let_def i n cfg Register_def hub prod.case option.case g3
        simp_thms if_False snd_conv)
  then obtain g' where k: "handshake hello_env True [] sample_gw = (g', Some 1)" by (metis prod.collapse)
  from handshake_authenticates [OF k] hello_accepted_sample [THEN check_hello_accepted(2)] show ?thesis
    using k check_hello_accepted(3) [OF hello_accepted_sample] by (auto simp: sample_hello_def)
qed

subsection \<open>Displaced connections\<close>

lemma fail_prompt_gone:
  "set (gw_prompts (fold (fail_prompt e r) ps g)) \<subseteq> set (gw_prompts g)"
  "(k, p) \<in> set ps \<Longrightarrow> pp_Runner p = r \<Longrightarrow> (k, q) \<notin> set (gw_prompts (fold (fail_prompt e r) ps g))"
proof -
  have step: "gw_prompts (fail_prompt e r x h) = (if pp_Runner (snd x) = r then del (fst x) (gw_prompts h) else gw_prompts h)" for x h
    by (simp add: fail_prompt_def Let_def upd_store_def emit_def split: prod.split)
  have st: "set (gw_prompts (fail_prompt e r x h)) \<subseteq> set (gw_prompts h)" for x h
    by (auto simp: step del_def AList.delete_eq)
  have sub: "set (gw_prompts (fold (fail_prompt e r) ps g)) \<subseteq> set (gw_prompts g)" for ps g
  proof (induction ps arbitrary: g)
    case (Cons p ps)
    show ?case using subset_trans [OF Cons st] by simp
  qed simp
  show "set (gw_prompts (fold (fail_prompt e r) ps g)) \<subseteq> set (gw_prompts g)" by (rule sub)
  have gone: "(fst x, q) \<notin> set (gw_prompts (fail_prompt e r x h))" if "pp_Runner (snd x) = r" for x h q
    using that by (auto simp: step del_def AList.delete_eq)
  show "(k, p) \<in> set ps \<Longrightarrow> pp_Runner p = r \<Longrightarrow> (k, q) \<notin> set (gw_prompts (fold (fail_prompt e r) ps g))"
  proof (induction ps arbitrary: g)
    case (Cons x ps)
    show ?case
    proof (cases "x = (k, p)")
      case True
      with gone [of "(k, p)" q g] Cons.prems(2) sub [of ps "fail_prompt e r x g"] show ?thesis by auto
    next
      case False
      with Cons.IH [of "fail_prompt e r x g"] Cons.prems show ?thesis by simp
    qed
  qed simp
qed

text \<open>
  The end of a connection that a newer one displaced leaves the newer one in the hub, but cancels
  the prompts of the runner all the same, those of the connection that is alive included: no prompt of
  the runner is left to answer.
\<close>

theorem displaced_connection_cancels_prompts:
  assumes "conn_of g i = Some c" "hub_Get g (cn_runner c) = Some j" "j \<noteq> i"
  shows "hub_Get (serve_end e i g) (cn_runner c) = Some j \<and>
    (\<forall>k p. map_of (gw_prompts (serve_end e i g)) k = Some p \<longrightarrow> pp_Runner p \<noteq> cn_runner c)"
proof -
  let ?r = "cn_runner c"
  define h where "h = Unregister i ?r (CloseWith i g)"
  have hub: "gw_hub h = gw_hub g" and pr: "gw_prompts h = gw_prompts g"
    using assms(2,3) by (simp_all add: h_def Unregister_def CloseWith_def upd_conn_def hub_Get_def split: option.split)
  have r: "conn_runner g i = ?r" using assms(1) by (simp add: conn_runner_def)
  have s: "serve_end e i g = log_event (conn_event ''runner.disconnected'' ?r) (failPendingFor e ?r h)"
    by (simp add: serve_end_def Let_def r h_def)
  have f: "gw_hub (fail_prompt e ?r x k) = gw_hub k" for x k
    by (simp add: fail_prompt_def Let_def upd_store_def emit_def split: prod.split)
  have "gw_hub (fold (fail_prompt e ?r) ps k) = gw_hub k" for ps k
    by (induction ps arbitrary: k) (simp_all add: f)
  then have "hub_Get (serve_end e i g) ?r = Some j"
    using assms(2) hub by (simp add: s failPendingFor_def hub_Get_def log_event_def)
  moreover have "pp_Runner p \<noteq> ?r" if "map_of (gw_prompts (serve_end e i g)) k = Some p" for k p
  proof
    assume p: "pp_Runner p = ?r"
    from that have m: "(k, p) \<in> set (gw_prompts (fold (fail_prompt e ?r) (gw_prompts h) h))"
      by (auto simp: s failPendingFor_def log_event_def dest: map_of_SomeD)
    then have "(k, p) \<in> set (gw_prompts h)" using fail_prompt_gone(1) by blast
    from fail_prompt_gone(2) [OF this p] m show False by blast
  qed
  ultimately show ?thesis by blast
qed

text \<open>Connection 1 has displaced connection 0 and has a prompt out when connection 0's read loop ends.\<close>

definition displaced_gw :: gw where
  "displaced_gw = sample_gw\<lparr>gw_hub := [(''box'', 1)], gw_prompts := [(''p1'', \<lparr>pp_RequestID = ''p1'', pp_Runner = ''box'',
     pp_Turn = sample_turn, pp_Ref = \<lparr>ref_Channel = ''C1'', ref_Thread = ''1.2'', ref_ID = ''9''\<rparr>, pp_Tool = ''Bash''\<rparr>)]\<rparr>"

theorem displaced_connection_cancels_prompts_witness:
  "hub_Get (serve_end sample_env 0 displaced_gw) ''box'' = Some 1 \<and> map_of (gw_prompts displaced_gw) ''p1'' \<noteq> None \<and>
   \<not> (\<exists>k p. map_of (gw_prompts (serve_end sample_env 0 displaced_gw)) k = Some p \<and> pp_Runner p = ''box'')"
proof -
  let ?c = "\<lparr>cn_runner = ''box'', cn_queued = 0, cn_done = False, cn_closed = False, cn_lastSeen = 0,
        cn_bundleVersion = 0, cn_bundleDigest = []\<rparr>"
  have "conn_of displaced_gw 0 = Some ?c" "hub_Get displaced_gw (cn_runner ?c) = Some 1"
    by (simp_all add: displaced_gw_def sample_gw_def conn_of_def hub_Get_def)
  from displaced_connection_cancels_prompts [OF this, of sample_env] show ?thesis by (auto simp: displaced_gw_def)
qed

subsection \<open>Waking after a retried wake\<close>

text \<open>
  When the runner connects while the retry loop waits for its machine to stop, the loop's last round
  puts back the rate limit that the connection had reset: for two minutes, a message to the runner that
  has gone to sleep again starts no machine, and is told that it is starting up.
\<close>

theorem retry_restores_the_rate_limit:
  assumes "hub_Get g r = Some i" "en_waker e'" "en_now e' - en_now e < seconds 120"
  shows "requestWake e' r rc (Unregister i r (fst (retry_round e r rc' g))) =
    (Unregister i r (fst (retry_round e r rc' g)), wakeAlreadyRequested)"
proof -
  let ?st = "(wakeStateFor g r)\<lparr>ws_retrying := False, ws_last := Some (en_now e)\<rparr>"
  have g1: "fst (retry_round e r rc' g) = g\<lparr>gw_wakes := put r ?st (gw_wakes g)\<rparr>"
    using assms(1) by (simp add: retry_round_def finish_retry_def set_wake_def Let_def)
  have w: "wakeStateFor (Unregister i r (fst (retry_round e r rc' g))) r = ?st"
    by (simp add: g1 Unregister_def wakeStateFor_def get_or_def)
  have same: "set_wake r ?st (Unregister i r (fst (retry_round e r rc' g))) = Unregister i r (fst (retry_round e r rc' g))"
    by (simp add: g1 Unregister_def set_wake_def hub_Get_def)
  show ?thesis using assms(2,3) by (simp add: requestWake_def w same Let_def)
qed

theorem retry_restores_the_rate_limit_witness:
  "snd (requestWake (sample_env\<lparr>en_waker := True, en_now := seconds 60\<rparr>) ''box'' sample_runner
     (Unregister 0 ''box'' (fst (retry_round sample_env ''box'' sample_runner sample_gw)))) = wakeAlreadyRequested"
  by (subst retry_restores_the_rate_limit) (simp_all add: hub_Get_def sample_gw_def sample_env_def seconds_def)

end
