(* ===== verification/Machine.thy ===== *)
theory Machine
  imports Conns
begin

text \<open>
  The gateway as a machine. \<open>handles\<close> is one event (a message, a frame, a chunk, a decision, a
  connection's life, a background sweep, a reload), each handled without interruption, and
  \<open>reachable\<close> the states it can get to from start-up. The invariants of the scheduler hold in all
  of them: a thread has one turn, a runner's cap and waiting list are bounded, and its list is served in
  order.
\<close>

subsection \<open>Ending a turn\<close>

lemma slots_mono:
  assumes "slots y g" "\<And>k. y k \<le> z k"
  shows "slots z g"
  using assms unfolding slots_def by (meson add_left_mono order_trans)

lemma settled_trans: "kept g h \<Longrightarrow> settled y h g' \<Longrightarrow> settled y g g'"
  by (rule settled_after)

lemma turn_over_ok:
  assumes wf: "wf_sched g" and s: "slots (reserve (tc_ThreadID t) y) g"
  shows "settled y g (turn_over e t g)"
proof -
  let ?k = "tc_ThreadID t"
  let ?c = "clearWorking ?k g"
  define h where "h = turnSlotFreed e (tc_Runner t) ?c"
  note q = quiet_prims(9) [of g ?k]
  have "settled (reserve ?k y) g h" unfolding h_def
    by (rule quiet_then_settled [OF q turnSlotFreed_ok [OF quiet_frame(4) [OF q wf]]])
      (use quiet_frame(3) [OF q] s in simp)
  then have h: "wf_sched h" "slots (reserve ?k y) h" "kept g h" by (simp_all add: settled_def)
  have "slots (release ?k h y) h" by (rule slots_mono [OF h(2)]) (simp add: reserve_def release_def)
  from settled_after [OF h(3) endThreadTurn_ok [OF h(1) this]] show ?thesis by (simp add: turn_over_def h_def)
qed

text \<open>The scheduler's invariant under the caps \<open>M\<close> that every configuration respects.\<close>

definition cfg_ok :: "(string \<Rightarrow> int) \<Rightarrow> Config \<Rightarrow> bool" where
  "cfg_ok M c \<longleftrightarrow> (\<forall>n r. map_of (Runners c) n = Some (Some r) \<longrightarrow> r_MaxConcurrent r \<le> M n)"

definition sound :: "(string \<Rightarrow> int) \<Rightarrow> gw \<Rightarrow> bool" where
  "sound M g \<longleftrightarrow> wf_sched g \<and> slots (\<lambda>_. 0) g \<and> bounded M g \<and> cfg_ok M (gw_cfg g)"

lemma sound_quiet: "sound M g \<Longrightarrow> quiet g g' \<Longrightarrow> sound M g'"
  using quiet_frame(3,4,6,7) [of g g'] by (auto simp: sound_def fair_def)

text \<open>The configuration stays what it is.\<close>

lemma cfg_forget: "gw_cfg (forget_turn e t reason g) = gw_cfg g"
  using forget_turn_threads [of g e t reason] by (simp add: same_threads_def)

lemma cfg_advance: "gw_cfg (fst (advance_thread e key nxt rest g)) = gw_cfg g"
proof -
  have "same_threads (g\<lparr>gw_threadWaiting := put key rest (gw_threadWaiting g)\<rparr>) (fst (advance_thread e key nxt rest g))"
    unfolding advance_thread_def Let_def
    using same_threads_trans [OF same_threads_sched [OF same_sched_trans [OF same_sched_notices(4) same_sched_rest(2)]]
        same_threads_admitted] .
  then show ?thesis by (simp add: same_threads_def)
qed

lemma cfg_endThreadTurn: "gw_cfg (endThreadTurn e key g) = gw_cfg g"
proof (induction e key g rule: endThreadTurn.induct)
  case (1 e key g)
  show ?case
  proof (cases "get_or [] (gw_threadWaiting g) key")
    case Nil
    then show ?thesis by (subst endThreadTurn.simps) simp
  next
    case (Cons nxt rest)
    obtain g1 ab where ad: "advance_thread e key nxt rest g = (g1, ab)" by fastforce
    have c: "gw_cfg g1 = gw_cfg g" using cfg_advance [of e key nxt rest g] ad by simp
    show ?thesis
    proof (cases ab)
      case None
      with c ad Cons show ?thesis by (subst endThreadTurn.simps) simp
    next
      case (Some ab')
      then obtain t reason x where ab: "ab = Some (t, reason, x)" by (metis prod_cases3)
      have "gw_cfg (after_abandon e (qt_in nxt) x h) = gw_cfg h" for h
        using same_sched_prims(14) [of h e "qt_in nxt" x] by (simp add: same_sched_def)
      with "1.IH" [OF Cons ad [symmetric] ab refl refl] c ad ab Cons show ?thesis
        by (subst endThreadTurn.simps) (simp add: cfg_forget)
    qed
  qed
qed

lemma cfg_finish: "gw_cfg (fst r) = gw_cfg g \<Longrightarrow> gw_cfg (finish_start e inb r) = gw_cfg g"
proof -
  have "gw_cfg (after_abandon e inb x h) = gw_cfg h" for h x
    using same_sched_prims(14) [of h e inb x] by (simp add: same_sched_def)
  then show "gw_cfg (fst r) = gw_cfg g \<Longrightarrow> gw_cfg (finish_start e inb r) = gw_cfg g"
    by (auto simp: finish_start_def abandonTurn_def cfg_endThreadTurn cfg_forget split: prod.split option.split)
qed

lemma cfg_dispatch: "gw_cfg (dispatchTurn e inb r rc p g) = gw_cfg g" "gw_cfg (dispatchAdmitted e inb r rc p g) = gw_cfg g"
  using same_threads_dispatch_start [of g e inb r rc p] same_threads_admitted [of g e inb r rc p]
  by (auto simp: dispatchTurn_def dispatchAdmitted_def same_threads_def intro!: cfg_finish)

lemma cfg_turnSlotFreed: "gw_cfg (turnSlotFreed e r g) = gw_cfg g"
proof -
  have "gw_cfg (edit_queue_rest e n a ws h) = gw_cfg h" "gw_cfg (editQueueNotice e q n a h) = gw_cfg h" for n a ws h q
    using same_sched_rest(1) [of h e n a ws] same_sched_notices(3) [of h e q n a] by (simp_all add: same_sched_def)
  then show ?thesis
    by (auto simp: turnSlotFreed_def Let_def cfg_dispatch set_queue_def split: option.split list.split)
qed

lemma cfg_turn_over: "gw_cfg (turn_over e t g) = gw_cfg g"
  using quiet_frame(7) [OF quiet_prims(9)] by (simp add: turn_over_def cfg_endThreadTurn cfg_turnSlotFreed)

lemma bounded_turn_over:
  assumes M: "\<forall>r. 1 \<le> M r" and b: "bounded M g"
  shows "bounded M (turn_over e t g)"
proof -
  have "fair M g (clearWorking (tc_ThreadID t) g)" by (rule quiet_frame(6) [OF quiet_prims(9)])
  with b have "bounded M (clearWorking (tc_ThreadID t) g)" by (simp add: fair_def)
  then have "bounded M (turnSlotFreed e (tc_Runner t) (clearWorking (tc_ThreadID t) g))"
    by (rule turnSlotFreed_fifo(1) [OF _ M])
  then show ?thesis using fair_endThreadTurn by (simp add: turn_over_def fair_def)
qed

lemma sound_turn_over:
  assumes M: "\<forall>r. 1 \<le> M r" and wf: "wf_sched g" and s: "slots (reserve (tc_ThreadID t) (\<lambda>_. 0)) g"
    and b: "bounded M g" and c: "cfg_ok M (gw_cfg g)"
  shows "sound M (turn_over e t g)"
  using turn_over_ok [OF wf s, of e] bounded_turn_over [OF M b] c by (simp add: sound_def settled_def cfg_turn_over)

lemma bounded_turns: "bounded M (g\<lparr>gw_turns := ts\<rparr>) = bounded M g"
  by (simp add: bounded_def queue_of_def)

text \<open>Removing a turn frees its thread for whoever ends it next.\<close>

lemma sound_removed:
  assumes s: "sound M g" and t: "map_of (gw_turns g) i = Some t"
  shows "wf_sched (g\<lparr>gw_turns := del i (gw_turns g)\<rparr>)"
    "slots (reserve (tc_ThreadID t) (\<lambda>_. 0)) (g\<lparr>gw_turns := del i (gw_turns g)\<rparr>)"
    "bounded M (g\<lparr>gw_turns := del i (gw_turns g)\<rparr>)" "cfg_ok M (gw_cfg (g\<lparr>gw_turns := del i (gw_turns g)\<rparr>))"
proof -
  from s have w: "wf_sched g" "slots (\<lambda>_. 0) g" by (simp_all add: sound_def)
  show "wf_sched (g\<lparr>gw_turns := del i (gw_turns g)\<rparr>)" by (rule wf_del_turn [OF w(1)])
  show "slots (reserve (tc_ThreadID t) (\<lambda>_. 0)) (g\<lparr>gw_turns := del i (gw_turns g)\<rparr>)" by (rule slots_del_turn [OF w(1) t w(2)])
qed (use s in \<open>simp_all add: sound_def bounded_turns\<close>)

lemma sound_over_quiet:
  assumes M: "\<forall>r. 1 \<le> M r" and s: "sound M g" and t: "map_of (gw_turns g) i = Some t" "tc_ThreadID t' = tc_ThreadID t"
    and q: "quiet (g\<lparr>gw_turns := del i (gw_turns g)\<rparr>) h"
  shows "sound M (turn_over e t' h)"
proof -
  note d = sound_removed [OF s t(1)]
  note f = quiet_frame [OF q]
  show ?thesis
    by (rule sound_turn_over [OF M f(4) [OF d(1)]]) (use d f(3,6,7) t(2) in \<open>auto simp: fair_def\<close>)
qed

lemma fail_turn_quiet:
  "quiet (g\<lparr>gw_turns := del (tc_TurnID t) (gw_turns g)\<rparr>) (fail_turn e t reason g)"
  by (simp add: fail_turn_def quiet_all)

lemma sound_onDone:
  assumes M: "\<forall>r. 1 \<le> M r" and s: "sound M g"
  shows "sound M (onDone e fr g)"
proof (cases "turnFor e (d_turn fr) g")
  case (Pair g1 o1)
  then have q1: "quiet g g1" by (rule quiet_turnFor)
  show ?thesis
  proof (cases o1)
    case None
    with Pair s q1 show ?thesis by (simp add: onDone_def sound_quiet)
  next
    case (Some t)
    with Pair have t1: "map_of (gw_turns g1) (d_turn fr) = Some t" using turnFor_Some by blast
    define g2 where "g2 = (case close_stream e t g1 of (h, None) \<Rightarrow> h
                    | (h, Some s) \<Rightarrow> if HasOutput s then h else post_turn e t ''_(no output)_'' h)"
    obtain h0 so where cl: "close_stream e t g1 = (h0, so)" by fastforce
    have p: "quiet g1 h0" using quiet_prims(13) [of g1 e t] cl by simp
    note p = p quiet_intros(9) [OF p]
    have q2: "quiet g1 g2" by (cases so) (simp_all only: g2_def cl prod.case option.case p if_split simp_thms)
    define g3 where "g3 = (if d_session fr = [] then g2 else upd_store (SetThreadSession (tc_ThreadID t) (d_session fr)) g2)"
    have q3: "quiet g1 g3" using q2 by (simp add: g3_def quiet_intros)
    define g4 where "g4 = upd_store (TouchThread (en_clock e) (tc_ThreadID t)) (upd_store (FinishTurn (en_clock e) (d_turn fr) TurnDone []
        (if d_duration_ms fr = 0 then elapsed_ms e t else d_duration_ms fr) (d_num_tool_calls fr)) g3)"
    have q4: "quiet g1 g4" using q3 by (simp add: g4_def quiet_intros)
    have s4: "sound M g4" using sound_quiet [OF sound_quiet [OF s q1] q4] .
    obtain t4 where t4: "map_of (gw_turns g4) (d_turn fr) = Some t4" "tc_ThreadID t4 = tc_ThreadID t"
      using quiet_frame(5) [OF q4] t1 unfolding kept_def by metis
    define y :: "string \<Rightarrow> int" where "y k = (if k = tc_ThreadID t then 1 else 0)" for k
    have y: "reserve (tc_ThreadID t) y = (\<lambda>_. 0)" by (simp add: reserve_def y_def fun_eq_iff)
    define h where "h = turn_over e t g4"
    have st: "settled y g4 h" unfolding h_def by (rule turn_over_ok) (use s4 y in \<open>simp_all add: sound_def\<close>)
    then obtain t5 where t5: "map_of (gw_turns h) (d_turn fr) = Some t5" "tc_ThreadID t5 = tc_ThreadID t"
      using t4 unfolding settled_def kept_def by metis
    let ?g = "h\<lparr>gw_turns := del (d_turn fr) (gw_turns h)\<rparr>"
    have "wf_sched ?g" using wf_del_turn st by (simp add: settled_def)
    moreover have "slots (\<lambda>_. 0) ?g" using slots_del_turn [of h "d_turn fr" t5 y] st t5 y by (simp add: settled_def)
    moreover have "bounded M ?g" using bounded_turn_over [OF M, of g4 e t] s4 by (simp add: sound_def h_def bounded_turns)
    moreover have "cfg_ok M (gw_cfg ?g)" using s4 by (simp add: sound_def h_def cfg_turn_over)
    moreover have "onDone e fr g = ?g"
      using Pair Some by (simp add: onDone_def Let_def g2_def g3_def g4_def h_def)
    ultimately show ?thesis by (simp add: sound_def)
  qed
qed

text \<open>A turn the gateway gives up on, from a sound state.\<close>

lemma sound_given_up:
  assumes M: "\<forall>r. 1 \<le> M r" and s: "sound M g" and t: "map_of (gw_turns g) i = Some t"
    and q: "quiet (fail_turn e t reason g) h"
  shows "sound M (turn_over e t h)"
proof -
  have "tc_TurnID t = i" using s t by (auto simp: sound_def wf_sched_def recorded_def)
  with t have "quiet (g\<lparr>gw_turns := del i (gw_turns g)\<rparr>) h" using quiet_trans [OF fail_turn_quiet q] by simp
  from sound_over_quiet [OF M s t refl this] show ?thesis .
qed

lemma sound_onRunnerError:
  assumes M: "\<forall>r. 1 \<le> M r" and s: "sound M g"
  shows "sound M (onRunnerError e i fr g)"
proof -
  define g0 where "g0 = log_event \<lparr>ev_Kind = ''runner.error'', ev_Runner = conn_runner g i, ev_ThreadID = [], ev_TurnID = e_turn fr,
                 ev_SurfaceUser = [], ev_Detail = [(''code'', e_code fr), (''message'', e_message fr),
                   (''fatal'', if e_fatal fr then ''true'' else ''false'')]\<rparr> g"
  have s0: "sound M g0" unfolding g0_def by (rule sound_quiet [OF s quiet_prims(2)])
  obtain h o1 where tf: "turnFor e (e_turn fr) g0 = (h, o1)" by fastforce
  have sh: "sound M h" by (rule sound_quiet [OF s0 quiet_turnFor [OF tf]])
  define g1 where "g1 = (case turnFor e (e_turn fr) g0 of (h, None) \<Rightarrow> h
                | (h, Some t) \<Rightarrow>
                    let h1 = fst (close_stream e t h);
                        h2 = post_turn e t ('':warning: '' @ quoted (e_code fr) @ emdash @ truncateLine (e_message fr) 500) h1;
                        h3 = upd_store (FinishTurn (en_clock e) (e_turn fr) TurnError (e_code fr @ '': '' @ e_message fr)
                               (elapsed_ms e t) 0) h2
                    in turn_over e t (h3\<lparr>gw_turns := del (e_turn fr) (gw_turns h3)\<rparr>))"
  have "sound M g1"
  proof (cases o1)
    case None
    with tf sh show ?thesis by (simp add: g1_def)
  next
    case (Some t)
    from tf Some have t: "map_of (gw_turns h) (e_turn fr) = Some t" using turnFor_Some by blast
    define h3 where "h3 = upd_store (FinishTurn (en_clock e) (e_turn fr) TurnError (e_code fr @ '': '' @ e_message fr) (elapsed_ms e t) 0)
        (post_turn e t ('':warning: '' @ quoted (e_code fr) @ emdash @ truncateLine (e_message fr) 500) (fst (close_stream e t h)))"
    have q3: "quiet h h3" unfolding h3_def by (intro quiet_intros(14) quiet_intros(9) quiet_prims(13)) simp
    then have s3: "sound M h3" by (rule sound_quiet [OF sh])
    obtain t3 where t3: "map_of (gw_turns h3) (e_turn fr) = Some t3" "tc_ThreadID t3 = tc_ThreadID t"
      using quiet_frame(5) [OF q3] t unfolding kept_def by metis
    have "sound M (turn_over e t (h3\<lparr>gw_turns := del (e_turn fr) (gw_turns h3)\<rparr>))"
      by (rule sound_over_quiet [OF M s3 t3(1) t3(2) [symmetric] quiet_refl])
    with tf Some show ?thesis by (simp add: g1_def h3_def Let_def)
  qed
  moreover have "onRunnerError e i fr g = (if e_fatal fr then CloseWith i g1 else g1)"
    unfolding onRunnerError_def g1_def g0_def by (simp only: Let_def)
  ultimately show ?thesis using sound_quiet [OF _ quiet_prims(7)] by simp
qed

lemma sound_fold: "(\<And>x h. sound M h \<Longrightarrow> sound M (f x h)) \<Longrightarrow> sound M g \<Longrightarrow> sound M (fold f xs g)"
  by (induction xs arbitrary: g) simp_all

lemma sound_reconcile:
  assumes M: "\<forall>r. 1 \<le> M r"
  shows "sound M g \<Longrightarrow> sound M (reconcileTurns e r g)"
proof -
  have "sound M (reconcile_turn e r i h)" if s: "sound M h" for i h
  proof (cases "map_of (gw_turns h) i")
    case (Some t)
    have "sound M (turn_over e t (post_turn e t (offline_text r) (fail_turn e t x h)))" for x
      by (rule sound_given_up [OF M s Some quiet_prims(10)])
    with s Some show ?thesis by (simp add: reconcile_turn_def)
  qed (simp add: reconcile_turn_def s)
  then show "sound M g \<Longrightarrow> sound M (reconcileTurns e r g)"
    by (simp add: reconcileTurns_def sound_fold del: fold_simps)
qed

lemma sound_sweep:
  assumes M: "\<forall>r. 1 \<le> M r" and s: "sound M g"
  shows "sound M (fst (sweepStrandedOnce e timeout g))"
proof -
  have "sound M (fst (sweep_turn e timeout i (h, n)))" if s: "sound M h" for i h n
  proof (cases "map_of (gw_turns h) i")
    case (Some t)
    have "sound M (turn_over e t (fail_turn e t x h))" for x
      by (rule sound_given_up [OF M s Some quiet_refl])
    with s Some show ?thesis by (simp add: sweep_turn_def)
  qed (simp add: sweep_turn_def s)
  then have "sound M (fst gn) \<Longrightarrow> sound M (fst (fold (sweep_turn e timeout) is gn))" for "is" gn
    by (induction "is" arbitrary: gn) (simp_all, metis prod.collapse)
  with s show ?thesis by (simp add: sweepStrandedOnce_def)
qed

lemma sound_removed_turn:
  assumes s: "sound M g"
  shows "sound M (removed_turn e r i g)"
proof (cases "\<exists>t. map_of (gw_turns g) i = Some t \<and> tc_Runner t = r \<and> tc_queued t")
  case True
  then obtain t where t: "map_of (gw_turns g) i = Some t" "tc_Runner t = r" "tc_queued t" by blast
  from s t have i: "tc_TurnID t = i" by (auto simp: sound_def wf_sched_def recorded_def)
  let ?f = "\<lambda>x. forget_turn e t x g"
  have wf: "wf_sched g" "slots (\<lambda>_. 0) g" "bounded M g" "cfg_ok M (gw_cfg g)" using s by (simp_all add: sound_def)
  have "sound M (abandonTurn e t x g)" for x
  proof -
    note f = forget_turn_ok [OF wf(1) t(1) [folded i] wf(2), of e x]
    have "slots (release (tc_ThreadID t) (?f x) (\<lambda>_. 0)) (?f x)"
      by (rule slots_mono [OF f(2)]) (simp add: reserve_def release_def)
    from endThreadTurn_ok [OF f(1) this, of e] fair_endThreadTurn [of M "?f x" e] fair_forget [of M g e t x] wf(3,4)
    show ?thesis by (simp add: sound_def settled_def abandonTurn_def cfg_endThreadTurn cfg_forget fair_def)
  qed
  then have "sound M (post_turn e t y (abandonTurn e t x g))" for x y by (rule sound_quiet [OF _ quiet_prims(10)])
  with t show ?thesis by (simp add: removed_turn_def)
next
  case False
  with s show ?thesis by (auto simp: removed_turn_def split: option.split)
qed

lemma sound_dropRemoved:
  assumes s: "sound M g"
  shows "sound M (dropRemovedRunner e r g)"
proof -
  have "rows_kept s (fst (PurgeQueue r s))" for s by (simp add: PurgeQueue_def rows_kept_same)
  then have "sound M (upd_store (\<lambda>s. fst (PurgeQueue r s)) g)" by (rule sound_quiet [OF s quiet_upd_store])
  then have "sound M (fold (removed_turn e r) is (upd_store (\<lambda>s. fst (PurgeQueue r s)) g))" for "is"
    by (intro sound_fold sound_removed_turn)
  then show ?thesis unfolding dropRemovedRunner_def Let_def by (rule sound_quiet) (rule quiet_fields(4) [OF quiet_refl])
qed

subsection \<open>Every event keeps the invariant\<close>

lemma quiet_dispatch:
  assumes "\<nexists>x. fr = FDone x" "\<nexists>x. fr = FError x"
  shows "quiet g (dispatch e i fr g)"
  using assms
  by (cases fr) (simp_all add: quiet_prims(8) quiet_output quiet_onPermissionRequest quiet_onMCPCall
      quiet_onCredentialRequest quiet_onUsage quiet_onBlobBegin quiet_onBlobEnd)

lemma sound_dispatch:
  assumes M: "\<forall>r. 1 \<le> M r" and s: "sound M g"
  shows "sound M (dispatch e i fr g)"
proof (cases "(\<exists>x. fr = FDone x) \<or> (\<exists>x. fr = FError x)")
  case True
  with sound_onDone [OF M s] sound_onRunnerError [OF M s] show ?thesis by auto
next
  case False
  then show ?thesis by (intro sound_quiet [OF s quiet_dispatch]) auto
qed

lemma sound_read_one:
  assumes M: "\<forall>r. 1 \<le> M r" and s: "sound M g"
  shows "sound M (read_one e unm sh i m g)"
proof -
  define g1 where "g1 = upd_conn i (\<lambda>c. c\<lparr>cn_lastSeen := en_now e\<rparr>) g"
  have s1: "sound M g1" unfolding g1_def by (rule sound_quiet [OF s quiet_prims(6)])
  note d = sound_dispatch [OF M s1] sound_quiet [OF s1 quiet_onChunk] sound_quiet [OF s1 quiet_prims(8)] s1
  show ?thesis
  proof (cases m)
    case (TextMessage x)
    with d show ?thesis by (simp add: read_one_def Let_def g1_def [symmetric] split: sum.split)
  next
    case (BinaryMessage x)
    with d show ?thesis by (simp add: read_one_def Let_def g1_def [symmetric] split: sum.split prod.split)
  qed
qed

lemma cfg_begin: "gw_cfg (fst (beginThreadTurn e inb key r rc p g)) = gw_cfg g"
proof -
  have n: "gw_cfg g2 = gw_cfg g" if "postThreadNotice e inb p k (g\<lparr>gw_threadWaiting := w\<rparr>) = (g2, ref)" for k w g2 ref
    using same_sched_notices(2) [of "g\<lparr>gw_threadWaiting := w\<rparr>" e inb p k] that by (simp add: same_sched_def)
  then show ?thesis by (auto simp: beginThreadTurn_def Let_def split: prod.split)
qed

lemma sound_start:
  assumes s: "sound M g" and rc: "runnerConfig g r = Some rc" and b: "beginThreadTurn e inb (inb_key inb) r rc p g = (g1, st)"
  shows "sound M (if st then dispatchAdmitted e inb r rc p g1 else g1)"
proof -
  from s have w: "wf_sched g" "slots (\<lambda>_. 0) g" "bounded M g" "cfg_ok M (gw_cfg g)" by (simp_all add: sound_def)
  note o = beginThreadTurn_ok [OF w(1,2) b refl]
  have cap: "r_MaxConcurrent rc \<le> M r"
    using rc w(4) by (auto simp: runnerConfig_def cfg_ok_def split: option.splits)
  have f: "fair M g g1" by (rule bounded_begin [OF w(3) cap b])
  have c: "cfg_ok M (gw_cfg g1)" using cfg_begin [of e inb "inb_key inb" r rc p g] b w(4) by simp
  show ?thesis
  proof (cases st)
    case False
    with o f c w(3) show ?thesis by (simp add: sound_def fair_def)
  next
    case True
    have "bounded M g1" using f w(3) by (simp add: fair_def)
    with dispatchAdmitted_ok [OF o(1) o(3) [OF True], of e r rc p] fair_dispatchAdmitted [OF this cap] c True
    show ?thesis by (simp add: sound_def settled_def fair_def cfg_dispatch)
  qed
qed

lemma quiet_run_command: "quiet g (fst (run_command e inb k r th x cmd g))"
proof -
  have n: "quiet h g' \<Longrightarrow> quiet h (notice e inb y g')" for h g' y by (rule quiet_intros(5))
  have new: "quiet g ((upd_store (ClearSession k) g)\<lparr>gw_grants := gr\<rparr>)" for gr
    by (rule quiet_fields(2) [OF quiet_upd_store]) simp
  have re: "quiet g (log_event ev (upd_store (RebindThread k y) (g\<lparr>gw_grants := gr\<rparr>)))" for ev y gr
    by (intro quiet_intros(2) quiet_intros(14) quiet_fields(2)) simp_all
  show ?thesis
    by (simp add: run_command_def n [OF quiet_refl] n [OF new] n [OF re] split: option.split)
qed

lemma quiet_bind: "quiet g (g\<lparr>gw_store := TouchThread now k (fst (BindThread now k sf ch r (gw_store g)))\<rparr>)"
  using rows_kept_trans [OF rows_kept_threads(5) rows_kept_threads(2)]
  by (simp add: quiet_def shape_def)

lemma sound_OnMessage:
  assumes s: "sound M g"
  shows "sound M (OnMessage e inb g)"
proof (cases "ignored g inb")
  case True
  with s show ?thesis by (simp add: OnMessage_def split: prod.split)
next
  case go: False
  obtain x cmd arg where pc: "parseCommand (in_Text inb) = (x, cmd, arg)" by (metis prod_cases3)
  have sn: "sound M (notice e inb y g)" for y by (rule sound_quiet [OF s quiet_prims(5)])
  have st: "sound M (let persona = personaFor (Some rc);
                     (s1, thread, created) = BindThread (en_clock e) (inb_key inb) (in_Surface inb) (in_Channel inb) r (gw_store g);
                     g1 = g\<lparr>gw_store := TouchThread (en_clock e) (inb_key inb) s1\<rparr>;
                     (g2, go) = run_command e inb (inb_key inb) r thread x cmd g1
                 in if \<not> go then g2
                    else if TrimSpace x = [] \<and> in_Files inb = [] then g2
                    else (case beginThreadTurn e inb (inb_key inb) r rc persona g2 of
                        (g3, False) \<Rightarrow> g3
                      | (g3, True) \<Rightarrow> dispatchAdmitted e inb r rc persona g3))"
    if rc: "runnerConfig g r = Some rc" for r rc
  proof -
    obtain s1 th cr where b: "BindThread (en_clock e) (inb_key inb) (in_Surface inb) (in_Channel inb) r (gw_store g) = (s1, th, cr)"
      by (metis prod_cases3)
    define g1 where "g1 = g\<lparr>gw_store := TouchThread (en_clock e) (inb_key inb) s1\<rparr>"
    have q1: "quiet g g1" using quiet_bind [of g "en_clock e" "inb_key inb" "in_Surface inb" "in_Channel inb" r] b
      by (simp add: g1_def)
    obtain g2 ok where c: "run_command e inb (inb_key inb) r th x cmd g1 = (g2, ok)" by fastforce
    have q2: "quiet g g2" using quiet_trans [OF q1 quiet_run_command] c by (metis fst_conv)
    have s2: "sound M g2" by (rule sound_quiet [OF s q2])
    have rc2: "runnerConfig g2 r = Some rc" using rc quiet_frame(7) [OF q2] by (simp add: runnerConfig_def)
    obtain g3 st where bt: "beginThreadTurn e inb (inb_key inb) r rc (personaFor (Some rc)) g2 = (g3, st)" by fastforce
    from sound_start [OF s2 rc2 bt] s2 show ?thesis
      by (cases st) (simp_all add: b c bt g1_def [symmetric] Let_def)
  qed
  note st = st [unfolded Let_def]
  show ?thesis
  proof (cases "pick_runner g inb (inb_key inb)")
    case None
    with s go show ?thesis by (simp add: OnMessage_def pc)
  next
    case (Some r)
    show ?thesis
    proof (cases "runnerConfig g (if cmd = ''runner'' then arg else r)")
      case None
      with s sn go Some show ?thesis by (simp add: OnMessage_def pc Let_def)
    next
      case rc: (Some rc)
      show ?thesis unfolding OnMessage_def pc Let_def prod.case Some option.case rc using s sn go st [OF rc] by simp
    qed
  qed
qed

lemma sound_Reload:
  assumes s: "sound M g" and l: "\<And>c. loaded = Inr c \<Longrightarrow> cfg_ok M c"
  shows "sound M (Reload e b loaded g)"
proof (cases loaded)
  case (Inr c)
  have "sound M (g\<lparr>gw_cfg := c\<rparr>)"
    using s l [OF Inr] by (simp add: sound_def wf_sched_def active_def recorded_def slots_def load_def bounded_def queue_of_def)
  then have s1: "sound M (fold (push_live e b) xs (fst (applyConfig e c g)))" for xs
    by (intro sound_fold sound_quiet [OF _ quiet_push_live]) (simp_all add: applyConfig_def)
  have "sound M (drop_gone e c n h)" if "sound M h" for n h
    using that by (auto simp: drop_gone_def split: option.split intro!: sound_dropRemoved sound_quiet [OF that quiet_prims(7)])
  then have "sound M (fold (drop_gone e c) ys (fold (push_live e b) xs (fst (applyConfig e c g))))" for xs ys
    by (rule sound_fold [OF _ s1])
  with Inr show ?thesis by (simp add: Reload_def)
qed (use s in \<open>simp add: Reload_def\<close>)

subsection \<open>The machine\<close>

text \<open>One event of the gateway. The surfaces, the sockets and the clocks decide which comes next.\<close>

inductive handles :: "(string \<Rightarrow> int) \<Rightarrow> gw \<Rightarrow> gw \<Rightarrow> bool" for M where
  message: "handles M g (OnMessage e inb g)"
| decision: "handles M g (OnDecision e d g)"
| connect: "handles M g (handleRunner e b x data g)"
| receive: "handles M g (read_one e unm sh i m g)"
| written: "handles M g (write_one i ok g)"
| heartbeat: "handles M g (heartbeat_tick e p i n g)"
| disconnect: "handles M g (serve_end e i g)"
| reconcile: "handles M g (reconcileTurns e r g)"
| sweep: "handles M g (fst (sweepStrandedOnce e strandedTurnTimeout g))"
| wake: "handles M g (retryWakeAfterStop r rc deadline es g)"
| refresh: "handles M g (refreshWorking e g)"
| indicator: "handles M g (run_working e st a w g)"
| reload: "(\<And>c. loaded = Inr c \<Longrightarrow> cfg_ok M c) \<Longrightarrow> handles M g (Reload e b loaded g)"

text \<open>Start-up: the store as the last process left it, its open turns closed, everything else empty.\<close>

definition start_gw :: "Config \<Rightarrow> string \<Rightarrow> Store \<Rightarrow> gw" where
  "start_gw c now s = \<lparr>gw_cfg = c, gw_store = fst (FailOpenTurns now ''gateway_restart: turn was in flight when the gateway restarted'' s),
     gw_hub = [], gw_conns = [], gw_streams = [], gw_prompts = [], gw_turns = [], gw_queues = [], gw_threadActive = [],
     gw_threadWaiting = [], gw_grants = newGrantStore, gw_heldFiles = [], gw_wakes = [], gw_working = [], gw_latched = [],
     gw_bundles = [], gw_blobs = [], gw_ids = 0, gw_out = []\<rparr>"

inductive reachable :: "(string \<Rightarrow> int) \<Rightarrow> gw \<Rightarrow> bool" for M where
  start: "cfg_ok M c \<Longrightarrow> reachable M (start_gw c now s)"
| step: "reachable M g \<Longrightarrow> handles M g g' \<Longrightarrow> reachable M g'"

inductive_cases handlesE: "handles M g g'"

lemma sound_start_gw:
  assumes "\<forall>r. 1 \<le> M r" "cfg_ok M c"
  shows "sound M (start_gw c now s)"
proof -
  have "0 \<le> M r" for r using assms(1) by (metis order_trans zero_le_one)
  with assms(2) show ?thesis
    by (simp add: sound_def start_gw_def wf_sched_def recorded_def active_def slots_def load_def total_def bounded_def
        queue_of_def no_queue_def get_or_def)
qed

lemma sound_handles:
  assumes M: "\<forall>r. 1 \<le> M r" and s: "sound M g" and h: "handles M g g'"
  shows "sound M g'"
  using h
proof (cases rule: handles.cases)
  case (reload loaded e b)
  then show ?thesis using sound_Reload [OF s, of loaded e b] by simp
qed (use sound_quiet [OF s] in \<open>auto simp: sound_OnMessage [OF s] sound_read_one [OF M s] sound_reconcile [OF M s]
    sound_sweep [OF M s] quiet_OnDecision quiet_handleRunner quiet_write quiet_heartbeat quiet_serve_end quiet_retry quiet_working_ops\<close>)

lemma sound_reachable:
  assumes M: "\<forall>r. 1 \<le> M r"
  shows "reachable M g \<Longrightarrow> sound M g"
  by (induction rule: reachable.induct) (simp_all add: sound_start_gw [OF M] sound_handles [OF M])

subsection \<open>What follows\<close>

lemma total_two:
  assumes "distinct (map fst m)" "map_of m i = Some a" "map_of m j = Some b" "i \<noteq> j"
  shows "f a + f b \<le> total f m"
proof -
  have "total f (del i m) + f a = total f m" using total_del [OF assms(1), of f i] assms(2) by simp
  moreover have "distinct (map fst (del i m))" using assms(1) by simp
  then have "total f (del j (del i m)) + f b = total f (del i m)"
    using total_del [of "del i m" f j] assms(3,4) by simp
  ultimately show ?thesis by linarith
qed

lemma total_one: "map_of m i = Some a \<Longrightarrow> distinct (map fst m) \<Longrightarrow> f a \<le> total f m"
  using total_del [of m f i] by simp

text \<open>
  C2. A thread has at most one turn: in every reachable state two live turns of one thread are the
  same turn, the thread is marked as taken, and no message of it waits for a runner's slot meanwhile.
\<close>

theorem one_turn_per_thread:
  assumes "\<forall>r. 1 \<le> M r" "reachable M g" "map_of (gw_turns g) i = Some t"
  shows "(\<forall>j u. map_of (gw_turns g) j = Some u \<and> tc_ThreadID u = tc_ThreadID t \<longrightarrow> j = i) \<and>
    get_or False (gw_threadActive g) (tc_ThreadID t) \<and>
    (\<forall>r q qt. map_of (gw_queues g) r = Some q \<and> qt \<in> set (rq_waiting q) \<longrightarrow> inb_key (qt_in qt) \<noteq> tc_ThreadID t)"
proof -
  let ?k = "tc_ThreadID t"
  from sound_reachable [OF assms(1,2)] have w: "wf_sched g" "slots (\<lambda>_. 0) g" by (simp_all add: sound_def)
  then have d: "distinct (map fst (gw_turns g))" "distinct (map fst (gw_queues g))" by (simp_all add: wf_sched_def)
  have ld: "int (load g ?k) \<le> (if active g ?k then 1 else 0)" using w(2) by (simp add: slots_def)
  have one: "1 \<le> total (on_thread ?k) (gw_turns g)" using total_one [OF assms(3) d(1), of "on_thread ?k"] by (simp add: on_thread_def)
  with ld have act: "active g ?k" and l1: "load g ?k \<le> 1" by (auto simp: load_def split: if_splits)
  have "j = i" if "map_of (gw_turns g) j = Some u" "tc_ThreadID u = ?k" for j u
  proof (rule ccontr)
    assume "j \<noteq> i"
    from total_two [OF d(1) that(1) assms(3) this, of "on_thread ?k"] that(2) l1 show False
      by (simp add: on_thread_def load_def)
  qed
  moreover have "inb_key (qt_in qt) \<noteq> ?k" if "map_of (gw_queues g) r = Some q" "qt \<in> set (rq_waiting q)" for r q qt
  proof
    assume "inb_key (qt_in qt) = ?k"
    with that(2) have "0 < parked ?k q" unfolding parked_def by (auto simp: filter_empty_conv)
    with total_one [OF that(1) d(2), of "parked ?k"] one l1 show False by (simp add: load_def)
  qed
  ultimately show ?thesis using act unfolding active_def by blast
qed

text \<open>
  C4. In every reachable state a runner's counter of running turns stays within the largest cap that any
  loaded configuration gave it, and its waiting list within 25 messages.
\<close>

theorem runner_queue_is_bounded:
  assumes "\<forall>r. 1 \<le> M r" "reachable M g"
  shows "int (rq_active (queue_of g r)) \<le> M r \<and> length (rq_waiting (queue_of g r)) \<le> 25"
  using sound_reachable [OF assms] unfolding sound_def bounded_def maxQueueDepth_def by metis


end
