(* ===== verification/Delivery.thy ===== *)
theory Delivery
  imports Machine
begin

text \<open>
  What happens to a message end to end: accepted for a thread, queued when its runner is away, drained in
  order when it returns; and where the scheduler's counters and slots go wrong.
\<close>

subsection \<open>Accepting a message\<close>

lemma OnMessage_plain:
  assumes "\<not> ignored g inb" "pick_runner g inb (inb_key inb) = Some r" "parseCommand (in_Text inb) = (x, [], [])"
    "runnerConfig g r = Some rc" "TrimSpace x \<noteq> [] \<or> in_Files inb \<noteq> []" "\<not> active g (inb_key inb)"
  shows "OnMessage e inb g = dispatchAdmitted e inb r rc (personaFor (Some rc))
    (g\<lparr>gw_store := TouchThread (en_clock e) (inb_key inb) (fst (BindThread (en_clock e) (inb_key inb) (in_Surface inb) (in_Channel inb) r (gw_store g))),
       gw_threadActive := put (inb_key inb) True (gw_threadActive g)\<rparr>)"
proof -
  obtain s1 th cr where b: "BindThread (en_clock e) (inb_key inb) (in_Surface inb) (in_Channel inb) r (gw_store g) = (s1, th, cr)"
    by (metis prod_cases3)
  have "run_command e inb k r th x [] h = (h, True)" for k h by (simp add: run_command_def)
  with assms b show ?thesis
    by (auto simp: OnMessage_def Let_def beginThreadTurn_def active_def)
qed

subsection \<open>Draining\<close>

fun is_raw :: "effect \<Rightarrow> bool" where
  "is_raw (ERaw i f) = True"
| "is_raw _ = False"

definition raws :: "gw \<Rightarrow> effect list" where
  "raws g = filter is_raw (gw_out g)"

text \<open>The connection takes no more frames.\<close>

definition refuses :: "gw \<Rightarrow> nat \<Rightarrow> bool" where
  "refuses g i \<longleftrightarrow> (case conn_of g i of None \<Rightarrow> True | Some c \<Rightarrow> cn_done c)"

text \<open>Of the first \<open>k\<close> messages, those the store could delete are gone.\<close>

definition drained :: "env \<Rightarrow> QueuedMessage list \<Rightarrow> QueuedMessage list \<Rightarrow> QueuedMessage list" where
  "drained e sent q = filter (\<lambda>x. \<not> (\<exists>m\<in>set sent. qm_ID m = qm_ID x \<and> en_deleteQueued e (qm_ID m))) q"

lemma withHeldFiles_none: "gw_heldFiles g = [] \<Longrightarrow> \<exists>t. withHeldFiles e i frame g = (g, frame, t)"
  by (auto simp: withHeldFiles_def split: sum.split Frame.split option.split)

lemma sendRaw_sent: "sendRaw i x g = (g2, True) \<Longrightarrow> gw_out g2 = gw_out g @ [x] \<and> gw_store g2 = gw_store g \<and> gw_heldFiles g2 = gw_heldFiles g"
  by (auto simp: sendRaw_def emit_def upd_conn_def split: option.splits if_splits)

lemma sendRaw_refused:
  "sendRaw i x g = (g2, False) \<Longrightarrow> gw_out g2 = gw_out g \<and> gw_store g2 = gw_store g \<and> refuses g2 i"
  by (auto simp: sendRaw_def emit_def CloseWith_def upd_conn_def refuses_def conn_of_def split: option.splits if_splits)

lemma start_queued_frame:
  "raws (start_queued e t g) = raws g" "gw_store (start_queued e t g) = gw_store g"
  "gw_heldFiles (start_queued e t g) = gw_heldFiles g"
proof -
  have w: "raws (setWorkingForTurn e t h) = raws h \<and> gw_store (setWorkingForTurn e t h) = gw_store h \<and>
      gw_heldFiles (setWorkingForTurn e t h) = gw_heldFiles h" for h
    by (simp add: setWorkingForTurn_def setWorking_def raws_def emit_def Let_def split: option.split)
  have r: "raws (g\<lparr>gw_turns := ts\<rparr>) = raws g" for ts by (simp add: raws_def)
  from w r show "raws (start_queued e t g) = raws g" "gw_store (start_queued e t g) = gw_store g"
    "gw_heldFiles (start_queued e t g) = gw_heldFiles g"
    by (simp_all add: start_queued_def split: option.split)
qed

lemma drained_Cons:
  "drained e (m # ms) q = drained e ms (if en_deleteQueued e (qm_ID m) then filter (\<lambda>x. qm_ID x \<noteq> qm_ID m) q else q)"
  by (auto simp: drained_def intro: filter_cong)

lemma drain_msgs_fifo:
  "gw_heldFiles g = [] \<Longrightarrow> \<exists>k \<le> length ms.
     raws (drain_msgs e i ms g) = raws g @ map (\<lambda>m. ERaw i (qm_Frame m)) (take k ms) \<and>
     Queue (gw_store (drain_msgs e i ms g)) = drained e (take k ms) (Queue (gw_store g)) \<and>
     (k < length ms \<longrightarrow> refuses (drain_msgs e i ms g) i)"
proof (induction ms arbitrary: g)
  case Nil
  then show ?case by (simp add: drained_def)
next
  case (Cons m ms)
  obtain t where w: "withHeldFiles e i (qm_Frame m) g = (g, qm_Frame m, t)" using withHeldFiles_none [OF Cons.prems] by blast
  obtain g2 ok where k: "sendRaw i (ERaw i (qm_Frame m)) g = (g2, ok)" by fastforce
  show ?case
  proof (cases ok)
    case False
    with k have "gw_out g2 = gw_out g" "gw_store g2 = gw_store g" "refuses g2 i" using sendRaw_refused by auto
    with w k False show ?thesis by (intro exI [of _ 0]) (simp add: raws_def drained_def)
  next
    case True
    with k have s: "gw_out g2 = gw_out g @ [ERaw i (qm_Frame m)]" "gw_store g2 = gw_store g" "gw_heldFiles g2 = []"
      using sendRaw_sent Cons.prems by auto
    define g3 where "g3 = (case t of None \<Rightarrow> g2 | Some t \<Rightarrow> start_queued e t g2)"
    define g4 where "g4 = (if en_deleteQueued e (qm_ID m) then upd_store (DeleteQueued (qm_ID m)) g3 else g3)"
    have g3: "raws g3 = raws g @ [ERaw i (qm_Frame m)]" "gw_store g3 = gw_store g" "gw_heldFiles g3 = []"
      using s start_queued_frame [of e _ g2] by (auto simp: g3_def raws_def split: option.split)
    have g4: "raws g4 = raws g3" "gw_heldFiles g4 = []"
      "Queue (gw_store g4) = (if en_deleteQueued e (qm_ID m) then filter (\<lambda>x. qm_ID x \<noteq> qm_ID m) (Queue (gw_store g)) else Queue (gw_store g))"
      using g3 by (simp_all add: g4_def raws_def upd_store_def DeleteQueued_def)
    have d: "drain_msgs e i (m # ms) g = drain_msgs e i ms g4"
      using w k True by (simp add: g3_def [symmetric] g4_def Let_def)
    from Cons.IH [OF g4(2)] obtain n where n: "n \<le> length ms"
      "raws (drain_msgs e i ms g4) = raws g4 @ map (\<lambda>m. ERaw i (qm_Frame m)) (take n ms)"
      "Queue (gw_store (drain_msgs e i ms g4)) = drained e (take n ms) (Queue (gw_store g4))"
      "n < length ms \<longrightarrow> refuses (drain_msgs e i ms g4) i" by blast
    show ?thesis unfolding d
      by (rule exI [of _ "Suc n"]) (use n g3 g4 in \<open>simp add: drained_Cons\<close>)
  qed
qed

lemma wakeConnected_frame:
  "raws (wakeConnected e r g) = raws g" "gw_store (wakeConnected e r g) = gw_store g"
  "gw_heldFiles (wakeConnected e r g) = gw_heldFiles g" "gw_conns (wakeConnected e r g) = gw_conns g"
  "gw_turns (wakeConnected e r g) = gw_turns g"
proof -
  let ?T = "\<lambda>h. (raws h, gw_store h, gw_heldFiles h, gw_conns h, gw_turns h)"
  have f: "?T (fold f ns h) = ?T h" if "\<And>n h. ?T (f n h) = ?T h" for f :: "wakeNotice \<Rightarrow> gw \<Rightarrow> gw" and ns h
    using that by (induction ns arbitrary: h) simp_all
  have u: "?T (update_post s r p h) = ?T h" "?T (h\<lparr>gw_wakes := w\<rparr>) = ?T h" for s r p h w
    by (simp_all add: update_post_def emit_def raws_def)
  have "?T (wakeConnected e r g) = ?T g"
  proof (cases "map_of (gw_wakes g) r")
    case (Some st)
    show ?thesis unfolding wakeConnected_def Some option.case
      by (rule trans [OF f u(2)]) (use u(1) in \<open>simp split: if_split\<close>)
  qed (simp add: wakeConnected_def)
  then show "raws (wakeConnected e r g) = raws g" "gw_store (wakeConnected e r g) = gw_store g"
    "gw_heldFiles (wakeConnected e r g) = gw_heldFiles g" "gw_conns (wakeConnected e r g) = gw_conns g"
    "gw_turns (wakeConnected e r g) = gw_turns g" by simp_all
qed


definition queue_of_two :: "QueuedMessage list" where
  "queue_of_two = [\<lparr>qm_ID = 1, qm_Runner = ''box'', qm_ThreadID = ''a'', qm_Frame = ''f1''\<rparr>,
     \<lparr>qm_ID = 2, qm_Runner = ''box'', qm_ThreadID = ''b'', qm_Frame = ''f2''\<rparr>]"


subsection \<open>A runner that is away\<close>

lemma setWorking_frame:
  "gw_turns (setWorking e k s c th p x b g) = gw_turns g" "gw_store (setWorking e k s c th p x b g) = gw_store g"
  by (simp_all add: setWorking_def emit_def Let_def)

lemma requestWake_frame: "Queue (gw_store (fst (requestWake e r rc g))) = Queue (gw_store g)"
  by (simp add: requestWake_def startMachine_def set_wake_def Let_def log_event_def Log_def emit_def split_beta)

lemma postWakeNotice_store: "gw_store (postWakeNotice e inb r p x g) = gw_store g"
  by (simp add: postWakeNotice_def post_def emit_def set_wake_def Let_def split: option.split)

lemma notice_store: "gw_store (notice e inb x g) = gw_store g"
  by (simp add: notice_def post_def emit_def Let_def)

lemma same_sched_queueing:
  assumes "requestWake e r rc g = (g3, status)"
  shows "same_sched g (case status of wakeFailed m \<Rightarrow> postWakeNotice e inb r p x g3 | _ \<Rightarrow> setWaiting e inb rc y (postWakeNotice e inb r p x g3))"
proof -
  have "same_sched g g3" using same_sched_requestWake [of g e r rc] assms by simp
  then have q: "same_sched g (postWakeNotice e inb r p x g3)" using same_sched_trans same_sched_postWake by blast
  then show ?thesis using same_sched_trans [OF q same_sched_working(3)] by (simp split: wakeStatus.split)
qed

text \<open>Queueing a message that fits: it is the last row, and its turn waits.\<close>

lemma queueMessage_ok:
  assumes fits: "\<not> (0 < g_QueueLimit (Gateway (gw_cfg g)) \<and> g_QueueLimit (Gateway (gw_cfg g)) \<le> int (QueueDepth (gw_store g) r))"
    and raw: "Encode (en_json e) (Some (FMessage msg)) = Inr raw" and eq: "en_enqueue e (tc_TurnID t)"
    and t: "map_of (gw_turns g) (tc_TurnID t) = Some t" and q: "queueMessage_start e inb r t msg g = (g', ab)"
  shows "ab = None" "gw_turns g' = put (tc_TurnID t) (t\<lparr>tc_queued := True\<rparr>) (gw_turns g)"
    "\<exists>n. Queue (gw_store g') = Queue (gw_store g) @ [\<lparr>qm_ID = n, qm_Runner = r, qm_ThreadID = tc_ThreadID t, qm_Frame = raw\<rparr>]"
proof -
  define g1 where "g1 = (upd_store (Enqueue r (tc_ThreadID t) raw) g)\<lparr>gw_turns := put (tc_TurnID t) (t\<lparr>tc_queued := True\<rparr>) (gw_turns g)\<rparr>"
  have g1: "gw_turns g1 = put (tc_TurnID t) (t\<lparr>tc_queued := True\<rparr>) (gw_turns g)"
    "Queue (gw_store g1) = Queue (gw_store g) @ [\<lparr>qm_ID = NextQueueID (gw_store g), qm_Runner = r, qm_ThreadID = tc_ThreadID t, qm_Frame = raw\<rparr>]"
    by (simp_all add: g1_def upd_store_def Enqueue_def)
  have "ab = None \<and> gw_turns g' = gw_turns g1 \<and> Queue (gw_store g') = Queue (gw_store g1)"
  proof (cases "\<exists>rc. runnerConfig g1 r = Some rc \<and> Wakeable (Some rc)")
    case True
    then obtain rc where rc: "runnerConfig g1 r = Some rc" "Wakeable (Some rc)" by blast
    obtain g3 st where w: "requestWake e r rc g1 = (g3, st)" by fastforce
    have s: "gw_turns (case st of wakeFailed m \<Rightarrow> postWakeNotice e inb r p x g3 | _ \<Rightarrow> setWaiting e inb rc y (postWakeNotice e inb r p x g3)) = gw_turns g1"
      for p x y using same_sched_queueing [OF w, where inb = inb and p = p and x = x and y = y] by (simp add: same_sched_def)
    have st: "Queue (gw_store (case st of wakeFailed m \<Rightarrow> postWakeNotice e inb r p x g3 | _ \<Rightarrow> setWaiting e inb rc y (postWakeNotice e inb r p x g3))) = Queue (gw_store g1)"
      for p x y using requestWake_frame [of e r rc g1] w
      by (simp add: setWaiting_def setWorking_frame postWakeNotice_store split: wakeStatus.split)
    show ?thesis using q fits raw eq t rc w s st
      by (auto simp: queueMessage_start_def Let_def upd_store_def g1_def runnerConfig_def)
  next
    case False
    have n: "gw_turns (notice e inb x g1) = gw_turns g1" for x
      using same_sched_prims(6) [of g1 e inb x] by (simp add: same_sched_def)
    show ?thesis using q fits raw eq t False n
      by (auto simp: queueMessage_start_def Let_def upd_store_def g1_def runnerConfig_def notice_store split: option.splits if_splits)
  qed
  with g1 show "ab = None" "gw_turns g' = put (tc_TurnID t) (t\<lparr>tc_queued := True\<rparr>) (gw_turns g)"
    "\<exists>n. Queue (gw_store g') = Queue (gw_store g) @ [\<lparr>qm_ID = n, qm_Runner = r, qm_ThreadID = tc_ThreadID t, qm_Frame = raw\<rparr>]"
    by auto
qed

text \<open>A message for an away runner reaches the offline queue with its turn opened.\<close>

lemma offline_start:
  fixes e g inb r rc
  defines "i \<equiv> en_id e ''turn'' (gw_ids g)"
  defines "t \<equiv> new_turn e inb r rc (personaFor (Some rc)) i"
  assumes msg: "\<not> ignored g inb" "pick_runner g inb (inb_key inb) = Some r" "parseCommand (in_Text inb) = (x, [], [])"
      "runnerConfig g r = Some rc" "TrimSpace x \<noteq> [] \<or> in_Files inb \<noteq> []"
    and free: "\<not> get_or False (gw_threadActive g) (inb_key inb)" and away: "hub_Get g r = None"
    and store: "en_startTurn e i" "TurnRow (gw_store g) i = None"
  shows "\<exists>g3. gw_turns g3 = put i t (gw_turns g) \<and> gw_cfg g3 = gw_cfg g \<and> Queue (gw_store g3) = Queue (gw_store g) \<and>
    OnMessage e inb g = finish_start e inb (queueMessage_start e inb r t (new_message inb rc t) g3)"
proof -
  let ?k = "inb_key inb"
  let ?p = "personaFor (Some rc)"
  define g1 where "g1 = g\<lparr>gw_store := TouchThread (en_clock e) ?k (fst (BindThread (en_clock e) ?k (in_Surface inb) (in_Channel inb) r (gw_store g))),
       gw_threadActive := put ?k True (gw_threadActive g)\<rparr>"
  have s1: "Queue (gw_store g1) = Queue (gw_store g)" "Turns (gw_store g1) = Turns (gw_store g)"
    by (simp_all add: g1_def TouchThread_def BindThread_def update_thread_def Let_def split: option.split)
  have o: "OnMessage e inb g = dispatchAdmitted e inb r rc ?p g1"
    unfolding g1_def by (rule OnMessage_plain [OF msg]) (use free in \<open>simp add: active_def\<close>)
  have no: "\<not> has_key (Turns (gw_store g1)) i" using store(2) s1(2) by (simp add: TurnRow_def has_key_def)
  define g2 where "g2 = fst (open_turn e inb r rc ?p g1)"
  have op: "open_turn e inb r rc ?p g1 = (g2, Some t)" and g2: "gw_turns g2 = put i t (gw_turns g)" "gw_cfg g2 = gw_cfg g"
    "Queue (gw_store g2) = Queue (gw_store g)" "gw_hub g2 = gw_hub g"
    using store(1) no s1(1) by (simp_all add: g2_def open_turn_def newID_def StartTurn_def t_def i_def g1_def Let_def)
  define g3 where "g3 = (if in_Files inb \<noteq> [] then g2\<lparr>gw_heldFiles := put (tc_TurnID t) (in_Files inb) (gw_heldFiles g2)\<rparr> else g2)"
  have g3: "gw_turns g3 = put i t (gw_turns g)" "gw_cfg g3 = gw_cfg g" "Queue (gw_store g3) = Queue (gw_store g)"
    using g2 by (simp_all add: g3_def)
  have ho: "hand_over e inb r rc t g2 = queueMessage_start e inb r t (new_message inb rc t) g3"
    using away g2(4) by (simp add: hand_over_def live_conn_def hub_Get_def g3_def Let_def)
  have h1: "hub_Get g1 r = None" using away by (simp add: hub_Get_def g1_def)
  have "OnMessage e inb g = finish_start e inb (queueMessage_start e inb r t (new_message inb rc t) g3)"
    unfolding o dispatchAdmitted_def admitted_start_def using h1 op ho by (simp add: dispatch_start_def)
  with g3 show ?thesis by blast
qed

text \<open>
  C16. A message for a thread that has no turn, whose runner is away, is not lost: while the queue has
  room it becomes the queue's last row, under its runner, and its turn is live and waiting.
\<close>

theorem offline_message_is_queued:
  fixes e g inb r
  defines "i \<equiv> en_id e ''turn'' (gw_ids g)"
  assumes msg: "\<not> ignored g inb" "pick_runner g inb (inb_key inb) = Some r" "parseCommand (in_Text inb) = (x, [], [])"
      "runnerConfig g r = Some rc" "TrimSpace x \<noteq> [] \<or> in_Files inb \<noteq> []"
    and free: "\<not> get_or False (gw_threadActive g) (inb_key inb)" and away: "hub_Get g r = None"
    and room: "int (QueueDepth (gw_store g) r) < g_QueueLimit (Gateway (gw_cfg g))"
    and store: "en_startTurn e i" "TurnRow (gw_store g) i = None" "en_enqueue e i"
    and raw: "Encode (en_json e) (Some (FMessage (new_message inb rc (new_turn e inb r rc (personaFor (Some rc)) i)))) = Inr raw"
  shows "(\<exists>n. Queue (gw_store (OnMessage e inb g)) =
        Queue (gw_store g) @ [\<lparr>qm_ID = n, qm_Runner = r, qm_ThreadID = inb_key inb, qm_Frame = raw\<rparr>]) \<and>
    (\<exists>t. map_of (gw_turns (OnMessage e inb g)) i = Some t \<and> tc_queued t \<and> tc_ThreadID t = inb_key inb \<and> tc_Runner t = r)"
proof -
  define t where "t = new_turn e inb r rc (personaFor (Some rc)) i"
  have t: "tc_TurnID t = i" "tc_ThreadID t = inb_key inb" "tc_Runner t = r" by (simp_all add: t_def new_turn_def inb_key_def)
  obtain g3 where g3: "gw_turns g3 = put i t (gw_turns g)" "gw_cfg g3 = gw_cfg g" "Queue (gw_store g3) = Queue (gw_store g)"
    "OnMessage e inb g = finish_start e inb (queueMessage_start e inb r t (new_message inb rc t) g3)"
    using offline_start [OF msg free away store(1,2) [unfolded i_def]] by (auto simp: t_def i_def)
  obtain g' ab where q: "queueMessage_start e inb r t (new_message inb rc t) g3 = (g', ab)" by fastforce
  have "\<not> (0 < g_QueueLimit (Gateway (gw_cfg g3)) \<and> g_QueueLimit (Gateway (gw_cfg g3)) \<le> int (QueueDepth (gw_store g3) r))"
    using room g3 by (simp add: QueueDepth_def)
  from queueMessage_ok [OF this raw [folded t_def] _ _ q] store(3) t g3 q show ?thesis
    by (simp add: finish_start_def)
qed

text \<open>A first message in a routed channel, with the runner away.\<close>

definition hello_in :: "string \<Rightarrow> Inbound" where
  "hello_in th = \<lparr>in_Surface = ''slack'', in_Channel = ''C1'', in_Thread = th, in_User = sample_user, in_Text = ''hi'',
     in_IsDM = False, in_Addressed = True, in_Files = [], in_ChannelName = [], in_BotID = []\<rparr>"

definition booted :: gw where
  "booted = start_gw sample_config ''now'' Open"

lemma hello_parse: "parseCommand (in_Text (hello_in th)) = (''hi'', [], [])"
proof -
  have t: "TrimSpace ''hi'' = ''hi''" by (rule TrimSpace_graphic) (simp_all add: graphic_def)
  show ?thesis by (simp add: parseCommand_def t HasPrefix_def bang_def hello_in_def)
qed

lemma hello_trim: "TrimSpace ''hi'' \<noteq> []"
proof -
  have "TrimSpace ''hi'' = ''hi''" by (rule TrimSpace_graphic) (simp_all add: graphic_def)
  then show ?thesis by simp
qed

lemma hello_route: "RunnerFor sample_config ''C1'' False = Some ''box''"
  by (simp add: RunnerFor_def route_matches_def sample_config_def)

lemma hello_accepted:
  assumes "gw_cfg g = sample_config" "ThreadRow (gw_store g) (inb_key (hello_in th)) = None"
  shows "\<not> ignored g (hello_in th)" "pick_runner g (hello_in th) (inb_key (hello_in th)) = Some ''box''"
    "runnerConfig g ''box'' = Some sample_runner"
  using assms by (simp_all add: ignored_def pick_runner_def runnerConfig_def)
    (simp_all add: hello_in_def hello_route, simp add: sample_config_def)

lemma sample_encode:
  "in_Files inb = [] \<Longrightarrow> usr_ID (in_User inb) \<noteq> [] \<Longrightarrow> i \<noteq> [] \<Longrightarrow>
     \<exists>raw. Encode (en_json sample_env) (Some (FMessage (new_message inb rc (new_turn sample_env inb r rc p i)))) = Inr raw"
  by (simp add: Encode_def sample_env_def sample_json_def new_message_def new_turn_def validate_Message_def threadKey_def has_key_def)

lemma booted_fields:
  "ThreadRow (gw_store booted) k = None" "TurnRow (gw_store booted) k = None" "Queue (gw_store booted) = []"
  "gw_cfg booted = sample_config" "gw_threadActive booted = []" "gw_hub booted = []" "gw_ids booted = 0"
  "gw_turns booted = []"
  by (simp_all add: booted_def start_gw_def ThreadRow_def TurnRow_def FailOpenTurns_def Open_def)

lemma booted_hello:
  "\<exists>t. map_of (gw_turns (OnMessage sample_env (hello_in ''1'') booted)) ''turn_'' = Some t \<and> tc_ThreadID t = ''slack:C1:1''"
proof -
  let ?t = "new_turn sample_env (hello_in ''1'') ''box'' sample_runner (personaFor (Some sample_runner)) ''turn_''"
  have i: "en_id sample_env ''turn'' (gw_ids booted) = ''turn_''" by (simp add: sample_env_def booted_fields)
  have t: "tc_ThreadID ?t = ''slack:C1:1''" "tc_TurnID ?t = ''turn_''"
    by (simp_all add: new_turn_def hello_in_def threadKey_def)
  note a = hello_accepted [OF booted_fields(4,1)]
  have b: "\<not> get_or False (gw_threadActive booted) (inb_key (hello_in ''1''))" "hub_Get booted ''box'' = None"
    "en_startTurn sample_env ''turn_''" "TurnRow (gw_store booted) ''turn_'' = None"
    by (simp_all add: booted_fields hub_Get_def sample_env_def)
  obtain g3 where g3: "gw_turns g3 = put ''turn_'' ?t []" "gw_cfg g3 = sample_config" "Queue (gw_store g3) = []"
    "OnMessage sample_env (hello_in ''1'') booted =
       finish_start sample_env (hello_in ''1'') (queueMessage_start sample_env (hello_in ''1'') ''box'' ?t (new_message (hello_in ''1'') sample_runner ?t) g3)"
    using offline_start [OF a(1,2) hello_parse a(3), where e = sample_env, unfolded i, OF _ b] hello_trim
    by (auto simp: booted_fields)
  obtain g' ab where q: "queueMessage_start sample_env (hello_in ''1'') ''box'' ?t (new_message (hello_in ''1'') sample_runner ?t) g3 = (g', ab)"
    by fastforce
  have f: "in_Files (hello_in ''1'') = []" "usr_ID (in_User (hello_in ''1'')) \<noteq> []" "''turn_'' \<noteq> []"
    by (simp_all add: hello_in_def sample_user_def)
  from sample_encode [OF f] obtain raw where
    raw: "Encode (en_json sample_env) (Some (FMessage (new_message (hello_in ''1'') sample_runner ?t))) = Inr raw" by blast
  have "\<not> (0 < g_QueueLimit (Gateway (gw_cfg g3)) \<and> g_QueueLimit (Gateway (gw_cfg g3)) \<le> int (QueueDepth (gw_store g3) ''box''))"
    using g3 by (simp add: QueueDepth_def sample_config_def sample_gateway_def)
  from queueMessage_ok [OF this raw _ _ q] g3 q t show ?thesis by (simp add: finish_start_def sample_env_def)
qed

lemma booted_reachable: "reachable (\<lambda>_. 1) (OnMessage e inb booted)"
proof -
  have "cfg_ok (\<lambda>_. 1) sample_config" by (simp add: cfg_ok_def sample_config_def sample_runner_def)
  then have "reachable (\<lambda>_. 1) booted" unfolding booted_def by (rule reachable.start)
  then show ?thesis by (rule reachable.step) (rule handles.message)
qed

theorem one_turn_per_thread_witness:
  "get_or False (gw_threadActive (OnMessage sample_env (hello_in ''1'') booted)) ''slack:C1:1''"
proof -
  obtain t where t: "map_of (gw_turns (OnMessage sample_env (hello_in ''1'') booted)) ''turn_'' = Some t" "tc_ThreadID t = ''slack:C1:1''"
    using booted_hello by blast
  from one_turn_per_thread [OF _ booted_reachable t(1)] t(2) show ?thesis by simp
qed

theorem offline_message_is_queued_witness:
  "(\<exists>n raw. Queue (gw_store (OnMessage sample_env (hello_in ''1'') booted)) =
      [\<lparr>qm_ID = n, qm_Runner = ''box'', qm_ThreadID = ''slack:C1:1'', qm_Frame = raw\<rparr>])"
proof -
  let ?i = "en_id sample_env ''turn'' (gw_ids booted)"
  note n = booted_fields(1,2,3) and c = booted_fields(4,5,6)
  have f: "in_Files (hello_in ''1'') = []" "usr_ID (in_User (hello_in ''1'')) \<noteq> []" "?i \<noteq> []"
    by (simp_all add: hello_in_def sample_user_def sample_env_def)
  note a = hello_accepted [OF c(1) n(1)]
  obtain raw where raw: "Encode (en_json sample_env) (Some (FMessage (new_message (hello_in ''1'') sample_runner
      (new_turn sample_env (hello_in ''1'') ''box'' sample_runner (personaFor (Some sample_runner)) ?i)))) = Inr raw"
    using sample_encode [OF f] by blast
  have "\<not> get_or False (gw_threadActive booted) (inb_key (hello_in ''1''))" "hub_Get booted ''box'' = None"
    "int (QueueDepth (gw_store booted) ''box'') < g_QueueLimit (Gateway (gw_cfg booted))" "en_startTurn sample_env ?i"
    "en_enqueue sample_env ?i"
    by (simp_all add: c hub_Get_def QueueDepth_def n sample_config_def sample_gateway_def sample_env_def)
  note b = this
  from offline_message_is_queued [OF a(1,2) hello_parse a(3) _ b(1,2,3,4) n(2) b(5) raw] hello_trim n(3)
  show ?thesis by (auto simp: inb_key_def hello_in_def threadKey_def)
qed

theorem runner_queue_is_bounded_witness:
  "rq_active (queue_of (OnMessage sample_env (hello_in ''1'') booted) ''box'') \<le> 1"
  using runner_queue_is_bounded [OF _ booted_reachable, where r = "''box''"] by simp


subsection \<open>A thread that stays taken\<close>

lemma admit_full:
  assumes "maxQueueDepth \<le> length (rq_waiting (queue_of g r))"
  shows "\<exists>x. admit e inb r rc p g = (notice e inb x (set_queue r (queue_of g r) g), True)"
proof -
  have "rq_waiting (queue_of g r) \<noteq> []" using assms by (auto simp: maxQueueDepth_def)
  with assms show ?thesis by (auto simp: admit_def Let_def)
qed

text \<open>
  C39. When a runner's waiting list is full, the message is turned away, but the thread it was for stays
  marked as taken although it has neither a turn nor a waiting message: every later message in that
  thread is parked behind a turn that does not exist, until the gateway restarts.
\<close>

theorem rejected_message_keeps_its_thread:
  assumes msg: "\<not> ignored g inb" "pick_runner g inb (inb_key inb) = Some r" "parseCommand (in_Text inb) = (x, [], [])"
      "runnerConfig g r = Some rc" "TrimSpace x \<noteq> [] \<or> in_Files inb \<noteq> []"
    and free: "\<not> get_or False (gw_threadActive g) (inb_key inb)"
    and busy: "hub_Get g r \<noteq> None" "0 < r_MaxConcurrent rc" "25 \<le> length (rq_waiting (queue_of g r))"
  shows "get_or False (gw_threadActive (OnMessage e inb g)) (inb_key inb) \<and>
    gw_turns (OnMessage e inb g) = gw_turns g \<and> gw_threadWaiting (OnMessage e inb g) = gw_threadWaiting g \<and>
    (\<forall>r'. rq_waiting (queue_of (OnMessage e inb g) r') = rq_waiting (queue_of g r')) \<and>
    (\<forall>e' inb' r' rc' p'. \<not> snd (beginThreadTurn e' inb' (inb_key inb) r' rc' p' (OnMessage e inb g)))"
proof -
  let ?k = "inb_key inb"
  define g1 where "g1 = g\<lparr>gw_store := TouchThread (en_clock e) ?k (fst (BindThread (en_clock e) ?k (in_Surface inb) (in_Channel inb) r (gw_store g))),
       gw_threadActive := put ?k True (gw_threadActive g)\<rparr>"
  have q: "queue_of g1 r' = queue_of g r'" for r' by (simp add: g1_def queue_of_def)
  have "maxQueueDepth \<le> length (rq_waiting (queue_of g1 r))" using busy(3) by (simp add: q maxQueueDepth_def)
  then obtain y where a: "admit e inb r rc (personaFor (Some rc)) g1 = (notice e inb y (set_queue r (queue_of g1 r) g1), True)"
    using admit_full by blast
  have h: "hub_Get g1 r \<noteq> None" using busy(1) by (simp add: hub_Get_def g1_def)
  have "OnMessage e inb g = dispatchAdmitted e inb r rc (personaFor (Some rc)) g1"
    unfolding g1_def by (rule OnMessage_plain [OF msg]) (use free in \<open>simp add: active_def\<close>)
  also have "\<dots> = notice e inb y (set_queue r (queue_of g1 r) g1)"
    using h busy(2) a by (simp add: dispatchAdmitted_def admitted_start_def finish_start_def)
  finally have o: "OnMessage e inb g = notice e inb y (set_queue r (queue_of g1 r) g1)" .
  have f: "same_sched (set_queue r (queue_of g1 r) g1) (OnMessage e inb g)" unfolding o by (rule same_sched_prims(6))
  then have t: "get_or False (gw_threadActive (OnMessage e inb g)) ?k" "gw_turns (OnMessage e inb g) = gw_turns g"
    "gw_threadWaiting (OnMessage e inb g) = gw_threadWaiting g" "gw_queues (OnMessage e inb g) = gw_queues (set_queue r (queue_of g1 r) g1)"
    by (simp_all add: same_sched_def set_queue_def g1_def)
  have "queue_of (OnMessage e inb g) r' = queue_of g r'" for r'
    using t(4) queue_of_set [of r "queue_of g1 r" g1 r'] q by (simp add: queue_of_def)
  moreover have "\<not> snd (beginThreadTurn e' inb' ?k r' rc' p' (OnMessage e inb g))" for e' inb' r' rc' p'
    using t(1) by (simp add: beginThreadTurn_def Let_def split_beta)
  ultimately show ?thesis using t by simp
qed

text \<open>The sample runner is connected and twenty-five messages wait for its one slot.\<close>

definition full_gw :: gw where
  "full_gw = sample_gw\<lparr>gw_queues := [(''box'', \<lparr>rq_active = 1, rq_waiting = replicate 25
     \<lparr>qt_in = hello_in ''9'', qt_runner = ''box'', qt_rc = sample_runner, qt_persona = no_persona, qt_noticeRef = None\<rparr>\<rparr>)]\<rparr>"

theorem rejected_message_keeps_its_thread_witness:
  "get_or False (gw_threadActive (OnMessage sample_env (hello_in ''1'') full_gw)) ''slack:C1:1'' \<and>
   gw_turns (OnMessage sample_env (hello_in ''1'') full_gw) = []"
proof -
  have c: "gw_cfg full_gw = sample_config" "ThreadRow (gw_store full_gw) (inb_key (hello_in ''1'')) = None"
    by (simp_all add: full_gw_def sample_gw_def ThreadRow_def Open_def)
  note a = hello_accepted [OF c]
  have "\<not> get_or False (gw_threadActive full_gw) (inb_key (hello_in ''1''))" "hub_Get full_gw ''box'' \<noteq> None"
    "0 < r_MaxConcurrent sample_runner" "25 \<le> length (rq_waiting (queue_of full_gw ''box''))"
    by (simp_all add: full_gw_def sample_gw_def hub_Get_def sample_runner_def queue_of_def get_or_def)
  from rejected_message_keeps_its_thread [OF a(1,2) hello_parse a(3) _ this, of sample_env] hello_trim
  show ?thesis by (simp add: inb_key_def hello_in_def threadKey_def full_gw_def sample_gw_def)
qed

subsection \<open>Turns the cap does not see\<close>

text \<open>
  The concurrency cap does not count replayed turns: when a queued message is delivered its turn runs
  from then on, but the runner's counter of running turns stays as it was, so that a runner at its cap
  runs more turns than the cap allows.
\<close>

theorem replayed_turn_is_not_counted:
  assumes t: "map_of (gw_turns g) (tc_TurnID t) = Some t" and m: "Dequeue (gw_store g) (conn_runner g i) 1000 = [m]"
    and d: "Decode (en_json e) (qm_Frame m) DirDown = Inr (FMessage msg)" "m_turn msg = tc_TurnID t" "gw_heldFiles g = []"
    and c: "conn_of g i = Some c" "\<not> cn_done c" "cn_queued c < out_capacity"
  shows "gw_queues (drainQueue e i g) = gw_queues g \<and>
    (\<exists>t'. map_of (gw_turns (drainQueue e i g)) (tc_TurnID t) = Some t' \<and> \<not> tc_queued t' \<and> tc_Runner t' = tc_Runner t)"
proof -
  let ?g = "wakeConnected e (conn_runner g i) g"
  have w: "withHeldFiles e i (qm_Frame m) ?g = (?g, qm_Frame m, Some t)"
    using t d by (simp add: withHeldFiles_def wakeConnected_frame)
  have co: "conn_of ?g i = Some c" using c(1) by (simp add: conn_of_def wakeConnected_frame)
  define g2 where "g2 = fst (sendRaw i (ERaw i (qm_Frame m)) ?g)"
  have k: "sendRaw i (ERaw i (qm_Frame m)) ?g = (g2, True)" and g2: "gw_turns g2 = gw_turns g"
    using co c(2,3) by (simp_all add: g2_def sendRaw_def emit_def upd_conn_def wakeConnected_frame)
  have sw: "gw_turns (setWorkingForTurn e t h) = gw_turns h" for h
    by (simp add: setWorkingForTurn_def setWorking_frame split: option.split)
  have "gw_turns (drainQueue e i g) = put (tc_TurnID t) (t\<lparr>tc_lastActivity := en_now e, tc_queued := False\<rparr>) (gw_turns g)"
    using t g2 by (simp add: drainQueue_def Let_def wakeConnected_frame m w k start_queued_def sw upd_store_def)
  then show ?thesis using quiet_drainQueue [of g e i] by (simp add: quiet_def)
qed

definition replay_msg :: Message where
  "replay_msg = new_message (hello_in ''1'') sample_runner (new_turn sample_env (hello_in ''1'') ''box'' sample_runner no_persona ''turn_1'')"

definition replay_env :: env where
  "replay_env = sample_env\<lparr>en_json := sample_json\<lparr>unmarshal_probe := (\<lambda>d. Some ''message''),
     unmarshal_frame := (\<lambda>d z. Some (FMessage replay_msg))\<rparr>\<rparr>"

text \<open>A runner with one slot, taken by another turn, and one queued message.\<close>

definition replay_gw :: gw where
  "replay_gw = sample_gw\<lparr>gw_queues := [(''box'', \<lparr>rq_active = 1, rq_waiting = []\<rparr>)],
     gw_turns := [(''turn_0'', sample_turn\<lparr>tc_TurnID := ''turn_0''\<rparr>),
       (''turn_1'', (new_turn sample_env (hello_in ''1'') ''box'' sample_runner no_persona ''turn_1'')\<lparr>tc_queued := True\<rparr>)],
     gw_store := Open\<lparr>Queue := [\<lparr>qm_ID = 1, qm_Runner = ''box'', qm_ThreadID = ''slack:C1:1'', qm_Frame = []\<rparr>]\<rparr>\<rparr>"

theorem replayed_turn_is_not_counted_witness:
  "rq_active (queue_of (drainQueue replay_env 0 replay_gw) ''box'') = 1 \<and> r_MaxConcurrent sample_runner = 1 \<and>
   (\<exists>t'. map_of (gw_turns (drainQueue replay_env 0 replay_gw)) ''turn_1'' = Some t' \<and> \<not> tc_queued t' \<and> tc_Runner t' = ''box'')"
proof -
  let ?t = "(new_turn sample_env (hello_in ''1'') ''box'' sample_runner no_persona ''turn_1'')\<lparr>tc_queued := True\<rparr>"
  let ?m = "\<lparr>qm_ID = 1, qm_Runner = ''box'', qm_ThreadID = ''slack:C1:1'', qm_Frame = []\<rparr>"
  let ?c = "\<lparr>cn_runner = ''box'', cn_queued = 0, cn_done = False, cn_closed = False, cn_lastSeen = 0,
        cn_bundleVersion = 0, cn_bundleDigest = []\<rparr>"
  have i: "tc_TurnID ?t = ''turn_1''" "tc_Runner ?t = ''box''" by (simp_all add: new_turn_def)
  have t: "map_of (gw_turns replay_gw) (tc_TurnID ?t) = Some ?t" by (simp add: i replay_gw_def)
  have c: "conn_of replay_gw 0 = Some ?c" by (simp add: replay_gw_def sample_gw_def conn_of_def)
  have m: "Dequeue (gw_store replay_gw) (conn_runner replay_gw 0) 1000 = [?m]"
    by (simp add: conn_runner_def c) (simp add: replay_gw_def Dequeue_def)
  have r: "map_of registry ''message'' \<noteq> None" by (simp add: registry_def)
  have "Validate (FMessage replay_msg) = []"
    by (simp add: replay_msg_def validate_Message_def new_message_def new_turn_def hello_in_def sample_user_def threadKey_def)
  then have d: "Decode (en_json replay_env) (qm_Frame ?m) DirDown = Inr (FMessage replay_msg)"
    using r by (auto simp: Decode_def replay_env_def sample_json_def permits_def split: option.splits)
  have q: "m_turn replay_msg = tc_TurnID ?t" "gw_heldFiles replay_gw = []" "\<not> cn_done ?c" "cn_queued ?c < out_capacity"
    by (simp_all add: replay_msg_def new_message_def new_turn_def replay_gw_def sample_gw_def out_capacity_def)
  from replayed_turn_is_not_counted [OF t m d q(1,2) c q(3,4)] i
  show ?thesis by (simp add: queue_of_def replay_gw_def sample_runner_def get_or_def)
qed

end
