(* ===== verification/Approval.thy ===== *)
theory Approval
  imports Machine
begin

text \<open>
  Who decides: tool permissions and forge credentials (internal/gateway/dispatch.go). The lemmas follow
  what a handler appends to the effect log; the properties say that a denied tool is never allowed nor
  put to a person, that nothing is allowed without a grant, a rule or an approver's click, that a request
  is decided once, and that a credential is minted only inside a runner's policy.
\<close>

subsection \<open>What is appended to the effect log\<close>

definition adds :: "(effect \<Rightarrow> bool) \<Rightarrow> gw \<Rightarrow> gw \<Rightarrow> bool" where
  "adds P g g' \<longleftrightarrow> (\<exists>xs. gw_out g' = gw_out g @ xs \<and> list_all P xs)"

text \<open>Predicates that hold of everything that is neither a frame nor a prompt.\<close>

definition harmless :: "(effect \<Rightarrow> bool) \<Rightarrow> bool" where
  "harmless P \<longleftrightarrow> (\<forall>w. P (EWorking w)) \<and> (\<forall>i s. P (EStream i s)) \<and> (\<forall>s p r. P (EPost s p r)) \<and>
     (\<forall>s r p. P (EUpdate s r p)) \<and> (\<forall>s r x. P (EResolve s r x))"

named_theorems adds_rules \<open>what the primitives append\<close>

lemma adds_same: "gw_out g' = gw_out g \<Longrightarrow> adds P g g'"
  by (simp add: adds_def)

lemma adds_trans: "adds P a b \<Longrightarrow> adds P b c \<Longrightarrow> adds P a c"
  unfolding adds_def by (metis append_assoc list_all_append)

lemma adds_new: "adds P g g' \<Longrightarrow> x \<in> set (drop (length (gw_out g)) (gw_out g')) \<Longrightarrow> P x"
  by (auto simp: adds_def list_all_iff)

lemma adds_more: "adds P g h \<Longrightarrow> gw_out g' = gw_out h \<Longrightarrow> adds P g g'"
  by (simp add: adds_def)

lemma adds_emit [adds_rules]: "adds P g h \<Longrightarrow> P x \<Longrightarrow> adds P g (emit x h)"
  by (auto simp: adds_def emit_def)

lemma adds_store [adds_rules]:
  "adds P g h \<Longrightarrow> adds P g (upd_store f h)" "adds P g h \<Longrightarrow> adds P g (log_event ev h)" "adds P g h \<Longrightarrow> adds P g (try_store u h)"
  "adds P g h \<Longrightarrow> adds P g (upd_stream t k h)"
  by (auto simp: adds_def upd_store_def log_event_def try_store_def upd_stream_def split: option.split)

lemma adds_reply [adds_rules]: "adds P g h \<Longrightarrow> P (ESend i fr) \<Longrightarrow> adds P g (reply e i fr h)"
  by (auto simp: reply_def Send_def sendRaw_def upd_conn_def CloseWith_def adds_def emit_def split: sum.split option.split)

lemma adds_turnFor: "harmless P \<Longrightarrow> turnFor e i g = (g', t) \<Longrightarrow> adds P g g'"
  by (auto simp: turnFor_def touchWorking_def emit_def adds_def harmless_def Let_def split: option.splits if_splits)

lemma adds_flush [adds_rules]: "adds P g h \<Longrightarrow> harmless P \<Longrightarrow> adds P g (flush_stream e t h)"
  by (auto simp: adds_def flush_stream_def harmless_def list_all_iff split: prod.split)

lemma adds_post [adds_rules]: "adds P g h \<Longrightarrow> harmless P \<Longrightarrow> adds P g (fst (post e s p h))"
  by (auto simp: adds_def post_def emit_def harmless_def Let_def)

subsection \<open>Permission requests\<close>

text \<open>What the policy says of a request: the deny rule, or the reason to allow it without asking.\<close>

definition denied_by :: "env \<Rightarrow> nat \<Rightarrow> PermissionRequest \<Rightarrow> gw \<Rightarrow> string option" where
  "denied_by e i fr g = (case runnerConfig g (conn_runner g i) of None \<Rightarrow> None
     | Some r \<Rightarrow> MatchDeny (en_input e) (Deny (r_Policy r)) (pq_tool fr) (pq_input fr))"

definition approved_by :: "env \<Rightarrow> nat \<Rightarrow> PermissionRequest \<Rightarrow> gw \<Rightarrow> string option" where
  "approved_by e i fr g = (case runnerConfig g (conn_runner g i) of None \<Rightarrow> None
     | Some r \<Rightarrow> autoApprove (en_input e) (Some r) (pq_tool fr) (pq_input fr))"

text \<open>Frames and prompts a request may lead to when it is denied (\<open>d\<close>) and when it may be allowed (\<open>a\<close>).\<close>

fun answer_ok :: "bool \<Rightarrow> bool \<Rightarrow> effect \<Rightarrow> bool" where
  "answer_ok d a (EPrompt s p r) = (\<not> d)"
| "answer_ok d a (ESend i f) =
     (case f of FPermissionResponse p \<Rightarrow> pr_decision p \<noteq> DecisionDeny \<longrightarrow> \<not> d \<and> a | _ \<Rightarrow> False)"
| "answer_ok d a _ = True"

lemma harmless_answer: "harmless (answer_ok d a)"
  by (simp add: harmless_def)

lemma turnFor_same:
  "turnFor e i g = (g1, t) \<Longrightarrow> gw_cfg g1 = gw_cfg g \<and> conn_runner g1 = conn_runner g \<and> gw_grants g1 = gw_grants g \<and>
     gw_prompts g1 = gw_prompts g"
  by (auto simp: turnFor_def touchWorking_def emit_def conn_runner_def conn_of_def Let_def fun_eq_iff
      split: option.splits if_splits)

lemma prompts_frame:
  "gw_prompts (reply e i fr g) = gw_prompts g" "gw_prompts (log_event ev g) = gw_prompts g"
  "gw_prompts (upd_store f g) = gw_prompts g" "gw_prompts (upd_stream t k g) = gw_prompts g"
  "gw_prompts (try_store u g) = gw_prompts g"
  by (auto simp: reply_def Send_def sendRaw_def upd_conn_def CloseWith_def emit_def log_event_def upd_store_def
      upd_stream_def try_store_def split: sum.split option.split)

lemma try_store_fields:
  "gw_grants (try_store u g) = gw_grants g" "gw_cfg (try_store u g) = gw_cfg g" "conn_runner (try_store u g) = conn_runner g"
  by (auto simp: try_store_def conn_runner_def conn_of_def fun_eq_iff split: option.split)

lemma permission_parts:
  assumes "adds (answer_ok d a) g h"
  shows "adds (answer_ok d a) g (policyDeny e i fr t rule h)"
    "\<not> d \<Longrightarrow> a \<Longrightarrow> adds (answer_ok d a) g (autoAllow e i fr t reason kind h)"
    "\<not> d \<Longrightarrow> adds (answer_ok d a) g (askPerson e i fr t h)"
proof -
  note h = assms harmless_answer
  show "adds (answer_ok d a) g (policyDeny e i fr t rule h)"
    unfolding policyDeny_def Let_def by (intro adds_rules h) (simp add: deny_response_def)
  show "\<not> d \<Longrightarrow> a \<Longrightarrow> adds (answer_ok d a) g (autoAllow e i fr t reason kind h)"
    unfolding autoAllow_def by (intro adds_rules h) (simp add: allow_response_def)
  assume nd: "\<not> d"
  have f: "adds (answer_ok d a) g (flush_stream e t h)" by (intro adds_rules h)
  have r: "adds (answer_ok d a) g (reply e i (deny_response x y) k)" if "adds (answer_ok d a) g k" for x y k
    by (rule adds_reply [OF that]) (simp add: deny_response_def)
  have p: "adds (answer_ok d a) g (emit (EPrompt s q o1) (flush_stream e t h))" for s q o1
    by (rule adds_emit [OF f]) (simp add: nd)
  show "adds (answer_ok d a) g (askPerson e i fr t h)"
    by (auto simp: askPerson_def Let_def split: sum.split intro: r assms p adds_more)
qed

text \<open>The flow of a request of a live turn: deny rules, session grants, allow rules, a person.\<close>

lemma permission_flow:
  assumes live: "map_of (gw_turns g) (pq_turn fr) = Some t0"
  shows "\<exists>g2 t. (\<forall>P. harmless P \<longrightarrow> adds P g g2) \<and> gw_conns g2 = gw_conns g \<and> gw_prompts g2 = gw_prompts g \<and>
    onPermissionRequest e i fr g =
     (case denied_by e i fr g of Some rule \<Rightarrow> policyDeny e i fr t rule g2
      | None \<Rightarrow> (case Held (gw_grants g) (tc_ThreadID t0) (pq_tool fr) of
           Some gr \<Rightarrow> autoAllow e i fr t (''allowed for this session by <@'' @ sg_By gr @ ''>'') ''permission.session_grant'' g2
         | None \<Rightarrow> (case approved_by e i fr g of
             Some reason \<Rightarrow> autoAllow e i fr t reason ''permission.auto_approved'' g2 | None \<Rightarrow> askPerson e i fr t g2)))"
proof -
  obtain g1 t where tf: "turnFor e (pq_turn fr) g = (g1, Some t)" and th: "tc_ThreadID t = tc_ThreadID t0"
    using live by (auto simp: turnFor_def Let_def)
  note same = turnFor_same [OF tf]
  define g2 where "g2 = try_store (RecordPermissionRequest (pq_request fr) (tc_ThreadID t) (pq_turn fr) (conn_runner g i) (pq_tool fr) (pq_input fr)) g1"
  have g2: "\<forall>P. harmless P \<longrightarrow> adds P g g2" unfolding g2_def using adds_store(3) [OF adds_turnFor [OF _ tf]] by blast
  have c: "gw_conns g2 = gw_conns g" "gw_prompts g2 = gw_prompts g"
    unfolding g2_def using tf by (auto simp: try_store_def turnFor_def touchWorking_def emit_def Let_def split: option.splits if_splits)
  have rc: "runnerConfig g1 n = runnerConfig g n" for n using same by (simp add: runnerConfig_def)
  have "onPermissionRequest e i fr g =
     (case denied_by e i fr g of Some rule \<Rightarrow> policyDeny e i fr t rule g2
      | None \<Rightarrow> (case Held (gw_grants g) (tc_ThreadID t0) (pq_tool fr) of
           Some gr \<Rightarrow> autoAllow e i fr t (''allowed for this session by <@'' @ sg_By gr @ ''>'') ''permission.session_grant'' g2
         | None \<Rightarrow> (case approved_by e i fr g of
             Some reason \<Rightarrow> autoAllow e i fr t reason ''permission.auto_approved'' g2 | None \<Rightarrow> askPerson e i fr t g2)))"
    by (cases "runnerConfig g (conn_runner g i)")
      (simp_all add: onPermissionRequest_def tf Let_def rc denied_by_def approved_by_def g2_def same try_store_fields th
        split: option.split)
  with g2 c show ?thesis by blast
qed

lemma permission_answers:
  fixes e i fr g t0
  defines "d \<equiv> denied_by e i fr g \<noteq> None"
  defines "a \<equiv> Held (gw_grants g) (tc_ThreadID t0) (pq_tool fr) \<noteq> None \<or> approved_by e i fr g \<noteq> None"
  assumes live: "map_of (gw_turns g) (pq_turn fr) = Some t0"
  shows "adds (answer_ok d a) g (onPermissionRequest e i fr g)"
    "d \<Longrightarrow> gw_prompts (onPermissionRequest e i fr g) = gw_prompts g"
proof -
  obtain g2 t where g2: "\<forall>P. harmless P \<longrightarrow> adds P g g2" "gw_prompts g2 = gw_prompts g"
    and k: "onPermissionRequest e i fr g =
     (case denied_by e i fr g of Some rule \<Rightarrow> policyDeny e i fr t rule g2
      | None \<Rightarrow> (case Held (gw_grants g) (tc_ThreadID t0) (pq_tool fr) of
           Some gr \<Rightarrow> autoAllow e i fr t (''allowed for this session by <@'' @ sg_By gr @ ''>'') ''permission.session_grant'' g2
         | None \<Rightarrow> (case approved_by e i fr g of
             Some reason \<Rightarrow> autoAllow e i fr t reason ''permission.auto_approved'' g2 | None \<Rightarrow> askPerson e i fr t g2)))"
    using permission_flow [OF live, of e i] by blast
  have "adds (answer_ok d a) g g2" using g2(1) harmless_answer by blast
  note parts = permission_parts [OF this]
  show "adds (answer_ok d a) g (onPermissionRequest e i fr g)"
    unfolding k using parts by (auto simp: d_def a_def split: option.split)
  show "d \<Longrightarrow> gw_prompts (onPermissionRequest e i fr g) = gw_prompts g"
    unfolding k by (auto simp: d_def policyDeny_def Let_def prompts_frame g2(2))
qed

text \<open>
  C1. Deny rules come first: a call that a deny rule of its runner matches is answered with a denial or
  not at all. It is never allowed, by a session grant, an allow rule or autonomy, and no person is asked.
\<close>

theorem denied_tool_is_never_allowed:
  assumes "map_of (gw_turns g) (pq_turn fr) = Some t" "runnerConfig g (conn_runner g i) = Some rc"
    "MatchDeny (en_input e) (Deny (r_Policy rc)) (pq_tool fr) (pq_input fr) = Some rule"
  shows "(\<forall>x \<in> set (drop (length (gw_out g)) (gw_out (onPermissionRequest e i fr g))).
      (\<forall>s p r. x \<noteq> EPrompt s p r) \<and> (\<forall>j p. x = ESend j (FPermissionResponse p) \<longrightarrow> pr_decision p = DecisionDeny)) \<and>
    gw_prompts (onPermissionRequest e i fr g) = gw_prompts g"
proof -
  have d: "denied_by e i fr g \<noteq> None" using assms(2,3) by (simp add: denied_by_def)
  note p = permission_answers [OF assms(1), where e = e and i = i]
  show ?thesis
  proof (intro conjI ballI allI impI)
    fix x s q r j pr
    assume x: "x \<in> set (drop (length (gw_out g)) (gw_out (onPermissionRequest e i fr g)))"
    note y = adds_new [OF p(1) x]
    show "x \<noteq> EPrompt s q r" using y d by auto
    show "x = ESend j (FPermissionResponse pr) \<Longrightarrow> pr_decision pr = DecisionDeny" using y d by auto
  next
    show "gw_prompts (onPermissionRequest e i fr g) = gw_prompts g" by (rule p(2) [OF d])
  qed
qed


text \<open>A live turn of the sample runner asking for a tool.\<close>

definition asking :: "string \<Rightarrow> PermissionRequest" where
  "asking tool = \<lparr>pq_thread = ''slack:C1:1.2'', pq_turn = ''turn_1'', pq_request = ''p1'', pq_tool = tool, pq_input = ''{}'',
     pq_cwd = [], pq_summary = []\<rparr>"

definition live_gw :: gw where
  "live_gw = sample_gw\<lparr>gw_turns := [(''turn_1'', sample_turn)]\<rparr>"

definition rm_env :: env where
  "rm_env = sample_env\<lparr>en_input := (\<lambda>s. Some [(''command'', JString ''rm -rf x'')])\<rparr>"

lemma live_fields:
  "map_of (gw_turns live_gw) (pq_turn (asking tool)) = Some sample_turn"
  "runnerConfig live_gw (conn_runner live_gw 0) = Some sample_runner"
  by (simp_all add: live_gw_def sample_gw_def asking_def runnerConfig_def conn_runner_def conn_of_def sample_config_def)

lemma rm_denied: "MatchDeny (\<lambda>s. Some [(''command'', JString ''rm -rf x'')]) [''Bash(rm*)''] ''Bash'' ''{}'' = Some ''Bash(rm*)''"
proof -
  have g: "globMatch (''rm'' @ ''*'') ''rm -rf x''" by (rule globMatch_prefix) (simp add: HasPrefix_def)
  have "matchRule (''Bash'' @ open_paren # ''rm*'' @ '')'') ''Bash'' ''rm -rf x'' \<longleftrightarrow> ''Bash'' = ''Bash'' \<and> globMatch ''rm*'' ''rm -rf x''"
    by (rule matchRule_call) (simp_all add: graphic_def literal_byte_def open_paren_def backslash_def)
  then have m: "matchRule ''Bash(rm*)'' ''Bash'' ''rm -rf x''" using g by (simp add: open_paren_def)
  have "salientArg (\<lambda>s. Some [(''command'', JString ''rm -rf x'')]) ''{}'' = ''rm -rf x''"
    by (simp add: salientArg_def salient_keys_def)
  then show ?thesis using m by (simp add: MatchDeny_def)
qed

theorem denied_tool_is_never_allowed_witness:
  "gw_prompts (onPermissionRequest rm_env 0 (asking ''Bash'') live_gw) = gw_prompts live_gw"
proof -
  have "MatchDeny (en_input rm_env) (Deny (r_Policy sample_runner)) (pq_tool (asking ''Bash'')) (pq_input (asking ''Bash'')) = Some ''Bash(rm*)''"
    using rm_denied by (simp add: rm_env_def sample_runner_def asking_def)
  from denied_tool_is_never_allowed [OF live_fields this] show ?thesis by simp
qed

text \<open>The same turn on a runner that allows reading.\<close>

definition reader :: Runner where
  "reader = sample_runner\<lparr>r_Policy := (r_Policy sample_runner)\<lparr>Deny := []\<rparr>\<rparr>"

definition reader_gw :: gw where
  "reader_gw = live_gw\<lparr>gw_cfg := sample_config\<lparr>Runners := [(''box'', Some reader)]\<rparr>\<rparr>"

lemma reader_fields:
  "map_of (gw_turns reader_gw) (pq_turn (asking tool)) = Some sample_turn"
  "runnerConfig reader_gw (conn_runner reader_gw 0) = Some reader"
  "conn_of reader_gw 0 = Some \<lparr>cn_runner = ''box'', cn_queued = 0, cn_done = False, cn_closed = False, cn_lastSeen = 0,
        cn_bundleVersion = 0, cn_bundleDigest = []\<rparr>"
  by (simp_all add: reader_gw_def live_gw_def sample_gw_def asking_def runnerConfig_def conn_runner_def conn_of_def)

lemma matchRule_read: "matchRule ''Read'' ''Read'' arg"
proof -
  have t: "TrimSpace ''Read'' = ''Read''" by (rule TrimSpace_graphic) (simp_all add: graphic_def)
  have c: "cutRule ''Read'' = (''Read'', [], False)" by (simp add: cutRule_def open_paren_def)
  show ?thesis by (simp add: matchRule_def t c) (simp add: globMatch_def)
qed

lemma reader_allows: "\<exists>reason. autoApprove parse (Some reader) ''Read'' input = Some (CHR ''a'' # reason)"
  by (simp add: autoApprove_def MatchDeny_def reader_def sample_runner_def matchRule_read)

lemma allow_sent:
  assumes "conn_of g i = Some c" "\<not> cn_done c" "cn_queued c < out_capacity" "pq_request fr \<noteq> []"
  shows "ESend i (allow_response (pq_request fr) reason) \<in> set (gw_out (autoAllow sample_env i fr t reason kind g))"
  using assms
  by (simp add: autoAllow_def log_event_def upd_store_def reply_def Send_def sendRaw_def emit_def upd_conn_def conn_of_def
      Encode_def allow_response_def validate_PermissionResponse_def Decision_valid_def sample_env_def sample_json_def has_key_def)


subsection \<open>Decisions of people\<close>

text \<open>
  A request is decided once: when two clicks have both found the prompt, the second finds it claimed
  and does nothing, whatever it decides and whoever makes it.
\<close>

theorem second_click_does_nothing:
  assumes "sd_RequestID d' = sd_RequestID d"
  shows "decision_claim e' d' p' (decision_claim e d p g) = decision_claim e d p g"
proof -
  have "map_of (gw_prompts (decision_claim e d p g)) (sd_RequestID d) = None"
  proof (cases "map_of (gw_prompts g) (sd_RequestID d)")
    case (Some q)
    have f: "gw_prompts (emit x h) = gw_prompts h" "gw_prompts (h\<lparr>gw_grants := y\<rparr>) = gw_prompts h" for x h y
      by (simp_all add: emit_def)
    show ?thesis by (simp add: decision_claim_def Let_def f prompts_frame split: option.split)
  qed (simp add: decision_claim_def)
  with assms show ?thesis by (simp add: decision_claim_def [of e' d'])
qed

definition click :: "string \<Rightarrow> Decision \<Rightarrow> SurfaceDecision" where
  "click user d = \<lparr>sd_RequestID = ''p1'', sd_User = sample_user\<lparr>usr_ID := user\<rparr>, sd_Decision = d\<rparr>"

definition prompted_gw :: gw where
  "prompted_gw = live_gw\<lparr>gw_prompts := [(''p1'', \<lparr>pp_RequestID = ''p1'', pp_Runner = ''box'', pp_Turn = sample_turn,
     pp_Ref = \<lparr>ref_Channel = ''C1'', ref_Thread = ''1.2'', ref_ID = ''9''\<rparr>, pp_Tool = ''Bash''\<rparr>)]\<rparr>"

theorem second_click_does_nothing_witness:
  "decision_claim sample_env (click ''U2'' DecisionAllow) (the (map_of (gw_prompts prompted_gw) ''p1''))
     (decision_claim sample_env (click ''U1'' DecisionDeny) (the (map_of (gw_prompts prompted_gw) ''p1'')) prompted_gw) =
   decision_claim sample_env (click ''U1'' DecisionDeny) (the (map_of (gw_prompts prompted_gw) ''p1'')) prompted_gw"
  by (rule second_click_does_nothing) (simp add: click_def)

text \<open>
  C11. Only an approver's click counts: where the prompt's runner names approvers, a click by anyone else
  leaves the prompt pending and every session grant as it was, and sends the runner nothing.
\<close>

theorem only_approvers_decide:
  assumes "map_of (gw_prompts g) (sd_RequestID d) = Some p" "runnerConfig g (pp_Runner p) = Some rc"
    "Approvers (r_Policy rc) \<noteq> []" "usr_ID (sd_User d) \<notin> set (Approvers (r_Policy rc))"
  shows "gw_prompts (OnDecision e d g) = gw_prompts g \<and> gw_grants (OnDecision e d g) = gw_grants g \<and>
    (\<forall>x \<in> set (drop (length (gw_out g)) (gw_out (OnDecision e d g))). \<forall>i f. x \<noteq> ESend i f)"
  using assms
  by (auto simp: OnDecision_def decision_load_def approverAllowed_def unauthorized_def log_event_def post_def emit_def Let_def)

lemma prompted_fields:
  "map_of (gw_prompts prompted_gw) (sd_RequestID (click u d)) = Some \<lparr>pp_RequestID = ''p1'', pp_Runner = ''box'', pp_Turn = sample_turn,
     pp_Ref = \<lparr>ref_Channel = ''C1'', ref_Thread = ''1.2'', ref_ID = ''9''\<rparr>, pp_Tool = ''Bash''\<rparr>"
  "runnerConfig prompted_gw (pp_Runner \<lparr>pp_RequestID = ''p1'', pp_Runner = ''box'', pp_Turn = sample_turn,
     pp_Ref = \<lparr>ref_Channel = ''C1'', ref_Thread = ''1.2'', ref_ID = ''9''\<rparr>, pp_Tool = ''Bash''\<rparr>) = Some sample_runner"
  by (simp_all add: prompted_gw_def live_gw_def sample_gw_def click_def runnerConfig_def sample_config_def)

theorem only_approvers_decide_witness:
  "gw_prompts (OnDecision sample_env (click ''U2'' DecisionAllow) prompted_gw) = gw_prompts prompted_gw"
  by (rule only_approvers_decide [OF prompted_fields, THEN conjunct1])
    (simp_all add: sample_runner_def click_def)

subsection \<open>Forge credentials\<close>

text \<open>What a credential request may send: a grant only of what was minted within the policy.\<close>

fun credential_ok :: "env \<Rightarrow> string + bool \<Rightarrow> CredentialRequest \<Rightarrow> effect \<Rightarrow> bool" where
  "credential_ok e policy fr (ESend i f) =
     (case f of FCredentialGrant c \<Rightarrow> \<not> cg_denied c \<longrightarrow>
          (\<exists>rw mint cred. policy = Inr rw \<and> en_mint e = Some mint \<and> mint (cq_resource fr) rw = Inr cred \<and> cg_value c = cd_Token cred)
      | _ \<Rightarrow> False)"
| "credential_ok e policy fr (EPrompt s p r) = False"
| "credential_ok e policy fr _ = True"

lemma credential_answers:
  "adds (credential_ok e (credential_policy g (conn_runner g i) fr) fr) g (onCredentialRequest e i fr g)"
proof -
  let ?P = "credential_ok e (credential_policy g (conn_runner g i) fr) fr"
  obtain g1 t where tf: "turnFor e (cq_turn fr) g = (g1, t)" by fastforce
  have g1: "adds ?P g g1" by (rule adds_turnFor [OF _ tf]) (simp add: harmless_def)
  note same = turnFor_same [OF tf]
  have pol: "credential_policy g1 (conn_runner g1 i) fr = credential_policy g (conn_runner g i) fr"
    using same by (simp add: credential_policy_def runnerConfig_def)
  have deny: "adds ?P g (credential_deny e i fr rec reason g1)" for rec reason
    unfolding credential_deny_def by (rule adds_reply [OF adds_store(3) [OF g1]]) simp
  have grant: "adds ?P g (credential_grant e i fr rec c g1)"
    if "credential_policy g (conn_runner g i) fr = Inr rw" "en_mint e = Some mint" "mint (cq_resource fr) rw = Inr c" for rec c rw mint
    unfolding credential_grant_def by (rule adds_reply [OF adds_store(3) [OF g1]]) (use that in auto)
  show ?thesis
    unfolding onCredentialRequest_def tf prod.case Let_def pol
    using deny grant by (auto split: sum.split option.split)
qed

text \<open>
  C15. A credential leaves the gateway only inside the requesting runner's policy: a granted request is
  for a forge credential, by a configured runner; the token is one that the provider minted for that
  repository, and it may write only when the runner's policy lists the repository; any other granted
  token is for reading a marketplace repository of the runner's own bundle.
\<close>

theorem credential_only_within_policy:
  assumes "ESend j (FCredentialGrant c) \<in> set (drop (length (gw_out g)) (gw_out (onCredentialRequest e i fr g)))"
    and "\<not> cg_denied c"
  shows "cq_kind fr = CredentialForge \<and>
    (\<exists>rc mint rw cred. runnerConfig g (conn_runner g i) = Some rc \<and> en_mint e = Some mint \<and>
       mint (cq_resource fr) rw = Inr cred \<and> cg_value c = cd_Token cred \<and>
       (if rw then RepoAllowed (Repos (r_Policy rc)) (cq_resource fr)
        else MarketplaceReadable (gw_cfg g) (conn_runner g i) (cq_resource fr) = Ok True))"
proof -
  from adds_new [OF credential_answers assms(1)] assms(2) obtain rw mint cred where
    p: "credential_policy g (conn_runner g i) fr = Inr rw" and m: "en_mint e = Some mint" "mint (cq_resource fr) rw = Inr cred"
      "cg_value c = cd_Token cred" by auto
  from p obtain rc where "cq_kind fr = CredentialForge" "runnerConfig g (conn_runner g i) = Some rc"
    "if rw then RepoAllowed (Repos (r_Policy rc)) (cq_resource fr)
     else MarketplaceReadable (gw_cfg g) (conn_runner g i) (cq_resource fr) = Ok True"
    by (auto simp: credential_policy_def split: option.splits if_splits)
  with m show ?thesis by blast
qed

text \<open>The sample runner asks for its own repository.\<close>

definition forge_ask :: CredentialRequest where
  "forge_ask = \<lparr>cq_request = ''c1'', cq_kind = CredentialForge, cq_resource = ''o/r'', cq_thread = [],
     cq_turn = [], cq_protocol = [], cq_host = []\<rparr>"

definition forge_env :: env where
  "forge_env = sample_env\<lparr>en_mint := Some (\<lambda>repo rw. Inr \<lparr>cd_Username = ''x'', cd_Token = ''tok'', cd_ExpiresAt = None\<rparr>)\<rparr>"

lemma reply_sent:
  assumes "conn_of g i = Some c" "\<not> cn_done c" "cn_queued c < out_capacity" "Encode (en_json e) (Some f) = Inr raw"
  shows "gw_out (reply e i f g) = gw_out g @ [ESend i f]"
  using assms by (simp add: reply_def Send_def sendRaw_def emit_def upd_conn_def)

lemma forge_granted:
  assumes "gw_cfg g = sample_config" "gw_conns g = gw_conns sample_gw" "gw_turns g = []"
  shows "gw_out (onCredentialRequest forge_env 0 forge_ask g) = gw_out g @ [ESend 0 (FCredentialGrant \<lparr>cg_request = ''c1'',
     cg_kind = CredentialForge, cg_username = ''x'', cg_value = ''tok'', cg_expires = None, cg_denied = False, cg_reason = []\<rparr>)]"
proof -
  have r: "RepoAllowed [''o/r''] ''o/r''" by code_simp
  have p: "credential_policy g (conn_runner g 0) forge_ask = Inr True"
    using assms r by (simp add: credential_policy_def forge_ask_def runnerConfig_def conn_runner_def conn_of_def sample_gw_def
        sample_config_def sample_runner_def)
  let ?c = "\<lparr>cn_runner = ''box'', cn_queued = 0, cn_done = False, cn_closed = False, cn_lastSeen = 0,
        cn_bundleVersion = 0, cn_bundleDigest = []\<rparr>"
  let ?f = "FCredentialGrant \<lparr>cg_request = ''c1'', cg_kind = CredentialForge, cg_username = ''x'', cg_value = ''tok'', cg_expires = None, cg_denied = False, cg_reason = []\<rparr>"
  have t: "gw_out (try_store u g) = gw_out g" "gw_conns (try_store u g) = gw_conns g" for u
    by (simp_all add: try_store_def split: option.split)
  have c: "conn_of (try_store u g) 0 = Some ?c" for u using assms(2) t by (simp add: conn_of_def sample_gw_def)
  have "\<exists>raw. Encode (en_json forge_env) (Some ?f) = Inr raw"
    by (simp add: Encode_def validate_CredentialGrant_def forge_env_def sample_env_def sample_json_def has_key_def)
  then obtain raw where raw: "Encode (en_json forge_env) (Some ?f) = Inr raw" by blast
  have o: "gw_out (reply forge_env 0 ?f (try_store u g)) = gw_out g @ [ESend 0 ?f]" for u
    by (subst reply_sent [OF c _ _ raw]) (simp_all add: out_capacity_def t)
  have "turnFor forge_env (cq_turn forge_ask) g = (g, None)" using assms(3) by (simp add: turnFor_def)
  then show ?thesis using p o by (simp add: onCredentialRequest_def forge_env_def credential_grant_def forge_ask_def Let_def)
qed

theorem credential_only_within_policy_witness:
  "\<exists>rc. runnerConfig sample_gw (conn_runner sample_gw 0) = Some rc \<and>
     (RepoAllowed (Repos (r_Policy rc)) ''o/r'' \<or> MarketplaceReadable (gw_cfg sample_gw) (conn_runner sample_gw 0) ''o/r'' = Ok True)"
proof -
  have "ESend 0 (FCredentialGrant \<lparr>cg_request = ''c1'', cg_kind = CredentialForge, cg_username = ''x'', cg_value = ''tok'',
      cg_expires = None, cg_denied = False, cg_reason = []\<rparr>) \<in>
    set (drop (length (gw_out sample_gw)) (gw_out (onCredentialRequest forge_env 0 forge_ask sample_gw)))"
    by (subst forge_granted) (simp_all add: sample_gw_def)
  from credential_only_within_policy [OF this] show ?thesis by (auto simp: forge_ask_def split: if_splits)
qed

text \<open>
  A credential request whose identifier was used before is answered as usual, granted credentials
  included, but leaves no row of its own in the credentials table: the audit log misses it.
\<close>

theorem reused_credential_request_is_unaudited:
  assumes "has_key (Credentials (gw_store g)) (cq_request fr)"
  shows "Credentials (gw_store (onCredentialRequest e i fr g)) = Credentials (gw_store g)"
proof -
  have c: "Credentials (gw_store (reply e i f h)) = Credentials (gw_store h)" for f h
    by (auto simp: reply_def Send_def sendRaw_def upd_conn_def CloseWith_def emit_def split: sum.split option.split)
  obtain g1 t where tf: "turnFor e (cq_turn fr) g = (g1, t)" by fastforce
  then have g1: "gw_store g1 = gw_store g"
    by (auto simp: turnFor_def touchWorking_def emit_def Let_def split: option.splits if_splits)
  have "Credentials (gw_store (credential_deny e i fr (credential_record n fr t) x g1)) = Credentials (gw_store g)"
    "Credentials (gw_store (credential_grant e i fr (credential_record n fr t) y g1)) = Credentials (gw_store g)" for n x y
    using assms by (simp_all add: credential_deny_def credential_grant_def c try_store_def RecordCredential_def credential_record_def g1)
  then show ?thesis unfolding onCredentialRequest_def tf prod.case Let_def by (auto split: sum.split option.split)
qed

definition used_gw :: gw where
  "used_gw = sample_gw\<lparr>gw_store := Open\<lparr>Credentials := [(''c1'', \<lparr>cr_RequestID = ''c1'', cr_Runner = ''box'', cr_Kind = ''forge'',
     cr_Resource = ''o/r'', cr_ThreadID = [], cr_TurnID = [], cr_SurfaceUser = [], cr_Granted = False, cr_Reason = ''denied'',
     cr_ExpiresAt = None\<rparr>)]\<rparr>\<rparr>"

theorem reused_credential_request_is_unaudited_witness:
  "Credentials (gw_store (onCredentialRequest forge_env 0 forge_ask used_gw)) = Credentials (gw_store used_gw) \<and>
   (\<exists>c. ESend 0 (FCredentialGrant c) \<in> set (gw_out (onCredentialRequest forge_env 0 forge_ask used_gw)) \<and> \<not> cg_denied c)"
proof
  show "Credentials (gw_store (onCredentialRequest forge_env 0 forge_ask used_gw)) = Credentials (gw_store used_gw)"
    by (rule reused_credential_request_is_unaudited) (simp add: used_gw_def has_key_def forge_ask_def)
  show "\<exists>c. ESend 0 (FCredentialGrant c) \<in> set (gw_out (onCredentialRequest forge_env 0 forge_ask used_gw)) \<and> \<not> cg_denied c"
    by (subst forge_granted) (auto simp: used_gw_def sample_gw_def)
qed

subsection \<open>Proxied tools\<close>

text \<open>
  Every proxied tool call is recorded: whatever becomes of it, the audit table has its row, under the
  runner that made it, marked successful exactly when the call was to a proxied server and succeeded.
\<close>

theorem tool_call_is_audited:
  assumes "map_of (MCPCalls (gw_store g)) (mc_call fr) = None"
  shows "\<exists>rec. map_of (MCPCalls (gw_store (onMCPCall e i fr g))) (mc_call fr) = Some rec \<and>
     mq_Runner rec = conn_runner g i \<and> mq_Tool rec = mc_tool fr \<and>
     (mq_OK rec \<longleftrightarrow> en_proxied e (mc_server fr) \<and> (\<exists>v. en_mcp e (mc_server fr) (mc_tool fr) (mc_args fr) = Inr v))"
proof -
  have c: "MCPCalls (gw_store (reply e i f h)) = MCPCalls (gw_store h)" for f h
    by (auto simp: reply_def Send_def sendRaw_def upd_conn_def CloseWith_def emit_def split: sum.split option.split)
  obtain g1 t where tf: "turnFor e (mc_turn fr) g = (g1, t)" by fastforce
  then have g1: "gw_store g1 = gw_store g" "conn_runner g1 = conn_runner g" using turnFor_same [OF tf]
    by (auto simp: turnFor_def touchWorking_def emit_def Let_def split: option.splits if_splits)
  show ?thesis using assms
    by (auto simp: onMCPCall_def mcp_begin_def tf mcp_respond_def Let_def c upd_store_def RecordMCPCall_def mcp_record_def g1
        mcp_result_def is_err_def split: sum.split)
qed

definition tool_call :: MCPCall where
  "tool_call = \<lparr>mc_thread = [], mc_turn = [], mc_call = ''m1'', mc_server = ''db'', mc_tool = ''query'', mc_args = ''{}''\<rparr>"

theorem tool_call_is_audited_witness:
  "\<exists>rec. map_of (MCPCalls (gw_store (onMCPCall sample_env 0 tool_call sample_gw))) ''m1'' = Some rec \<and> mq_Runner rec = ''box''"
proof -
  have "map_of (MCPCalls (gw_store sample_gw)) (mc_call tool_call) = None" by (simp add: sample_gw_def Open_def)
  from tool_call_is_audited [OF this, of sample_env 0] show ?thesis
    by (auto simp: tool_call_def conn_runner_def conn_of_def sample_gw_def)
qed

end
