(* ===== verification/Resolution.thy ===== *)
theory Resolution
  imports Config
begin

text \<open>
  Bundle resolution ends: the walk along \<open>extends\<close> carries the names it has seen, and that is all it
  needs to accept exactly the bundles whose chain of parents ends, in at most as many steps as there are
  bundles, and to refuse every circular chain.
\<close>

text \<open>The walk without its memory: after \<open>k\<close> parents the chain ends.\<close>

fun parents_end_after :: "Bundle option gomap \<Rightarrow> nat \<Rightarrow> string \<Rightarrow> bool" where
  "parents_end_after bs 0 n = (n = [])"
| "parents_end_after bs (Suc k) n =
     (n \<noteq> [] \<and> (case map_of bs n of Some (Some b) \<Rightarrow> parents_end_after bs k (b_Extends b) | _ \<Rightarrow> False))"

lemma parents_end_once: "parents_end_after bs k n \<Longrightarrow> parents_end_after bs j n \<Longrightarrow> j = k"
proof (induction k arbitrary: n j)
  case 0
  then show ?case by (cases j) simp_all
next
  case (Suc k)
  then show ?case by (cases j) (auto split: option.splits)
qed

lemma walk_of_parents:
  assumes "parents_end_after bs k cur" "\<And>x. x \<in> set seen \<Longrightarrow> \<exists>j>k. parents_end_after bs j x"
  shows "\<exists>ch. walk_extends bs name seen chain cur = Ok ch"
  using assms
proof (induction k arbitrary: cur seen chain)
  case 0
  then show ?case by (simp add: walk_extends.simps)
next
  case (Suc k)
  from Suc.prems(1) obtain b where b: "cur \<noteq> []" "map_of bs cur = Some (Some b)" "parents_end_after bs k (b_Extends b)"
    by (auto split: option.splits)
  have "cur \<notin> set seen"
  proof
    assume "cur \<in> set seen"
    from Suc.prems(2) [OF this] parents_end_once [OF Suc.prems(1)] show False by auto
  qed
  moreover have "\<exists>ch. walk_extends bs name (cur # seen) (b # chain) (b_Extends b) = Ok ch"
  proof (rule Suc.IH [OF b(3)])
    fix x assume x: "x \<in> set (cur # seen)"
    show "\<exists>j>k. parents_end_after bs j x"
    proof (cases "x = cur")
      case True
      then show ?thesis using Suc.prems(1) by blast
    next
      case False
      with x Suc.prems(2) [of x] show ?thesis by (auto dest: Suc_lessD)
    qed
  qed
  ultimately show ?case using b by (simp add: walk_extends.simps [of bs name seen chain cur])
qed

lemma parents_of_walk:
  "walk_extends bs name seen chain cur = Ok ch \<Longrightarrow> \<exists>k. parents_end_after bs k cur"
proof (induction bs name seen chain cur rule: walk_extends.induct)
  case (1 bs name seen chain cur)
  show ?case
  proof (cases "cur = []")
    case True
    then show ?thesis by (intro exI [of _ 0]) simp
  next
    case False
    from "1.prems" False have ns: "cur \<notin> set seen"
      by (subst (asm) walk_extends.simps) (auto split: if_splits)
    from "1.prems" False ns obtain b where b: "map_of bs cur = Some (Some b)"
      and w: "walk_extends bs name (cur # seen) (b # chain) (b_Extends b) = Ok ch"
      by (subst (asm) walk_extends.simps) (auto split: option.splits)
    from "1.IH" [OF False ns b refl w] obtain k where "parents_end_after bs k (b_Extends b)" by blast
    then show ?thesis using False b by (intro exI [of _ "Suc k"]) simp
  qed
qed

text \<open>Every length up to \<open>k\<close> is that of some bundle.\<close>

lemma parents_all_lengths:
  "parents_end_after bs k n \<Longrightarrow> 0 < j \<Longrightarrow> j \<le> k \<Longrightarrow> \<exists>m\<in>fst ` set bs. parents_end_after bs j m"
proof (induction k arbitrary: n)
  case (Suc k)
  from Suc.prems(1) obtain b where b: "map_of bs n = Some (Some b)" "parents_end_after bs k (b_Extends b)"
    by (auto split: option.splits)
  show ?case
  proof (cases "j = Suc k")
    case True
    have "n \<in> fst ` set bs" using b(1) by (auto dest: map_of_SomeD intro: rev_image_eqI)
    then show ?thesis using True Suc.prems(1) by blast
  next
    case False
    then show ?thesis using Suc b(2) by simp
  qed
qed simp

lemma parents_bounded: "parents_end_after bs k n \<Longrightarrow> k \<le> length bs"
proof -
  assume k: "parents_end_after bs k n"
  define h where "h m = (SOME j. parents_end_after bs j m)" for m
  have h: "h m = j" if "parents_end_after bs j m" for j m
    unfolding h_def using that parents_end_once by (metis someI)
  have "{1..k} \<subseteq> h ` fst ` set bs"
  proof
    fix j assume "j \<in> {1..k}"
    then obtain m where "m \<in> fst ` set bs" "parents_end_after bs j m" using parents_all_lengths [OF k, of j] by auto
    then show "j \<in> h ` fst ` set bs" using h by blast
  qed
  then have "card {1..k} \<le> card (h ` fst ` set bs)" by (intro card_mono) auto
  also have "\<dots> \<le> card (set bs)" unfolding image_image by (rule card_image_le) simp
  also have "\<dots> \<le> length bs" by (rule card_length)
  finally show ?thesis by simp
qed

text \<open>
  C32. Resolving a bundle always ends, and accepts exactly the chains that end: a bundle resolves precisely
  when following its parents reaches a bundle without one, which then happens within as many steps as there
  are bundles; a chain that comes back to itself, at whatever point, is refused.
\<close>

theorem bundle_resolution_ends:
  "(\<exists>rb. ResolveBundle c name = Ok rb) = (\<exists>k. parents_end_after (Bundles c) k name) \<and>
   \<not> (\<exists>k. parents_end_after (Bundles c) k name \<and> length (Bundles c) < k)"
proof
  show "(\<exists>rb. ResolveBundle c name = Ok rb) = (\<exists>k. parents_end_after (Bundles c) k name)"
  proof
    assume "\<exists>rb. ResolveBundle c name = Ok rb"
    then show "\<exists>k. parents_end_after (Bundles c) k name" using parents_of_walk by (auto simp: ResolveBundle_chain)
  next
    assume "\<exists>k. parents_end_after (Bundles c) k name"
    then obtain k where "parents_end_after (Bundles c) k name" ..
    from walk_of_parents [OF this, of "[]" name "[]"] show "\<exists>rb. ResolveBundle c name = Ok rb" by (auto simp: ResolveBundle_chain)
  qed
  show "\<not> (\<exists>k. parents_end_after (Bundles c) k name \<and> length (Bundles c) < k)" using parents_bounded by fastforce
qed

end
