(* ===== verification/QueueSpec.thy ===== *)
theory QueueSpec
  imports Store
begin

text \<open>
  What the offline queue promises, as an abstract machine, and the refinement: the table of the durable store,
  with its numbered rows for all runners together, behaves as one first-in first-out list of frames per runner.
\<close>

subsection \<open>The abstract machine\<close>

type_synonym fifos = "string \<Rightarrow> string list"

text \<open>
  The requests: queueing a frame, a drain that asks for at most so many frames and sends while the connection
  takes them, the purge of a runner, and the question for the depth.
\<close>

datatype request =
    AskEnqueue string string string
  | AskDrain string nat "string \<Rightarrow> bool"
  | AskPurge string
  | AskDepth string

datatype answer = Quiet | Frames "string list" | Count nat

definition drained_prefix :: "(string \<Rightarrow> bool) \<Rightarrow> nat \<Rightarrow> string list \<Rightarrow> string list" where
  "drained_prefix takes n fs = takeWhile takes (take n fs)"

fun spec_step :: "request \<Rightarrow> fifos \<Rightarrow> fifos \<times> answer" where
  "spec_step (AskEnqueue r t f) q = (q(r := q r @ [f]), Quiet)"
| "spec_step (AskDrain r n takes) q =
     (q(r := drop (length (drained_prefix takes n (q r))) (q r)), Frames (drained_prefix takes n (q r)))"
| "spec_step (AskPurge r) q = (q(r := []), Count (length (q r)))"
| "spec_step (AskDepth r) q = (q, Count (length (q r)))"

subsection \<open>The table\<close>

fun table_step :: "request \<Rightarrow> Store \<Rightarrow> Store \<times> answer" where
  "table_step (AskEnqueue r t f) s = (Enqueue r t f s, Quiet)"
| "table_step (AskDrain r n takes) s =
     (case oq.drain (\<lambda>m. takes (qm_Frame m)) (\<lambda>_. True) (Dequeue s r n) s of
        (s', sent) \<Rightarrow> (s', Frames (map qm_Frame sent)))"
| "table_step (AskPurge r) s = (case PurgeQueue r s of (s', n) \<Rightarrow> (s', Count n))"
| "table_step (AskDepth r) s = (s, Count (QueueDepth s r))"

fun run_requests :: "(request \<Rightarrow> 's \<Rightarrow> 's \<times> answer) \<Rightarrow> request list \<Rightarrow> 's \<Rightarrow> 's \<times> answer list" where
  "run_requests step [] s = (s, [])"
| "run_requests step (x # xs) s =
     (case step x s of (s1, a) \<Rightarrow> case run_requests step xs s1 of (s2, as) \<Rightarrow> (s2, a # as))"

subsection \<open>The simulation\<close>

definition fifos_of :: "Store \<Rightarrow> fifos" where
  "fifos_of s r = map qm_Frame (Pending s r)"

lemma fifos_enqueue: "fifos_of (Enqueue r t f s) = (fifos_of s)(r := fifos_of s r @ [f])"
  using oq.pending_enqueue by (auto simp: fifos_of_def fun_eq_iff)

lemma fifos_depth: "QueueDepth s r = length (fifos_of s r)"
  by (simp add: QueueDepth_def fifos_of_def Pending_def)

lemma fifos_purge: "fifos_of (fst (PurgeQueue r s)) = (fifos_of s)(r := [])" "snd (PurgeQueue r s) = length (fifos_of s r)"
  by (auto simp: PurgeQueue_def fifos_of_def Pending_def fun_eq_iff filter_empty_conv intro!: arg_cong [of _ _ "map qm_Frame"] filter_cong)

lemma purge_ok: "queue_ok s \<Longrightarrow> queue_ok (fst (PurgeQueue r s))"
  by (auto simp: queue_ok_def PurgeQueue_def distinct_map_filter_id)

lemma fifos_drain:
  assumes "queue_ok s" "oq.drain (\<lambda>m. takes (qm_Frame m)) (\<lambda>_. True) (Dequeue s r n) s = (s', sent)"
  shows "map qm_Frame sent = drained_prefix takes n (fifos_of s r)"
    "fifos_of s' = (fifos_of s)(r := drop (length (drained_prefix takes n (fifos_of s r))) (fifos_of s r))" "queue_ok s'"
proof -
  let ?P = "\<lambda>m. takes (qm_Frame m)"
  have sent: "sent = takeWhile ?P (Dequeue s r n)" using oq.drain_sent [where sends = ?P and deletes = "\<lambda>_. True" and ms = "Dequeue s r n" and q = s] assms(2) by simp
  have d: "Dequeue s r n = take n (Pending s r)" by (rule oq.dequeue_pending)
  show f: "map qm_Frame sent = drained_prefix takes n (fifos_of s r)"
    by (simp add: sent d drained_prefix_def fifos_of_def takeWhile_map take_map comp_def)
  then have len: "length (takeWhile ?P (Dequeue s r n)) = length (drained_prefix takes n (fifos_of s r))"
    unfolding sent by (metis length_map)
  have s': "s' = fst (oq.drain ?P (\<lambda>_. True) (Dequeue s r n) s)" using assms(2) by simp
  show "fifos_of s' = (fifos_of s)(r := drop (length (drained_prefix takes n (fifos_of s r))) (fifos_of s r))"
    using oq.drain_leaves_rest [OF assms(1) refl, where sends = ?P and r = r and n = n] unfolding len s'
    by (auto simp: fifos_of_def fun_eq_iff drop_map)
  show "queue_ok s'" unfolding s' by (rule oq.drain_ok [OF assms(1)])
qed

text \<open>One request on the table is the same request on the lists.\<close>

lemma table_step_simulates:
  assumes "queue_ok s" "table_step x s = (s', a)"
  shows "queue_ok s'" "spec_step x (fifos_of s) = (fifos_of s', a)"
proof -
  have "queue_ok s' \<and> spec_step x (fifos_of s) = (fifos_of s', a)"
  proof (cases x)
    case (AskEnqueue r t f)
    then show ?thesis using assms oq.ok_enqueue by (auto simp: fifos_enqueue)
  next
    case (AskDrain r n takes)
    with assms(2) obtain sent where "oq.drain (\<lambda>m. takes (qm_Frame m)) (\<lambda>_. True) (Dequeue s r n) s = (s', sent)"
      "a = Frames (map qm_Frame sent)" by (auto split: prod.splits)
    with fifos_drain [OF assms(1)] AskDrain show ?thesis by simp
  next
    case (AskPurge r)
    then show ?thesis using assms fifos_purge [of r s] purge_ok [of s r] by (auto split: prod.splits)
  next
    case (AskDepth r)
    then show ?thesis using assms by (auto simp: fifos_depth)
  qed
  then show "queue_ok s'" "spec_step x (fifos_of s) = (fifos_of s', a)" by blast+
qed

text \<open>
  C13. The offline queue refines one first-in first-out list per runner: any sequence of queueing, draining,
  purging and counting gets from the shared table the answers it gets from the lists, and leaves a table that
  stands for the lists it leaves.
\<close>

theorem queue_refines_fifos:
  assumes "queue_ok s" "run_requests table_step xs s = (s', as)"
  shows "queue_ok s' \<and> run_requests spec_step xs (fifos_of s) = (fifos_of s', as)"
  using assms
proof (induction xs arbitrary: s as)
  case (Cons x xs)
  then obtain s1 a as' where st: "table_step x s = (s1, a)" "run_requests table_step xs s1 = (s', as')" "as = a # as'"
    by (auto split: prod.splits)
  from table_step_simulates [OF Cons.prems(1) st(1)] Cons.IH [OF _ st(2)] show ?case by (simp add: st(3))
qed simp

definition two_boxes :: "request list" where
  "two_boxes = [AskEnqueue ''a'' ''t1'' ''f1'', AskEnqueue ''b'' ''t2'' ''f2'', AskEnqueue ''a'' ''t1'' ''f3'',
     AskDrain ''a'' 10 (\<lambda>f. f \<noteq> ''f3''), AskDepth ''a'', AskPurge ''b'']"

theorem queue_refines_fifos_witness:
  "snd (run_requests table_step two_boxes Open) = [Quiet, Quiet, Quiet, Frames [''f1''], Count 1, Count 1]"
proof -
  obtain s' as where r: "run_requests table_step two_boxes Open = (s', as)" by fastforce
  have "queue_ok Open" by (simp add: queue_ok_def Open_def)
  from queue_refines_fifos [OF this r] have "as = snd (run_requests spec_step two_boxes (fifos_of Open))" by simp
  also have "\<dots> = [Quiet, Quiet, Quiet, Frames [''f1''], Count 1, Count 1]"
    by (simp add: two_boxes_def fifos_of_def Pending_def Open_def drained_prefix_def)
  finally show ?thesis by (simp add: r)
qed

end
