(* ===== verification/Harness.thy ===== *)
theory Harness
  imports Stream Policy Validate
begin

text \<open>
  The harness interface (internal/harness/harness.go) and its Claude Code adapter
  (internal/harness/claudecode/claudecode.go): the command line of a session, the user message written to
  its standard input, and the reading of its standard output, one line at a time, into harness events.
  The JSON decoder is the argument \<open>cc_json\<close>; the process, its pipes and the scanner that cuts
  standard output into lines are the environment. The event channel holds 256 events; an event that finds it
  full is dropped.
\<close>

subsection \<open>The harness interface\<close>

record HUsage =
  hu_Model :: string
  hu_Input :: int
  hu_CacheWrite :: int
  hu_CacheRead :: int
  hu_Output :: int
  hu_TTLHint :: string
  hu_Cost :: "real option"
  hu_Known :: bool

text \<open>One constructor per kind of event, with the fields an event of that kind carries.\<close>

datatype HEvent =
    EventText string
  | EventThinking string
  | EventToolUse string string string
  | EventToolEnd string bool string int
  | EventUsage HUsage
  | EventSession string
  | EventDone string int
  | EventError string

record Image =
  im_Mime :: string
  im_Data :: string

record Input =
  inp_Text :: string
  inp_Images :: "Image list"

record SessionConfig =
  sc_Cwd :: string
  sc_ConfigDir :: string
  sc_Env :: "string list"
  sc_Model :: string
  sc_ResumeID :: string
  sc_MCPConfigPath :: string
  sc_LooseMCP :: bool
  sc_PermissionTool :: string
  sc_PluginDirs :: "string list"

subsection \<open>The command line\<close>

definition PermissionToolName :: string where
  "PermissionToolName = ''mcp__splitscreen__permission_prompt''"

definition buildArgs :: "SessionConfig \<Rightarrow> string list" where
  "buildArgs cfg =
     [''-p'', ''--input-format'', ''stream-json'', ''--output-format'', ''stream-json'', ''--verbose'']
     @ (if sc_Model cfg \<noteq> [] then [''--model'', sc_Model cfg] else [])
     @ (if sc_MCPConfigPath cfg \<noteq> []
        then [''--mcp-config'', sc_MCPConfigPath cfg] @ (if \<not> sc_LooseMCP cfg then [''--strict-mcp-config''] else [])
        else [])
     @ (if sc_PermissionTool cfg \<noteq> [] then [''--permission-prompt-tool'', sc_PermissionTool cfg] else [])
     @ (if sc_ResumeID cfg \<noteq> [] then [''--resume'', sc_ResumeID cfg] else [])
     @ concat (map (\<lambda>d. [''--plugin-dir'', d]) (sc_PluginDirs cfg))"

text \<open>What starting a session runs: nothing without a working directory.\<close>

definition start_command :: "string \<Rightarrow> SessionConfig \<Rightarrow> string + string list" where
  "start_command binary cfg =
     (if sc_Cwd cfg = [] then Inl ''claudecode: cwd is required''
      else Inr ((if binary = [] then ''claude'' else binary) # buildArgs cfg))"

subsection \<open>A user message\<close>

text \<open>The content of a message: a bare text, or the images as blocks and the text after them.\<close>

datatype block = ImageBlock string string | TextBlock string

datatype content = Bare string | Blocks "block list"

definition user_content :: "Input \<Rightarrow> content" where
  "user_content inp =
     (if inp_Images inp = [] then Bare (inp_Text inp)
      else Blocks (map (\<lambda>i. ImageBlock (im_Mime i) (im_Data i)) (inp_Images inp)
        @ (if inp_Text inp \<noteq> [] then [TextBlock (inp_Text inp)] else [])))"

subsection \<open>What the CLI says\<close>

record rawUsage =
  ru_Input :: int
  ru_Output :: int
  ru_CacheCreation :: int
  ru_CacheRead :: int
  ru_TTL :: string

record streamEvent =
  se_Type :: string
  se_Subtype :: string
  se_SessionID :: string
  se_Message :: string
  se_Usage :: "rawUsage option"
  se_TotalCost :: "real option"
  se_IsError :: bool
  se_Result :: string
  se_Model :: string

record assistantBlock =
  ab_Type :: string
  ab_Text :: string
  ab_Thinking :: string
  ab_ID :: string
  ab_Name :: string
  ab_Input :: string

record assistantMessage =
  am_Model :: string
  am_Content :: "assistantBlock list"

record userBlock =
  ub_Type :: string
  ub_ToolUseID :: string
  ub_IsError :: bool
  ub_Content :: string

text \<open>The decoder: one function per type a value is decoded into; \<open>None\<close> is a decoding error.\<close>

record cc_json =
  cj_event :: "string \<Rightarrow> streamEvent option"
  cj_assistant :: "string \<Rightarrow> assistantMessage option"
  cj_user :: "string \<Rightarrow> userBlock list option"
  cj_string :: "string \<Rightarrow> string option"
  cj_blocks :: "string \<Rightarrow> string list option"
  cj_object :: json_object

definition clip :: "nat \<Rightarrow> string \<Rightarrow> string" where
  "clip n s0 = (let s = TrimSpace s0 in if length s \<le> n then s else take n s @ ellipsis)"

definition truncateResult :: "string \<Rightarrow> string" where "truncateResult = clip 400"

definition truncateThinking :: "string \<Rightarrow> string" where "truncateThinking = clip 1000"

definition resultText :: "cc_json \<Rightarrow> string \<Rightarrow> string" where
  "resultText J raw =
     (if raw = [] then []
      else (case cj_string J raw of Some t \<Rightarrow> truncateResult t
        | None \<Rightarrow>
            (case cj_blocks J raw of
               Some ts \<Rightarrow> truncateResult (Join (filter (\<lambda>t. t \<noteq> []) ts) '' '')
             | None \<Rightarrow> [])))"

fun first_nonempty_key :: "jval gomap \<Rightarrow> string list \<Rightarrow> string" where
  "first_nonempty_key m [] = []"
| "first_nonempty_key m (k # ks) =
     (case map_of m k of Some (JString s) \<Rightarrow> if s \<noteq> [] then s else first_nonempty_key m ks
      | _ \<Rightarrow> first_nonempty_key m ks)"

definition summarize :: "cc_json \<Rightarrow> string \<Rightarrow> string" where
  "summarize J input =
     (if input = [] then []
      else (case cj_object J input of None \<Rightarrow> []
        | Some m \<Rightarrow> first_nonempty_key m
            [''command'', ''file_path'', ''path'', ''pattern'', ''url'', ''query'', ''description'']))"

fun firstNonEmpty :: "string list \<Rightarrow> string" where
  "firstNonEmpty [] = []"
| "firstNonEmpty (v # vs) = (if v \<noteq> [] then v else firstNonEmpty vs)"

definition TrimRightByte :: "char \<Rightarrow> string \<Rightarrow> string" where
  "TrimRightByte c s = rev (dropWhile (\<lambda>x. x = c) (rev s))"

definition lastLines :: "string \<Rightarrow> nat \<Rightarrow> string" where
  "lastLines s n =
     (let ls = SplitByte newline [] (TrimRightByte newline s) in
      Join (if n < length ls then drop (length ls - n) ls else ls) '' | '')"

subsection \<open>The session's reader\<close>

record ccSession =
  cs_sessionID :: string
  cs_stderr :: string
  cs_running :: bool
  cs_toolN :: int
  cs_callStart :: "int gomap"
  cs_lastModel :: string
  cs_events :: "HEvent list"

definition started_session :: ccSession where
  "started_session = \<lparr>cs_sessionID = [], cs_stderr = [], cs_running = True, cs_toolN = 0, cs_callStart = [],
     cs_lastModel = [], cs_events = []\<rparr>"

definition event_capacity :: nat where "event_capacity = 256"

text \<open>A send that does not block: a full channel drops the event.\<close>

definition emit_event :: "HEvent \<Rightarrow> ccSession \<Rightarrow> ccSession" where
  "emit_event x s = (if length (cs_events s) < event_capacity then s\<lparr>cs_events := cs_events s @ [x]\<rparr> else s)"

definition assistant_block :: "cc_json \<Rightarrow> int \<Rightarrow> assistantBlock \<Rightarrow> ccSession \<Rightarrow> ccSession" where
  "assistant_block J now b s =
     (if ab_Type b = ''text'' then (if ab_Text b \<noteq> [] then emit_event (EventText (ab_Text b)) s else s)
      else if ab_Type b = ''thinking''
      then (let t = truncateThinking (ab_Thinking b) in if t \<noteq> [] then emit_event (EventThinking t) s else s)
      else if ab_Type b = ''tool_use''
      then emit_event (EventToolUse (ab_ID b) (ab_Name b) (summarize J (ab_Input b)))
        (s\<lparr>cs_toolN := cs_toolN s + 1, cs_callStart := put (ab_ID b) now (cs_callStart s)\<rparr>)
      else s)"

definition user_block :: "cc_json \<Rightarrow> int \<Rightarrow> userBlock \<Rightarrow> ccSession \<Rightarrow> ccSession" where
  "user_block J now b s =
     (if ub_Type b \<noteq> ''tool_result'' \<or> ub_ToolUseID b = [] then s
      else emit_event
        (EventToolEnd (ub_ToolUseID b) (\<not> ub_IsError b) (if ub_IsError b then resultText J (ub_Content b) else [])
          (case map_of (cs_callStart s) (ub_ToolUseID b) of None \<Rightarrow> 0 | Some t0 \<Rightarrow> (now - t0) div 1000000))
        (s\<lparr>cs_callStart := del (ub_ToolUseID b) (cs_callStart s)\<rparr>))"

definition usage_event :: "streamEvent \<Rightarrow> ccSession \<Rightarrow> HUsage" where
  "usage_event ev s =
     (let model = (if se_Model ev \<noteq> [] then se_Model ev else cs_lastModel s) in
      case se_Usage ev of
        None \<Rightarrow> \<lparr>hu_Model = model, hu_Input = 0, hu_CacheWrite = 0, hu_CacheRead = 0, hu_Output = 0, hu_TTLHint = [],
                 hu_Cost = None, hu_Known = False\<rparr>
      | Some u \<Rightarrow> \<lparr>hu_Model = model, hu_Input = ru_Input u, hu_CacheWrite = ru_CacheCreation u,
                 hu_CacheRead = ru_CacheRead u, hu_Output = ru_Output u, hu_TTLHint = ru_TTL u,
                 hu_Cost = se_TotalCost ev, hu_Known = True\<rparr>)"

text \<open>What ends a turn, after its usage.\<close>

definition result_event :: "streamEvent \<Rightarrow> ccSession \<Rightarrow> HEvent" where
  "result_event ev s =
     (if se_IsError ev then EventError (firstNonEmpty [se_Result ev, se_Subtype ev, ''harness reported an error''])
      else EventDone (cs_sessionID s) (cs_toolN s))"

definition stdout_event :: "cc_json \<Rightarrow> int \<Rightarrow> streamEvent \<Rightarrow> ccSession \<Rightarrow> ccSession" where
  "stdout_event J now ev s0 =
     (let s = (if se_SessionID ev \<noteq> [] then s0\<lparr>cs_sessionID := se_SessionID ev\<rparr> else s0) in
      if se_Type ev = ''system''
      then (if se_Subtype ev = ''init'' \<and> se_SessionID ev \<noteq> [] then emit_event (EventSession (se_SessionID ev)) s else s)
      else if se_Type ev = ''assistant''
      then (case cj_assistant J (se_Message ev) of None \<Rightarrow> s
        | Some m \<Rightarrow> fold (assistant_block J now) (am_Content m)
            (if am_Model m \<noteq> [] then s\<lparr>cs_lastModel := am_Model m\<rparr> else s))
      else if se_Type ev = ''user''
      then (case cj_user J (se_Message ev) of None \<Rightarrow> s | Some bs \<Rightarrow> fold (user_block J now) bs s)
      else if se_Type ev = ''result''
      then emit_event (result_event ev s) (emit_event (EventUsage (usage_event ev s)) s)
      else s)"

definition stdout_line :: "cc_json \<Rightarrow> int \<Rightarrow> string \<Rightarrow> ccSession \<Rightarrow> ccSession" where
  "stdout_line J now raw s =
     (let line = TrimSpace raw in
      if line = [] then s else (case cj_event J line of None \<Rightarrow> s | Some ev \<Rightarrow> stdout_event J now ev s))"

definition stderr_line :: "string \<Rightarrow> ccSession \<Rightarrow> ccSession" where
  "stderr_line l s = (if length (cs_stderr s) < 8192 then s\<lparr>cs_stderr := cs_stderr s @ l @ [newline]\<rparr> else s)"

definition CloseSession :: "ccSession \<Rightarrow> ccSession" where
  "CloseSession s = s\<lparr>cs_running := False\<rparr>"

text \<open>
  After the last line: \<open>exit_err\<close> is what waiting for the process returned. An exit ordered by
  \<open>Close\<close> is not an error. The channel is then closed and the session is no longer running.
\<close>

definition stdout_end :: "string option \<Rightarrow> ccSession \<Rightarrow> ccSession" where
  "stdout_end exit_err s =
     (case exit_err of None \<Rightarrow> s
      | Some m \<Rightarrow>
          if \<not> cs_running s then s
          else let e = TrimSpace (cs_stderr s) in
            emit_event (EventError (m @ (if e \<noteq> [] then '': '' @ lastLines e 5 else []))) s)
     \<lparr>cs_running := False\<rparr>"

text \<open>The runner takes the events from the channel in order.\<close>

definition take_event :: "ccSession \<Rightarrow> ccSession \<times> HEvent option" where
  "take_event s = (case cs_events s of [] \<Rightarrow> (s, None) | x # xs \<Rightarrow> (s\<lparr>cs_events := xs\<rparr>, Some x))"

subsection \<open>What a session reports\<close>

lemma emit_event_fields [simp]:
  "cs_toolN (emit_event x s) = cs_toolN s" "cs_sessionID (emit_event x s) = cs_sessionID s"
  "cs_running (emit_event x s) = cs_running s" "cs_callStart (emit_event x s) = cs_callStart s"
  "cs_lastModel (emit_event x s) = cs_lastModel s" "cs_stderr (emit_event x s) = cs_stderr s"
  by (simp_all add: emit_event_def)

lemma emit_event_keeps: "prefix (cs_events s) (cs_events (emit_event x s))"
  by (simp add: emit_event_def)

text \<open>The blocks of an assistant message that announce a tool call.\<close>

definition tool_uses :: "assistantBlock list \<Rightarrow> int" where
  "tool_uses bs = int (length (filter (\<lambda>b. ab_Type b = ''tool_use'') bs))"

lemma tool_uses_simps [simp]:
  "tool_uses [] = 0" "tool_uses (b # bs) = (if ab_Type b = ''tool_use'' then 1 else 0) + tool_uses bs"
  by (simp_all add: tool_uses_def)

lemma tool_uses_nonneg [simp]: "0 \<le> tool_uses bs"
  by (simp add: tool_uses_def)

lemma toolN_assistant_block:
  "cs_toolN (assistant_block J now b s) = cs_toolN s + (if ab_Type b = ''tool_use'' then 1 else 0)"
  by (simp add: assistant_block_def Let_def)

lemma toolN_assistant_blocks: "cs_toolN (fold (assistant_block J now) bs s) = cs_toolN s + tool_uses bs"
  by (induction bs arbitrary: s) (simp_all add: toolN_assistant_block)

lemma toolN_user_blocks: "cs_toolN (fold (user_block J now) bs s) = cs_toolN s"
  by (induction bs arbitrary: s) (simp_all add: user_block_def)

text \<open>The calls one line announces.\<close>

definition event_calls :: "cc_json \<Rightarrow> streamEvent \<Rightarrow> int" where
  "event_calls J ev =
     (if se_Type ev = ''assistant''
      then (case cj_assistant J (se_Message ev) of None \<Rightarrow> 0 | Some m \<Rightarrow> tool_uses (am_Content m)) else 0)"

lemma toolN_stdout_event: "cs_toolN (stdout_event J now ev s) = cs_toolN s + event_calls J ev"
  by (auto simp: stdout_event_def event_calls_def Let_def toolN_assistant_blocks toolN_user_blocks split: option.split)

lemma event_calls_nonneg [simp]: "0 \<le> event_calls J ev"
  by (simp add: event_calls_def split: option.split)

text \<open>The lines of a session, each with the time it is read at.\<close>

definition stdout_events :: "cc_json \<Rightarrow> (int \<times> streamEvent) list \<Rightarrow> ccSession \<Rightarrow> ccSession" where
  "stdout_events J evs s = fold (\<lambda>(now, ev). stdout_event J now ev) evs s"

lemma toolN_stdout_events:
  "cs_toolN (stdout_events J evs s) = cs_toolN s + sum_list (map (\<lambda>p. event_calls J (snd p)) evs)"
  unfolding stdout_events_def
  by (induction evs arbitrary: s) (auto simp: toolN_stdout_event)

lemma result_appends:
  assumes "se_Type ev = ''result''" "length (cs_events s) + 2 \<le> event_capacity"
  shows "\<exists>u x. cs_events (stdout_event J now ev s) = cs_events s @ [EventUsage u, x] \<and>
    (if se_IsError ev then \<exists>m. x = EventError m
     else x = EventDone (if se_SessionID ev \<noteq> [] then se_SessionID ev else cs_sessionID s) (cs_toolN s))"
  using assms by (auto simp: stdout_event_def Let_def emit_event_def result_event_def)

text \<open>
  The count of tool calls that ends a turn is the count of the whole session: a turn that ends without
  an error reports every call announced since its process started, those of earlier turns included, and the
  gateway stores that number as the turn's own.
\<close>

theorem tool_calls_accumulate:
  assumes "se_Type ev = ''result''" "\<not> se_IsError ev"
    and "length (cs_events (stdout_events J evs started_session)) + 2 \<le> event_capacity"
  shows "\<exists>sid. last (cs_events (stdout_event J now ev (stdout_events J evs started_session))) =
     EventDone sid (sum_list (map (\<lambda>p. event_calls J (snd p)) evs))"
  using result_appends [OF assms(1,3), of J now] assms(2)
  by (auto simp: toolN_stdout_events started_session_def)

lemma closed_session_is_silent: "cs_events (stdout_end m (CloseSession s)) = cs_events s"
  by (simp add: stdout_end_def CloseSession_def split: option.split)

lemma full_channel_loses_the_end:
  assumes "se_Type ev = ''result''" "event_capacity \<le> length (cs_events s)"
  shows "cs_events (stdout_event J now ev s) = cs_events s"
  using assms by (simp add: stdout_event_def Let_def emit_event_def)

text \<open>Servers of the user's own configuration are shut out unless the bundle asked for them.\<close>

lemma strict_unless_loose:
  assumes "sc_MCPConfigPath cfg \<noteq> []" "\<not> sc_LooseMCP cfg"
  shows "''--strict-mcp-config'' \<in> set (buildArgs cfg)"
  using assms by (simp add: buildArgs_def)

text \<open>A first turn with one call, then a turn without any: it reports one call.\<close>

definition no_event :: streamEvent where
  "no_event = \<lparr>se_Type = [], se_Subtype = [], se_SessionID = ''s'', se_Message = [], se_Usage = None, se_TotalCost = None,
     se_IsError = False, se_Result = [], se_Model = []\<rparr>"

definition one_call_json :: cc_json where
  "one_call_json = \<lparr>cj_event = (\<lambda>_. None),
     cj_assistant = (\<lambda>_. Some \<lparr>am_Model = ''m'', am_Content = [\<lparr>ab_Type = ''tool_use'', ab_Text = [], ab_Thinking = [],
       ab_ID = ''c1'', ab_Name = ''Bash'', ab_Input = []\<rparr>]\<rparr>),
     cj_user = (\<lambda>_. None), cj_string = (\<lambda>_. None), cj_blocks = (\<lambda>_. None), cj_object = (\<lambda>_. None)\<rparr>"

theorem tool_calls_accumulate_witness:
  "\<exists>sid. last (cs_events (stdout_event one_call_json 3 (no_event\<lparr>se_Type := ''result''\<rparr>)
     (stdout_events one_call_json [(1, no_event\<lparr>se_Type := ''assistant''\<rparr>), (2, no_event\<lparr>se_Type := ''result''\<rparr>)]
       started_session))) = EventDone sid 1"
proof -
  let ?evs = "[(1, no_event\<lparr>se_Type := ''assistant''\<rparr>), (2, no_event\<lparr>se_Type := ''result''\<rparr>)]"
  have "length (cs_events (stdout_events one_call_json ?evs started_session)) + 2 \<le> event_capacity"
    by (simp add: stdout_events_def stdout_event_def no_event_def one_call_json_def started_session_def Let_def
        assistant_block_def emit_event_def event_capacity_def)
  from tool_calls_accumulate [OF _ _ this, of "no_event\<lparr>se_Type := ''result''\<rparr>" 3]
  show ?thesis by (simp add: no_event_def event_calls_def one_call_json_def)
qed

end
