(* ===== verification/Paths.thy ===== *)
theory Paths
  imports GoPath
begin

text \<open>
  Clean absolute paths as lists of elements: joining, containment and ancestors of such paths are
  operations on lists.
\<close>

definition abs_path :: "string list \<Rightarrow> string" where
  "abs_path es = slash # Join es [slash]"

definition plain :: "string list \<Rightarrow> bool" where
  "plain es \<longleftrightarrow> (\<forall>e\<in>set es. plain_elem e)"

lemma plain_simps [simp]:
  "plain []" "plain (e # es) \<longleftrightarrow> plain_elem e \<and> plain es" "plain (es @ fs) \<longleftrightarrow> plain es \<and> plain fs"
  by (auto simp: plain_def)

lemma elems_acc_append: "elems_acc acc (a @ slash # b) = elems_acc acc a @ elems b"
  by (induction a arbitrary: acc) (auto simp: elems_def)

lemma elems_append: "elems (a @ slash # b) = elems a @ elems b"
  by (simp add: elems_def elems_acc_append)

lemma IsAbs_abs_path [simp]: "IsAbs (abs_path es)"
  by (simp add: IsAbs_def HasPrefix_def abs_path_def)

lemma plain_no_slash: "plain es \<Longrightarrow> \<forall>e\<in>set es. slash \<notin> set e"
  by (simp add: plain_def plain_elem_def)

lemma elems_abs_path:
  assumes "plain es" "es \<noteq> []"
  shows "elems (abs_path es) = [] # es"
proof -
  have "elems ([] @ slash # Join es [slash]) = elems [] @ elems (Join es [slash])" by (rule elems_append)
  then show ?thesis using elems_Join [OF assms(2) plain_no_slash [OF assms(1)]] by (simp add: abs_path_def elems_def)
qed

lemma fold_plain: "plain es \<Longrightarrow> fold (clean_step r) es st = rev es @ st"
  using plain_elems_clean by (simp add: plain_def)

lemma clean_elems_abs_path: "plain es \<Longrightarrow> es \<noteq> [] \<Longrightarrow> clean_elems (abs_path es) = es"
  by (simp add: clean_elems_def elems_abs_path fold_plain)

lemma Join_snoc: "es \<noteq> [] \<Longrightarrow> Join (es @ fs) sep = Join es sep @ (if fs = [] then [] else sep @ Join fs sep)"
proof (induction es sep rule: Join.induct)
  case (2 s sep)
  then show ?case by (cases fs) simp_all
qed simp_all

lemma abs_path_append: "es \<noteq> [] \<Longrightarrow> fs \<noteq> [] \<Longrightarrow> abs_path (es @ fs) = abs_path es @ slash # Join fs [slash]"
  by (simp add: abs_path_def Join_snoc)

text \<open>Below an absolute directory a relative path resolves as it does on its own, unless it climbs out.\<close>

declare clean_step.simps [simp del]

lemma clean_step_dotdot:
  assumes "''..'' \<notin> set (clean_step False e st)" shows "''..'' \<notin> set st"
proof (cases st)
  case (Cons t ts)
  then show ?thesis using assms by (auto simp: clean_step.simps split: if_splits)
qed simp

lemma clean_step_rooted:
  "''..'' \<notin> set (clean_step False e S) \<Longrightarrow> ''..'' \<notin> set S \<Longrightarrow> clean_step True e (S @ st) = clean_step False e S @ st"
  by (cases S) (auto simp: clean_step.simps split: if_splits)

lemma fold_rooted:
  "''..'' \<notin> set (fold (clean_step False) es []) \<Longrightarrow>
     fold (clean_step True) es st = fold (clean_step False) es [] @ st"
proof (induction es rule: rev_induct)
  case (snoc e es)
  from snoc.prems have n: "''..'' \<notin> set (clean_step False e (fold (clean_step False) es []))" by simp
  then have S: "''..'' \<notin> set (fold (clean_step False) es [])" by (rule clean_step_dotdot)
  show ?case using clean_step_rooted [OF n S] snoc.IH [OF S] by simp
qed simp

definition climbs :: "string \<Rightarrow> bool" where
  "climbs p \<longleftrightarrow> Clean p = ''..'' \<or> HasPrefix (Clean p) (''..'' @ [slash])"

lemma clean_elems_are_plain:
  assumes "\<not> IsAbs p" "\<not> climbs p"
  shows "plain (clean_elems p)"
proof (cases "clean_elems p")
  case (Cons e es)
  have e: "e \<noteq> ''..''"
  proof
    assume e: "e = ''..''"
    then show False using assms Cons
      by (cases es) (auto simp: climbs_def Clean_def HasPrefix_def)
  qed
  have "clean_stack False (rev (clean_elems p))" using clean_elems_stack [of p] assms(1) by simp
  moreover have "last (rev (clean_elems p)) \<noteq> ''..''" using Cons e by (simp add: last_rev)
  ultimately have "\<forall>x\<in>set (rev (clean_elems p)). plain_elem x" using clean_stack_plain by blast
  then show ?thesis by (simp add: plain_def)
qed simp

lemma path_join_under:
  assumes "plain es" "es \<noteq> []" "p \<noteq> []" "\<not> IsAbs p" "\<not> climbs p"
  shows "path_join [abs_path es, p] = abs_path (es @ clean_elems p)"
proof -
  have pl: "plain (clean_elems p)" by (rule clean_elems_are_plain [OF assms(4,5)])
  let ?q = "abs_path es @ slash # p"
  have q: "IsAbs ?q" by (simp add: IsAbs_def HasPrefix_def abs_path_def)
  have S: "rev (fold (clean_step False) (elems p) []) = clean_elems p" using assms(4) by (simp add: clean_elems_def)
  have dd: "''..'' \<notin> set (fold (clean_step False) (elems p) [])"
    using pl S by (metis plain_def plain_elem_def set_rev)
  have "fold (clean_step True) (elems ?q) [] = fold (clean_step False) (elems p) [] @ rev es"
    using elems_abs_path [OF assms(1,2)] fold_plain [OF assms(1), of True "[]"]
    by (simp add: elems_append fold_rooted [OF dd] clean_step.simps [of True "[]" "[]"])
  then have "clean_elems ?q = es @ clean_elems p" using q S by (simp add: clean_elems_def rev_append)
  moreover have "path_join [abs_path es, p] = Clean ?q" using assms(3) by (simp add: path_join_def abs_path_def Let_def)
  ultimately show ?thesis using q by (simp add: Clean_def abs_path_def)
qed

lemma rooted_stack: "clean_stack True st \<Longrightarrow> ''..'' \<notin> set st"
  by (induction st) (auto simp: plain_elem_def split: if_splits)

lemma rooted_plain: "IsAbs p \<Longrightarrow> plain (clean_elems p)"
  using clean_elems_stack [of p] clean_stack_plain [of True "rev (clean_elems p)"]
    rooted_stack [of "rev (clean_elems p)"] by (auto simp: plain_def)

lemma path_join_last:
  assumes "IsAbs a" "plain_elem x"
  shows "\<exists>es. plain es \<and> path_join [a, n, x] = abs_path (es @ [x])"
proof -
  have a: "a \<noteq> []" using assms(1) by (auto simp: IsAbs_def HasPrefix_def)
  have x: "x \<noteq> []" "elems x = [x]" using assms(2) by (auto simp: plain_elem_def elems_def elems_acc_single)
  define pre where "pre = (if n = [] then a else a @ slash # n)"
  have pre: "IsAbs pre" using assms(1) a by (auto simp: pre_def IsAbs_def HasPrefix_def prefix_def)
  have j: "path_join [a, n, x] = Clean (pre @ slash # x)" using a x by (simp add: path_join_def pre_def Let_def)
  have q: "IsAbs (pre @ slash # x)" using pre by (auto simp: IsAbs_def HasPrefix_def prefix_def)
  have st: "clean_step True x st = x # st" for st using assms(2) by (auto simp: plain_elem_def clean_step.simps)
  have "clean_elems (pre @ slash # x) = clean_elems pre @ [x]"
    using q pre x(2) st by (simp add: clean_elems_def elems_append)
  moreover have "plain (clean_elems pre)" by (rule rooted_plain [OF pre])
  ultimately show ?thesis using j q by (intro exI [of _ "clean_elems pre"]) (simp add: Clean_def abs_path_def)
qed

subsection \<open>Containment\<close>

definition under :: "string \<Rightarrow> string \<Rightarrow> bool" where
  "under dir p \<longleftrightarrow> p = dir \<or> HasPrefix p (dir @ [slash])"

definition sub_path :: "string \<Rightarrow> string \<Rightarrow> string" where
  "sub_path dir rel = dir @ [slash] @ rel"

text \<open>Two directories neither of which is inside the other.\<close>

definition apart :: "string \<Rightarrow> string \<Rightarrow> bool" where
  "apart a b \<longleftrightarrow> \<not> under a b \<and> \<not> under b a"

definition ancestors :: "string \<Rightarrow> string list" where
  "ancestors p = filter (\<lambda>q. q \<noteq> []) (map (\<lambda>n. Join (take n (elems p)) [slash]) [1..<Suc (length (elems p))])"

lemma under_refl [simp]: "under a a"
  by (simp add: under_def)

lemma under_sub_path [simp]: "under a (sub_path a r)"
  by (simp add: under_def sub_path_def HasPrefix_def)

lemma under_iff: "under a p \<longleftrightarrow> p = a \<or> (\<exists>r. p = sub_path a r)"
  by (auto simp: under_def sub_path_def HasPrefix_def prefix_def)

lemma under_trans: "under a b \<Longrightarrow> under b c \<Longrightarrow> under a c"
  by (auto simp: under_iff sub_path_def)

lemma under_app: "under a p \<longleftrightarrow> (\<exists>u. p = a @ u \<and> (u = [] \<or> hd u = slash))"
proof
  show "under a p \<Longrightarrow> \<exists>u. p = a @ u \<and> (u = [] \<or> hd u = slash)" by (auto simp: under_iff sub_path_def)
next
  assume "\<exists>u. p = a @ u \<and> (u = [] \<or> hd u = slash)"
  then obtain u where u: "p = a @ u" "u = [] \<or> hd u = slash" by blast
  then show "under a p" by (cases u) (auto simp: under_iff sub_path_def)
qed

lemma under_linear: "under a k \<Longrightarrow> under b k \<Longrightarrow> under a b \<or> under b a"
proof -
  assume "under a k" "under b k"
  then obtain u v where k: "k = a @ u" "u = [] \<or> hd u = slash" "k = b @ v" "v = [] \<or> hd v = slash"
    unfolding under_app by blast
  from k(1,3) have "(\<exists>w. a @ w = b \<and> u = w @ v) \<or> (\<exists>w. a = b @ w \<and> w @ u = v)"
    by (metis append_eq_append_conv2)
  then show ?thesis
  proof
    assume "\<exists>w. a @ w = b \<and> u = w @ v"
    then obtain w where w: "b = a @ w" "u = w @ v" by blast
    then show ?thesis using k(2) by (cases w) (auto simp: under_app)
  next
    assume "\<exists>w. a = b @ w \<and> w @ u = v"
    then obtain w where w: "a = b @ w" "v = w @ u" by blast
    then show ?thesis using k(4) by (cases w) (auto simp: under_app)
  qed
qed

lemma apart_under: "apart c a \<Longrightarrow> under a p \<Longrightarrow> apart c p"
  unfolding apart_def using under_trans under_linear by blast

lemma apart_not: "apart c p \<Longrightarrow> under c k \<Longrightarrow> \<not> under p k"
  unfolding apart_def using under_linear by blast

lemma apart_sibling: "s \<noteq> [] \<Longrightarrow> hd s \<noteq> slash \<Longrightarrow> apart a (a @ s)"
  by (cases s) (auto simp: apart_def under_iff sub_path_def)

lemma under_moved: "under a k \<Longrightarrow> under b (b @ drop (length a) k)"
  by (auto simp: under_iff sub_path_def)

lemma Join_take: "1 \<le> n \<Longrightarrow> es \<noteq> [] \<Longrightarrow> under (Join (take n es) [slash]) (Join es [slash])"
proof -
  assume "1 \<le> n" "es \<noteq> []"
  then have "take n es \<noteq> []" by (cases es; cases n) simp_all
  from Join_snoc [OF this, of "drop n es" "[slash]"]
  have "Join es [slash] = Join (take n es) [slash] @ (if drop n es = [] then [] else slash # Join (drop n es) [slash])" by simp
  then show ?thesis by (simp add: under_iff sub_path_def split: if_splits)
qed

lemma ancestors_under:
  assumes "q \<in> set (ancestors p)" shows "under q p"
proof -
  from assms obtain n where "1 \<le> n" "q = Join (take n (elems p)) [slash]" by (auto simp: ancestors_def)
  then show ?thesis using Join_take [of n "elems p"] elems_acc_nonempty [of "[]" p] by (simp add: elems_def [symmetric])
qed

lemma abs_path_under: "es \<noteq> [] \<Longrightarrow> under (abs_path es) (abs_path (es @ fs))"
  by (cases "fs = []") (auto simp: abs_path_append under_iff sub_path_def)

lemma path_dir_abs_path:
  assumes "plain es" "es \<noteq> []" "plain_elem x"
  shows "path_dir (abs_path (es @ [x])) = abs_path es"
proof -
  have x: "slash \<notin> set x" using assms(3) by (simp add: plain_elem_def)
  have p: "abs_path (es @ [x]) = (abs_path es @ [slash]) @ x" using assms(2) by (simp add: abs_path_append)
  have "dropWhile (\<lambda>c. c \<noteq> slash) (rev x @ slash # rev (abs_path es)) = slash # rev (abs_path es)"
    using x by (subst dropWhile_append2) auto
  then have "rev (dropWhile (\<lambda>c. c \<noteq> slash) (rev (abs_path (es @ [x])))) = abs_path es @ slash # []"
    unfolding p by simp
  moreover have "clean_elems (abs_path es @ slash # []) = es"
  proof -
    have "IsAbs (abs_path es @ slash # [])" by (simp add: IsAbs_def HasPrefix_def abs_path_def)
    then show ?thesis using elems_abs_path [OF assms(1,2)] fold_plain [OF assms(1), of True "[]"]
      by (simp add: clean_elems_def elems_append elems_def [of "[]"] clean_step.simps [of True "[]"])
  qed
  ultimately show ?thesis by (simp add: path_dir_def Clean_def abs_path_def IsAbs_def HasPrefix_def)
qed

end
