(* ===== verification/Disk.thy ===== *)
theory Disk
  imports Frames Paths
begin

text \<open>
  A file tree and the operations of Go's package os the runner uses on it. A tree maps a path to a file
  with its mode, a directory or a symbolic link. An operation returns the new tree and the error, if any;
  \<open>fault\<close> gives the failures the file system adds on its own account (permissions, a full disk), by
  operation and path. Operations are chained until the first error, as the code chains them, and what was
  written before an error stays.
\<close>

datatype node = NFile string nat | NDir | NLink string

type_synonym disk = "node gomap"

type_synonym fault = "string \<Rightarrow> string \<Rightarrow> string option"

type_synonym op = "disk \<Rightarrow> disk \<times> string option"

fun is_file :: "node option \<Rightarrow> bool" where
  "is_file (Some (NFile _ _)) = True"
| "is_file _ = False"

subsection \<open>Operations\<close>

definition io_done :: op where "io_done d = (d, None)"

definition io_fail :: "string \<Rightarrow> op" where "io_fail m d = (d, Some m)"

definition andThen :: "op \<Rightarrow> op \<Rightarrow> op" where
  "andThen f g d = (case f d of (d1, Some m) \<Rightarrow> (d1, Some m) | (d1, None) \<Rightarrow> g d1)"

definition run_all :: "op list \<Rightarrow> op" where
  "run_all ops = foldr andThen ops io_done"

text \<open>An operation whose error the code ignores.\<close>

definition ignored_op :: "op \<Rightarrow> op" where
  "ignored_op f d = (fst (f d), None)"

definition guarded :: "fault \<Rightarrow> string \<Rightarrow> string \<Rightarrow> (disk \<Rightarrow> disk) \<Rightarrow> op" where
  "guarded flt name p f d = (case flt name p of Some m \<Rightarrow> (d, Some m) | None \<Rightarrow> (f d, None))"

definition RemoveAll :: "fault \<Rightarrow> string \<Rightarrow> op" where
  "RemoveAll flt p = guarded flt ''RemoveAll'' p (filter (\<lambda>(k, _). \<not> under p k))"

definition make_dir :: "string \<Rightarrow> disk \<Rightarrow> disk" where
  "make_dir q d = (if has_key d q then d else put q NDir d)"

text \<open>A file where a directory is needed is an error.\<close>

definition MkdirAll :: "fault \<Rightarrow> string \<Rightarrow> op" where
  "MkdirAll flt p d =
     (if \<exists>q\<in>set (ancestors p). is_file (map_of d q) then (d, Some ''not a directory'')
      else guarded flt ''MkdirAll'' p (fold make_dir (ancestors p)) d)"

definition WriteFile :: "fault \<Rightarrow> string \<Rightarrow> string \<Rightarrow> nat \<Rightarrow> op" where
  "WriteFile flt p content mode d =
     (if map_of d p = Some NDir then (d, Some ''is a directory'')
      else guarded flt ''WriteFile'' p (put p (NFile content mode)) d)"

definition Remove :: "fault \<Rightarrow> string \<Rightarrow> op" where
  "Remove flt p = guarded flt ''Remove'' p (del p)"

definition Symlink :: "fault \<Rightarrow> string \<Rightarrow> string \<Rightarrow> op" where
  "Symlink flt target p d =
     (if has_key d p then (d, Some ''file exists'') else guarded flt ''Symlink'' p (put p (NLink target)) d)"

definition rekey :: "string \<Rightarrow> string \<Rightarrow> string \<Rightarrow> string" where
  "rekey a b k = (if under a k then b @ drop (length a) k else k)"

text \<open>Moving a directory to a name that is free.\<close>

definition Rename :: "fault \<Rightarrow> string \<Rightarrow> string \<Rightarrow> op" where
  "Rename flt a b d =
     (if \<not> has_key d a then (d, Some ''no such file or directory'')
      else if \<exists>k\<in>fst ` set d. under b k then (d, Some ''file exists'')
      else guarded flt ''Rename'' a (map (\<lambda>(k, n). (rekey a b k, n))) d)"

text \<open>The names in a directory; a missing directory has none.\<close>

definition child :: "string \<Rightarrow> string \<Rightarrow> string option" where
  "child dir k = (if HasPrefix k (dir @ [slash])
     then (let r = drop (length dir + 1) k in if r \<noteq> [] \<and> slash \<notin> set r then Some r else None) else None)"

definition ReadDir :: "string \<Rightarrow> disk \<Rightarrow> (string \<times> node) list" where
  "ReadDir dir d = List.map_filter (\<lambda>(k, n). map_option (\<lambda>r. (r, n)) (child dir k)) d"

text \<open>Replacing a file in one step.\<close>

definition writeFileAtomic :: "fault \<Rightarrow> string \<Rightarrow> string \<Rightarrow> op" where
  "writeFileAtomic flt p content = guarded flt ''writeFileAtomic'' p (put p (NFile content 384))"

text \<open>Copying a directory of regular files and directories; anything else is skipped.\<close>

definition copyTree :: "fault \<Rightarrow> string \<Rightarrow> string \<Rightarrow> op" where
  "copyTree flt src dst d =
     run_all (map (\<lambda>(k, n). case n of NDir \<Rightarrow> MkdirAll flt (dst @ drop (length src) k)
                      | NFile c m \<Rightarrow> WriteFile flt (dst @ drop (length src) k) c m
                      | NLink _ \<Rightarrow> io_done)
        (filter (\<lambda>(k, _). under src k) d)) d"

subsection \<open>What operations leave alone\<close>

text \<open>\<open>spares P f\<close>: whatever \<open>f\<close> does, the entries at paths with \<open>P\<close> are as before.\<close>

definition spares :: "(string \<Rightarrow> bool) \<Rightarrow> op \<Rightarrow> bool" where
  "spares P f \<longleftrightarrow> (\<forall>d k. P k \<longrightarrow> map_of (fst (f d)) k = map_of d k)"

named_theorems spares_rules \<open>operations that leave a part of the tree alone\<close>

lemma sparesI: "(\<And>d k. P k \<Longrightarrow> map_of (fst (f d)) k = map_of d k) \<Longrightarrow> spares P f"
  by (simp add: spares_def)

lemma sparesD: "spares P f \<Longrightarrow> P k \<Longrightarrow> map_of (fst (f d)) k = map_of d k"
  by (simp add: spares_def)

lemma spares_done [spares_rules]: "spares P io_done"
  by (simp add: spares_def io_done_def)

lemma spares_fail [spares_rules]: "spares P (io_fail m)"
  by (simp add: spares_def io_fail_def)

lemma spares_andThen [spares_rules]: "spares P f \<Longrightarrow> spares P g \<Longrightarrow> spares P (andThen f g)"
  by (auto simp: spares_def andThen_def split: prod.split option.split) (metis fst_conv)+

lemma spares_run_all [spares_rules]: "(\<And>f. f \<in> set ops \<Longrightarrow> spares P f) \<Longrightarrow> spares P (run_all ops)"
  by (induction ops) (auto simp: run_all_def intro: spares_done spares_andThen)

lemma spares_ignored [spares_rules]: "spares P f \<Longrightarrow> spares P (ignored_op f)"
  by (simp add: spares_def ignored_op_def)

lemma spares_guarded:
  "(\<And>d k. P k \<Longrightarrow> map_of (f d) k = map_of d k) \<Longrightarrow> spares P (guarded flt name p f)"
  by (simp add: spares_def guarded_def split: option.split)

lemma map_of_filter_key: "map_of (filter (\<lambda>(k, _). Q k) d) k = (if Q k then map_of d k else None)"
  by (induction d) auto

lemma spares_RemoveAll [spares_rules]: "(\<And>k. P k \<Longrightarrow> \<not> under p k) \<Longrightarrow> spares P (RemoveAll flt p)"
  unfolding RemoveAll_def by (rule spares_guarded) (simp add: map_of_filter_key)

lemma map_of_make_dirs:
  "k \<notin> set qs \<Longrightarrow> map_of (fold make_dir qs d) k = map_of d k"
  by (induction qs arbitrary: d) (auto simp: make_dir_def)

lemma spares_MkdirAll [spares_rules]: "(\<And>k. P k \<Longrightarrow> k \<notin> set (ancestors p)) \<Longrightarrow> spares P (MkdirAll flt p)"
proof (rule sparesI)
  fix d k assume "\<And>k. P k \<Longrightarrow> k \<notin> set (ancestors p)" "P k"
  then show "map_of (fst (MkdirAll flt p d)) k = map_of d k"
    by (simp add: MkdirAll_def guarded_def map_of_make_dirs split: option.split)
qed

lemma spares_WriteFile [spares_rules]: "\<not> P p \<Longrightarrow> spares P (WriteFile flt p c m)"
  by (auto simp: spares_def WriteFile_def guarded_def split: option.split)

lemma spares_Remove [spares_rules]: "\<not> P p \<Longrightarrow> spares P (Remove flt p)"
  by (auto simp: spares_def Remove_def guarded_def split: option.split)

lemma spares_Symlink [spares_rules]: "\<not> P p \<Longrightarrow> spares P (Symlink flt t p)"
  by (auto simp: spares_def Symlink_def guarded_def split: option.split)

lemma spares_writeFileAtomic [spares_rules]: "\<not> P p \<Longrightarrow> spares P (writeFileAtomic flt p c)"
  by (auto simp: spares_def writeFileAtomic_def guarded_def split: option.split)

lemma spares_reads: "(\<And>d. spares P (f d)) \<Longrightarrow> spares P (\<lambda>d. f d d)"
  by (simp add: spares_def)

lemma spares_mkdir: "\<not> under c p \<Longrightarrow> spares (under c) (MkdirAll flt p)"
  by (rule spares_MkdirAll) (use ancestors_under under_trans in blast)

lemma spares_rm: "apart c p \<Longrightarrow> spares (under c) (RemoveAll flt p)"
  by (rule spares_RemoveAll) (use apart_not in blast)

lemma spares_off:
  "\<not> under c p \<Longrightarrow> spares (under c) (WriteFile flt p x m)" "\<not> under c p \<Longrightarrow> spares (under c) (Remove flt p)"
  "\<not> under c p \<Longrightarrow> spares (under c) (Symlink flt t p)" "\<not> under c p \<Longrightarrow> spares (under c) (writeFileAtomic flt p x)"
  by (auto intro: spares_WriteFile spares_Remove spares_Symlink spares_writeFileAtomic)

lemma spares_copyTree: "apart c dst \<Longrightarrow> spares (under c) (copyTree flt src dst)"
  unfolding copyTree_def
proof (rule spares_reads, rule spares_run_all)
  fix d f
  assume dst: "apart c dst"
    and "f \<in> set (map (\<lambda>(k, n). case n of NDir \<Rightarrow> MkdirAll flt (dst @ drop (length src) k)
           | NFile c m \<Rightarrow> WriteFile flt (dst @ drop (length src) k) c m | NLink _ \<Rightarrow> io_done)
        (filter (\<lambda>(k, _). under src k) d))"
  then obtain k n where f: "under src k" "f = (case n of NDir \<Rightarrow> MkdirAll flt (dst @ drop (length src) k)
           | NFile c m \<Rightarrow> WriteFile flt (dst @ drop (length src) k) c m | NLink _ \<Rightarrow> io_done)" by auto
  have "under dst (dst @ drop (length src) k)" using f(1) by (rule under_moved)
  then have "\<not> under c (dst @ drop (length src) k)" using apart_under [OF dst] by (simp add: apart_def)
  with f(2) show "spares (under c) f"
    by (cases n) (auto intro: spares_mkdir spares_WriteFile spares_done)
qed

end
