(* ===== verification/Materialize.thy ===== *)
theory Materialize
  imports Disk
begin

text \<open>
  What a pushed bundle becomes on the runner (internal/runner/bundle.go and the file half of
  internal/runner/state.go): the files are staged beside the live configuration directory, completed with
  the assembled memory file, the tool server list, the persistent state and the host's credentials, and the
  staged directory replaces the live one. The text of the server list and of the skill manifest is made by
  the arguments of \<open>mat_env\<close>; the read of the manifest is one too.
\<close>

subsection \<open>State\<close>

record materialized =
  mz_version :: int
  mz_digest :: string
  mz_configDir :: string
  mz_mcpPath :: string
  mz_model :: string
  mz_looseMCP :: bool
  mz_secrets :: "string gomap"

definition no_materialized :: materialized where
  "no_materialized = \<lparr>mz_version = 0, mz_digest = [], mz_configDir = [], mz_mcpPath = [], mz_model = [],
     mz_looseMCP = False, mz_secrets = []\<rparr>"

record ropts =
  ro_Name :: string
  ro_Gateway :: string
  ro_Token :: string
  ro_Fingerprint :: string
  ro_Insecure :: bool
  ro_Cwd :: string
  ro_HarnessName :: string
  ro_HarnessCredentials :: string
  ro_RuntimeRoot :: string
  ro_SelfPath :: string
  ro_IdleTimeout :: int
  ro_MaxSessions :: int
  ro_StateDir :: string

text \<open>An entry of the server list.\<close>

record mcpEntry =
  me_command :: string
  me_args :: "string list"
  me_env :: "string gomap"

record mat_env =
  mt_fault :: fault
  mt_servers :: "mcpEntry gomap \<Rightarrow> string + string"
  mt_names_out :: "string list \<Rightarrow> string"
  mt_names_in :: "string \<Rightarrow> string list"

definition SocketPath :: "string \<Rightarrow> string \<Rightarrow> string" where
  "SocketPath base name = path_join [base, name, ''run.sock'']"

definition safeRelPath :: "string \<Rightarrow> string option" where
  "safeRelPath p =
     (if p = [] then Some ''empty path''
      else if IsAbs p \<or> HasPrefix p [slash] \<or> backslash \<in> set p
      then Some ''must be a relative slash-separated path''
      else let clean = Clean p in
        if clean = ''.'' \<or> clean = ''..'' \<or> HasPrefix clean (''..'' @ [slash])
        then Some ''escapes the bundle base'' else None)"

subsection \<open>The memory file\<close>

definition blank_line :: string where "blank_line = [CHR 0x0A, CHR 0x0A]"

definition memory_parts :: "string \<Rightarrow> disk \<Rightarrow> (string \<times> node) list" where
  "memory_parts base d = sort_key fst (filter (\<lambda>(_, n). n \<noteq> NDir) (ReadDir (sub_path base ''memory'') d))"

text \<open>Reading a file: \<open>None\<close> where there is none. The trees read here hold no links to files.\<close>

definition ReadFile :: "fault \<Rightarrow> string \<Rightarrow> disk \<Rightarrow> (string + string) option" where
  "ReadFile flt p d =
     (case map_of d p of None \<Rightarrow> None
      | Some (NFile c _) \<Rightarrow> (case flt ''ReadFile'' p of None \<Rightarrow> Some (Inr c) | Some m \<Rightarrow> Some (Inl m))
      | Some _ \<Rightarrow> Some (Inl ''not a regular file''))"

fun read_parts :: "fault \<Rightarrow> string \<Rightarrow> string list \<Rightarrow> disk \<Rightarrow> string + string list" where
  "read_parts flt dir [] d = Inr []"
| "read_parts flt dir (n # ns) d =
     (case ReadFile flt (sub_path dir n) d of
        None \<Rightarrow> Inl ''no such file or directory''
      | Some (Inl m) \<Rightarrow> Inl m
      | Some (Inr c) \<Rightarrow> (case read_parts flt dir ns d of Inl m \<Rightarrow> Inl m | Inr cs \<Rightarrow> Inr (c # cs)))"

definition notes_section :: "string \<Rightarrow> string \<Rightarrow> string" where
  "notes_section localPath notes =
     ''## Durable notes'' @ blank_line
     @ ''Everything above is rebuilt from the deployment bundle, so edits to this file are lost. ''
     @ ''To keep a note across restarts and redeploys, add it to '' @ [CHR 0x60] @ localPath @ [CHR 0x60]
     @ ''; it is appended here at the start of every session.'' @ [CHR 0x0A]
     @ (if TrimSpace notes \<noteq> [] then CHR 0x0A # notes else [])"

text \<open>\<open>None\<close>: the notes file does not exist, or there is no state directory.\<close>

definition memory_text :: "string list \<Rightarrow> string \<Rightarrow> string option \<Rightarrow> string" where
  "memory_text parts localPath notes =
     (let b0 = fold (\<lambda>c b. (if b \<noteq> [] then b @ blank_line else b) @ c) parts [] in
      if localPath = [] then b0
      else (if b0 \<noteq> [] then b0 @ blank_line else b0) @ notes_section localPath (case notes of None \<Rightarrow> [] | Some c \<Rightarrow> c))"

definition assembleMemory :: "fault \<Rightarrow> string \<Rightarrow> string \<Rightarrow> op" where
  "assembleMemory flt base localPath d =
     (case read_parts flt (sub_path base ''memory'') (map fst (memory_parts base d)) d of
        Inl m \<Rightarrow> (d, Some m)
      | Inr parts \<Rightarrow>
          (case (if localPath = [] then None else ReadFile flt localPath d) of
             Some (Inl m) \<Rightarrow> (d, Some m)
           | notes \<Rightarrow>
               let txt = memory_text parts localPath (case notes of Some (Inr c) \<Rightarrow> Some c | _ \<Rightarrow> None) in
               if txt = [] then (d, None) else writeFileAtomic flt (sub_path base ''CLAUDE.md'') txt d))"

subsection \<open>The tool servers\<close>

definition mcp_entry :: "ropts \<Rightarrow> MCPServer \<Rightarrow> mcpEntry option" where
  "mcp_entry o1 s =
     (case ms_kind s of
        MCPLocal \<Rightarrow> Some \<lparr>me_command = ms_command s, me_args = ms_args s, me_env = ms_env s\<rparr>
      | MCPProxied \<Rightarrow> Some \<lparr>me_command = ro_SelfPath o1,
          me_args = [''mcp-shim'', ''--socket'', SocketPath (ro_RuntimeRoot o1) (ro_Name o1), ''--server'', ms_name s], me_env = []\<rparr>
      | MCPOther _ \<Rightarrow> None)"

definition permission_entry :: "ropts \<Rightarrow> mcpEntry" where
  "permission_entry o1 = \<lparr>me_command = ro_SelfPath o1,
     me_args = [''permission-shim'', ''--socket'', SocketPath (ro_RuntimeRoot o1) (ro_Name o1)], me_env = []\<rparr>"

text \<open>The permission server is written last, so no pushed server can take its name.\<close>

definition mcp_servers :: "ropts \<Rightarrow> MCPServer list \<Rightarrow> mcpEntry gomap" where
  "mcp_servers o1 servers =
     put ''splitscreen'' (permission_entry o1)
       (fold (\<lambda>s m. case mcp_entry o1 s of None \<Rightarrow> m | Some en \<Rightarrow> put (ms_name s) en m) servers [])"

definition writeMCPConfig :: "mat_env \<Rightarrow> ropts \<Rightarrow> string \<Rightarrow> MCPServer list \<Rightarrow> op" where
  "writeMCPConfig t o1 p servers =
     (case mt_servers t (mcp_servers o1 servers) of Inl m \<Rightarrow> io_fail m | Inr body \<Rightarrow> WriteFile (mt_fault t) p body 384)"

subsection \<open>Credentials and persistent state\<close>

definition linkHostCredentials :: "fault \<Rightarrow> ropts \<Rightarrow> string \<Rightarrow> op" where
  "linkHostCredentials flt o1 base d =
     (let src = ro_HarnessCredentials o1; dest = sub_path base ''.credentials.json'' in
      if src = [] then (d, None)
      else if \<not> has_key d src then (d, Some ''harness credentials'')
      else run_all [ignored_op (Remove flt dest), Symlink flt src dest] d)"

definition localMemoryPath :: "ropts \<Rightarrow> string" where
  "localMemoryPath o1 = (if ro_StateDir o1 = [] then [] else path_join [ro_StateDir o1, ''CLAUDE.local.md''])"

definition adoptEphemeralState :: "fault \<Rightarrow> ropts \<Rightarrow> string \<Rightarrow> op" where
  "adoptEphemeralState flt o1 state d =
     (let live = path_join [ro_RuntimeRoot o1, ro_Name o1, ''config'', ''projects'']; dest = path_join [state, ''projects''] in
      if map_of d live \<noteq> Some NDir then (d, None)
      else if ReadDir dest d \<noteq> [] then (d, None)
      else copyTree flt live dest d)"

definition dir_names :: "string \<Rightarrow> disk \<Rightarrow> string list" where
  "dir_names dir d = sort_key id (map fst (filter (\<lambda>(_, n). n = NDir) (ReadDir dir d)))"

definition syncBundleSkills :: "mat_env \<Rightarrow> string \<Rightarrow> string \<Rightarrow> op" where
  "syncBundleSkills t staged state d =
     (let flt = mt_fault t; dest = path_join [state, ''skills'']; manifest = path_join [state, ''.bundle-skills.json''];
          previous = (case ReadFile flt manifest d of Some (Inr raw) \<Rightarrow> mt_names_in t raw | _ \<Rightarrow> []);
          current = dir_names staged d;
          gone = filter (\<lambda>n. n \<notin> set current \<and> safeRelPath n = None) previous
      in run_all
           (map (\<lambda>n. RemoveAll flt (path_join [dest, n])) gone
            @ concat (map (\<lambda>n. [RemoveAll flt (sub_path dest n), copyTree flt (sub_path staged n) (sub_path dest n)]) current)
            @ [writeFileAtomic flt manifest (mt_names_out t current)]) d)"

definition prepareState :: "mat_env \<Rightarrow> ropts \<Rightarrow> string \<Rightarrow> op" where
  "prepareState t o1 staging =
     (let flt = mt_fault t; state = ro_StateDir o1 in
      run_all
        (map (MkdirAll flt) [state, path_join [state, ''projects''], path_join [state, ''skills'']]
         @ [ignored_op (adoptEphemeralState flt o1 state), syncBundleSkills t (sub_path staging ''skills'') state]
         @ concat (map (\<lambda>name. [RemoveAll flt (sub_path staging name), Symlink flt (path_join [state, name]) (sub_path staging name)])
             [''projects'', ''skills''])))"

subsection \<open>Applying a bundle\<close>

definition file_mode :: "nat \<Rightarrow> nat" where
  "file_mode m = (if m = 0 then 384 else m) mod 512"

definition write_bundle_file :: "fault \<Rightarrow> string \<Rightarrow> BundleFile \<Rightarrow> op" where
  "write_bundle_file flt staging f =
     (case safeRelPath (bf_path f) of Some m \<Rightarrow> io_fail m
      | None \<Rightarrow>
          let dest = path_join [staging, bf_path f] in
          run_all [MkdirAll flt (path_dir dest), WriteFile flt dest (bf_content f) (file_mode (bf_mode f))])"

definition config_dir :: "ropts \<Rightarrow> string" where
  "config_dir o1 = path_join [ro_RuntimeRoot o1, ro_Name o1, ''config'']"

definition stage_ops :: "mat_env \<Rightarrow> ropts \<Rightarrow> BundlePush \<Rightarrow> op list" where
  "stage_ops t o1 push =
     (let flt = mt_fault t; staging = config_dir o1 @ ''.new'' in
      [RemoveAll flt staging, MkdirAll flt staging]
      @ map (write_bundle_file flt staging) (bp_files push)
      @ (if ro_StateDir o1 \<noteq> [] then [prepareState t o1 staging] else [])
      @ [assembleMemory flt staging (localMemoryPath o1),
         writeMCPConfig t o1 (sub_path staging ''mcp.json'') (bp_mcp push),
         linkHostCredentials flt o1 staging])"

text \<open>The swap: the live directory steps aside, the staged one takes its place.\<close>

definition rotate :: "fault \<Rightarrow> string \<Rightarrow> op" where
  "rotate flt dir d = (if has_key d dir then Rename flt dir (dir @ ''.old'') d else (d, None))"

definition swap_ops :: "mat_env \<Rightarrow> ropts \<Rightarrow> op list" where
  "swap_ops t o1 =
     (let flt = mt_fault t; dir = config_dir o1 in
      [ignored_op (RemoveAll flt (dir @ ''.old'')), rotate flt dir, Rename flt (dir @ ''.new'') dir,
       ignored_op (RemoveAll flt (dir @ ''.old''))])"

definition installed :: "ropts \<Rightarrow> BundlePush \<Rightarrow> materialized" where
  "installed o1 push = \<lparr>mz_version = bp_version push, mz_digest = bp_digest push, mz_configDir = config_dir o1,
     mz_mcpPath = sub_path (config_dir o1) ''mcp.json'', mz_model = bp_model push, mz_looseMCP = bp_loose_mcp push,
     mz_secrets = bp_secrets push\<rparr>"

definition applyBundle :: "mat_env \<Rightarrow> ropts \<Rightarrow> BundlePush \<Rightarrow> disk \<times> materialized \<Rightarrow> (disk \<times> materialized) \<times> string option" where
  "applyBundle t o1 push s =
     (case run_all (stage_ops t o1 push @ swap_ops t o1) (fst s) of
        (d, Some m) \<Rightarrow> ((d, snd s), Some m)
      | (d, None) \<Rightarrow> ((d, installed o1 push), None))"

text \<open>Before a session starts, the durable notes are read again.\<close>

definition refreshMemory :: "fault \<Rightarrow> ropts \<Rightarrow> string \<Rightarrow> op" where
  "refreshMemory flt o1 configDir = (if ro_StateDir o1 = [] then io_done else assembleMemory flt configDir (localMemoryPath o1))"

subsection \<open>A failed push leaves the live configuration alone\<close>

text \<open>A state directory, when there is one, is a clean absolute path apart from the configuration.\<close>

definition state_dir_ok :: "ropts \<Rightarrow> bool" where
  "state_dir_ok o1 \<longleftrightarrow> ro_StateDir o1 = [] \<or>
     (\<exists>ss. plain ss \<and> ss \<noteq> [] \<and> ro_StateDir o1 = abs_path ss \<and> apart (config_dir o1) (abs_path ss))"

lemma safeRelPath_dest:
  assumes "safeRelPath p = None" "plain es" "es \<noteq> []"
  obtains fs x where "plain (fs @ [x])" "path_join [abs_path es, p] = abs_path (es @ fs @ [x])"
proof -
  have p: "p \<noteq> []" "\<not> IsAbs p" "\<not> climbs p" "Clean p \<noteq> ''.''"
    using assms(1) by (auto simp: safeRelPath_def climbs_def Let_def split: if_splits)
  from clean_elems_are_plain [OF p(2,3)] have pl: "plain (clean_elems p)" .
  have "clean_elems p \<noteq> []" using p(2,4) by (auto simp: Clean_def)
  then obtain fs x where c: "clean_elems p = fs @ [x]" by (metis append_butlast_last_id)
  show thesis
    by (rule that [of fs x]) (use path_join_under [OF assms(2,3) p(1,2,3)] pl c in auto)
qed

lemma spares_bundle_file:
  assumes "apart c (abs_path es)" "plain es" "es \<noteq> []"
  shows "spares (under c) (write_bundle_file flt (abs_path es) f)"
proof (cases "safeRelPath (bf_path f)")
  case None
  then obtain fs x where d: "plain (fs @ [x])" "path_join [abs_path es, bf_path f] = abs_path (es @ fs @ [x])"
    by (rule safeRelPath_dest [OF _ assms(2,3)])
  have dir: "path_dir (abs_path (es @ fs @ [x])) = abs_path (es @ fs)"
    using path_dir_abs_path [of "es @ fs" x] assms(2,3) d(1) by simp
  have "apart c (abs_path (es @ fs))" "apart c (abs_path (es @ fs @ [x]))"
    using apart_under [OF assms(1)] abs_path_under [OF assms(3)] by blast+
  with None d(2) dir show ?thesis
    by (auto simp: write_bundle_file_def Let_def apart_def intro!: spares_run_all spares_mkdir spares_WriteFile)
qed (simp add: write_bundle_file_def spares_fail)

lemma clean_name: "plain_elem n \<Longrightarrow> plain es \<Longrightarrow> es \<noteq> [] \<Longrightarrow> path_join [abs_path es, n] = abs_path (es @ [n])"
proof -
  assume n: "plain_elem n" "plain es" "es \<noteq> []"
  then have e: "elems n = [n]" "\<not> IsAbs n" "n \<noteq> []"
    by (auto simp: plain_elem_def elems_def elems_acc_single IsAbs_def HasPrefix_def prefix_def)
  then have c: "clean_elems n = [n]" using n(1) by (auto simp: clean_elems_def clean_step.simps plain_elem_def)
  have "Clean n = n" using e c by (simp add: Clean_def)
  then have "\<not> climbs n" using n(1) by (auto simp: climbs_def plain_elem_def HasPrefix_def prefix_def)
  from path_join_under [OF n(2,3) e(3,2) this] c show ?thesis by simp
qed

lemma plain_names [simp]:
  "plain_elem ''skills''" "plain_elem ''projects''" "plain_elem ''.bundle-skills.json''" "plain_elem ''config''"
  by (simp_all add: plain_elem_def slash_def)

lemma spares_sync:
  assumes "apart c (abs_path ss)" "plain ss" "ss \<noteq> []"
  shows "spares (under c) (syncBundleSkills t staged (abs_path ss))"
  unfolding syncBundleSkills_def Let_def
proof (rule spares_reads, rule spares_run_all)
  let ?flt = "mt_fault t" and ?dest = "abs_path (ss @ [''skills''])"
  fix d f
  have dest: "path_join [abs_path ss, ''skills''] = ?dest"
    "path_join [abs_path ss, ''.bundle-skills.json''] = abs_path (ss @ [''.bundle-skills.json''])"
    by (simp_all add: clean_name assms)
  have a: "apart c ?dest" "apart c (abs_path (ss @ [''.bundle-skills.json'']))"
    using apart_under [OF assms(1)] abs_path_under [OF assms(3)] by blast+
  assume "f \<in> set (map (\<lambda>n. RemoveAll ?flt (path_join [path_join [abs_path ss, ''skills''], n]))
      (filter (\<lambda>n. n \<notin> set (dir_names staged d) \<and> safeRelPath n = None)
        (case ReadFile ?flt (path_join [abs_path ss, ''.bundle-skills.json'']) d of Some (Inr raw) \<Rightarrow> mt_names_in t raw | _ \<Rightarrow> []))
      @ concat (map (\<lambda>n. [RemoveAll ?flt (sub_path (path_join [abs_path ss, ''skills'']) n),
           copyTree ?flt (sub_path staged n) (sub_path (path_join [abs_path ss, ''skills'']) n)]) (dir_names staged d))
      @ [writeFileAtomic ?flt (path_join [abs_path ss, ''.bundle-skills.json'']) (mt_names_out t (dir_names staged d))])"
  then consider (gone) n where "safeRelPath n = None" "f = RemoveAll ?flt (path_join [?dest, n])"
    | (new) n where "f = RemoveAll ?flt (sub_path ?dest n) \<or> f = copyTree ?flt (sub_path staged n) (sub_path ?dest n)"
    | (manifest) x where "f = writeFileAtomic ?flt (abs_path (ss @ [''.bundle-skills.json''])) x"
    unfolding dest by auto
  then show "spares (under c) f"
  proof cases
    case gone
    have pd: "plain (ss @ [''skills''])" "ss @ [''skills''] \<noteq> []" using assms(2) by simp_all
    from safeRelPath_dest [OF gone(1) pd] obtain fs x where
      "path_join [?dest, n] = abs_path ((ss @ [''skills'']) @ fs @ [x])" by metis
    then have "under ?dest (path_join [?dest, n])" using abs_path_under [OF pd(2)] by metis
    with gone(2) show ?thesis using apart_under [OF a(1)] by (auto intro: spares_rm)
  next
    case new
    have "apart c (sub_path ?dest n)" by (rule apart_under [OF a(1)]) simp
    with new show ?thesis by (auto intro: spares_rm spares_copyTree)
  next
    case manifest
    with a(2) show ?thesis by (auto simp: apart_def intro: spares_writeFileAtomic)
  qed
qed

lemma spares_adopt:
  assumes "apart c (abs_path ss)" "plain ss" "ss \<noteq> []"
  shows "spares (under c) (adoptEphemeralState flt o1 (abs_path ss))"
proof -
  have "path_join [abs_path ss, ''projects''] = abs_path (ss @ [''projects''])" by (simp add: clean_name assms)
  moreover have "apart c (abs_path (ss @ [''projects'']))" by (rule apart_under [OF assms(1) abs_path_under [OF assms(3)]])
  ultimately show ?thesis
    by (auto simp: spares_def adoptEphemeralState_def Let_def intro: sparesD [OF spares_copyTree])
qed

lemma spares_prepareState:
  assumes "apart c (abs_path ss)" "plain ss" "ss \<noteq> []" "apart c staging" "ro_StateDir o1 = abs_path ss"
  shows "spares (under c) (prepareState t o1 staging)"
proof -
  have j: "path_join [abs_path ss, n] = abs_path (ss @ [n])" if "n = ''projects'' \<or> n = ''skills''" for n
    using that assms by (auto simp: clean_name)
  have a: "\<not> under c (abs_path (ss @ [n]))" for n
    using apart_under [OF assms(1) abs_path_under [OF assms(3)]] by (simp add: apart_def)
  have s: "apart c (sub_path staging n)" for n by (rule apart_under [OF assms(4)]) simp
  then have s': "\<not> under c (sub_path staging n)" for n by (simp add: apart_def)
  have c: "\<not> under c (abs_path ss)" using assms(1) by (simp add: apart_def)
  show ?thesis
    unfolding prepareState_def Let_def assms(5)
    by (rule spares_run_all)
      (auto simp: j intro: spares_mkdir [OF a] spares_mkdir [OF c] spares_ignored [OF spares_adopt [OF assms(1-3)]]
        spares_sync [OF assms(1-3)] spares_rm [OF s] spares_off(3) [OF s'])
qed

lemma spares_assembleMemory: "\<not> under c (sub_path dir ''CLAUDE.md'') \<Longrightarrow> spares (under c) (assembleMemory flt dir lp)"
  by (rule sparesI)
    (auto simp: assembleMemory_def Let_def split: sum.split option.split intro: sparesD [OF spares_writeFileAtomic])

lemma spares_writeMCPConfig: "\<not> under c p \<Longrightarrow> spares (under c) (writeMCPConfig t o1 p servers)"
  by (auto simp: writeMCPConfig_def split: sum.split intro: spares_fail spares_WriteFile)

lemma spares_linkHostCredentials:
  assumes "\<not> under c (sub_path dir ''.credentials.json'')"
  shows "spares (under c) (linkHostCredentials flt o1 dir)"
proof -
  have "spares (under c) (run_all [ignored_op (Remove flt (sub_path dir ''.credentials.json'')),
      Symlink flt (ro_HarnessCredentials o1) (sub_path dir ''.credentials.json'')])"
    by (rule spares_run_all) (auto intro: spares_ignored [OF spares_off(2) [OF assms]] spares_off(3) [OF assms])
  then show ?thesis by (auto simp: spares_def linkHostCredentials_def Let_def)
qed

lemma config_dir_abs: "IsAbs (ro_RuntimeRoot o1) \<Longrightarrow> \<exists>es. plain es \<and> config_dir o1 = abs_path (es @ [''config''])"
  unfolding config_dir_def by (rule path_join_last) simp_all

lemma staging_abs: "IsAbs (ro_RuntimeRoot o1) \<Longrightarrow> \<exists>es. plain es \<and> es \<noteq> [] \<and> config_dir o1 @ ''.new'' = abs_path es"
proof -
  assume "IsAbs (ro_RuntimeRoot o1)"
  then obtain es where es: "plain es" "config_dir o1 = abs_path (es @ [''config''])" using config_dir_abs by blast
  have "abs_path (es @ [''config'']) @ ''.new'' = abs_path (es @ [''config.new''])"
    by (cases "es = []") (simp_all add: Join_snoc abs_path_def)
  moreover have "plain_elem ''config.new''" by (simp add: plain_elem_def slash_def)
  ultimately show ?thesis using es by (intro exI [of _ "es @ [''config.new'']"]) simp
qed

lemma spares_stage:
  assumes "IsAbs (ro_RuntimeRoot o1)" "state_dir_ok o1" "f \<in> set (stage_ops t o1 push)"
  shows "spares (under (config_dir o1)) f"
proof -
  let ?c = "config_dir o1"
  obtain es where es: "plain es" "es \<noteq> []" "?c @ ''.new'' = abs_path es" using staging_abs [OF assms(1)] by blast
  have a: "apart ?c (abs_path es)" unfolding es(3) [symmetric] by (rule apart_sibling) (simp_all add: slash_def)
  have s: "\<not> under ?c (sub_path (abs_path es) n)" for n
    using apart_under [OF a, of "sub_path (abs_path es) n"] by (simp add: apart_def)
  have off: "\<not> under ?c (abs_path es)" using a by (simp add: apart_def)
  have p: "spares (under ?c) (prepareState t o1 (abs_path es))" if "ro_StateDir o1 \<noteq> []"
    using assms(2) that unfolding state_dir_ok_def by (auto intro: spares_prepareState [OF _ _ _ a])
  from assms(3) p show ?thesis
    unfolding stage_ops_def Let_def es(3)
    by (auto split: if_splits intro: spares_rm [OF a] spares_mkdir [OF off] spares_bundle_file [OF a es(1,2)]
        spares_assembleMemory [OF s] spares_writeMCPConfig [OF s] spares_linkHostCredentials [OF s])
qed

lemma run_all_append: "run_all (fs @ gs) = andThen (run_all fs) (run_all gs)"
proof -
  have assoc: "andThen (andThen f g) h = andThen f (andThen g h)" for f g h
    by (rule ext) (simp add: andThen_def split: prod.split option.split)
  have nil: "andThen io_done g = g" for g by (rule ext) (simp add: andThen_def io_done_def)
  show ?thesis by (induction fs) (simp_all add: run_all_def assoc nil)
qed


subsection \<open>What a push installs\<close>

lemma map_of_rekey_in:
  assumes "\<And>k. k \<in> fst ` set d \<Longrightarrow> \<not> under b k" "r = [] \<or> hd r = slash"
  shows "map_of (map (\<lambda>(k, n). (rekey a b k, n)) d) (b @ r) = map_of d (a @ r)"
  using assms(1)
proof (induction d)
  case (Cons p d)
  obtain k n where p: "p = (k, n)" by fastforce
  have IH: "map_of (map (\<lambda>(k, n). (rekey a b k, n)) d) (b @ r) = map_of d (a @ r)"
    by (rule Cons.IH) (use Cons.prems in auto)
  have nb: "\<not> under b k" using Cons.prems [of k] p by simp
  show ?case
  proof (cases "under a k")
    case True
    then obtain u where u: "k = a @ u" "u = [] \<or> hd u = slash" unfolding under_app by blast
    then have "rekey a b k = b @ u" using True by (simp add: rekey_def)
    with u IH p show ?thesis by auto
  next
    case False
    then have "rekey a b k = k" by (simp add: rekey_def)
    moreover have "k \<noteq> b @ r" "k \<noteq> a @ r" using nb False assms(2) by (auto simp: under_app)
    ultimately show ?thesis using IH p by auto
  qed
qed simp

text \<open>
  After a push the configuration directory is the staged one and nothing else: every path below it holds
  what was staged there, so a file of an earlier bundle that the new one does not ship is gone.
\<close>

lemma Rename_moves:
  assumes "Rename flt a b d = (d', None)"
  shows "r = [] \<or> hd r = slash \<Longrightarrow> map_of d' (b @ r) = map_of d (a @ r)"
proof -
  from assms have d: "d' = map (\<lambda>(k, n). (rekey a b k, n)) d" "\<And>k. k \<in> fst ` set d \<Longrightarrow> \<not> under b k"
    by (auto simp: Rename_def guarded_def split: if_splits option.splits)
  show "r = [] \<or> hd r = slash \<Longrightarrow> map_of d' (b @ r) = map_of d (a @ r)"
    unfolding d(1) by (rule map_of_rekey_in) (use d(2) in auto)
qed

lemma andThen_None:
  assumes "andThen f g d = (d2, None)"
  obtains d1 where "f d = (d1, None)" "g d1 = (d2, None)"
  using assms by (auto simp: andThen_def split: prod.splits option.splits)

lemma run_all_Cons: "run_all (f # fs) = andThen f (run_all fs)"
  by (simp add: run_all_def)

lemma run_all_Nil: "run_all [] = io_done"
  by (simp add: run_all_def)

lemma rotate_spares: "apart c dir \<Longrightarrow> apart c (dir @ ''.old'') \<Longrightarrow> under c k \<Longrightarrow> map_of (fst (rotate flt dir d)) k = map_of d k"
proof -
  assume a: "apart c dir" "apart c (dir @ ''.old'')" and k: "under c k"
  from apart_not [OF a(1) k] apart_not [OF a(2) k] have n: "\<not> under dir k" "\<not> under (dir @ ''.old'') k" .
  have "map_of (map (\<lambda>(k, n). (rekey dir (dir @ ''.old'') k, n)) d) k = map_of d k"
  proof (induction d)
    case (Cons p d)
    obtain k' m where p: "p = (k', m)" by fastforce
    show ?case
    proof (cases "under dir k'")
      case True
      then have "rekey dir (dir @ ''.old'') k' \<noteq> k" using n(2) under_moved [of dir k' "dir @ ''.old''"] by (auto simp: rekey_def)
      moreover have "k' \<noteq> k" using True n(1) by auto
      ultimately show ?thesis using Cons p by simp
    next
      case False
      then show ?thesis using Cons p by (simp add: rekey_def)
    qed
  qed simp
  then show ?thesis by (simp add: rotate_def Rename_def guarded_def split: option.split)
qed

text \<open>
  A successful push installs exactly what was staged: below the configuration directory every path
  holds what the staging steps put there, and nothing of the directory it replaces is left; the runner then
  reports the pushed version and digest.
\<close>

theorem push_replaces_config:
  assumes "applyBundle t o1 push (d, mz) = ((d', mz'), None)"
  shows "\<exists>staged. run_all (stage_ops t o1 push) d = (staged, None) \<and>
    (\<forall>r. r = [] \<or> hd r = slash \<longrightarrow> map_of d' (config_dir o1 @ r) = map_of staged (config_dir o1 @ ''.new'' @ r)) \<and>
    mz_version mz' = bp_version push \<and> mz_digest mz' = bp_digest push \<and> mz_configDir mz' = config_dir o1"
proof -
  let ?c = "config_dir o1" and ?flt = "mt_fault t"
  from assms have all: "andThen (run_all (stage_ops t o1 push)) (run_all (swap_ops t o1)) d = (d', None)" and mz: "mz' = installed o1 push"
    by (auto simp: applyBundle_def run_all_append split: prod.splits option.splits)
  from andThen_None [OF all(1)] obtain staged where st: "run_all (stage_ops t o1 push) d = (staged, None)"
    and sw: "run_all (swap_ops t o1) staged = (d', None)" by blast
  from sw obtain d1 d2 d3 where steps: "ignored_op (RemoveAll ?flt (?c @ ''.old'')) staged = (d1, None)"
    "rotate ?flt ?c d1 = (d2, None)" "Rename ?flt (?c @ ''.new'') ?c d2 = (d3, None)"
    "ignored_op (RemoveAll ?flt (?c @ ''.old'')) d3 = (d', None)"
    unfolding swap_ops_def Let_def run_all_Cons run_all_Nil by (elim andThen_None) (auto simp: io_done_def)
  have no: "apart (?c @ ''.new'') (?c @ ''.old'')" "apart (?c @ ''.new'') ?c" "apart ?c (?c @ ''.old'')"
    using apart_sibling [of "''.new''" ?c] apart_sibling [of "''.old''" ?c]
    by (simp_all add: slash_def apart_def under_app)
  have "map_of d' (?c @ r) = map_of staged (?c @ ''.new'' @ r)" if r: "r = [] \<or> hd r = slash" for r
  proof -
    have u: "under ?c (?c @ r)" "under (?c @ ''.new'') (?c @ ''.new'' @ r)" using r by (auto simp: under_app)
    have "map_of d' (?c @ r) = map_of d3 (?c @ r)"
      using sparesD [OF spares_ignored [OF spares_rm [OF no(3)]] u(1), of ?flt d3] steps(4) by simp
    also have "\<dots> = map_of d2 (?c @ ''.new'' @ r)" using Rename_moves [OF steps(3) r] by simp
    also have "\<dots> = map_of d1 (?c @ ''.new'' @ r)"
      using rotate_spares [OF no(2,1) u(2), of ?flt d1] steps(2) by simp
    also have "\<dots> = map_of staged (?c @ ''.new'' @ r)"
      using sparesD [OF spares_ignored [OF spares_rm [OF no(1)]] u(2), of ?flt staged] steps(1) by simp
    finally show ?thesis .
  qed
  with st mz show ?thesis by (simp add: installed_def)
qed

subsection \<open>A push on a sample host\<close>

definition sample_ropts :: ropts where
  "sample_ropts = \<lparr>ro_Name = ''box'', ro_Gateway = ''wss://gw'', ro_Token = ''t'', ro_Fingerprint = [], ro_Insecure = False,
     ro_Cwd = ''/src'', ro_HarnessName = ''claude-code'', ro_HarnessCredentials = [], ro_RuntimeRoot = ''/run'',
     ro_SelfPath = ''/bin/s'', ro_IdleTimeout = 1800, ro_MaxSessions = 2, ro_StateDir = []\<rparr>"

definition sample_push :: BundlePush where
  "sample_push = \<lparr>bp_version = 2, bp_digest = ''d2'', bp_files = [\<lparr>bf_path = ''memory/m'', bf_content = ''new'', bf_mode = 384\<rparr>],
     bp_mcp = [], bp_model = [], bp_loose_mcp = False, bp_secrets = []\<rparr>"

definition sample_disk :: disk where
  "sample_disk = [(''/run/box/config'', NDir), (''/run/box/config/CLAUDE.md'', NFile ''old'' 384),
     (''/run/box/config/stale'', NFile ''old'' 384)]"

definition sample_mat :: "fault \<Rightarrow> mat_env" where
  "sample_mat flt = \<lparr>mt_fault = flt, mt_servers = (\<lambda>_. Inr ''{}''), mt_names_out = (\<lambda>_. ''[]''), mt_names_in = (\<lambda>_. [])\<rparr>"

definition full_disk :: fault where
  "full_disk op p = (if op = ''WriteFile'' then Some ''no space left on device'' else None)"

lemma sample_config_dir: "config_dir sample_ropts = ''/run/box/config''"
  by code_simp

lemma sample_staging_fails: "snd (run_all (stage_ops (sample_mat full_disk) sample_ropts sample_push) sample_disk) = Some ''no space left on device''"
  by code_simp

lemma sample_push_works: "snd (applyBundle (sample_mat (\<lambda>_ _. None)) sample_ropts sample_push (sample_disk, no_materialized)) = None"
  by code_simp

lemma sample_root_abs: "IsAbs (ro_RuntimeRoot sample_ropts)"
  by code_simp

lemma sample_state_dir_ok: "state_dir_ok sample_ropts"
  by (simp add: state_dir_ok_def sample_ropts_def)

definition full_push :: "(disk \<times> materialized) \<times> string option" where
  "full_push = applyBundle (sample_mat full_disk) sample_ropts sample_push (sample_disk, no_materialized)"

definition good_push :: "(disk \<times> materialized) \<times> string option" where
  "good_push = applyBundle (sample_mat (\<lambda>_ _. None)) sample_ropts sample_push (sample_disk, no_materialized)"


definition sample_staged :: disk where
  "sample_staged = fst (run_all (stage_ops (sample_mat (\<lambda>_ _. None)) sample_ropts sample_push) sample_disk)"

lemma sample_staged_files:
  "map_of sample_staged ''/run/box/config.new/memory/m'' = Some (NFile ''new'' 384) \<and>
   map_of sample_staged ''/run/box/config.new/stale'' = None"
  by code_simp

theorem push_replaces_config_witness:
  "snd good_push = None \<and> mz_version (snd (fst good_push)) = 2
   \<and> map_of (fst (fst good_push)) ''/run/box/config/memory/m'' = Some (NFile ''new'' 384)
   \<and> map_of (fst (fst good_push)) ''/run/box/config/stale'' = None"
proof -
  obtain d' mz' where g: "good_push = ((d', mz'), None)"
    using sample_push_works unfolding good_push_def by (metis prod.collapse)
  from push_replaces_config [OF g [unfolded good_push_def]]
  have files: "\<And>r. hd r = slash \<Longrightarrow> map_of d' (''/run/box/config'' @ r) = map_of sample_staged (''/run/box/config.new'' @ r)"
    and v: "mz_version mz' = 2"
    unfolding sample_config_dir sample_staged_def by (auto simp: sample_push_def)
  have "fst (fst good_push) = d'" "snd (fst good_push) = mz'" "snd good_push = None" by (metis g fst_conv snd_conv)+
  then show ?thesis
    using v files [of "''/memory/m''"] files [of "''/stale''"] sample_staged_files by (auto simp: slash_def)
qed

end
