(* ===== verification/Runner.thy ===== *)
theory Runner
  imports Harness Materialize Wire
begin

text \<open>
  The state of the runner daemon and the operations its parts share: the record of internal/runner/runner.go
  with its connection, the session index of internal/runner/state.go, one thread's session record of
  internal/runner/session.go and the activity marker of internal/runner/active.go. A harness process is a
  number; what the daemon wrote to the connection is the list \<open>rn_sent\<close>. What the host, the
  harness and the connection answer is the argument \<open>renv\<close>.
\<close>

subsection \<open>The session index\<close>

text \<open>\<open>si_ids = None\<close> is the nil map, which a file holding JSON \<open>null\<close> decodes to.\<close>

record sessionIndex =
  si_path :: string
  si_ids :: "string gomap option"

text \<open>The text of the index; \<open>None\<close> is a decoding error.\<close>

record index_json =
  ij_out :: "string gomap \<Rightarrow> string"
  ij_in :: "string \<Rightarrow> string gomap option option"

definition index_ids :: "sessionIndex \<Rightarrow> string gomap" where
  "index_ids x = (case si_ids x of None \<Rightarrow> [] | Some m \<Rightarrow> m)"

definition loadSessionIndex :: "fault \<Rightarrow> index_json \<Rightarrow> string \<Rightarrow> disk \<Rightarrow> disk \<times> (string + sessionIndex)" where
  "loadSessionIndex flt J stateDir d0 =
     (if stateDir = [] then (d0, Inr \<lparr>si_path = [], si_ids = Some []\<rparr>)
      else (case MkdirAll flt stateDir d0 of
          (d, Some m) \<Rightarrow> (d, Inl (''runner: state dir: '' @ m))
        | (d, None) \<Rightarrow>
            let p = path_join [stateDir, ''sessions.json''] in
            (d, case ReadFile flt p d of
                 None \<Rightarrow> Inr \<lparr>si_path = p, si_ids = Some []\<rparr>
               | Some (Inl m) \<Rightarrow> Inl m
               | Some (Inr raw) \<Rightarrow>
                   Inr \<lparr>si_path = p, si_ids = (case ij_in J raw of None \<Rightarrow> Some [] | Some ids \<Rightarrow> ids)\<rparr>)))"

definition index_get :: "sessionIndex \<Rightarrow> string \<Rightarrow> string" where
  "index_get x thread = get_or [] (index_ids x) thread"

text \<open>What recording an id can end in: the write's error, if any, or a write to a nil map.\<close>

datatype set_outcome = SetDone "string option" | SetPanic

definition index_set :: "fault \<Rightarrow> index_json \<Rightarrow> string \<Rightarrow> string \<Rightarrow> disk \<times> sessionIndex \<Rightarrow> (disk \<times> sessionIndex) \<times> set_outcome" where
  "index_set flt J thread i s =
     (case s of (d, x) \<Rightarrow>
        if si_path x = [] then (s, SetDone None)
        else if index_get x thread = i then (s, SetDone None)
        else if i \<noteq> [] \<and> si_ids x = None then (s, SetPanic)
        else let ids = (if i = [] then del thread (index_ids x) else put thread i (index_ids x));
                 (d', m) = writeFileAtomic flt (si_path x) (ij_out J ids) d
             in ((d', x\<lparr>si_ids := (if si_ids x = None then None else Some ids)\<rparr>), SetDone m))"

subsection \<open>A thread's session\<close>

record threadSession =
  tn_sessionID :: string
  tn_sess :: "nat option"
  tn_dir :: string
  tn_mcpPath :: string
  tn_lastActivity :: int
  tn_currentTurn :: string
  tn_busy :: bool

definition setTurn :: "int \<Rightarrow> string \<Rightarrow> threadSession \<Rightarrow> threadSession" where
  "setTurn now i t = t\<lparr>tn_currentTurn := i, tn_busy := True, tn_lastActivity := now\<rparr>"

definition endTurn :: "int \<Rightarrow> threadSession \<Rightarrow> threadSession" where
  "endTurn now t = t\<lparr>tn_busy := False, tn_lastActivity := now\<rparr>"

definition touch :: "int \<Rightarrow> threadSession \<Rightarrow> threadSession" where
  "touch now t = t\<lparr>tn_lastActivity := now\<rparr>"

definition idle :: "int \<Rightarrow> threadSession \<Rightarrow> int" where
  "idle now t = now - tn_lastActivity t"

text \<open>
  A harness process the runner started, with what it was sent. \<open>hs_open\<close>: its event stream has not
  ended; \<open>hs_running\<close>: the adapter's \<open>Running\<close>.
\<close>

record hsession =
  hs_thread :: string
  hs_config :: SessionConfig
  hs_running :: bool
  hs_open :: bool
  hs_inputs :: "Input list"

subsection \<open>The daemon\<close>

datatype rout = RFrame Frame | RBinary string

text \<open>What a waiting caller gets: a frame of the gateway, or an error.\<close>

datatype reply = RReply Frame | RFail string

record inboundBlob =
  nb_meta :: BlobBegin
  nb_path :: string
  nb_hashed :: string
  nb_closed :: bool
  nb_failed :: bool
  nb_complete :: bool

record rstate =
  rn_opts :: ropts
  rn_mat :: materialized
  rn_disk :: disk
  rn_conn :: bool
  rn_sessions :: "threadSession gomap"
  rn_procs :: "(nat \<times> hsession) list"
  rn_next :: nat
  rn_index :: sessionIndex
  rn_touched :: int
  rn_pending :: "reply option gomap"
  rn_blobs :: "inboundBlob gomap"
  rn_plugins :: "string list option option"
  rn_sent :: "rout list"
  rn_panicked :: bool

text \<open>An argument of a server entry that may or may not be a string; the rest of an entry is opaque.\<close>

datatype marg = ArgStr string | ArgOther

record threadEntry =
  te_args :: "marg list option"
  te_rest :: string

record renv =
  rv_now :: int
  rv_nanos :: int
  rv_mat :: mat_env
  rv_json :: JSON
  rv_header :: "ChunkHeader \<Rightarrow> string option"
  rv_chunk :: "string \<Rightarrow> ChunkHeader option"
  rv_reads :: "string \<Rightarrow> string list \<times> string option"
  rv_blobwrite :: "string \<Rightarrow> string \<Rightarrow> bool"
  rv_write :: "nat \<Rightarrow> string option"
  rv_sha :: "string \<Rightarrow> string"
  rv_id :: string
  rv_getenv :: "string \<Rightarrow> string option"
  rv_doc_in :: "string \<Rightarrow> threadEntry gomap option"
  rv_doc_out :: "threadEntry gomap \<Rightarrow> string option"
  rv_index :: index_json
  rv_start :: "SessionConfig \<Rightarrow> string option"
  rv_input :: "Input \<Rightarrow> string option"
  rv_locked :: "nat \<Rightarrow> string \<Rightarrow> bool"
  rv_deadline :: "string option"

abbreviation rv_fault :: "renv \<Rightarrow> fault" where "rv_fault E \<equiv> mt_fault (rv_mat E)"

definition fresh_runner :: "ropts \<Rightarrow> sessionIndex \<Rightarrow> disk \<Rightarrow> rstate" where
  "fresh_runner o1 x d = \<lparr>rn_opts = o1, rn_mat = no_materialized, rn_disk = d, rn_conn = False, rn_sessions = [],
     rn_procs = [], rn_next = 0, rn_index = x, rn_touched = 0, rn_pending = [], rn_blobs = [], rn_plugins = None,
     rn_sent = [], rn_panicked = False\<rparr>"

subsection \<open>Writing to the gateway\<close>

definition runner_write :: "renv \<Rightarrow> rout \<Rightarrow> rstate \<Rightarrow> rstate \<times> string option" where
  "runner_write E x s =
     (if \<not> rn_conn s then (s, Some ''runner: not connected to the gateway'')
      else (case rv_write E (length (rn_sent s)) of
          Some m \<Rightarrow> (s, Some m)
        | None \<Rightarrow> (s\<lparr>rn_sent := rn_sent s @ [x]\<rparr>, None)))"

text \<open>The text of an encoding error is the message's format.\<close>

definition runner_send :: "renv \<Rightarrow> Frame \<Rightarrow> rstate \<Rightarrow> rstate \<times> string option" where
  "runner_send E f s =
     (case Encode (rv_json E) (Some f) of
        Inl (Err m _) \<Rightarrow> (s, Some m)
      | Inr _ \<Rightarrow> runner_write E (RFrame f) s)"

text \<open>A send whose error the code ignores.\<close>

definition tell :: "renv \<Rightarrow> Frame \<Rightarrow> rstate \<Rightarrow> rstate" where
  "tell E f s = fst (runner_send E f s)"

definition on_disk :: "op \<Rightarrow> rstate \<Rightarrow> rstate" where
  "on_disk f s = s\<lparr>rn_disk := fst (f (rn_disk s))\<rparr>"

definition upd_thread :: "string \<Rightarrow> (threadSession \<Rightarrow> threadSession) \<Rightarrow> rstate \<Rightarrow> rstate" where
  "upd_thread k f s =
     (case map_of (rn_sessions s) k of None \<Rightarrow> s | Some t \<Rightarrow> s\<lparr>rn_sessions := put k (f t) (rn_sessions s)\<rparr>)"

definition rememberSession :: "renv \<Rightarrow> string \<Rightarrow> string \<Rightarrow> rstate \<Rightarrow> rstate" where
  "rememberSession E thread i s =
     (case index_set (rv_fault E) (rv_index E) thread i (rn_disk s, rn_index s) of
        ((d, x), SetDone _) \<Rightarrow> s\<lparr>rn_disk := d, rn_index := x\<rparr>
      | (_, SetPanic) \<Rightarrow> s\<lparr>rn_panicked := True\<rparr>)"

subsection \<open>The activity marker\<close>

definition activePath :: "rstate \<Rightarrow> string" where
  "activePath s = path_join [ro_RuntimeRoot (rn_opts s), ro_Name (rn_opts s), ''active'']"

definition activeThrottle :: int where "activeThrottle = 5 * 10 ^ 9"

text \<open>Setting the times of an existing file; otherwise the file is made, empty.\<close>

definition touchActive :: "renv \<Rightarrow> rstate \<Rightarrow> rstate" where
  "touchActive E s =
     (let p = activePath s; flt = rv_fault E in
      if has_key (rn_disk s) p \<and> flt ''Chtimes'' p = None then s
      else on_disk (run_all [MkdirAll flt (path_dir p),
        (\<lambda>d. if has_key d p then (d, None) else WriteFile flt p [] 384 d)]) s)"

definition markActive :: "renv \<Rightarrow> rstate \<Rightarrow> rstate" where
  "markActive E s =
     (if rv_nanos E - rn_touched s < activeThrottle then s
      else touchActive E (s\<lparr>rn_touched := rv_nanos E\<rparr>))"

definition anyTurnInFlight :: "rstate \<Rightarrow> bool" where
  "anyTurnInFlight s = list_ex (\<lambda>(_, t). tn_busy t) (rn_sessions s)"

definition settleActive :: "renv \<Rightarrow> rstate \<Rightarrow> rstate" where
  "settleActive E s = (if anyTurnInFlight s then s else on_disk (Remove (rv_fault E) (activePath s)) s)"

text \<open>One round of the upkeep, and what shutting down does.\<close>

definition maintainActive :: "renv \<Rightarrow> rstate \<Rightarrow> rstate" where
  "maintainActive E s =
     (if anyTurnInFlight s then touchActive E (s\<lparr>rn_touched := rv_nanos E\<rparr>)
      else on_disk (Remove (rv_fault E) (activePath s)) s)"

definition stopActive :: "renv \<Rightarrow> rstate \<Rightarrow> rstate" where
  "stopActive E s = on_disk (Remove (rv_fault E) (activePath s)) s"

definition turnForThread :: "string \<Rightarrow> rstate \<Rightarrow> string" where
  "turnForThread thread s = (case map_of (rn_sessions s) thread of None \<Rightarrow> [] | Some t \<Rightarrow> tn_currentTurn t)"

definition threadDirName :: "renv \<Rightarrow> string \<Rightarrow> string" where
  "threadDirName E thread = take 16 (rv_sha E thread)"

definition threads_root :: "rstate \<Rightarrow> string" where
  "threads_root s = path_join [ro_RuntimeRoot (rn_opts s), ro_Name (rn_opts s), ''threads'']"

definition threadDir :: "renv \<Rightarrow> rstate \<Rightarrow> string \<Rightarrow> string" where
  "threadDir E s thread =
     path_join [ro_RuntimeRoot (rn_opts s), ro_Name (rn_opts s), ''threads'', threadDirName E thread]"

end
