(* ===== verification/Requests.thy ===== *)
theory Requests
  imports Runner
begin

text \<open>
  What the runner asks of the gateway (internal/runner/requests.go, the waiting half of
  internal/runner/runner.go and the dispatcher of internal/runner/ipc.go): credentials, permissions, proxied
  tool calls and files, and the attachments it receives. A request is split where the caller blocks: its
  start registers the waiter and sends, its end reads what the waiter got. \<open>rn_pending\<close> maps a request
  id to \<open>None\<close> while the waiter is registered, and to the reply once one was handed to it; the
  reply is taken out of the registry in the same step, so a second one finds nobody.
\<close>

subsection \<open>Waiting for a reply\<close>

definition resolvePending :: "string \<Rightarrow> reply \<Rightarrow> rstate \<Rightarrow> rstate" where
  "resolvePending i v s =
     (if map_of (rn_pending s) i = Some None then s\<lparr>rn_pending := put i (Some v) (rn_pending s)\<rparr> else s)"

definition failPending :: "string \<Rightarrow> rstate \<Rightarrow> rstate" where
  "failPending reason s =
     s\<lparr>rn_pending := map (\<lambda>(i, w). (i, case w of None \<Rightarrow> Some (RFail reason) | Some v \<Rightarrow> Some v)) (rn_pending s)\<rparr>"

text \<open>The waiter is registered before the frame is sent; a failed send takes it back.\<close>

definition request_start :: "renv \<Rightarrow> string \<Rightarrow> Frame \<Rightarrow> rstate \<Rightarrow> rstate \<times> string option" where
  "request_start E i f s0 =
     (case runner_send E f (s0\<lparr>rn_pending := put i None (rn_pending s0)\<rparr>) of
        (s, Some m) \<Rightarrow> (s\<lparr>rn_pending := del i (rn_pending s)\<rparr>, Some m)
      | (s, None) \<Rightarrow> (s, None))"

text \<open>
  What ends the wait: the caller's deadline (\<open>rv_deadline\<close>), or the reply; \<open>None\<close> while there is
  neither. Either way the waiter is gone.
\<close>

definition request_end :: "renv \<Rightarrow> string \<Rightarrow> rstate \<Rightarrow> rstate \<times> (string + reply) option" where
  "request_end E i s =
     (let s' = s\<lparr>rn_pending := del i (rn_pending s)\<rparr> in
      case rv_deadline E of
        Some m \<Rightarrow> (s', Some (Inl m))
      | None \<Rightarrow> (case map_of (rn_pending s) i of Some (Some v) \<Rightarrow> (s', Some (Inr v)) | _ \<Rightarrow> (s, None)))"

subsection \<open>Credentials\<close>

record CredentialResult =
  cres_Username :: string
  cres_Password :: string

definition credential_request :: "renv \<Rightarrow> string \<Rightarrow> CredentialRequest" where
  "credential_request E resource = \<lparr>cq_request = ''cred_'' @ rv_id E, cq_kind = CredentialForge, cq_resource = resource,
     cq_thread = [], cq_turn = [], cq_protocol = [], cq_host = []\<rparr>"

definition requestCredential_start :: "renv \<Rightarrow> string \<Rightarrow> rstate \<Rightarrow> rstate \<times> string option" where
  "requestCredential_start E resource s =
     (if resource = [] then (s, Some ''runner: a repository is required'')
      else request_start E (''cred_'' @ rv_id E) (FCredentialRequest (credential_request E resource)) s)"

definition credential_result :: "string + reply \<Rightarrow> string + CredentialResult" where
  "credential_result v =
     (case v of
        Inl m \<Rightarrow> Inl m
      | Inr (RFail m) \<Rightarrow> Inl m
      | Inr (RReply (FCredentialGrant c)) \<Rightarrow>
          if cg_denied c then Inl (''refused by gateway policy: '' @ cg_reason c)
          else Inr \<lparr>cres_Username = cg_username c, cres_Password = cg_value c\<rparr>
      | Inr (RReply f) \<Rightarrow> Inl (''runner: unexpected reply '' @ Type f))"

subsection \<open>Permissions\<close>

record PermissionResult =
  pres_Behavior :: string
  pres_Message :: string

definition permission_request :: "renv \<Rightarrow> string \<Rightarrow> string \<Rightarrow> string \<Rightarrow> rstate \<Rightarrow> PermissionRequest" where
  "permission_request E thread tool input s =
     \<lparr>pq_thread = thread, pq_turn = turnForThread thread s, pq_request = ''perm_'' @ rv_id E, pq_tool = tool,
      pq_input = input, pq_cwd = ro_Cwd (rn_opts s), pq_summary = []\<rparr>"

definition deny_with :: "string \<Rightarrow> PermissionResult" where
  "deny_with m = \<lparr>pres_Behavior = ''deny'', pres_Message = m\<rparr>"

definition permission_result :: "string + reply \<Rightarrow> PermissionResult" where
  "permission_result v =
     (case v of
        Inl _ \<Rightarrow> deny_with ''no decision reached the runner''
      | Inr (RFail m) \<Rightarrow> deny_with m
      | Inr (RReply (FPermissionResponse p)) \<Rightarrow>
          if pr_decision p = DecisionDeny then deny_with (if pr_reason p = [] then ''denied'' else pr_reason p)
          else \<lparr>pres_Behavior = ''allow'', pres_Message = []\<rparr>
      | Inr (RReply _) \<Rightarrow> deny_with ''unexpected reply'')"

text \<open>\<open>Inr\<close>: answered at once because the request could not be sent.\<close>

definition requestPermission_start ::
  "renv \<Rightarrow> string \<Rightarrow> string \<Rightarrow> string \<Rightarrow> rstate \<Rightarrow> rstate \<times> (string + PermissionResult) option" where
  "requestPermission_start E thread tool input s =
     (if tool = [] then (s, Some (Inl ''runner: a tool name is required''))
      else (case request_start E (''perm_'' @ rv_id E) (FPermissionRequest (permission_request E thread tool input s)) s of
          (s', Some m) \<Rightarrow> (s', Some (Inr (permission_result (Inl m))))
        | (s', None) \<Rightarrow> (s', None)))"

definition requestPermission_end :: "renv \<Rightarrow> string \<Rightarrow> rstate \<Rightarrow> rstate \<times> PermissionResult option" where
  "requestPermission_end E i s =
     (case request_end E i s of (s', v) \<Rightarrow> (s', map_option permission_result v))"

subsection \<open>Proxied tools\<close>

definition ListTool :: string where "ListTool = ''tools/list''"

definition mcp_call :: "renv \<Rightarrow> string \<Rightarrow> string \<Rightarrow> string \<Rightarrow> string \<Rightarrow> rstate \<Rightarrow> MCPCall" where
  "mcp_call E thread server tool args s =
     \<lparr>mc_thread = thread, mc_turn = turnForThread thread s, mc_call = ''mcp_'' @ rv_id E, mc_server = server,
      mc_tool = tool, mc_args = args\<rparr>"

definition callProxiedMCP_start :: "renv \<Rightarrow> string \<Rightarrow> string \<Rightarrow> string \<Rightarrow> string \<Rightarrow> rstate \<Rightarrow> rstate \<times> string option" where
  "callProxiedMCP_start E thread server tool args s =
     request_start E (''mcp_'' @ rv_id E) (FMCPCall (mcp_call E thread server tool args s)) s"

definition listProxiedMCP_start :: "renv \<Rightarrow> string \<Rightarrow> string \<Rightarrow> rstate \<Rightarrow> rstate \<times> string option" where
  "listProxiedMCP_start E thread server = callProxiedMCP_start E thread server ListTool []"

definition mcp_result :: "string + reply \<Rightarrow> string + string option" where
  "mcp_result v =
     (case v of
        Inl m \<Rightarrow> Inl m
      | Inr (RFail m) \<Rightarrow> Inl m
      | Inr (RReply (FMCPResponse r)) \<Rightarrow>
          (case mr_error r of Some x \<Rightarrow> Inl (re_code x @ '': '' @ re_message x) | None \<Rightarrow> Inr (mr_result r))
      | Inr (RReply f) \<Rightarrow> Inl (''runner: unexpected reply '' @ Type f))"

subsection \<open>Sending a file\<close>

definition Ext :: "string \<Rightarrow> string" where
  "Ext p = (let b = AfterLast (\<lambda>c. c = slash) p in
     if CHR ''.'' \<in> set b then CHR ''.'' # AfterLast (\<lambda>c. c = CHR ''.'') b else [])"

definition guessMime :: "string \<Rightarrow> string" where
  "guessMime p =
     (let x = ToLower (Ext p) in
      if x = ''.png'' then ''image/png''
      else if x = ''.jpg'' \<or> x = ''.jpeg'' then ''image/jpeg''
      else if x = ''.gif'' then ''image/gif''
      else if x = ''.webp'' then ''image/webp''
      else if x = ''.svg'' then ''image/svg+xml''
      else if x = ''.pdf'' then ''application/pdf''
      else if x = ''.json'' then ''application/json''
      else if x = ''.csv'' then ''text/csv''
      else if x = ''.txt'' \<or> x = ''.log'' \<or> x = ''.md'' then ''text/plain''
      else ''application/octet-stream'')"

text \<open>The read loop: what each read returned, then the end of the file or an error; \<open>data\<close> is what was hashed.\<close>

fun send_reads :: "renv \<Rightarrow> string \<Rightarrow> string list \<Rightarrow> string option \<Rightarrow> string \<Rightarrow> 32 word \<Rightarrow> rstate \<Rightarrow> rstate \<times> string option" where
  "send_reads E blob [] rerr data sq s =
     (case rerr of
        Some m \<Rightarrow> (tell E (FBlobEnd \<lparr>be_blob = blob, be_sha256 = [], be_ok = False, be_error = m\<rparr>) s, Some m)
      | None \<Rightarrow> runner_send E (FBlobEnd \<lparr>be_blob = blob, be_sha256 = rv_sha E data, be_ok = True, be_error = []\<rparr>) s)"
| "send_reads E blob (b # bs) rerr data sq s =
     (if b = [] then send_reads E blob bs rerr data sq s
      else (case EncodeChunk (rv_header E) \<lparr>ch_blob = blob, ch_seq = sq\<rparr> b of
          Inl (Err m _) \<Rightarrow> (s, Some m)
        | Inr chunk \<Rightarrow>
            (case runner_write E (RBinary chunk) s of
               (s', Some m) \<Rightarrow> (s', Some m)
             | (s', None) \<Rightarrow> send_reads E blob bs rerr (data @ b) (sq + 1) s')))"

definition file_begin :: "renv \<Rightarrow> string \<Rightarrow> string \<Rightarrow> int \<Rightarrow> rstate \<Rightarrow> BlobBegin" where
  "file_begin E thread p sz s = \<lparr>bb_blob = ''blob_'' @ rv_id E, bb_thread = thread, bb_turn = turnForThread thread s,
     bb_name = path_base p, bb_mime = guessMime p, bb_size = sz, bb_sha256 = []\<rparr>"

definition sendFile :: "renv \<Rightarrow> string \<Rightarrow> string \<Rightarrow> rstate \<Rightarrow> rstate \<times> string option" where
  "sendFile E thread p s =
     (if p = [] then (s, Some ''runner: a path is required'')
      else (case ReadFile (rv_fault E) p (rn_disk s) of
          None \<Rightarrow> (s, Some ''no such file or directory'')
        | Some (Inl m) \<Rightarrow> (s, Some (if map_of (rn_disk s) p = Some NDir then ''runner: '' @ p @ '' is a directory'' else m))
        | Some (Inr content) \<Rightarrow>
            let sz = int (length content); blob = ''blob_'' @ rv_id E in
            if MaxBlobSize < sz
            then (s, Some (''runner: '' @ p @ '' is '' @ Itoa sz @ '' bytes, over the '' @ Itoa MaxBlobSize @ '' cap''))
            else (case runner_send E (FBlobBegin (file_begin E thread p sz s)) s of
                (s', Some m) \<Rightarrow> (s', Some m)
              | (s', None) \<Rightarrow> (case rv_reads E p of (bs, rerr) \<Rightarrow> send_reads E blob bs rerr [] 0 s'))))"

subsection \<open>Attachments\<close>

definition runner_sanitizeName :: "string \<Rightarrow> string" where
  "runner_sanitizeName n0 =
     (let n = filter (\<lambda>c. c \<noteq> nul) (AfterLast separator (TrimSpace n0)) in
      if n = [] \<or> n = ''.'' \<or> n = ''..'' then ''attachment'' else n)"

definition upload_path :: "renv \<Rightarrow> BlobBegin \<Rightarrow> rstate \<Rightarrow> string" where
  "upload_path E fr s = path_join [path_join [threadDir E s (bb_thread fr), ''uploads''], runner_sanitizeName (bb_name fr)]"

definition runner_onBlobBegin :: "renv \<Rightarrow> BlobBegin \<Rightarrow> rstate \<Rightarrow> rstate" where
  "runner_onBlobBegin E fr s =
     (let flt = rv_fault E; dir = path_join [threadDir E s (bb_thread fr), ''uploads'']; dest = upload_path E fr s in
      case run_all [MkdirAll flt dir, WriteFile flt dest [] 384] (rn_disk s) of
        (d, Some _) \<Rightarrow> s\<lparr>rn_disk := d\<rparr>
      | (d, None) \<Rightarrow> s\<lparr>rn_disk := d, rn_blobs := put (bb_blob fr)
          \<lparr>nb_meta = fr, nb_path = dest, nb_hashed = [], nb_closed = False, nb_failed = False, nb_complete = False\<rparr>
          (rn_blobs s)\<rparr>)"

text \<open>
  A write to an open file: at the offset the file's own writes have reached, whatever another opening of the
  same path did meanwhile. A file that was removed is written out of sight.
\<close>

definition write_at :: "nat \<Rightarrow> string \<Rightarrow> string \<Rightarrow> string" where
  "write_at off payload c = take off c @ replicate (off - length c) nul @ payload @ drop (off + length payload) c"

definition file_write :: "string \<Rightarrow> nat \<Rightarrow> string \<Rightarrow> disk \<Rightarrow> disk" where
  "file_write p off payload d =
     (case map_of d p of Some (NFile c m) \<Rightarrow> put p (NFile (write_at off payload c) m) d | _ \<Rightarrow> d)"

definition runner_onChunk :: "renv \<Rightarrow> ChunkHeader \<Rightarrow> string \<Rightarrow> rstate \<Rightarrow> rstate" where
  "runner_onChunk E hdr payload s =
     (case map_of (rn_blobs s) (ch_blob hdr) of None \<Rightarrow> s
      | Some b \<Rightarrow>
          if nb_failed b then s
          else if nb_closed b \<or> \<not> rv_blobwrite E (nb_path b) payload
          then s\<lparr>rn_blobs := put (ch_blob hdr) (b\<lparr>nb_failed := True\<rparr>) (rn_blobs s)\<rparr>
          else s\<lparr>rn_disk := file_write (nb_path b) (length (nb_hashed b)) payload (rn_disk s),
                 rn_blobs := put (ch_blob hdr) (b\<lparr>nb_hashed := nb_hashed b @ payload\<rparr>) (rn_blobs s)\<rparr>)"

definition drop_blob :: "renv \<Rightarrow> string \<Rightarrow> inboundBlob \<Rightarrow> rstate \<Rightarrow> rstate" where
  "drop_blob E i b s = on_disk (Remove (rv_fault E) (nb_path b)) s\<lparr>rn_blobs := del i (rn_blobs s)\<rparr>"

definition runner_onBlobEnd :: "renv \<Rightarrow> BlobEnd \<Rightarrow> rstate \<Rightarrow> rstate" where
  "runner_onBlobEnd E fr s =
     (case map_of (rn_blobs s) (be_blob fr) of None \<Rightarrow> s
      | Some b \<Rightarrow>
          if \<not> be_ok fr \<or> nb_failed b then drop_blob E (be_blob fr) b s
          else if be_sha256 fr \<noteq> [] \<and> rv_sha E (nb_hashed b) \<noteq> be_sha256 fr then drop_blob E (be_blob fr) b s
          else s\<lparr>rn_blobs := put (be_blob fr) (b\<lparr>nb_closed := True, nb_complete := True\<rparr>) (rn_blobs s)\<rparr>)"

definition inlineCap :: int where "inlineCap = 5 * 2 ^ 20"

text \<open>The inlined bytes, empty when the file is not inlined, and the path.\<close>

definition takeBlob :: "renv \<Rightarrow> string \<Rightarrow> rstate \<Rightarrow> rstate \<times> (string \<times> string) option" where
  "takeBlob E i s =
     (case map_of (rn_blobs s) i of None \<Rightarrow> (s, None)
      | Some b \<Rightarrow>
          if nb_failed b \<or> \<not> nb_complete b then (s, None)
          else (s\<lparr>rn_blobs := del i (rn_blobs s)\<rparr>,
            Some (if 0 < bb_size (nb_meta b) \<and> bb_size (nb_meta b) \<le> inlineCap
                  then (case ReadFile (rv_fault E) (nb_path b) (rn_disk s) of Some (Inr c) \<Rightarrow> (c, nb_path b) | _ \<Rightarrow> ([], nb_path b))
                  else ([], nb_path b))))"

subsection \<open>Local helpers\<close>

record IPCRequest =
  ipc_Op :: string
  ipc_Thread :: string
  ipc_Resource :: string
  ipc_Tool :: string
  ipc_Input :: string
  ipc_Server :: string
  ipc_Args :: string
  ipc_Path :: string
  ipc_Comment :: string

record IPCResponse =
  ir_OK :: bool
  ir_Error :: string
  ir_Data :: string

definition ipc_ok :: "string \<Rightarrow> IPCResponse" where
  "ipc_ok data = \<lparr>ir_OK = True, ir_Error = [], ir_Data = data\<rparr>"

definition ipc_error :: "string \<Rightarrow> IPCResponse" where
  "ipc_error m = \<lparr>ir_OK = False, ir_Error = m, ir_Data = []\<rparr>"

text \<open>The text of a result.\<close>

record ipc_json =
  xj_cred :: "CredentialResult \<Rightarrow> string"
  xj_perm :: "PermissionResult \<Rightarrow> string"

text \<open>What the helper waits for, with the id of its request.\<close>

datatype ipc_wait = WaitCredential string | WaitPermission string | WaitMCP string

datatype ipc_step = Answered IPCResponse | Blocked ipc_wait

definition ipc_start :: "ipc_wait \<Rightarrow> rstate \<times> string option \<Rightarrow> rstate \<times> ipc_step" where
  "ipc_start w r = (case r of (s, Some m) \<Rightarrow> (s, Answered (ipc_error m)) | (s, None) \<Rightarrow> (s, Blocked w))"

definition handleIPC :: "renv \<Rightarrow> ipc_json \<Rightarrow> IPCRequest \<Rightarrow> rstate \<Rightarrow> rstate \<times> ipc_step" where
  "handleIPC E J q s =
     (let x = ipc_Op q in
      if x = ''ping'' then (s, Answered (ipc_ok []))
      else if x = ''credential''
      then ipc_start (WaitCredential (''cred_'' @ rv_id E)) (requestCredential_start E (ipc_Resource q) s)
      else if x = ''permission''
      then (case requestPermission_start E (ipc_Thread q) (ipc_Tool q) (ipc_Input q) s of
          (s', None) \<Rightarrow> (s', Blocked (WaitPermission (''perm_'' @ rv_id E)))
        | (s', Some (Inl m)) \<Rightarrow> (s', Answered (ipc_error m))
        | (s', Some (Inr p)) \<Rightarrow> (s', Answered (ipc_ok (xj_perm J p))))
      else if x = ''mcp.call''
      then ipc_start (WaitMCP (''mcp_'' @ rv_id E))
        (callProxiedMCP_start E (ipc_Thread q) (ipc_Server q) (ipc_Tool q) (ipc_Args q) s)
      else if x = ''mcp.list''
      then ipc_start (WaitMCP (''mcp_'' @ rv_id E)) (listProxiedMCP_start E (ipc_Thread q) (ipc_Server q) s)
      else if x = ''send-file''
      then (case sendFile E (ipc_Thread q) (ipc_Path q) s of
          (s', Some m) \<Rightarrow> (s', Answered (ipc_error m)) | (s', None) \<Rightarrow> (s', Answered (ipc_ok [])))
      else (s, Answered (ipc_error (''unknown op '' @ x))))"

definition ipc_answer :: "ipc_json \<Rightarrow> ipc_wait \<Rightarrow> string + reply \<Rightarrow> IPCResponse" where
  "ipc_answer J w v =
     (case w of
        WaitCredential _ \<Rightarrow> (case credential_result v of Inl m \<Rightarrow> ipc_error m | Inr c \<Rightarrow> ipc_ok (xj_cred J c))
      | WaitPermission _ \<Rightarrow> ipc_ok (xj_perm J (permission_result v))
      | WaitMCP _ \<Rightarrow> (case mcp_result v of Inl m \<Rightarrow> ipc_error m
          | Inr r \<Rightarrow> ipc_ok (case r of None \<Rightarrow> [] | Some x \<Rightarrow> x)))"

fun wait_id :: "ipc_wait \<Rightarrow> string" where
  "wait_id (WaitCredential i) = i"
| "wait_id (WaitPermission i) = i"
| "wait_id (WaitMCP i) = i"

definition finishIPC :: "renv \<Rightarrow> ipc_json \<Rightarrow> ipc_wait \<Rightarrow> rstate \<Rightarrow> rstate \<times> IPCResponse option" where
  "finishIPC E J w s = (case request_end E (wait_id w) s of (s', v) \<Rightarrow> (s', map_option (ipc_answer J w) v))"

end
