(* ===== verification/Sessions.thy ===== *)
theory Sessions
  imports Requests
begin

text \<open>
  A runner's sessions (internal/runner/session.go): starting one for a thread, the cap on resident harness
  processes, handling a message, forwarding what the harness reports, and the ways a session ends. A session
  record never leaves the map, so a thread's name stands for the pointer the code keeps.
\<close>

subsection \<open>Residents\<close>

definition proc_running :: "nat \<Rightarrow> rstate \<Rightarrow> bool" where
  "proc_running n s = (case map_of (rn_procs s) n of None \<Rightarrow> False | Some p \<Rightarrow> hs_running p)"

definition alive :: "rstate \<Rightarrow> threadSession \<Rightarrow> bool" where
  "alive s t = (case tn_sess t of None \<Rightarrow> False | Some n \<Rightarrow> proc_running n s)"

definition close_proc :: "nat \<Rightarrow> rstate \<Rightarrow> rstate" where
  "close_proc n s = (case map_of (rn_procs s) n of None \<Rightarrow> s
     | Some p \<Rightarrow> s\<lparr>rn_procs := put n (p\<lparr>hs_running := False\<rparr>) (rn_procs s)\<rparr>)"

text \<open>Closing a thread's session and forgetting it.\<close>

definition close_session :: "string \<Rightarrow> rstate \<Rightarrow> rstate" where
  "close_session k s =
     (case map_of (rn_sessions s) k of None \<Rightarrow> s
      | Some t \<Rightarrow> (case tn_sess t of None \<Rightarrow> s
          | Some n \<Rightarrow> upd_thread k (\<lambda>t. t\<lparr>tn_sess := None\<rparr>) (close_proc n s)))"

text \<open>
  The scan: which other threads count as resident, and which of them may be evicted. A session whose lock is
  taken (\<open>rv_locked 0\<close>) counts and may not.
\<close>

definition resident :: "renv \<Rightarrow> string \<Rightarrow> rstate \<Rightarrow> string \<times> threadSession \<Rightarrow> bool" where
  "resident E exclude s = (\<lambda>(k, t). k \<noteq> exclude \<and> (rv_locked E 0 k \<or> alive s t))"

definition victims :: "renv \<Rightarrow> string \<Rightarrow> rstate \<Rightarrow> string list" where
  "victims E exclude s =
     map fst (sort_key (\<lambda>(_, t). - idle (rv_now E) t)
       (filter (\<lambda>(k, t). k \<noteq> exclude \<and> \<not> rv_locked E 0 k \<and> alive s t \<and> \<not> tn_busy t) (rn_sessions s)))"

text \<open>
  The eviction, on the state it finds: a victim of the scan may have become busy since, and its lock may be
  taken (\<open>rv_locked 1\<close>).
\<close>

definition evictable :: "renv \<Rightarrow> rstate \<Rightarrow> string \<Rightarrow> bool" where
  "evictable E s k =
     (\<not> rv_locked E 1 k \<and> (case map_of (rn_sessions s) k of None \<Rightarrow> False | Some t \<Rightarrow> \<not> tn_busy t \<and> alive s t))"

fun evict :: "renv \<Rightarrow> string list \<Rightarrow> nat \<Rightarrow> rstate \<Rightarrow> rstate \<times> nat" where
  "evict E [] need s = (s, need)"
| "evict E (k # ks) need s =
     (if need = 0 then (s, 0)
      else if \<not> evictable E s k then evict E ks need s
      else evict E ks (need - 1) (close_session k s))"

text \<open>\<open>seen\<close> is the state the scan saw, \<open>s\<close> the one the eviction works on.\<close>

definition makeRoom :: "renv \<Rightarrow> string \<Rightarrow> rstate \<Rightarrow> rstate \<Rightarrow> rstate \<times> string option" where
  "makeRoom E exclude seen s =
     (let max = ro_MaxSessions (rn_opts s); running = int (length (filter (resident E exclude seen) (rn_sessions seen))) in
      if max \<le> 0 then (s, None)
      else if running < max then (s, None)
      else (case evict E (victims E exclude seen) (nat (running - max + 1)) s of
          (s', need) \<Rightarrow> (s', if 0 < need
             then Some (''runner at capacity: '' @ Itoa running @ '' sessions and all are mid-turn (max '' @ Itoa max
                @ ''); wait for one to finish and resend'')
             else None)))"

subsection \<open>Starting a session\<close>

definition allowed_env :: "string list" where
  "allowed_env = [''PATH'', ''HOME'', ''USER'', ''LOGNAME'', ''SHELL'', ''LANG'', ''LC_ALL'', ''TZ'',
     ''TERM'', ''TMPDIR'', ''SSL_CERT_FILE'', ''SSL_CERT_DIR'',
     ''AWS_REGION'', ''AWS_DEFAULT_REGION'', ''AWS_CONTAINER_CREDENTIALS_FULL_URI'',
     ''AWS_CONTAINER_CREDENTIALS_RELATIVE_URI'', ''AWS_WEB_IDENTITY_TOKEN_FILE'',
     ''AWS_ROLE_ARN'', ''GOOGLE_APPLICATION_CREDENTIALS'', ''CLOUD_ML_REGION'']"

definition env_pair :: "string \<Rightarrow> string \<Rightarrow> string" where "env_pair k v = k @ ''='' @ v"

definition buildEnv :: "renv \<Rightarrow> rstate \<Rightarrow> string \<Rightarrow> string list" where
  "buildEnv E s configDir =
     List.map_filter (\<lambda>k. map_option (env_pair k) (rv_getenv E k)) allowed_env
     @ [env_pair ''CLAUDE_CONFIG_DIR'' configDir, env_pair ''SPLITSCREEN_RUNNER'' (ro_Name (rn_opts s)),
        env_pair ''SPLITSCREEN_SOCKET'' (SocketPath (ro_RuntimeRoot (rn_opts s)) (ro_Name (rn_opts s)))]
     @ map (\<lambda>(k, v). env_pair k v) (mz_secrets (rn_mat s))"

definition is_shim :: "marg \<Rightarrow> bool" where
  "is_shim a \<longleftrightarrow> a = ArgStr ''mcp-shim'' \<or> a = ArgStr ''permission-shim''"

definition thread_entry :: "string \<Rightarrow> threadEntry \<Rightarrow> threadEntry" where
  "thread_entry thread x =
     (case te_args x of None \<Rightarrow> x
      | Some args \<Rightarrow> if list_ex is_shim args
          then x\<lparr>te_args := Some (args @ [ArgStr ''--thread'', ArgStr thread])\<rparr> else x)"

definition writeThreadMCP :: "renv \<Rightarrow> materialized \<Rightarrow> string \<Rightarrow> string \<Rightarrow> op" where
  "writeThreadMCP E mz p thread d =
     (case ReadFile (rv_fault E) (mz_mcpPath mz) d of
        None \<Rightarrow> (d, Some ''runner: read base mcp config'')
      | Some (Inl m) \<Rightarrow> (d, Some (''runner: read base mcp config: '' @ m))
      | Some (Inr body) \<Rightarrow>
          (case rv_doc_in E body of
             None \<Rightarrow> (d, Some ''runner: parse base mcp config'')
           | Some doc \<Rightarrow>
               (case rv_doc_out E (map (\<lambda>(k, x). (k, thread_entry thread x)) doc) of
                  None \<Rightarrow> (d, Some ''json'')
                | Some out \<Rightarrow> WriteFile (rv_fault E) p out 384 d)))"

text \<open>What \<open>wait\<close> gives a starting session: nothing while a sync is in progress.\<close>

definition plugin_dirs :: "rstate \<Rightarrow> string list" where
  "plugin_dirs s = (case rn_plugins s of Some (Some ds) \<Rightarrow> ds | _ \<Rightarrow> [])"

definition session_config :: "renv \<Rightarrow> rstate \<Rightarrow> string \<Rightarrow> string \<Rightarrow> SessionConfig" where
  "session_config E s resume mcpPath = \<lparr>sc_Cwd = ro_Cwd (rn_opts s), sc_ConfigDir = mz_configDir (rn_mat s),
     sc_Env = buildEnv E s (mz_configDir (rn_mat s)), sc_Model = mz_model (rn_mat s), sc_ResumeID = resume,
     sc_MCPConfigPath = mcpPath, sc_LooseMCP = mz_looseMCP (rn_mat s), sc_PermissionTool = PermissionToolName,
     sc_PluginDirs = plugin_dirs s\<rparr>"

definition start_harness :: "renv \<Rightarrow> SessionConfig \<Rightarrow> string option" where
  "start_harness E cfg = (case start_command ''claude'' cfg of Inl m \<Rightarrow> Some m | Inr _ \<Rightarrow> rv_start E cfg)"

definition new_thread :: "renv \<Rightarrow> rstate \<Rightarrow> string \<Rightarrow> threadSession" where
  "new_thread E s thread = \<lparr>tn_sessionID = index_get (rn_index s) thread, tn_sess = None, tn_dir = [], tn_mcpPath = [],
     tn_lastActivity = rv_now E, tn_currentTurn = [], tn_busy = False\<rparr>"

definition load_or_store :: "renv \<Rightarrow> string \<Rightarrow> rstate \<Rightarrow> rstate \<times> threadSession" where
  "load_or_store E thread s =
     (case map_of (rn_sessions s) thread of
        Some t \<Rightarrow> (s, t)
      | None \<Rightarrow> let t = new_thread E s thread in (s\<lparr>rn_sessions := put thread t (rn_sessions s)\<rparr>, t))"

definition started :: "renv \<Rightarrow> string \<Rightarrow> string \<Rightarrow> SessionConfig \<Rightarrow> rstate \<Rightarrow> rstate" where
  "started E thread dir cfg s =
     upd_thread thread
       (\<lambda>t. t\<lparr>tn_sess := Some (rn_next s), tn_dir := dir, tn_mcpPath := sc_MCPConfigPath cfg, tn_lastActivity := rv_now E\<rparr>)
       (s\<lparr>rn_next := rn_next s + 1, rn_procs := put (rn_next s)
          \<lparr>hs_thread = thread, hs_config = cfg, hs_running = True, hs_open = True, hs_inputs = []\<rparr> (rn_procs s)\<rparr>)"

text \<open>After room was made: the files of the thread, then the process.\<close>

definition start_session :: "renv \<Rightarrow> string \<Rightarrow> string \<Rightarrow> rstate \<Rightarrow> rstate \<times> string option" where
  "start_session E thread resume s0 =
     (let configDir = mz_configDir (rn_mat s0); flt = rv_fault E in
      if configDir = [] then (s0, Some ''runner: no bundle has been materialized yet'')
      else
        let s1 = on_disk (refreshMemory flt (rn_opts s0) configDir) s0; dir = threadDir E s0 thread;
            mcpPath = path_join [dir, ''mcp.json'']
        in case run_all [MkdirAll flt dir, writeThreadMCP E (rn_mat s0) mcpPath thread] (rn_disk s1) of
             (d, Some m) \<Rightarrow> (s1\<lparr>rn_disk := d\<rparr>, Some m)
           | (d, None) \<Rightarrow>
               let s2 = s1\<lparr>rn_disk := d\<rparr>; cfg = session_config E s2 resume mcpPath in
               (case start_harness E cfg of Some m \<Rightarrow> (s2, Some m) | None \<Rightarrow> (started E thread dir cfg s2, None)))"

definition sessionFor :: "renv \<Rightarrow> string \<Rightarrow> rstate \<Rightarrow> rstate \<times> string option" where
  "sessionFor E thread s0 =
     (case load_or_store E thread s0 of
        (s1, t) \<Rightarrow>
          if alive s1 t then (s1, None)
          else (case makeRoom E thread s1 s1 of
              (s2, Some m) \<Rightarrow> (s2, Some m)
            | (s2, None) \<Rightarrow> start_session E thread (tn_sessionID t) s2))"

subsection \<open>A message\<close>

definition withContext :: "Message \<Rightarrow> string" where
  "withContext msg =
     (if m_context msg = [] then m_text msg
      else if m_text msg = [] then m_context msg
      else m_context msg @ [CHR 0x0A] @ m_text msg)"

text \<open>
  Ending a session: the process is closed and the resume point dropped. A thread without a session record is
  left alone, its persisted resume point included.
\<close>

definition endSession :: "renv \<Rightarrow> string \<Rightarrow> rstate \<Rightarrow> rstate" where
  "endSession E thread s =
     (if \<not> has_key (rn_sessions s) thread then s
      else rememberSession E thread [] (upd_thread thread (\<lambda>t. t\<lparr>tn_sessionID := []\<rparr>) (close_session thread s)))"

fun attach :: "renv \<Rightarrow> Attachment list \<Rightarrow> Input \<Rightarrow> rstate \<Rightarrow> rstate \<times> Input" where
  "attach E [] inp s = (s, inp)"
| "attach E (a # as) inp s =
     (case takeBlob E (att_blob a) s of
        (s', None) \<Rightarrow> attach E as inp s'
      | (s', Some (data, p)) \<Rightarrow>
          if att_inline a \<and> data \<noteq> []
          then attach E as (inp\<lparr>inp_Images := inp_Images inp @ [\<lparr>im_Mime = att_mime a, im_Data = data\<rparr>]\<rparr>) s'
          else attach E as (inp\<lparr>inp_Text := inp_Text inp @ blank_line @ ''[attachment saved to '' @ p @ '']''\<rparr>) s')"

text \<open>Writing to the process: \<open>rv_input\<close> is the adapter's error while it runs.\<close>

definition send_input :: "renv \<Rightarrow> string \<Rightarrow> Input \<Rightarrow> rstate \<Rightarrow> rstate \<times> string option" where
  "send_input E thread inp s =
     (case map_of (rn_sessions s) thread of
        Some t \<Rightarrow>
          (case tn_sess t of
             None \<Rightarrow> (s, Some ''runner: session is not running'')
           | Some n \<Rightarrow>
               (case map_of (rn_procs s) n of
                  Some p \<Rightarrow>
                    if \<not> hs_running p then (s, Some ''claudecode: session is not running'')
                    else (case rv_input E inp of
                        Some m \<Rightarrow> (s, Some m)
                      | None \<Rightarrow> (s\<lparr>rn_procs := put n (p\<lparr>hs_inputs := hs_inputs p @ [inp]\<rparr>) (rn_procs s)\<rparr>, None))
                | None \<Rightarrow> (s, Some ''claudecode: session is not running'')))
      | None \<Rightarrow> (s, Some ''runner: session is not running''))"

definition fail_frame :: "Message \<Rightarrow> string \<Rightarrow> string \<Rightarrow> Frame" where
  "fail_frame msg code m = FError \<lparr>e_thread = m_thread msg, e_turn = m_turn msg, e_code = code, e_message = m, e_fatal = False\<rparr>"

definition handleMessage :: "renv \<Rightarrow> Message \<Rightarrow> rstate \<Rightarrow> rstate" where
  "handleMessage E msg s0 =
     (let k = m_thread msg; s1 = (if m_command msg = ''new'' then endSession E k s0 else s0) in
      case sessionFor E k s1 of
        (s2, Some m) \<Rightarrow> tell E (fail_frame msg ''session_start_failed'' m) s2
      | (s2, None) \<Rightarrow>
          let s3 = touchActive E (upd_thread k (setTurn (rv_now E) (m_turn msg)) s2) in
          (case attach E (m_attachments msg) \<lparr>inp_Text = withContext msg, inp_Images = []\<rparr> s3 of
             (s4, inp) \<Rightarrow>
               (case send_input E k inp s4 of
                  (s5, Some m) \<Rightarrow> tell E (fail_frame msg ''send_failed'' m) s5
                | (s5, None) \<Rightarrow> s5)))"

subsection \<open>What the harness reports\<close>

definition usage_frame :: "string \<Rightarrow> string \<Rightarrow> HUsage \<Rightarrow> UsageFrame" where
  "usage_frame thread turn u = \<lparr>us_thread = thread, us_turn = turn, us_model = hu_Model u, us_input = hu_Input u,
     us_cache_write = hu_CacheWrite u, us_cache_read = hu_CacheRead u, us_output = hu_Output u,
     us_provider_cost = hu_Cost u, us_ttl_hint = hu_TTLHint u, us_known = hu_Known u\<rparr>"

definition error_frame :: "string \<Rightarrow> string \<Rightarrow> string \<Rightarrow> string \<Rightarrow> Frame" where
  "error_frame thread turn code m = FError \<lparr>e_thread = thread, e_turn = turn, e_code = code, e_message = m, e_fatal = False\<rparr>"

fun event_frame :: "string \<Rightarrow> string \<Rightarrow> string \<Rightarrow> HEvent \<Rightarrow> Frame option" where
  "event_frame thread turn sid (EventText x) = Some (FTextDelta \<lparr>td_thread = thread, td_turn = turn, td_text = x\<rparr>)"
| "event_frame thread turn sid (EventThinking x) = Some (FThought \<lparr>th_thread = thread, th_turn = turn, th_text = x\<rparr>)"
| "event_frame thread turn sid (EventToolUse call tool summary) =
     Some (FToolStart \<lparr>ts_thread = thread, ts_turn = turn, ts_call = call, ts_tool = tool, ts_summary = summary\<rparr>)"
| "event_frame thread turn sid (EventToolEnd call ok m ms) =
     Some (FToolEnd \<lparr>te_thread = thread, te_turn = turn, te_call = call, te_ok = ok, te_error = m, te_duration_ms = ms\<rparr>)"
| "event_frame thread turn sid (EventUsage u) = Some (FUsage (usage_frame thread turn u))"
| "event_frame thread turn sid (EventSession x) = None"
| "event_frame thread turn sid (EventDone x n) =
     Some (FDone \<lparr>d_thread = thread, d_turn = turn, d_session = sid, d_duration_ms = 0, d_num_tool_calls = n\<rparr>)"
| "event_frame thread turn sid (EventError m) = Some (error_frame thread turn ''harness_error'' m)"

text \<open>The session id an event announces.\<close>

fun event_sid :: "HEvent \<Rightarrow> string \<Rightarrow> string" where
  "event_sid (EventSession x) old = x"
| "event_sid (EventDone x n) old = (if x \<noteq> [] then x else old)"
| "event_sid _ old = old"

fun records_sid :: "HEvent \<Rightarrow> bool" where
  "records_sid (EventSession x) = True"
| "records_sid (EventDone x n) = True"
| "records_sid _ = False"

fun ends_turn :: "HEvent \<Rightarrow> bool" where
  "ends_turn (EventDone x n) = True"
| "ends_turn (EventError m) = True"
| "ends_turn _ = False"

text \<open>One event of process \<open>n\<close>.\<close>

definition pump_event :: "renv \<Rightarrow> nat \<Rightarrow> HEvent \<Rightarrow> rstate \<Rightarrow> rstate" where
  "pump_event E n ev s0 =
     (case map_of (rn_procs s0) n of None \<Rightarrow> s0
      | Some p \<Rightarrow>
          let k = hs_thread p; s1 = markActive E (upd_thread k (touch (rv_now E)) s0);
              turn = turnForThread k s1;
              sid = (case map_of (rn_sessions s1) k of None \<Rightarrow> [] | Some t \<Rightarrow> event_sid ev (tn_sessionID t));
              s2 = (if records_sid ev then rememberSession E k sid (upd_thread k (\<lambda>t. t\<lparr>tn_sessionID := sid\<rparr>) s1) else s1);
              s3 = (if ends_turn ev then settleActive E (upd_thread k (endTurn (rv_now E)) s2) else s2)
          in (case event_frame k turn sid ev of None \<Rightarrow> s3 | Some f \<Rightarrow> tell E f s3))"

text \<open>The end of the event stream of process \<open>n\<close>.\<close>

definition pump_end :: "renv \<Rightarrow> nat \<Rightarrow> rstate \<Rightarrow> rstate" where
  "pump_end E n s0 =
     (case map_of (rn_procs s0) n of None \<Rightarrow> s0
      | Some p \<Rightarrow>
          let k = hs_thread p;
              s = s0\<lparr>rn_procs := put n (p\<lparr>hs_running := False, hs_open := False\<rparr>) (rn_procs s0)\<rparr>
          in (case map_of (rn_sessions s) k of None \<Rightarrow> s
              | Some t \<Rightarrow>
                  if \<not> tn_busy t then s
                  else tell E (error_frame k (tn_currentTurn t) ''session_ended''
                         ''the harness session ended before the turn completed'')
                       (settleActive E (upd_thread k (endTurn (rv_now E)) s))))"

subsection \<open>The idle sweep\<close>

definition sweep_thread :: "renv \<Rightarrow> string \<Rightarrow> rstate \<Rightarrow> rstate" where
  "sweep_thread E k s =
     (case map_of (rn_sessions s) k of None \<Rightarrow> s
      | Some t \<Rightarrow>
          if \<not> alive s t \<or> idle (rv_now E) t < ro_IdleTimeout (rn_opts s) then s else close_session k s)"

text \<open>Directories of threads without a session record are removed.\<close>

definition CleanupThreads :: "renv \<Rightarrow> rstate \<Rightarrow> rstate" where
  "CleanupThreads E s =
     (let base = threads_root s; live = map (threadDirName E) (map fst (rn_sessions s));
          gone = filter (\<lambda>n. n \<notin> set live \<and> TrimSpace n \<noteq> []) (map fst (filter (\<lambda>(_, x). x = NDir) (ReadDir base (rn_disk s))))
      in on_disk (run_all (map (\<lambda>n. ignored_op (RemoveAll (rv_fault E) (path_join [base, n]))) gone)) s)"

definition sweepIdle :: "renv \<Rightarrow> rstate \<Rightarrow> rstate" where
  "sweepIdle E s = fold (sweep_thread E) (map fst (rn_sessions s)) (CleanupThreads E s)"

end
