(* ===== verification/Plugins.thy ===== *)
theory Plugins
  imports Sessions
begin

text \<open>
  The runner's plugins (internal/runner/plugins.go): the manifest a bundle ships, a checkout of every
  marketplace at the ref it pins, and the directories the sessions load. Git is the argument
  \<open>pl_git\<close>, which changes the tree as it likes; the answer to the credential request is
  \<open>pl_credential\<close>. In the tree a directory reached through a link is not listed.
\<close>

subsection \<open>The manifest\<close>

record PMarketplace =
  pm_Repo :: string
  pm_Ref :: string

record PluginManifest =
  pf_Plugins :: "string list"
  pf_Marketplaces :: "PMarketplace gomap"

text \<open>
  A marketplace lists plugins by name with a source: \<open>None\<close> when the source is not a string.
\<close>

record plug_env =
  pl_manifest :: "string \<Rightarrow> PluginManifest option"
  pl_market :: "string \<Rightarrow> (string \<times> string option) list option"
  pl_git :: "string list \<Rightarrow> string list \<Rightarrow> op"
  pl_credential :: "string \<Rightarrow> string + CredentialResult"
  pl_base64 :: "string \<Rightarrow> string"

definition readPluginManifest :: "renv \<Rightarrow> plug_env \<Rightarrow> string \<Rightarrow> disk \<Rightarrow> string + PluginManifest option" where
  "readPluginManifest E P configDir d =
     (case ReadFile (rv_fault E) (path_join [configDir, ''plugins.json'']) d of
        None \<Rightarrow> Inr None
      | Some (Inl m) \<Rightarrow> Inl m
      | Some (Inr raw) \<Rightarrow>
          (case pl_manifest P raw of
             None \<Rightarrow> Inl ''runner: parse plugins.json''
           | Some m \<Rightarrow> Inr (if pf_Plugins m = [] then None else Some m)))"

definition splitPluginID :: "string \<Rightarrow> (string \<times> string) option" where
  "splitPluginID i =
     (let is_at = (\<lambda>c. c = CHR ''@'') in
      if CHR ''@'' \<notin> set i \<or> BeforeLast is_at i = [] \<or> AfterLast is_at i = [] then None
      else Some (BeforeLast is_at i, AfterLast is_at i))"

definition hex_digit :: "char \<Rightarrow> bool" where
  "hex_digit c \<longleftrightarrow> (48 \<le> byte c \<and> byte c \<le> 57) \<or> (97 \<le> byte c \<and> byte c \<le> 102)"

definition fullSHA :: "string \<Rightarrow> bool" where
  "fullSHA s \<longleftrightarrow> length s = 40 \<and> list_all hex_digit s"

subsection \<open>A checkout\<close>

definition gitBase :: string where "gitBase = ''https://github.com/''"

text \<open>An unset variable reads as the empty string.\<close>

definition getenv_or_empty :: "renv \<Rightarrow> string \<Rightarrow> string" where
  "getenv_or_empty E k = (case rv_getenv E k of None \<Rightarrow> [] | Some v \<Rightarrow> v)"

definition git_env :: "renv \<Rightarrow> plug_env \<Rightarrow> CredentialResult \<Rightarrow> string list" where
  "git_env E P cred =
     [env_pair ''PATH'' (getenv_or_empty E ''PATH''), env_pair ''HOME'' (getenv_or_empty E ''HOME''),
      ''GIT_TERMINAL_PROMPT=0'', ''GIT_CONFIG_NOSYSTEM=1'', ''GIT_CONFIG_GLOBAL=/dev/null'']
     @ (if cres_Password cred \<noteq> []
        then [''GIT_CONFIG_COUNT=1'', ''GIT_CONFIG_KEY_0=http.'' @ gitBase @ ''.extraheader'',
              ''GIT_CONFIG_VALUE_0=AUTHORIZATION: basic ''
                @ pl_base64 P (cres_Username cred @ '':'' @ cres_Password cred)]
        else [])"

text \<open>The first operation, and when it fails the second.\<close>

definition or_else :: "op \<Rightarrow> op \<Rightarrow> op" where
  "or_else f g d = (case f d of (d', None) \<Rightarrow> (d', None) | (d', Some _) \<Rightarrow> g d')"

definition fetchMarketplace :: "renv \<Rightarrow> plug_env \<Rightarrow> string \<Rightarrow> PMarketplace \<Rightarrow> op" where
  "fetchMarketplace E P dir mp d =
     (case pl_credential P (pm_Repo mp) of
        Inl m \<Rightarrow> (d, Some (''credential: '' @ m))
      | Inr cred \<Rightarrow>
          let git = pl_git P (git_env E P cred); url = gitBase @ pm_Repo mp @ ''.git'' in
          run_all
            ((if has_key d (path_join [dir, ''.git'']) then []
              else [MkdirAll (rv_fault E) dir, git [''init'', ''-q'', dir]])
             @ [or_else (git [''-C'', dir, ''remote'', ''set-url'', ''origin'', url])
                  (git [''-C'', dir, ''remote'', ''add'', ''origin'', url]),
                git [''-C'', dir, ''fetch'', ''-q'', ''--depth'', ''1'', ''--no-tags'', ''origin'', ''--'', pm_Ref mp],
                git [''-C'', dir, ''checkout'', ''-q'', ''--force'', ''--detach'', ''FETCH_HEAD''],
                git [''-C'', dir, ''clean'', ''-q'', ''-ffdx'']]) d)"

definition pin :: "PMarketplace \<Rightarrow> string" where "pin mp = pm_Repo mp @ ''@'' @ pm_Ref mp"

definition market_dir :: "ropts \<Rightarrow> string \<Rightarrow> string" where
  "market_dir o1 name =
     path_join [if ro_StateDir o1 = [] then path_join [ro_RuntimeRoot o1, ro_Name o1] else ro_StateDir o1,
                ''marketplaces'', name]"

definition ref_marker :: "string \<Rightarrow> string" where "ref_marker dir = path_join [dir, ''.git'', ''splitscreen-ref'']"

text \<open>What the marker says; a file that cannot be read says nothing.\<close>

definition have_ref :: "renv \<Rightarrow> string \<Rightarrow> disk \<Rightarrow> string" where
  "have_ref E dir d = (case ReadFile (rv_fault E) (ref_marker dir) d of Some (Inr c) \<Rightarrow> TrimSpace c | _ \<Rightarrow> [])"

definition syncMarketplace :: "renv \<Rightarrow> plug_env \<Rightarrow> ropts \<Rightarrow> string \<Rightarrow> PMarketplace \<Rightarrow> disk \<Rightarrow> disk \<times> (string + string)" where
  "syncMarketplace E P o1 name mp d =
     (if \<not> ValidSlug name then (d, Inl (''bad marketplace name '' @ name))
      else
        let dir = market_dir o1 name; have = have_ref E dir d in
        if have = pin mp \<and> fullSHA (pm_Ref mp) then (d, Inr dir)
        else (case fetchMarketplace E P dir mp d of
            (d', Some m) \<Rightarrow> if have = pin mp then (d', Inr dir) else (d', Inl m)
          | (d', None) \<Rightarrow>
              (case WriteFile (rv_fault E) (ref_marker dir) (pin mp @ [CHR 0x0A]) 384 d' of
                 (d'', Some m) \<Rightarrow> (d'', Inl m) | (d'', None) \<Rightarrow> (d'', Inr dir))))"

subsection \<open>A plugin's directory\<close>

text \<open>\<open>os.Stat\<close> follows a link.\<close>

definition stat_dir :: "disk \<Rightarrow> string \<Rightarrow> bool" where
  "stat_dir d p = (case map_of d p of
     Some NDir \<Rightarrow> True
   | Some (NLink t) \<Rightarrow> map_of d (if IsAbs t then Clean t else path_join [path_dir p, t]) = Some NDir
   | _ \<Rightarrow> False)"

fun find_plugin :: "disk \<Rightarrow> string \<Rightarrow> string \<Rightarrow> (string \<times> string option) list \<Rightarrow> string + string" where
  "find_plugin d base plugin [] = Inl ''not in the marketplace at this ref''"
| "find_plugin d base plugin ((name, source) # ps) =
     (if name \<noteq> plugin then find_plugin d base plugin ps
      else (case source of
          None \<Rightarrow> Inl ''only relative-path plugin sources are supported''
        | Some rel \<Rightarrow>
            let dir = Clean (path_join [base, rel]) in
            if dir \<noteq> base \<and> \<not> HasPrefix dir (base @ [slash]) then Inl (''source '' @ rel @ '' escapes the marketplace'')
            else if \<not> stat_dir d dir then Inl (''source '' @ rel @ '' is not a directory in the checkout'')
            else Inr dir))"

definition pluginDir :: "renv \<Rightarrow> plug_env \<Rightarrow> string \<Rightarrow> string \<Rightarrow> disk \<Rightarrow> string + string" where
  "pluginDir E P base plugin d =
     (case ReadFile (rv_fault E) (path_join [base, ''.claude-plugin'', ''marketplace.json'']) d of
        None \<Rightarrow> Inl ''read marketplace.json''
      | Some (Inl m) \<Rightarrow> Inl (''read marketplace.json: '' @ m)
      | Some (Inr raw) \<Rightarrow> (case pl_market P raw of None \<Rightarrow> Inl ''parse marketplace.json'' | Some ps \<Rightarrow> find_plugin d base plugin ps))"

subsection \<open>Syncing\<close>

definition plugins_reset :: "bool \<Rightarrow> rstate \<Rightarrow> rstate" where
  "plugins_reset pending s = s\<lparr>rn_plugins := Some (if pending then None else Some [])\<rparr>"

definition reportPluginError :: "renv \<Rightarrow> string \<Rightarrow> rstate \<Rightarrow> rstate" where
  "reportPluginError E m = tell E (FError \<lparr>e_thread = [], e_turn = [], e_code = ''plugins_unavailable'', e_message = m, e_fatal = False\<rparr>)"

fun sync_markets :: "renv \<Rightarrow> plug_env \<Rightarrow> (string \<times> PMarketplace) list \<Rightarrow> string gomap \<Rightarrow> rstate \<Rightarrow> rstate \<times> string gomap" where
  "sync_markets E P [] checkouts s = (s, checkouts)"
| "sync_markets E P ((name, mp) # ms) checkouts s =
     (case syncMarketplace E P (rn_opts s) name mp (rn_disk s) of
        (d, Inl m) \<Rightarrow> sync_markets E P ms checkouts
          (reportPluginError E (''marketplace '' @ name @ '' ('' @ pin mp @ ''): '' @ m) (s\<lparr>rn_disk := d\<rparr>))
      | (d, Inr dir) \<Rightarrow> sync_markets E P ms (put name dir checkouts) (s\<lparr>rn_disk := d\<rparr>))"

fun plugin_directories :: "renv \<Rightarrow> plug_env \<Rightarrow> string gomap \<Rightarrow> string list \<Rightarrow> rstate \<Rightarrow> rstate \<times> string list" where
  "plugin_directories E P checkouts [] s = (s, [])"
| "plugin_directories E P checkouts (i # is) s =
     (case splitPluginID i of
        None \<Rightarrow> plugin_directories E P checkouts is (reportPluginError E (''plugin '' @ i @ '' is not name@marketplace'') s)
      | Some (plugin, market) \<Rightarrow>
          (case map_of checkouts market of
             None \<Rightarrow> plugin_directories E P checkouts is s
           | Some base \<Rightarrow>
               (case pluginDir E P base plugin (rn_disk s) of
                  Inl m \<Rightarrow> plugin_directories E P checkouts is (reportPluginError E (''plugin '' @ i @ '': '' @ m) s)
                | Inr dir \<Rightarrow> (case plugin_directories E P checkouts is s of (s', ds) \<Rightarrow> (s', dir # ds)))))"

text \<open>
  Whatever happened, the sync is over: sessions no longer wait for it. This is the sync of the latest push; one
  that a newer push replaced publishes its directories to a state no session reads.
\<close>

definition syncPlugins :: "renv \<Rightarrow> plug_env \<Rightarrow> string \<Rightarrow> rstate \<Rightarrow> rstate" where
  "syncPlugins E P configDir s =
     (case readPluginManifest E P configDir (rn_disk s) of
        Inl m \<Rightarrow> (reportPluginError E m s)\<lparr>rn_plugins := Some (Some [])\<rparr>
      | Inr None \<Rightarrow> s\<lparr>rn_plugins := Some (Some [])\<rparr>
      | Inr (Some m) \<Rightarrow>
          (case sync_markets E P (pf_Marketplaces m) [] s of
             (s1, checkouts) \<Rightarrow>
               (case plugin_directories E P checkouts (pf_Plugins m) s1 of
                  (s2, ds) \<Rightarrow> s2\<lparr>rn_plugins := Some (Some ds)\<rparr>)))"

end
