(* ===== verification/Residents.thy ===== *)
theory Residents
  imports Sessions
begin

text \<open>
  What holds of a runner's harness processes: each running one belongs to the thread whose record names it,
  so a thread has at most one, and the cap on residents is kept by every operation.
\<close>

subsection \<open>The part of the state that matters\<close>

definition sess_at :: "rstate \<Rightarrow> string \<Rightarrow> nat option" where
  "sess_at s k = (case map_of (rn_sessions s) k of None \<Rightarrow> None | Some t \<Rightarrow> tn_sess t)"

definition thread_of :: "rstate \<Rightarrow> nat \<Rightarrow> string option" where
  "thread_of s n = map_option hs_thread (map_of (rn_procs s) n)"

text \<open>Two states that agree on sessions, processes and options.\<close>

definition same_core :: "rstate \<Rightarrow> rstate \<Rightarrow> bool" where
  "same_core s s' \<longleftrightarrow> sess_at s' = sess_at s \<and> thread_of s' = thread_of s \<and> (\<forall>n. proc_running n s' = proc_running n s)
     \<and> rn_next s' = rn_next s \<and> rn_opts s' = rn_opts s"

named_theorems core_rules \<open>operations that leave sessions and processes alone\<close>

lemma same_core_refl [core_rules]: "same_core s s"
  by (simp add: same_core_def)

lemma same_core_trans: "same_core s s' \<Longrightarrow> same_core s' s'' \<Longrightarrow> same_core s s''"
  by (simp add: same_core_def)

lemma sess_at_fields: "rn_sessions s' = rn_sessions s \<Longrightarrow> sess_at s' = sess_at s"
  by (simp add: sess_at_def fun_eq_iff)

lemma proc_fields: "rn_procs s' = rn_procs s \<Longrightarrow> thread_of s' = thread_of s \<and> proc_running n s' = proc_running n s"
  by (simp add: thread_of_def proc_running_def fun_eq_iff)

lemma same_core_fields:
  "rn_sessions s' = rn_sessions s \<Longrightarrow> rn_procs s' = rn_procs s \<Longrightarrow> rn_next s' = rn_next s \<Longrightarrow> rn_opts s' = rn_opts s \<Longrightarrow> same_core s s'"
  using sess_at_fields [of s' s] proc_fields [of s' s] by (simp add: same_core_def)

lemma on_disk_fields [simp]:
  "rn_sessions (on_disk f s) = rn_sessions s" "rn_procs (on_disk f s) = rn_procs s" "rn_next (on_disk f s) = rn_next s"
  "rn_opts (on_disk f s) = rn_opts s" "rn_conn (on_disk f s) = rn_conn s" "rn_sent (on_disk f s) = rn_sent s"
  "rn_mat (on_disk f s) = rn_mat s" "rn_blobs (on_disk f s) = rn_blobs s" "rn_pending (on_disk f s) = rn_pending s"
  "rn_index (on_disk f s) = rn_index s"
  by (simp_all add: on_disk_def)

lemma touchActive_fields [simp]:
  "rn_sessions (touchActive E s) = rn_sessions s" "rn_procs (touchActive E s) = rn_procs s" "rn_next (touchActive E s) = rn_next s"
  "rn_opts (touchActive E s) = rn_opts s" "rn_conn (touchActive E s) = rn_conn s" "rn_sent (touchActive E s) = rn_sent s"
  by (simp_all add: touchActive_def Let_def)

lemma markActive_fields [simp]:
  "rn_sessions (markActive E s) = rn_sessions s" "rn_procs (markActive E s) = rn_procs s" "rn_next (markActive E s) = rn_next s"
  "rn_opts (markActive E s) = rn_opts s" "rn_conn (markActive E s) = rn_conn s" "rn_sent (markActive E s) = rn_sent s"
  by (simp_all add: markActive_def)

lemma settleActive_fields [simp]:
  "rn_sessions (settleActive E s) = rn_sessions s" "rn_procs (settleActive E s) = rn_procs s" "rn_next (settleActive E s) = rn_next s"
  "rn_opts (settleActive E s) = rn_opts s" "rn_conn (settleActive E s) = rn_conn s" "rn_sent (settleActive E s) = rn_sent s"
  by (simp_all add: settleActive_def)

lemma rememberSession_fields [simp]:
  "rn_sessions (rememberSession E k i s) = rn_sessions s" "rn_procs (rememberSession E k i s) = rn_procs s"
  "rn_next (rememberSession E k i s) = rn_next s" "rn_opts (rememberSession E k i s) = rn_opts s"
  "rn_conn (rememberSession E k i s) = rn_conn s" "rn_sent (rememberSession E k i s) = rn_sent s"
  by (simp_all add: rememberSession_def split: prod.split set_outcome.split)

lemma runner_write_fields:
  "rn_sessions (fst (runner_write E x s)) = rn_sessions s" "rn_procs (fst (runner_write E x s)) = rn_procs s"
  "rn_next (fst (runner_write E x s)) = rn_next s" "rn_opts (fst (runner_write E x s)) = rn_opts s"
  "rn_conn (fst (runner_write E x s)) = rn_conn s"
  by (simp_all add: runner_write_def split: option.split)

lemma tell_fields [simp]:
  "rn_sessions (tell E f s) = rn_sessions s" "rn_procs (tell E f s) = rn_procs s" "rn_next (tell E f s) = rn_next s"
  "rn_opts (tell E f s) = rn_opts s" "rn_conn (tell E f s) = rn_conn s"
  by (simp_all add: tell_def runner_send_def runner_write_fields split: sum.split fmt_err.split)

lemma takeBlob_fields [simp]:
  "rn_sessions (fst (takeBlob E i s)) = rn_sessions s" "rn_procs (fst (takeBlob E i s)) = rn_procs s"
  "rn_next (fst (takeBlob E i s)) = rn_next s" "rn_opts (fst (takeBlob E i s)) = rn_opts s"
  "rn_conn (fst (takeBlob E i s)) = rn_conn s" "rn_sent (fst (takeBlob E i s)) = rn_sent s"
  by (simp_all add: takeBlob_def split: option.split)

lemma attach_core: "same_core s (fst (attach E as inp s))"
proof (induction as arbitrary: inp s)
  case (Cons a as)
  have t: "same_core s (fst (takeBlob E (att_blob a) s))" by (rule same_core_fields) simp_all
  show ?case using t Cons.IH by (auto split: prod.splits option.splits intro: same_core_trans)
qed (simp add: same_core_refl)

text \<open>A change of a thread's record that keeps its session.\<close>

lemma upd_thread_core:
  assumes "\<And>t. tn_sess (f t) = tn_sess t"
  shows "same_core s (upd_thread k f s)"
  using assms by (auto simp: same_core_def upd_thread_def sess_at_def thread_of_def proc_running_def fun_eq_iff split: option.split)

lemma turn_fields [simp]:
  "tn_sess (setTurn now i t) = tn_sess t" "tn_sess (endTurn now t) = tn_sess t" "tn_sess (touch now t) = tn_sess t"
  by (simp_all add: setTurn_def endTurn_def touch_def)

lemma send_input_core: "same_core s (fst (send_input E k inp s))"
  by (auto simp: send_input_def same_core_def sess_at_def thread_of_def proc_running_def fun_eq_iff split: option.split)

subsection \<open>The invariant\<close>

definition procs_ok :: "rstate \<Rightarrow> bool" where
  "procs_ok s \<longleftrightarrow> (\<forall>k n. sess_at s k = Some n \<longrightarrow> thread_of s n = Some k)
     \<and> (\<forall>n. thread_of s n \<noteq> None \<longrightarrow> n < rn_next s)
     \<and> (\<forall>n k. proc_running n s \<longrightarrow> thread_of s n = Some k \<longrightarrow> sess_at s k = Some n)"

lemma procs_okD:
  assumes "procs_ok s"
  shows "sess_at s k = Some n \<Longrightarrow> thread_of s n = Some k" "thread_of s n = Some k \<Longrightarrow> n < rn_next s"
    "proc_running n s \<Longrightarrow> thread_of s n = Some k \<Longrightarrow> sess_at s k = Some n"
  using assms unfolding procs_ok_def by blast+

lemma procs_okI:
  assumes "\<And>k n. sess_at s k = Some n \<Longrightarrow> thread_of s n = Some k" "\<And>n k. thread_of s n = Some k \<Longrightarrow> n < rn_next s"
    "\<And>n k. proc_running n s \<Longrightarrow> thread_of s n = Some k \<Longrightarrow> sess_at s k = Some n"
  shows "procs_ok s"
  using assms unfolding procs_ok_def by blast

definition running_set :: "rstate \<Rightarrow> nat set" where "running_set s = {n. proc_running n s}"

text \<open>The number of harness processes that run.\<close>

definition residents :: "rstate \<Rightarrow> nat" where
  "residents s = length (filter (\<lambda>n. proc_running n s) (remdups (map fst (rn_procs s))))"

lemma running_set_keys: "running_set s = set (filter (\<lambda>n. proc_running n s) (remdups (map fst (rn_procs s))))"
proof -
  have "n \<in> fst ` set (rn_procs s)" if "proc_running n s" for n
    using that by (auto simp: proc_running_def dest: map_of_SomeD split: option.splits intro: rev_image_eqI)
  then show ?thesis by (auto simp: running_set_def)
qed

lemma finite_running [simp]: "finite (running_set s)"
  by (simp add: running_set_keys)

lemma residents_card: "residents s = card (running_set s)"
  unfolding residents_def running_set_keys by (rule distinct_card [symmetric]) simp

lemma same_core_ok: "same_core s s' \<Longrightarrow> procs_ok s' = procs_ok s \<and> running_set s' = running_set s \<and> residents s' = residents s"
  by (simp add: same_core_def procs_ok_def running_set_def residents_card)

lemma running_thread: "proc_running n s \<Longrightarrow> \<exists>k. thread_of s n = Some k"
  by (auto simp: proc_running_def thread_of_def split: option.splits)

lemma alive_at: "map_of (rn_sessions s) k = Some t \<Longrightarrow> alive s t \<longleftrightarrow> (\<exists>n. sess_at s k = Some n \<and> proc_running n s)"
  by (auto simp: alive_def sess_at_def split: option.splits)

subsection \<open>Closing and evicting\<close>

lemma close_session_none: "sess_at s k = None \<Longrightarrow> close_session k s = s"
  by (auto simp: close_session_def sess_at_def split: option.splits)

lemma close_session_some:
  assumes "sess_at s k = Some n"
  shows "sess_at (close_session k s) = (sess_at s)(k := None)" "thread_of (close_session k s) = thread_of s"
    "proc_running m (close_session k s) \<longleftrightarrow> proc_running m s \<and> m \<noteq> n"
    "rn_next (close_session k s) = rn_next s" "rn_opts (close_session k s) = rn_opts s"
proof -
  from assms obtain t where t: "map_of (rn_sessions s) k = Some t" "tn_sess t = Some n"
    by (auto simp: sess_at_def split: option.splits)
  have cp: "rn_sessions (close_proc n s) = rn_sessions s" "thread_of (close_proc n s) = thread_of s"
    "proc_running m (close_proc n s) \<longleftrightarrow> proc_running m s \<and> m \<noteq> n"
    "rn_next (close_proc n s) = rn_next s" "rn_opts (close_proc n s) = rn_opts s" for m
    by (auto simp: close_proc_def thread_of_def proc_running_def fun_eq_iff split: option.split)
  let ?s = "close_proc n s"
  have c: "close_session k s = ?s\<lparr>rn_sessions := put k (t\<lparr>tn_sess := None\<rparr>) (rn_sessions s)\<rparr>"
    using t by (simp add: close_session_def upd_thread_def cp(1))
  show "sess_at (close_session k s) = (sess_at s)(k := None)" unfolding c by (simp add: sess_at_def fun_eq_iff)
  show "thread_of (close_session k s) = thread_of s" unfolding c cp(2) [symmetric] by (simp add: thread_of_def fun_eq_iff)
  show "proc_running m (close_session k s) \<longleftrightarrow> proc_running m s \<and> m \<noteq> n" unfolding c cp(3) [symmetric]
    by (simp add: proc_running_def)
  show "rn_next (close_session k s) = rn_next s" "rn_opts (close_session k s) = rn_opts s" unfolding c by (simp_all add: cp)
qed

lemma close_session_ok:
  assumes "procs_ok s"
  shows "procs_ok (close_session k s)"
proof (cases "sess_at s k")
  case (Some n)
  note c = close_session_some [OF Some]
  show ?thesis
  proof (rule procs_okI)
    fix j m assume "sess_at (close_session k s) j = Some m"
    then show "thread_of (close_session k s) m = Some j"
      using procs_okD(1) [OF assms, of j m] by (simp add: c(1,2) split: if_splits)
  next
    fix m j assume "thread_of (close_session k s) m = Some j"
    then show "m < rn_next (close_session k s)" using procs_okD(2) [OF assms] by (simp add: c)
  next
    fix m j assume "proc_running m (close_session k s)" "thread_of (close_session k s) m = Some j"
    then have "proc_running m s" "m \<noteq> n" "thread_of s m = Some j" by (simp_all add: c)
    with procs_okD(1) [OF assms Some] procs_okD(3) [OF assms, of m j] Some
    show "sess_at (close_session k s) j = Some m" by (cases "j = k") (simp_all add: c)
  qed
qed (simp add: assms close_session_none)

lemma close_session_running:
  "running_set (close_session k s) = running_set s - (case sess_at s k of None \<Rightarrow> {} | Some n \<Rightarrow> {n})"
  by (cases "sess_at s k") (auto simp: running_set_def close_session_none close_session_some(3))

lemma close_session_opts [simp]: "rn_opts (close_session k s) = rn_opts s" "rn_next (close_session k s) = rn_next s"
  by (cases "sess_at s k"; simp add: close_session_none close_session_some)+

lemma close_session_record:
  "map_of (rn_sessions (close_session k s)) k' =
     (if k' = k then map_option (\<lambda>t. t\<lparr>tn_sess := None\<rparr>) (map_of (rn_sessions s) k) else map_of (rn_sessions s) k')"
  by (auto simp: close_session_def close_proc_def upd_thread_def split: option.split)

lemma evictable_at:
  "evictable E s k \<Longrightarrow> \<exists>t n. map_of (rn_sessions s) k = Some t \<and> \<not> tn_busy t \<and> sess_at s k = Some n \<and> proc_running n s"
  by (auto simp: evictable_def alive_def sess_at_def split: option.splits)

lemma evict_ok:
  assumes "procs_ok s"
  shows "procs_ok (fst (evict E ks need s))"
  using assms by (induction E ks need s rule: evict.induct) (auto simp: close_session_ok)

lemma evict_opts: "rn_opts (fst (evict E ks need s)) = rn_opts s"
  by (induction E ks need s rule: evict.induct) auto

text \<open>Every process asked for that is no longer needed was closed.\<close>

lemma evict_closes: "residents (fst (evict E ks need s)) + need = residents s + snd (evict E ks need s)"
proof (induction E ks need s rule: evict.induct)
  case (2 E k ks need s)
  show ?case
  proof (cases "need \<noteq> 0 \<and> evictable E s k")
    case True
    then obtain n where n: "sess_at s k = Some n" "proc_running n s" using evictable_at by blast
    have i: "n \<in> running_set s" using n(2) by (simp add: running_set_def)
    have "residents (close_session k s) = residents s - 1" using n i by (simp add: residents_card close_session_running)
    moreover have "residents s \<noteq> 0" using i by (auto simp: residents_card card_eq_0_iff)
    moreover have "need \<noteq> 0" using True by simp
    ultimately show ?thesis using True 2(2) by (cases need; cases "residents s") simp_all
  next
    case False
    with 2(1) show ?thesis by (cases "need = 0") simp_all
  qed
qed simp

lemma evict_need: "snd (evict E ks need s) \<le> need"
  by (induction E ks need s rule: evict.induct) (auto intro: le_trans)

text \<open>A thread in the middle of a turn keeps its record and its process.\<close>

lemma evict_spares:
  assumes "procs_ok s" "map_of (rn_sessions s) k = Some t" "tn_busy t \<or> k \<notin> set ks"
  shows "map_of (rn_sessions (fst (evict E ks need s))) k = Some t \<and>
    (\<forall>n. tn_sess t = Some n \<longrightarrow> proc_running n (fst (evict E ks need s)) = proc_running n s)"
  using assms
proof (induction E ks need s rule: evict.induct)
  case (2 E j js need s)
  show ?case
  proof (cases "need \<noteq> 0 \<and> evictable E s j")
    case True
    then obtain u m where u: "map_of (rn_sessions s) j = Some u" "\<not> tn_busy u" "sess_at s j = Some m"
      using evictable_at by blast
    have jk: "j \<noteq> k" using u(1,2) 2(4,5) by auto
    have keep: "proc_running n (close_session j s) = proc_running n s" if "tn_sess t = Some n" for n
    proof -
      have "sess_at s k = Some n" using that 2(4) by (simp add: sess_at_def)
      then have "n \<noteq> m" using procs_okD(1) [OF 2(3), of k n] procs_okD(1) [OF 2(3) u(3)] jk by auto
      then show ?thesis by (simp add: close_session_some(3) [OF u(3)])
    qed
    have "map_of (rn_sessions (close_session j s)) k = Some t" using jk 2(4) by (simp add: close_session_record)
    moreover have "tn_busy t \<or> k \<notin> set js" using 2(5) by auto
    ultimately show ?thesis using 2(2) [of] True keep close_session_ok [OF 2(3)] by auto
  next
    case False
    with 2 show ?thesis by auto
  qed
qed simp

subsection \<open>Making room and starting\<close>

lemma makeRoom_ok: "procs_ok s \<Longrightarrow> procs_ok (fst (makeRoom E k seen s))"
  by (auto simp: makeRoom_def Let_def evict_ok split: prod.split) (metis evict_ok fst_conv)

lemma makeRoom_opts: "rn_opts (fst (makeRoom E k seen s)) = rn_opts s"
  by (auto simp: makeRoom_def Let_def split: prod.split) (metis evict_opts fst_conv)

lemma makeRoom_residents: "residents (fst (makeRoom E k seen s)) \<le> residents s"
proof -
  have "residents (fst (evict E ks need s)) \<le> residents s" for ks need
    using evict_closes [of E ks need s] evict_need [of E ks need s] by linarith
  then show ?thesis by (auto simp: makeRoom_def Let_def split: prod.split) (metis fst_conv)
qed

text \<open>The scan sees every running process of another thread.\<close>

lemma scan_counts:
  assumes "procs_ok s" "\<And>n. sess_at s k = Some n \<Longrightarrow> \<not> proc_running n s"
  shows "residents s \<le> length (filter (resident E k s) (rn_sessions s))"
proof -
  let ?F = "filter (resident E k s) (rn_sessions s)"
  define g where "g n = (let j = the (thread_of s n) in (j, the (map_of (rn_sessions s) j)))" for n
  have mem: "g n \<in> set ?F \<and> tn_sess (snd (g n)) = Some n" if n: "n \<in> running_set s" for n
  proof -
    from n obtain j where j: "thread_of s n = Some j" "proc_running n s" using running_thread by (auto simp: running_set_def)
    with procs_okD(3) [OF assms(1)] have at: "sess_at s j = Some n" by blast
    then obtain t where t: "map_of (rn_sessions s) j = Some t" "tn_sess t = Some n" by (auto simp: sess_at_def split: option.splits)
    have "j \<noteq> k" using assms(2) at j(2) by auto
    then show ?thesis using t j map_of_SomeD [OF t(1)] by (auto simp: g_def resident_def alive_def)
  qed
  have "inj_on g (running_set s)" by (rule inj_onI) (use mem in \<open>metis option.inject\<close>)
  then have "residents s = card (g ` running_set s)" by (simp add: residents_card card_image)
  also have "\<dots> \<le> card (set ?F)" by (rule card_mono) (use mem in auto)
  also have "\<dots> \<le> length ?F" by (rule card_length)
  finally show ?thesis .
qed

lemma makeRoom_makes_room:
  assumes "procs_ok s" "\<And>n. sess_at s k = Some n \<Longrightarrow> \<not> proc_running n s"
    and "0 < ro_MaxSessions (rn_opts s)" "makeRoom E k s s = (s', None)"
  shows "int (residents s') < ro_MaxSessions (rn_opts s)"
proof -
  let ?max = "ro_MaxSessions (rn_opts s)" and ?run = "int (length (filter (resident E k s) (rn_sessions s)))"
  have r: "int (residents s) \<le> ?run" using scan_counts [OF assms(1,2)] by simp
  show ?thesis
  proof (cases "?run < ?max")
    case True
    then show ?thesis using assms(3,4) r by (simp add: makeRoom_def Let_def)
  next
    case False
    let ?need = "nat (?run - ?max + 1)"
    from False assms(3,4) have e: "evict E (victims E k s) ?need s = (s', 0)"
      by (auto simp: makeRoom_def Let_def split: prod.splits if_splits)
    have "residents s' + ?need = residents s" using evict_closes [of E "victims E k s" ?need s] by (simp add: e)
    then show ?thesis using r False by linarith
  qed
qed

lemma makeRoom_self:
  assumes "procs_ok s" "map_of (rn_sessions s) k = Some t"
  shows "map_of (rn_sessions (fst (makeRoom E k s s))) k = Some t"
proof -
  have "k \<notin> set (victims E k s)" by (auto simp: victims_def)
  then have "map_of (rn_sessions (fst (evict E (victims E k s) need s))) k = Some t" for need
    using evict_spares [OF assms] by blast
  then show ?thesis using assms(2) by (auto simp: makeRoom_def Let_def split: prod.split) (metis fst_conv)
qed

lemma evict_dead: "\<not> proc_running n s \<Longrightarrow> \<not> proc_running n (fst (evict E ks need s))"
proof (induction E ks need s rule: evict.induct)
  case (2 E k ks need s)
  have "\<not> proc_running n (close_session k s)"
    using 2(3) by (cases "sess_at s k") (simp_all add: close_session_none close_session_some(3))
  with 2 show ?case by auto
qed simp

lemma makeRoom_dead: "\<not> proc_running n s \<Longrightarrow> \<not> proc_running n (fst (makeRoom E k seen s))"
  by (auto simp: makeRoom_def Let_def split: prod.split) (metis evict_dead fst_conv)

lemma started_at:
  "sess_at (started E k dir cfg s) = (if has_key (rn_sessions s) k then (sess_at s)(k := Some (rn_next s)) else sess_at s)"
  "thread_of (started E k dir cfg s) = (thread_of s)(rn_next s := Some k)"
  "proc_running n (started E k dir cfg s) \<longleftrightarrow> n = rn_next s \<or> proc_running n s"
  "rn_next (started E k dir cfg s) = rn_next s + 1" "rn_opts (started E k dir cfg s) = rn_opts s"
  by (auto simp: started_def upd_thread_def sess_at_def thread_of_def proc_running_def has_key_def fun_eq_iff split: option.split)

lemma started_ok:
  assumes "procs_ok s" "has_key (rn_sessions s) k" "\<And>n. sess_at s k = Some n \<Longrightarrow> \<not> proc_running n s"
  shows "procs_ok (started E k dir cfg s)"
proof -
  note st = started_at [where E = E and k = k and dir = dir and cfg = cfg and s = s]
  have fresh: "thread_of s (rn_next s) = None" using procs_okD(2) [OF assms(1), of "rn_next s"] by (cases "thread_of s (rn_next s)") auto
  show ?thesis
  proof (rule procs_okI)
    fix j m assume "sess_at (started E k dir cfg s) j = Some m"
    then show "thread_of (started E k dir cfg s) m = Some j"
      using procs_okD(1) [OF assms(1), of j m] fresh assms(2) by (auto simp: st split: if_splits)
  next
    fix m j assume "thread_of (started E k dir cfg s) m = Some j"
    then show "m < rn_next (started E k dir cfg s)"
      using procs_okD(2) [OF assms(1), of m j] by (auto simp: st split: if_splits)
  next
    fix m j assume a: "proc_running m (started E k dir cfg s)" "thread_of (started E k dir cfg s) m = Some j"
    show "sess_at (started E k dir cfg s) j = Some m"
    proof (cases "m = rn_next s")
      case True
      then have "k = j" using a(2) by (simp add: st)
      then show ?thesis using True assms(2) by (simp add: started_at)
    next
      case False
      then have "proc_running m s" "thread_of s m = Some j" using a by (simp_all add: st)
      then show ?thesis using procs_okD(3) [OF assms(1), of m j] assms(3) [of m] by (cases "j = k") (simp_all add: st)
    qed
  qed
qed

lemma started_residents: "residents (started E k dir cfg s) \<le> residents s + 1"
proof -
  have "running_set (started E k dir cfg s) = insert (rn_next s) (running_set s)" by (auto simp: running_set_def started_at)
  then show ?thesis by (simp add: residents_card card_insert_if)
qed

subsection \<open>Every operation\<close>

lemma load_or_store_core:
  assumes "load_or_store E k s = (s1, t)"
  shows "same_core s s1" "map_of (rn_sessions s1) k = Some t"
  using assms
  by (auto simp: load_or_store_def Let_def new_thread_def same_core_def sess_at_def thread_of_def proc_running_def fun_eq_iff
      split: option.splits if_splits)

text \<open>What may follow: the invariant, and as many residents as before or at most the cap.\<close>

definition kept :: "rstate \<Rightarrow> rstate \<Rightarrow> bool" where
  "kept s s' \<longleftrightarrow> procs_ok s' \<and> rn_opts s' = rn_opts s
     \<and> (residents s' \<le> residents s \<or> 0 < ro_MaxSessions (rn_opts s) \<longrightarrow> residents s' \<le> residents s
         \<or> int (residents s') \<le> ro_MaxSessions (rn_opts s))"

lemma keptI:
  assumes "procs_ok s'" "rn_opts s' = rn_opts s"
    "0 < ro_MaxSessions (rn_opts s) \<Longrightarrow> residents s' \<le> residents s \<or> int (residents s') \<le> ro_MaxSessions (rn_opts s)"
  shows "kept s s'"
  using assms by (auto simp: kept_def)

lemma kept_core: "procs_ok s \<Longrightarrow> same_core s s' \<Longrightarrow> kept s s'"
  using same_core_ok [of s s'] by (auto simp: kept_def same_core_def)

lemma kept_all_trans: "kept s s' \<Longrightarrow> kept s' s'' \<Longrightarrow> kept s s''"
  by (auto simp: kept_def)

lemma kept_ok: "kept s s' \<Longrightarrow> procs_ok s'"
  by (simp add: kept_def)

lemma kept_core_right: "kept s s' \<Longrightarrow> same_core s' s'' \<Longrightarrow> kept s s''"
  using kept_core kept_ok kept_all_trans by blast

lemma kept_close: "procs_ok s \<Longrightarrow> kept s (close_session k s)"
proof (rule keptI)
  have "residents (close_session k s) \<le> residents s"
    unfolding residents_card close_session_running by (rule card_mono) auto
  then show "residents (close_session k s) \<le> residents s \<or> int (residents (close_session k s)) \<le> ro_MaxSessions (rn_opts s)" ..
qed (simp_all add: close_session_ok)

lemma start_session_cases:
  assumes "start_session E k resume s = (s', r)"
  shows "(r \<noteq> None \<and> same_core s s' \<and> rn_sessions s' = rn_sessions s)
    \<or> (r = None \<and> (\<exists>s2 dir cfg. same_core s s2 \<and> rn_sessions s2 = rn_sessions s \<and> s' = started E k dir cfg s2))"
proof -
  have d: "same_core s (on_disk f s\<lparr>rn_disk := d\<rparr>)" "rn_sessions (on_disk f s\<lparr>rn_disk := d\<rparr>) = rn_sessions s" for f d
    by (auto intro: same_core_fields)
  show ?thesis
  proof (cases "mz_configDir (rn_mat s) = []")
    case True
    then show ?thesis using assms by (auto simp: start_session_def same_core_refl)
  next
    case False
    let ?s1 = "on_disk (refreshMemory (rv_fault E) (rn_opts s) (mz_configDir (rn_mat s))) s"
    let ?dir = "threadDir E s k" let ?mcp = "path_join [?dir, ''mcp.json'']"
    obtain dd m where run: "run_all [MkdirAll (rv_fault E) ?dir, writeThreadMCP E (rn_mat s) ?mcp k] (rn_disk ?s1) = (dd, m)"
      by fastforce
    let ?s2 = "?s1\<lparr>rn_disk := dd\<rparr>"
    let ?cfg = "session_config E ?s2 resume ?mcp"
    have "(s', r) = (case m of Some x \<Rightarrow> (?s2, Some x)
        | None \<Rightarrow> (case start_harness E ?cfg of Some x \<Rightarrow> (?s2, Some x) | None \<Rightarrow> (started E k ?dir ?cfg ?s2, None)))"
      using False assms run by (simp add: start_session_def Let_def)
    then consider "r \<noteq> None" "s' = ?s2" | "r = None" "s' = started E k ?dir ?cfg ?s2"
      by (auto split: option.splits)
    then show ?thesis using d by cases blast+
  qed
qed

lemma sessionFor_kept:
  assumes "procs_ok s"
  shows "kept s (fst (sessionFor E k s))"
proof -
  obtain s1 t where l: "load_or_store E k s = (s1, t)" by fastforce
  note c = load_or_store_core [OF l]
  have ok1: "procs_ok s1" using same_core_ok [OF c(1)] assms by simp
  have k1: "kept s s1" by (rule kept_core [OF assms c(1)])
  show ?thesis
  proof (cases "alive s1 t")
    case True
    then show ?thesis using k1 by (simp add: sessionFor_def l)
  next
    case False
    then have dead: "\<not> proc_running n s1" if "sess_at s1 k = Some n" for n using that alive_at [OF c(2)] by blast
    obtain s2 r where m: "makeRoom E k s1 s1 = (s2, r)" by fastforce
    have ok2: "procs_ok s2" using makeRoom_ok [OF ok1, of E k s1] m by simp
    have o2: "rn_opts s2 = rn_opts s1" using makeRoom_opts [of E k s1 s1] m by simp
    have k2: "kept s1 s2" using makeRoom_residents [of E k s1 s1] m ok2 o2 by (intro keptI) auto
    show ?thesis
    proof (cases r)
      case (Some x)
      then show ?thesis using False m kept_all_trans [OF k1 k2] by (simp add: sessionFor_def l)
    next
      case None
      obtain s3 r3 where st: "start_session E k (tn_sessionID t) s2 = (s3, r3)" by fastforce
      have res: "fst (sessionFor E k s) = s3" using False m None st by (simp add: sessionFor_def l)
      have spared: "map_of (rn_sessions s2) k = Some t"
        using m None c(2) makeRoom_self [OF ok1 c(2)] by (metis fst_conv)
      from start_session_cases [OF st] show ?thesis
      proof (elim disjE conjE exE)
        assume "same_core s2 s3"
        then show ?thesis unfolding res by (rule kept_core_right [OF kept_all_trans [OF k1 k2]])
      next
        fix s2' dir cfg
        assume a: "same_core s2 s2'" "rn_sessions s2' = rn_sessions s2" "s3 = started E k dir cfg s2'"
        have ok2': "procs_ok s2'" using same_core_ok [OF a(1)] ok2 by simp
        have "\<not> proc_running n s2'" if "sess_at s2' k = Some n" for n
          using that a(1) spared dead c(2) makeRoom_dead [of n s1 E k s1] m unfolding same_core_def
          by (auto simp: sess_at_def)
        moreover have "has_key (rn_sessions s2') k" using spared a(2) by (simp add: has_key_def)
        ultimately have ok3: "procs_ok s3" unfolding a(3) by (intro started_ok [OF ok2'])
        have o3: "rn_opts s3 = rn_opts s1" using a(1) o2 by (simp add: a(3) started_at same_core_def)
        have "int (residents s3) \<le> ro_MaxSessions (rn_opts s1)" if "0 < ro_MaxSessions (rn_opts s1)"
        proof -
          have "int (residents s2) < ro_MaxSessions (rn_opts s1)"
            using makeRoom_makes_room [OF ok1 dead that] m None by simp
          moreover have "residents s3 \<le> residents s2 + 1"
            using started_residents [of E k dir cfg s2'] same_core_ok [OF a(1)] by (simp add: a(3))
          ultimately show ?thesis by linarith
        qed
        then have "kept s1 s3" by (intro keptI [OF ok3 o3]) blast
        then show ?thesis unfolding res by (rule kept_all_trans [OF k1])
      qed
    qed
  qed
qed

lemma core_steps [core_rules]:
  "same_core s x \<Longrightarrow> same_core s (tell E f x)" "same_core s x \<Longrightarrow> same_core s (touchActive E x)"
  "same_core s x \<Longrightarrow> same_core s (markActive E x)" "same_core s x \<Longrightarrow> same_core s (settleActive E x)"
  "same_core s x \<Longrightarrow> same_core s (rememberSession E k i x)" "same_core s x \<Longrightarrow> same_core s (on_disk g x)"
  by (erule same_core_trans, rule same_core_fields; simp)+

lemma core_turns [core_rules]:
  "same_core s x \<Longrightarrow> same_core s (upd_thread k (setTurn now i) x)" "same_core s x \<Longrightarrow> same_core s (upd_thread k (endTurn now) x)"
  "same_core s x \<Longrightarrow> same_core s (upd_thread k (touch now) x)"
  "same_core s x \<Longrightarrow> same_core s (upd_thread k (\<lambda>t. t\<lparr>tn_sessionID := sid\<rparr>) x)"
  by (erule same_core_trans, rule upd_thread_core, simp)+

lemma core_branches:
  "same_core s a \<Longrightarrow> same_core s b \<Longrightarrow> same_core s (if c then a else b)"
  "same_core s a \<Longrightarrow> (\<And>f. same_core s (g f)) \<Longrightarrow> same_core s (case x of None \<Rightarrow> a | Some f \<Rightarrow> g f)"
  by (simp_all split: option.split)

lemma endSession_kept: "procs_ok s \<Longrightarrow> kept s (endSession E k s)"
  unfolding endSession_def
  by (auto intro!: kept_core [OF _ same_core_refl] kept_core_right [OF kept_close] core_steps core_turns same_core_refl)

lemma handleMessage_kept:
  assumes "procs_ok s"
  shows "kept s (handleMessage E msg s)"
proof -
  let ?k = "m_thread msg"
  define s1 where "s1 = (if m_command msg = ''new'' then endSession E ?k s else s)"
  have k1: "kept s s1" using assms by (simp add: s1_def endSession_kept kept_core [OF _ same_core_refl])
  obtain s2 r where sf: "sessionFor E ?k s1 = (s2, r)" by fastforce
  have k2: "kept s s2" using kept_all_trans [OF k1] sessionFor_kept [OF kept_ok [OF k1], of E ?k] sf by simp
  show ?thesis
  proof (cases r)
    case (Some m)
    then show ?thesis using sf kept_core_right [OF k2 core_steps(1) [OF same_core_refl]] by (simp add: handleMessage_def Let_def s1_def [symmetric])
  next
    case None
    let ?s3 = "touchActive E (upd_thread ?k (setTurn (rv_now E) (m_turn msg)) s2)"
    obtain s4 inp where at: "attach E (m_attachments msg) \<lparr>inp_Text = withContext msg, inp_Images = []\<rparr> ?s3 = (s4, inp)" by fastforce
    obtain s5 r5 where si: "send_input E ?k inp s4 = (s5, r5)" by fastforce
    have "kept s ?s3" by (rule kept_core_right [OF k2]) (intro core_steps core_turns same_core_refl)
    then have "kept s s4" by (rule kept_core_right) (use attach_core [of ?s3 E] at in \<open>metis fst_conv\<close>)
    then have k5: "kept s s5" by (rule kept_core_right) (use send_input_core [of s4 E ?k inp] si in simp)
    have "handleMessage E msg s = (case r5 of None \<Rightarrow> s5 | Some m \<Rightarrow> tell E (fail_frame msg ''send_failed'' m) s5)"
      using sf None at si by (simp add: handleMessage_def Let_def s1_def [symmetric] split: option.split)
    then show ?thesis using k5 kept_core_right [OF k5 core_steps(1) [OF same_core_refl]] by (cases r5) simp_all
  qed
qed

text \<open>An event in its three stages: the record touched, the session id recorded, the turn ended.\<close>

definition event_touched :: "renv \<Rightarrow> hsession \<Rightarrow> rstate \<Rightarrow> rstate" where
  "event_touched E p s = markActive E (upd_thread (hs_thread p) (touch (rv_now E)) s)"

definition event_sid_at :: "hsession \<Rightarrow> HEvent \<Rightarrow> rstate \<Rightarrow> string" where
  "event_sid_at p ev s =
     (case map_of (rn_sessions s) (hs_thread p) of None \<Rightarrow> [] | Some t \<Rightarrow> event_sid ev (tn_sessionID t))"

definition event_recorded :: "renv \<Rightarrow> hsession \<Rightarrow> HEvent \<Rightarrow> rstate \<Rightarrow> rstate" where
  "event_recorded E p ev s =
     (let sid = event_sid_at p ev s in
      if records_sid ev then rememberSession E (hs_thread p) sid (upd_thread (hs_thread p) (\<lambda>t. t\<lparr>tn_sessionID := sid\<rparr>) s) else s)"

definition event_settled :: "renv \<Rightarrow> hsession \<Rightarrow> HEvent \<Rightarrow> rstate \<Rightarrow> rstate" where
  "event_settled E p ev s =
     (if ends_turn ev then settleActive E (upd_thread (hs_thread p) (endTurn (rv_now E)) s) else s)"

lemma pump_event_stages:
  assumes "map_of (rn_procs s) n = Some p"
  shows "pump_event E n ev s =
    (case event_frame (hs_thread p) (turnForThread (hs_thread p) (event_touched E p s)) (event_sid_at p ev (event_touched E p s)) ev of
       None \<Rightarrow> event_settled E p ev (event_recorded E p ev (event_touched E p s))
     | Some f \<Rightarrow> tell E f (event_settled E p ev (event_recorded E p ev (event_touched E p s))))"
  by (simp only: pump_event_def assms option.case Let_def event_settled_def event_recorded_def event_touched_def event_sid_at_def)

lemma event_stages_core:
  "same_core s x \<Longrightarrow> same_core s (event_touched E p x)" "same_core s x \<Longrightarrow> same_core s (event_recorded E p ev x)"
  "same_core s x \<Longrightarrow> same_core s (event_settled E p ev x)"
  by (simp_all add: event_touched_def event_recorded_def event_settled_def Let_def core_rules)

lemma pump_event_core: "same_core s (pump_event E n ev s)"
proof (cases "map_of (rn_procs s) n")
  case (Some p)
  show ?thesis
    unfolding pump_event_stages [OF Some] by (simp add: core_steps event_stages_core same_core_refl split: option.split)
qed (simp add: pump_event_def same_core_refl)

lemma pump_end_kept:
  assumes "procs_ok s"
  shows "kept s (pump_end E n s)"
proof (cases "map_of (rn_procs s) n")
  case (Some p)
  let ?s = "s\<lparr>rn_procs := put n (p\<lparr>hs_running := False, hs_open := False\<rparr>) (rn_procs s)\<rparr>"
  have at: "sess_at ?s = sess_at s" "thread_of ?s = thread_of s" "\<And>m. proc_running m ?s \<longleftrightarrow> proc_running m s \<and> m \<noteq> n"
    "rn_next ?s = rn_next s" "rn_opts ?s = rn_opts s"
    using Some by (auto simp: sess_at_def thread_of_def proc_running_def fun_eq_iff)
  have ok: "procs_ok ?s"
    by (rule procs_okI; unfold at) (use procs_okD [OF assms] in blast)+
  have "running_set ?s \<subseteq> running_set s" by (auto simp: running_set_def at)
  then have "residents ?s \<le> residents s" unfolding residents_card by (intro card_mono) auto
  then have k: "kept s ?s" by (intro keptI ok at(5)) simp
  show ?thesis
    unfolding pump_end_def Let_def Some option.case
    by (simp split: option.split; intro conjI allI impI k kept_core_right [OF k] core_steps core_turns same_core_refl)
qed (simp add: pump_end_def kept_core assms same_core_refl)

lemma sweep_thread_kept: "procs_ok s \<Longrightarrow> kept s (sweep_thread E k s)"
  by (auto simp: sweep_thread_def kept_close kept_core same_core_refl split: option.split)

lemma sweepIdle_kept:
  assumes "procs_ok s"
  shows "kept s (sweepIdle E s)"
proof -
  have "kept x (fold (sweep_thread E) ks x)" if "procs_ok x" for ks x
    using that
  proof (induction ks arbitrary: x)
    case (Cons a ks)
    have "kept x (sweep_thread E a x)" by (rule sweep_thread_kept [OF Cons.prems])
    with Cons.IH [OF kept_ok [OF this]] show ?case by (simp add: kept_all_trans)
  qed (simp add: kept_core same_core_refl)
  moreover have "kept s (CleanupThreads E s)" unfolding CleanupThreads_def Let_def by (rule kept_core [OF assms]) (intro core_steps same_core_refl)
  ultimately show ?thesis unfolding sweepIdle_def using kept_all_trans kept_ok by blast
qed

end
