(* ===== verification/Daemon.thy ===== *)
theory Daemon
  imports Plugins Residents
begin

text \<open>
  The runner daemon (internal/runner/runner.go): its construction, the connection to the gateway with its
  handshake and back-off, the dispatch of the gateway's frames, and the step relation that the runner's
  events make: every handler is one step, and the steps may come in any order.
\<close>

subsection \<open>Construction\<close>

definition DefaultRuntimeRoot :: "renv \<Rightarrow> string" where
  "DefaultRuntimeRoot E =
     (let dir = getenv_or_empty E ''XDG_RUNTIME_DIR'' in if dir \<noteq> [] then dir @ ''/splitscreen'' else ''/run/splitscreen'')"

text \<open>The adapters that register themselves.\<close>

definition adapters :: "string list" where "adapters = [''claude-code'']"

definition with_defaults :: "renv \<Rightarrow> string \<Rightarrow> ropts \<Rightarrow> ropts" where
  "with_defaults E exe o1 =
     o1\<lparr>ro_RuntimeRoot := (if ro_RuntimeRoot o1 = [] then DefaultRuntimeRoot E else ro_RuntimeRoot o1),
        ro_HarnessName := (if ro_HarnessName o1 = [] then ''claude-code'' else ro_HarnessName o1),
        ro_SelfPath := (if ro_SelfPath o1 = [] then exe else ro_SelfPath o1),
        ro_IdleTimeout := (if ro_IdleTimeout o1 = 0 then 30 * 60 else ro_IdleTimeout o1)\<rparr>"

text \<open>\<open>exe\<close> is what locating the daemon's own binary gives.\<close>

definition New :: "renv \<Rightarrow> string + string \<Rightarrow> ropts \<Rightarrow> disk \<Rightarrow> disk \<times> (string + rstate)" where
  "New E exe o0 d =
     (if ro_Name o0 = [] \<or> ro_Gateway o0 = [] then (d, Inl ''runner: name and gateway are required'')
      else (case (if ro_SelfPath o0 = [] then exe else Inr []) of
          Inl m \<Rightarrow> (d, Inl (''runner: locate own binary: '' @ m))
        | Inr self \<Rightarrow>
            let o1 = with_defaults E self o0 in
            if ro_HarnessName o1 \<notin> set adapters then (d, Inl (''harness: no adapter named '' @ ro_HarnessName o1))
            else if ro_StateDir o1 \<noteq> [] \<and> \<not> IsAbs (ro_StateDir o1)
            then (d, Inl (''runner: state dir '' @ ro_StateDir o1 @ '' must be an absolute path''))
            else (case loadSessionIndex (rv_fault E) (rv_index E) (ro_StateDir o1) d of
                (d', Inl m) \<Rightarrow> (d', Inl m)
              | (d', Inr x) \<Rightarrow> (d', Inr (fresh_runner o1 x d')))))"

subsection \<open>The connection\<close>

definition next_backoff :: "int \<Rightarrow> int" where
  "next_backoff b = (if 60 < 2 * b then 60 else 2 * b)"

text \<open>The wait before attempt \<open>n\<close>: the back-off starts at one second and is never reset.\<close>

definition backoff :: "nat \<Rightarrow> int" where "backoff n = (next_backoff ^^ n) 1"

text \<open>\<open>r\<close> is the random number below \<open>d\<close>.\<close>

definition jitter :: "int \<Rightarrow> int \<Rightarrow> int" where "jitter r d = r + d div 2"

definition normalizeFingerprint :: "string \<Rightarrow> string" where
  "normalizeFingerprint fp = filter (\<lambda>c. c \<noteq> CHR '':'') (TrimPrefix (ToLower (TrimSpace fp)) ''sha256:'')"

text \<open>
  Which server certificates a connection accepts: a pin replaces the chain validation, whose verdict is
  \<open>chain_ok\<close>.
\<close>

definition accepts_certificate :: "renv \<Rightarrow> ropts \<Rightarrow> string list \<Rightarrow> bool \<Rightarrow> bool" where
  "accepts_certificate E o1 certs chain_ok =
     (if ro_Fingerprint o1 \<noteq> [] then list_ex (\<lambda>raw. rv_sha E raw = normalizeFingerprint (ro_Fingerprint o1)) certs
      else if ro_Insecure o1 then True else chain_ok)"

definition hello_frame :: "Host \<Rightarrow> rstate \<Rightarrow> Hello" where
  "hello_frame host s = \<lparr>hello_protocol = Version, hello_runner = ro_Name (rn_opts s),
     hello_auth = \<lparr>a_mode = AuthToken, a_value = ro_Token (rn_opts s)\<rparr>, hello_host = host,
     hello_harness = \<lparr>hi_adapter = ''claude-code'', hi_version = []\<rparr>,
     hello_capabilities = [''files'', ''images'', ''permission-prompt-tool'', ''proxied-mcp''],
     hello_bundle = (if mz_digest (rn_mat s) \<noteq> []
       then Some \<lparr>br_version = mz_version (rn_mat s), br_digest = mz_digest (rn_mat s)\<rparr> else None)\<rparr>"

definition disconnected :: "rstate \<Rightarrow> rstate" where
  "disconnected s = failPending ''gateway connection lost'' (s\<lparr>rn_conn := False\<rparr>)"

text \<open>After a dial succeeded; a hello that cannot be sent ends the connection again.\<close>

definition connected :: "renv \<Rightarrow> Host \<Rightarrow> rstate \<Rightarrow> rstate" where
  "connected E host s =
     (case runner_send E (FHello (hello_frame host s)) (s\<lparr>rn_conn := True\<rparr>) of
        (s', None) \<Rightarrow> s' | (s', Some _) \<Rightarrow> disconnected s')"

subsection \<open>Frames from the gateway\<close>

definition missing_servers :: "(string \<Rightarrow> bool) \<Rightarrow> MCPServer list \<Rightarrow> string list" where
  "missing_servers present servers =
     map (\<lambda>x. ms_name x @ '' ('' @ ms_command x @ '')'')
       (filter (\<lambda>x. ms_kind x = MCPLocal \<and> ms_command x \<noteq> [] \<and> \<not> present (ms_command x)) servers)"

definition preflightMCP :: "renv \<Rightarrow> (string \<Rightarrow> bool) \<Rightarrow> BundlePush \<Rightarrow> rstate \<Rightarrow> rstate" where
  "preflightMCP E present push s =
     (let missing = missing_servers present (bp_mcp push) in
      if missing = [] then s
      else tell E (FError \<lparr>e_thread = [], e_turn = [], e_code = ''mcp_missing'',
             e_message = ''declared but not installed: '' @ Join missing '', '', e_fatal = False\<rparr>) s)"

text \<open>
  A push; the second result is the sync it starts beside the read loop. A manifest that cannot be read only
  leaves a log line.
\<close>

definition handlePush :: "renv \<Rightarrow> plug_env \<Rightarrow> (string \<Rightarrow> bool) \<Rightarrow> BundlePush \<Rightarrow> rstate \<Rightarrow> rstate \<times> bool" where
  "handlePush E P present push s =
     (case applyBundle (rv_mat E) (rn_opts s) push (rn_disk s, rn_mat s) of
        ((d, mz), Some m) \<Rightarrow>
          (tell E (FError \<lparr>e_thread = [], e_turn = [], e_code = ''bundle_apply_failed'', e_message = m, e_fatal = False\<rparr>)
             (s\<lparr>rn_disk := d, rn_mat := mz\<rparr>), False)
      | ((d, mz), None) \<Rightarrow>
          let s1 = preflightMCP E present push (s\<lparr>rn_disk := d, rn_mat := mz\<rparr>);
              pending = (case readPluginManifest E P (mz_configDir (rn_mat s1)) (rn_disk s1) of
                           Inr (Some _) \<Rightarrow> True | _ \<Rightarrow> False)
          in (plugins_reset pending s1, pending))"

text \<open>What a frame starts: nothing more, the turn of a message, or a sync; both run beside the read loop.\<close>

datatype spawned = SpawnNothing | SpawnMessage Message | SpawnSync

definition handleFrame :: "renv \<Rightarrow> plug_env \<Rightarrow> (string \<Rightarrow> bool) \<Rightarrow> Frame \<Rightarrow> rstate \<Rightarrow> rstate \<times> spawned" where
  "handleFrame E P present f s =
     (case f of
        FPing nonce \<Rightarrow> (tell E (FPong nonce) s, SpawnNothing)
      | FBundlePush push \<Rightarrow>
          (case handlePush E P present push s of (s', b) \<Rightarrow> (s', if b then SpawnSync else SpawnNothing))
      | FMessage msg \<Rightarrow> (s, SpawnMessage msg)
      | FPermissionResponse p \<Rightarrow> (resolvePending (pr_request p) (RReply f) s, SpawnNothing)
      | FCredentialGrant c \<Rightarrow> (resolvePending (cg_request c) (RReply f) s, SpawnNothing)
      | FMCPResponse r \<Rightarrow> (resolvePending (mr_call r) (RReply f) s, SpawnNothing)
      | FBlobBegin b \<Rightarrow> (runner_onBlobBegin E b s, SpawnNothing)
      | FBlobEnd b \<Rightarrow> (runner_onBlobEnd E b s, SpawnNothing)
      | _ \<Rightarrow> (s, SpawnNothing))"

text \<open>What was read from the socket: one round of the read loop.\<close>

datatype socket_data = TextData string | BinaryData string

definition readOnce :: "renv \<Rightarrow> plug_env \<Rightarrow> (string \<Rightarrow> bool) \<Rightarrow> socket_data \<Rightarrow> rstate \<Rightarrow> rstate \<times> spawned" where
  "readOnce E P present x s =
     (case x of
        TextData data \<Rightarrow> (case Decode (rv_json E) data DirDown of Inl _ \<Rightarrow> (s, SpawnNothing) | Inr f \<Rightarrow> handleFrame E P present f s)
      | BinaryData data \<Rightarrow> (case DecodeChunk (rv_chunk E) data of Inl _ \<Rightarrow> (s, SpawnNothing)
          | Inr (hdr, payload) \<Rightarrow> (runner_onChunk E hdr payload s, SpawnNothing)))"

subsection \<open>The runner as a whole\<close>

text \<open>
  One step: a round of the read loop, the turn of a message, an event or the end of a harness process, a
  sweep, a round of the marker's upkeep, a sync, a local helper's request or its end, connecting and
  disconnecting. A step leaves the options alone and may use any environment.
\<close>

inductive rstep :: "rstate \<Rightarrow> rstate \<Rightarrow> bool" where
  RRead: "rn_conn s \<Longrightarrow> rstep s (fst (readOnce E P present x s))"
| RMessage: "rstep s (handleMessage E msg s)"
| REvent: "map_of (rn_procs s) n = Some p \<Longrightarrow> hs_open p \<Longrightarrow> rstep s (pump_event E n ev s)"
| REnd: "map_of (rn_procs s) n = Some p \<Longrightarrow> hs_open p \<Longrightarrow> rstep s (pump_end E n s)"
| RSweep: "rstep s (sweepIdle E s)"
| RMarker: "rstep s (maintainActive E s)"
| RSync: "rstep s (syncPlugins E P configDir s)"
| RHelper: "rstep s (fst (handleIPC E J q s))"
| RHelperEnd: "rstep s (fst (finishIPC E J w s))"
| RConnect: "\<not> rn_conn s \<Longrightarrow> rstep s (connected E host s)"
| RDisconnect: "rn_conn s \<Longrightarrow> rstep s (disconnected s)"

inductive runner_reach :: "ropts \<Rightarrow> rstate \<Rightarrow> bool" for o1 where
  RInit: "runner_reach o1 (fresh_runner o1 x d)"
| RStep: "runner_reach o1 s \<Longrightarrow> rstep s s' \<Longrightarrow> runner_reach o1 s'"

subsection \<open>What every step keeps\<close>

lemma runner_send_core: "same_core s (fst (runner_send E f s))"
  using core_steps(1) [OF same_core_refl, of s E f] by (simp add: tell_def)

lemma request_start_core: "same_core s (fst (request_start E i f s))"
proof -
  let ?s = "s\<lparr>rn_pending := put i None (rn_pending s)\<rparr>"
  obtain s1 r where q: "runner_send E f ?s = (s1, r)" by fastforce
  have "same_core s ?s" by (rule same_core_fields) simp_all
  then have c: "same_core s s1" using same_core_trans [OF _ runner_send_core [of ?s E f]] q by simp
  have "same_core s1 (s1\<lparr>rn_pending := del i (rn_pending s1)\<rparr>)" by (rule same_core_fields) simp_all
  from same_core_trans [OF c this] c show ?thesis by (cases r) (simp_all add: request_start_def q)
qed

lemma send_reads_core: "same_core s (fst (send_reads E blob bs rerr data sq s))"
proof (induction E blob bs rerr data sq s rule: send_reads.induct)
  case (1 E blob rerr data sq s)
  show ?case by (simp add: runner_send_core core_steps same_core_refl split: option.split)
next
  case (2 E blob b bs rerr data sq s)
  have w: "same_core s (fst (runner_write E x s))" for x by (rule same_core_fields) (simp_all add: runner_write_fields)
  show ?case
  proof (cases "b = []")
    case True
    with 2(1) show ?thesis by simp
  next
    case nb: False
    show ?thesis
    proof (cases "EncodeChunk (rv_header E) \<lparr>ch_blob = blob, ch_seq = sq\<rparr> b")
      case (Inl x)
      with nb show ?thesis by (cases x) (simp add: same_core_refl)
    next
      case (Inr chunk)
      obtain s1 r where q: "runner_write E (RBinary chunk) s = (s1, r)" by fastforce
      have c: "same_core s s1" using w [of "RBinary chunk"] q by simp
      show ?thesis
      proof (cases r)
        case None
        with same_core_trans [OF c 2(2) [OF nb Inr q [symmetric] None]] nb Inr q show ?thesis by simp
      next
        case (Some m)
        with nb Inr q c show ?thesis by simp
      qed
    qed
  qed
qed

lemma sendFile_core: "same_core s (fst (sendFile E thread p s))"
proof -
  have "same_core s (fst (case runner_send E f s of (s', Some m) \<Rightarrow> (s', Some m)
      | (s', None) \<Rightarrow> (case rv_reads E p of (bs, rerr) \<Rightarrow> send_reads E blob bs rerr [] 0 s')))" for f blob
    using runner_send_core [of s E f] send_reads_core same_core_trans
    by (auto split: prod.split option.split)
  then show ?thesis by (auto simp: sendFile_def Let_def same_core_refl split: option.split sum.split)
qed

lemma handleIPC_core: "same_core s (fst (handleIPC E J q s))"
proof -
  have i: "same_core s (fst r) \<Longrightarrow> same_core s (fst (ipc_start w r))" for r w
    by (cases r) (simp add: ipc_start_def split: option.split)
  have p: "same_core s (fst (requestPermission_start E th tl inp s))" for th tl inp
    using request_start_core [of s E]
    by (auto simp: requestPermission_start_def same_core_refl split: prod.split option.split) (metis fst_conv)+
  show ?thesis
    using p [of "ipc_Thread q" "ipc_Tool q" "ipc_Input q"] sendFile_core [of s E "ipc_Thread q" "ipc_Path q"]
    by (auto simp: handleIPC_def Let_def same_core_refl requestCredential_start_def callProxiedMCP_start_def
        listProxiedMCP_start_def request_start_core intro!: i split: prod.split option.split sum.split)
qed

lemma request_end_core: "same_core s (fst (request_end E i s))"
  by (auto simp: request_end_def Let_def same_core_refl intro!: same_core_fields split: option.split)

lemma finishIPC_core: "same_core s (fst (finishIPC E J w s))"
  using request_end_core [of s E "wait_id w"] by (simp add: finishIPC_def case_prod_beta)

lemma maintainActive_core: "same_core s (maintainActive E s)"
  by (auto simp: maintainActive_def intro!: core_steps same_core_fields)

lemma disconnected_core: "same_core s (disconnected s)"
  by (rule same_core_fields) (simp_all add: disconnected_def failPending_def)

lemma connected_core: "same_core s (connected E host s)"
proof -
  have "same_core s (s\<lparr>rn_conn := True\<rparr>)" by (rule same_core_fields) simp_all
  then have "same_core s (fst (runner_send E (FHello (hello_frame host s)) (s\<lparr>rn_conn := True\<rparr>)))"
    by (rule same_core_trans [OF _ runner_send_core])
  then show ?thesis using disconnected_core same_core_trans
    by (auto simp: connected_def split: prod.split option.split)
qed

lemma report_core: "same_core s x \<Longrightarrow> same_core s (reportPluginError E m x)"
  by (simp add: reportPluginError_def core_steps)

lemma sync_markets_core: "same_core s (fst (sync_markets E P ms checkouts s))"
proof (induction E P ms checkouts s rule: sync_markets.induct)
  case (2 E P name mp ms checkouts s)
  obtain d r where m: "syncMarketplace E P (rn_opts s) name mp (rn_disk s) = (d, r)" by fastforce
  have c: "same_core s (s\<lparr>rn_disk := d\<rparr>)" by (rule same_core_fields) simp_all
  show ?case
  proof (cases r)
    case (Inl e)
    then show ?thesis using same_core_trans [OF report_core [OF c] 2(1) [OF m [symmetric] Inl]] by (simp add: m)
  next
    case (Inr dir)
    then show ?thesis using same_core_trans [OF c 2(2) [OF m [symmetric] Inr]] by (simp add: m)
  qed
qed (simp add: same_core_refl)

lemma plugin_directories_core: "same_core s (fst (plugin_directories E P checkouts is s))"
proof (induction "is" arbitrary: s)
  case (Cons i "is")
  have r: "same_core s (fst (plugin_directories E P checkouts is (reportPluginError E m s)))" for m
    by (rule same_core_trans [OF report_core [OF same_core_refl] Cons.IH])
  then show ?case using Cons.IH by (simp add: case_prod_beta split: sum.split option.split)
qed (simp add: same_core_refl)

lemma syncPlugins_core: "same_core s (syncPlugins E P configDir s)"
proof -
  have p: "same_core s x \<Longrightarrow> same_core s (x\<lparr>rn_plugins := y\<rparr>)" for x y
    by (erule same_core_trans) (rule same_core_fields; simp)
  have "same_core s (fst (plugin_directories E P c is (fst (sync_markets E P ms [] s))))" for c "is" ms
    by (rule same_core_trans [OF sync_markets_core plugin_directories_core])
  then show ?thesis
    by (auto simp: syncPlugins_def intro!: p report_core same_core_refl split: prod.split sum.split option.split) (metis fst_conv)
qed

lemma handlePush_core: "same_core s (fst (handlePush E P present push s))"
proof -
  have "same_core s (s\<lparr>rn_disk := d, rn_mat := mz\<rparr>)" for d mz by (rule same_core_fields) simp_all
  then have "same_core s (preflightMCP E present push (s\<lparr>rn_disk := d, rn_mat := mz\<rparr>))"
      "same_core s (tell E f (s\<lparr>rn_disk := d, rn_mat := mz\<rparr>))" for d mz f
    by (simp_all add: preflightMCP_def Let_def core_steps)
  moreover have "same_core s x \<Longrightarrow> same_core s (plugins_reset b x)" for x b
    by (erule same_core_trans) (rule same_core_fields; simp add: plugins_reset_def)
  ultimately show ?thesis by (auto simp: handlePush_def Let_def split: prod.split option.split)
qed

lemma handleFrame_core: "same_core s (fst (handleFrame E P present f s))"
proof (cases f)
  case (FBundlePush push)
  then show ?thesis using handlePush_core [of s E P present push] by (simp add: handleFrame_def case_prod_beta)
next
  case (FBlobBegin b)
  then show ?thesis
    by (auto simp: handleFrame_def runner_onBlobBegin_def Let_def intro!: same_core_fields split: prod.split option.split)
next
  case (FBlobEnd b)
  then show ?thesis
    by (auto simp: handleFrame_def runner_onBlobEnd_def drop_blob_def intro!: same_core_fields split: option.split)
qed (auto simp: handleFrame_def resolvePending_def core_steps same_core_refl intro!: same_core_fields)

lemma readOnce_core: "same_core s (fst (readOnce E P present x s))"
proof -
  have "same_core s (runner_onChunk E hdr payload s)" for hdr payload
    by (auto simp: runner_onChunk_def intro!: same_core_fields split: option.split)
  then show ?thesis
    by (auto simp: readOnce_def handleFrame_core same_core_refl split: socket_data.split sum.split prod.split)
qed

lemma rstep_kept:
  assumes "rstep s s'" "procs_ok s"
  shows "kept s s'"
  using assms
  by (cases rule: rstep.cases)
     (auto intro: kept_core handleMessage_kept pump_end_kept sweepIdle_kept readOnce_core pump_event_core maintainActive_core
       syncPlugins_core handleIPC_core finishIPC_core connected_core disconnected_core)

lemma runner_reach_ok: "runner_reach o1 s \<Longrightarrow> procs_ok s \<and> rn_opts s = o1
  \<and> (0 < ro_MaxSessions o1 \<longrightarrow> int (residents s) \<le> ro_MaxSessions o1)"
proof (induction rule: runner_reach.induct)
  case (RInit x d)
  show ?case by (auto simp: fresh_runner_def procs_ok_def sess_at_def thread_of_def proc_running_def residents_def)
next
  case (RStep s s')
  then have "kept s s'" using rstep_kept by blast
  with RStep.IH show ?case by (auto simp: kept_def)
qed

end
