(* ===== verification/RunnerSample.thy ===== *)
theory RunnerSample
  imports Daemon
begin

text \<open>
  A sample host, its environment and its messages, on which the runner's properties are tried, and a
  connection that takes every valid frame.
\<close>

subsection \<open>A sample runner\<close>

definition sample_codec :: "Frame \<Rightarrow> JSON" where
  "sample_codec f = \<lparr>marshal_frame = (\<lambda>_. Some ''{}''), unmarshal_fields = (\<lambda>_. Some []), marshal_string = Some,
     marshal_fields = (\<lambda>_. Some ''{}''), unmarshal_probe = (\<lambda>_. Some (Type f)), unmarshal_frame = (\<lambda>_ _. Some f)\<rparr>"

definition sample_renv :: renv where
  "sample_renv = \<lparr>rv_now = 100, rv_nanos = 100 * 10 ^ 9, rv_mat = sample_mat (\<lambda>_ _. None),
     rv_json = sample_codec (FBundlePush sample_push), rv_header = (\<lambda>_. Some ''h''), rv_chunk = (\<lambda>_. None),
     rv_reads = (\<lambda>_. ([], None)), rv_blobwrite = (\<lambda>_ _. True), rv_write = (\<lambda>_. None), rv_sha = (\<lambda>x. x), rv_id = ''1'',
     rv_getenv = (\<lambda>_. None), rv_doc_in = (\<lambda>_. Some []), rv_doc_out = (\<lambda>_. Some ''{}''),
     rv_index = \<lparr>ij_out = (\<lambda>_. ''{}''), ij_in = (\<lambda>_. None)\<rparr>, rv_start = (\<lambda>_. None), rv_input = (\<lambda>_. None),
     rv_locked = (\<lambda>_ _. False), rv_deadline = None\<rparr>"

definition sample_plug :: plug_env where
  "sample_plug = \<lparr>pl_manifest = (\<lambda>_. None), pl_market = (\<lambda>_. None), pl_git = (\<lambda>_ _. io_done),
     pl_credential = (\<lambda>_. Inl ''none''), pl_base64 = (\<lambda>x. x)\<rparr>"

definition sample_msg :: "string \<Rightarrow> string \<Rightarrow> Message" where
  "sample_msg thread turn = \<lparr>m_thread = thread, m_turn = turn, m_channel = ''c'',
     m_user = \<lparr>ur_id = ''u'', ur_display = [], ur_email = []\<rparr>, m_text = ''hi'', m_attachments = [], m_command = [],
     m_channel_name = [], m_context = []\<rparr>"

definition sample_host :: Host where "sample_host = \<lparr>h_id = ''h'', h_os = ''linux'', h_arch = ''amd64''\<rparr>"

lemma sample_decode: "Decode (rv_json sample_renv) ''push'' DirDown = Inr (FBundlePush sample_push)"
proof -
  have "validate_BundlePush sample_push = []" by code_simp
  moreover have "map_of registry ''bundle.push'' \<noteq> None" by (simp add: registry_def)
  ultimately show ?thesis
    by (auto simp: Decode_def sample_renv_def sample_codec_def MaxControlFrame_def permits_def)
qed

text \<open>A connection that takes every valid frame.\<close>

definition good_link :: "renv \<Rightarrow> bool" where
  "good_link E \<longleftrightarrow> (\<forall>f. Validate f = [] \<longrightarrow> \<not> is_err (Encode (rv_json E) (Some f))) \<and> (\<forall>i. rv_write E i = None)"

lemma tell_sends:
  assumes "good_link E" "rn_conn s" "Validate f = []"
  shows "rn_sent (tell E f s) = rn_sent s @ [RFrame f]"
proof -
  obtain x where "Encode (rv_json E) (Some f) = Inr x"
    using assms(1,3) unfolding good_link_def by (cases "Encode (rv_json E) (Some f)") (auto simp: is_err_def)
  then show ?thesis using assms(1,2) by (simp add: tell_def runner_send_def runner_write_def good_link_def)
qed

lemma tell_grows: "prefix (rn_sent s) (rn_sent (tell E f s))"
  by (auto simp: tell_def runner_send_def runner_write_def split: sum.split fmt_err.split option.split)

lemma sample_link: "good_link sample_renv"
proof -
  have "\<not> is_err (Encode (rv_json sample_renv) (Some f))" if "Validate f = []" for f
    using that by (simp add: Encode_def is_err_def sample_renv_def sample_codec_def has_key_def)
  then show ?thesis by (simp add: good_link_def sample_renv_def)
qed

end
