(* ===== verification/Answers.thy ===== *)
theory Answers
  imports RunnerSample
begin

text \<open>
  What a local helper of the runner can be told: a permission is granted only by the gateway, and whatever
  else happens to the request it is refused.
\<close>

subsection \<open>Permissions\<close>

lemma permission_allowed:
  "pres_Behavior (permission_result v) = ''allow'' \<longleftrightarrow>
     (\<exists>p. v = Inr (RReply (FPermissionResponse p)) \<and> pr_decision p \<noteq> DecisionDeny)"
  by (auto simp: permission_result_def deny_with_def split: sum.split reply.split Frame.split)

text \<open>Everything read from the gateway while the helper waits.\<close>

definition read_all :: "renv \<Rightarrow> plug_env \<Rightarrow> (string \<Rightarrow> bool) \<Rightarrow> socket_data list \<Rightarrow> rstate \<Rightarrow> rstate" where
  "read_all E P present xs s = fold (\<lambda>x s. fst (readOnce E P present x s)) xs s"

text \<open>The frames among it that decode.\<close>

fun decoded :: "renv \<Rightarrow> socket_data \<Rightarrow> Frame option" where
  "decoded E (TextData data) = (case Decode (rv_json E) data DirDown of Inl _ \<Rightarrow> None | Inr f \<Rightarrow> Some f)"
| "decoded E (BinaryData data) = None"

lemma on_disk_pending [simp]: "rn_pending (on_disk f s) = rn_pending s"
  by (simp add: on_disk_def)

lemma tell_pending [simp]: "rn_pending (tell E f s) = rn_pending s"
  by (simp add: tell_def runner_send_def runner_write_def split: sum.split fmt_err.split option.split)

lemma handlePush_pending: "rn_pending (fst (handlePush E P present push s)) = rn_pending s"
  by (simp add: handlePush_def Let_def preflightMCP_def plugins_reset_def split: prod.split option.split)

text \<open>The request a reply answers.\<close>

fun reply_id :: "Frame \<Rightarrow> string option" where
  "reply_id (FPermissionResponse p) = Some (pr_request p)"
| "reply_id (FCredentialGrant c) = Some (cg_request c)"
| "reply_id (FMCPResponse r) = Some (mr_call r)"
| "reply_id _ = None"

lemma handleFrame_pending:
  "rn_pending (fst (handleFrame E P present f s)) =
     (case reply_id f of None \<Rightarrow> rn_pending s | Some i \<Rightarrow> rn_pending (resolvePending i (RReply f) s))"
  by (cases f) (simp_all add: handleFrame_def runner_onBlobBegin_def runner_onBlobEnd_def drop_blob_def Let_def
    handlePush_pending case_prod_beta split: prod.split option.split)

lemma readOnce_pending:
  "rn_pending (fst (readOnce E P present x s)) =
     (case decoded E x of None \<Rightarrow> rn_pending s
      | Some f \<Rightarrow> (case reply_id f of None \<Rightarrow> rn_pending s | Some i \<Rightarrow> rn_pending (resolvePending i (RReply f) s)))"
  by (cases x) (auto simp: readOnce_def handleFrame_pending runner_onChunk_def split: sum.split prod.split option.split)

text \<open>What a waiter holds in the end was read from the gateway and names its request.\<close>

lemma read_all_reply:
  assumes "map_of (rn_pending s) i = Some None" "map_of (rn_pending (read_all E P present xs s)) i = Some (Some v)"
  shows "\<exists>f x. v = RReply f \<and> x \<in> set xs \<and> decoded E x = Some f \<and> reply_id f = Some i"
  using assms
proof (induction xs arbitrary: s)
  case (Cons x xs)
  let ?s = "fst (readOnce E P present x s)"
  have r: "read_all E P present (x # xs) s = read_all E P present xs ?s" by (simp add: read_all_def)
  have keep: "map_of (rn_pending (read_all E P present ys u)) i = Some (Some w)" if "map_of (rn_pending u) i = Some (Some w)" for ys u w
    using that
  proof (induction ys arbitrary: u)
    case (Cons y ys)
    have "map_of (rn_pending (fst (readOnce E P present y u))) i = Some (Some w)"
      using Cons.prems by (auto simp: readOnce_pending resolvePending_def split: option.split)
    with Cons.IH show ?case by (simp add: read_all_def)
  qed (simp add: read_all_def)
  show ?case
  proof (cases "map_of (rn_pending ?s) i = Some None")
    case True
    with Cons.IH Cons.prems(2) show ?thesis unfolding r by fastforce
  next
    case False
    then obtain f where f: "decoded E x = Some f" "reply_id f = Some i" "map_of (rn_pending ?s) i = Some (Some (RReply f))"
      using Cons.prems(1) by (auto simp: readOnce_pending resolvePending_def split: option.splits if_splits)
    with keep [OF f(3), of xs] Cons.prems(2) show ?thesis unfolding r by auto
  qed
qed (simp add: read_all_def)

lemma allow_was_read:
  assumes "map_of (rn_pending s) i = Some None"
    and v: "request_end E' i (read_all E P present xs s) = (s', Some v)" "pres_Behavior (permission_result v) = ''allow''"
  shows "\<exists>p data. TextData data \<in> set xs \<and> Decode (rv_json E) data DirDown = Inr (FPermissionResponse p) \<and>
    pr_request p = i \<and> pr_decision p \<in> {DecisionAllow, DecisionAllowSession, DecisionAllowAlways}"
proof -
  from v(2) obtain p where p: "v = Inr (RReply (FPermissionResponse p))" "pr_decision p \<noteq> DecisionDeny"
    unfolding permission_allowed by blast
  from v(1) p(1) have "map_of (rn_pending (read_all E P present xs s)) i = Some (Some (RReply (FPermissionResponse p)))"
    by (auto simp: request_end_def Let_def split: option.splits)
  from read_all_reply [OF assms(1) this] obtain x
    where x: "x \<in> set xs" "decoded E x = Some (FPermissionResponse p)" "pr_request p = i" by auto
  from x(2) obtain data where d: "x = TextData data" "Decode (rv_json E) data DirDown = Inr (FPermissionResponse p)"
    by (cases x) (auto split: sum.splits)
  have "Decision_valid (pr_decision p)"
    using Decode_Inr [OF d(2)] by (auto simp: validate_PermissionResponse_def split: if_splits)
  then have "pr_decision p \<in> {DecisionAllow, DecisionAllowSession, DecisionAllowAlways}"
    using p(2) by (cases "pr_decision p") (simp_all add: Decision_valid_def)
  with x(1,3) d show ?thesis by blast
qed

text \<open>
  C6. Only the gateway can allow a tool call: when the harness is told ''allow'', the runner read from its
  connection a valid permission response for exactly this request that allows it; a refusal, another reply
  under the same id, a lost connection or a deadline all read as ''deny''.
\<close>

theorem only_the_gateway_allows:
  assumes "map_of (rn_pending s) i = Some None"
    and "requestPermission_end E' i (read_all E P present xs s) = (s', Some r)" "pres_Behavior r = ''allow''"
  shows "\<exists>p data. TextData data \<in> set xs \<and> Decode (rv_json E) data DirDown = Inr (FPermissionResponse p) \<and>
    pr_request p = i \<and> pr_decision p \<in> {DecisionAllow, DecisionAllowSession, DecisionAllowAlways}"
proof -
  from assms(2) obtain v where v: "request_end E' i (read_all E P present xs s) = (s', Some v)" "r = permission_result v"
    by (auto simp: requestPermission_end_def split: prod.splits)
  from allow_was_read [OF assms(1) v(1)] assms(3) v(2) show ?thesis by blast
qed

definition sample_answer :: PermissionResponse where
  "sample_answer = \<lparr>pr_request = ''perm_1'', pr_decision = DecisionAllow, pr_decided_by = None, pr_reason = [],
     pr_policy_denied = False, pr_auto_approved = True\<rparr>"

definition answer_renv :: renv where
  "answer_renv = sample_renv\<lparr>rv_json := sample_codec (FPermissionResponse sample_answer)\<rparr>"

definition asked :: rstate where
  "asked = (fresh_runner sample_ropts \<lparr>si_path = [], si_ids = Some []\<rparr> [])\<lparr>rn_conn := True, rn_pending := [(''perm_1'', None)]\<rparr>"

lemma answer_decodes: "Decode (rv_json answer_renv) ''yes'' DirDown = Inr (FPermissionResponse sample_answer)"
proof -
  have "validate_PermissionResponse sample_answer = []" by code_simp
  moreover have "map_of registry ''permission.response'' \<noteq> None" by (simp add: registry_def)
  ultimately show ?thesis
    by (auto simp: Decode_def answer_renv_def sample_codec_def MaxControlFrame_def permits_def)
qed

theorem only_the_gateway_allows_witness:
  "\<exists>p data. TextData data \<in> set [TextData ''yes''] \<and> Decode (rv_json answer_renv) data DirDown = Inr (FPermissionResponse p) \<and>
     pr_request p = ''perm_1'' \<and> pr_decision p \<in> {DecisionAllow, DecisionAllowSession, DecisionAllowAlways}"
proof (rule only_the_gateway_allows)
  let ?s = "read_all answer_renv sample_plug (\<lambda>_. True) [TextData ''yes''] asked"
  show "map_of (rn_pending asked) ''perm_1'' = Some None" by (simp add: asked_def)
  have "map_of (rn_pending ?s) ''perm_1'' = Some (Some (RReply (FPermissionResponse sample_answer)))"
    by (simp add: read_all_def readOnce_pending answer_decodes resolvePending_def asked_def sample_answer_def)
  then show "requestPermission_end answer_renv ''perm_1'' ?s =
      (?s\<lparr>rn_pending := del ''perm_1'' (rn_pending ?s)\<rparr>, Some \<lparr>pres_Behavior = ''allow'', pres_Message = []\<rparr>)"
    by (simp add: requestPermission_end_def request_end_def Let_def answer_renv_def sample_renv_def permission_result_def sample_answer_def)
qed simp

end
