(* ===== verification/SessionIds.thy ===== *)
theory SessionIds
  imports RunnerSample
begin

text \<open>
  The persisted session ids: what a restarted runner reads back, and where the file disagrees with what the
  runner would resume.
\<close>

subsection \<open>A restart\<close>

text \<open>The text of the index reads back as the same finite map.\<close>

definition index_text :: "index_json \<Rightarrow> bool" where
  "index_text J \<longleftrightarrow> (\<forall>m. \<exists>m'. ij_in J (ij_out J m) = Some (Some m') \<and> map_of m' = map_of m)"

text \<open>The file holds what memory holds; there may be no file while nothing was recorded.\<close>

definition index_stored :: "index_json \<Rightarrow> sessionIndex \<Rightarrow> disk \<Rightarrow> bool" where
  "index_stored J x d \<longleftrightarrow> si_path x \<noteq> [] \<and>
     (\<exists>m. si_ids x = Some m \<and>
       (map_of d (si_path x) = None \<and> m = [] \<or> (\<exists>mode. map_of d (si_path x) = Some (NFile (ij_out J m) mode))))"

lemma index_set_stored:
  assumes "index_stored J x d" "index_set flt J k i (d, x) = ((d', x'), SetDone None)"
  shows "index_stored J x' d'" "si_path x' = si_path x" "index_get x' k' = (if k' = k then i else index_get x k')"
proof -
  from assms(1) obtain m where m: "si_ids x = Some m" "si_path x \<noteq> []" by (auto simp: index_stored_def)
  have "index_stored J x' d' \<and> si_path x' = si_path x \<and> index_get x' k' = (if k' = k then i else index_get x k')"
  proof (cases "index_get x k = i")
    case True
    then show ?thesis using assms m by (auto simp: index_set_def)
  next
    case False
    let ?ids = "if i = [] then del k m else put k i m"
    have "d' = put (si_path x) (NFile (ij_out J ?ids) 384) d" "x' = x\<lparr>si_ids := Some ?ids\<rparr>"
      using assms(2) m False
      by (auto simp: index_set_def index_ids_def writeFileAtomic_def guarded_def Let_def split: option.splits)
    then show ?thesis using m(2) by (auto simp: index_stored_def index_get_def index_ids_def m(1))
  qed
  then show "index_stored J x' d'" "si_path x' = si_path x" "index_get x' k' = (if k' = k then i else index_get x k')"
    by blast+
qed

lemma load_stored:
  assumes "index_text J" "index_stored J x d" "si_path x = path_join [stateDir, ''sessions.json'']" "stateDir \<noteq> []"
    and "\<And>q. flt ''ReadFile'' q = None"
    and "MkdirAll flt stateDir d = (d1, None)" "map_of d1 (si_path x) = map_of d (si_path x)"
  shows "\<exists>y. loadSessionIndex flt J stateDir d = (d1, Inr y) \<and> index_get y k = index_get x k"
proof -
  from assms(2) obtain m where m: "si_ids x = Some m"
    "map_of d (si_path x) = None \<and> m = [] \<or> (\<exists>mode. map_of d (si_path x) = Some (NFile (ij_out J m) mode))"
    by (auto simp: index_stored_def)
  let ?p = "path_join [stateDir, ''sessions.json'']"
  show ?thesis
  proof (cases "map_of d (si_path x)")
    case None
    then have "loadSessionIndex flt J stateDir d = (d1, Inr \<lparr>si_path = ?p, si_ids = Some []\<rparr>)"
      using assms(3-7) by (simp add: loadSessionIndex_def Let_def ReadFile_def)
    then show ?thesis using m None by (auto simp: index_get_def index_ids_def)
  next
    case (Some n)
    then obtain mode where n: "n = NFile (ij_out J m) mode" using m(2) by auto
    from assms(1) obtain m' where m': "ij_in J (ij_out J m) = Some (Some m')" "map_of m' = map_of m"
      unfolding index_text_def by blast
    have "loadSessionIndex flt J stateDir d = (d1, Inr \<lparr>si_path = ?p, si_ids = Some m'\<rparr>)"
      using assms(3-7) Some n m'(1) by (simp add: loadSessionIndex_def Let_def ReadFile_def)
    then show ?thesis using m(1) m'(2) by (auto simp: index_get_def index_ids_def get_or_def)
  qed
qed

text \<open>
  C33. A recorded session id survives a restart: after a session id is recorded without an error, a runner
  that starts from the same state directory resumes that thread with the new id and every other thread with
  the id it had.
\<close>

theorem session_ids_survive_restart:
  assumes "index_text J" "index_stored J x d" "si_path x = path_join [stateDir, ''sessions.json'']" "stateDir \<noteq> []"
    and "index_set flt J k i (d, x) = ((d', x'), SetDone None)"
    and "\<And>q. flt ''ReadFile'' q = None"
    and "MkdirAll flt stateDir d' = (d1, None)" "map_of d1 (si_path x) = map_of d' (si_path x)"
  shows "\<exists>y. loadSessionIndex flt J stateDir d' = (d1, Inr y) \<and>
    index_get y k' = (if k' = k then i else index_get x k')"
proof -
  note st = index_set_stored [OF assms(2,5)]
  have "\<exists>y. loadSessionIndex flt J stateDir d' = (d1, Inr y) \<and> index_get y k' = index_get x' k'"
    by (rule load_stored [OF assms(1) st(1) _ assms(4,6,7)]) (simp_all add: st(2) assms(3,8) flip: assms(3))
  then show ?thesis by (simp add: st(3))
qed

text \<open>A text for the witness: each entry is a line of its key and its value, with their lengths before them.\<close>

fun plain_out :: "string gomap \<Rightarrow> string" where
  "plain_out [] = []"
| "plain_out ((k, v) # m) = replicate (length k) CHR ''a'' @ CHR '':'' # replicate (length v) CHR ''a'' @ CHR '':'' # k @ v @ plain_out m"

fun plain_in :: "nat \<Rightarrow> string \<Rightarrow> string gomap" where
  "plain_in 0 s = []"
| "plain_in (Suc n) s =
     (if s = [] then []
      else let a = length (takeWhile (\<lambda>c. c \<noteq> CHR '':'') s); s1 = drop (Suc a) s;
               b = length (takeWhile (\<lambda>c. c \<noteq> CHR '':'') s1); s2 = drop (Suc b) s1
           in (take a s2, take b (drop a s2)) # plain_in n (drop (a + b) s2))"

lemma plain_roundtrip: "length m \<le> n \<Longrightarrow> plain_in n (plain_out m) = m"
proof (induction m arbitrary: n)
  case Nil
  then show ?case by (cases n) simp_all
next
  case (Cons p m)
  obtain k v where p: "p = (k, v)" by fastforce
  from Cons.prems obtain n' where n: "n = Suc n'" "length m \<le> n'" by (cases n) auto
  have tw: "takeWhile (\<lambda>c. c \<noteq> CHR '':'') (replicate a CHR ''a'' @ CHR '':'' # r) = replicate a CHR ''a''" for a r
    by (induction a) auto
  show ?case using Cons.IH [OF n(2)] by (simp add: p n(1) tw Let_def)
qed

lemma plain_out_length: "length m \<le> length (plain_out m)"
  by (induction m rule: plain_out.induct) auto

definition plain_index :: index_json where
  "plain_index = \<lparr>ij_out = plain_out, ij_in = (\<lambda>s. Some (Some (plain_in (length s) s)))\<rparr>"

lemma plain_index_text: "index_text plain_index"
  by (auto simp: index_text_def plain_index_def plain_roundtrip plain_out_length)

definition state_index :: sessionIndex where "state_index = \<lparr>si_path = ''/s/sessions.json'', si_ids = Some []\<rparr>"

definition index_after :: "disk \<times> sessionIndex" where
  "index_after = fst (index_set (\<lambda>_ _. None) plain_index ''t'' ''sid'' ([], state_index))"

theorem session_ids_survive_restart_witness:
  "\<exists>y. loadSessionIndex (\<lambda>_ _. None) plain_index ''/s'' (fst index_after)
      = (fst (MkdirAll (\<lambda>_ _. None) ''/s'' (fst index_after)), Inr y) \<and> index_get y ''t'' = ''sid''"
proof -
  have p: "path_join [''/s'', ''sessions.json''] = ''/s/sessions.json''" by code_simp
  have set: "index_set (\<lambda>_ _. None) plain_index ''t'' ''sid'' ([], state_index)
      = ((fst index_after, snd index_after), SetDone None)"
    by code_simp
  have mk: "snd (MkdirAll (\<lambda>_ _. None) ''/s'' (fst index_after)) = None"
    "map_of (fst (MkdirAll (\<lambda>_ _. None) ''/s'' (fst index_after))) ''/s/sessions.json'' = map_of (fst index_after) ''/s/sessions.json''"
    by code_simp+
  have st: "index_stored plain_index state_index []" by (simp add: index_stored_def state_index_def)
  from session_ids_survive_restart [OF plain_index_text st _ _ set refl, of "''/s''" _ "''t''"] p mk show ?thesis
    by (simp add: state_index_def prod_eq_iff)
qed

subsection \<open>Ids the runner does not mean to resume\<close>

text \<open>An index file that holds JSON \<open>null\<close> loads as the nil map; recording the first id then panics.\<close>

lemma null_index_panics:
  assumes "ij_in (rv_index E) raw = Some None" "si_path x \<noteq> []" "si_ids x = None" "i \<noteq> []" "rn_index s = x"
  shows "rn_panicked (rememberSession E k i s)"
  using assms by (simp add: rememberSession_def index_set_def index_get_def index_ids_def)

text \<open>Starting over before the thread has a session record keeps the persisted id, which the new session resumes.\<close>

lemma end_without_record_keeps_id: "\<not> has_key (rn_sessions s) k \<Longrightarrow> endSession E k s = s"
  by (simp add: endSession_def)

lemma new_after_restart_resumes:
  assumes "\<not> has_key (rn_sessions s) k" "index_get (rn_index s) k = sid"
  shows "tn_sessionID (snd (load_or_store E k (endSession E k s))) = sid"
  using assms by (simp add: end_without_record_keeps_id load_or_store_def has_key_def new_thread_def Let_def)

end
