(* ===== verification/Artifacts.thy ===== *)
theory Artifacts
  imports RunnerSample Blobs Handlers
begin

text \<open>
  Files between the two programs: what the runner writes for a file it sends, taken by the gateway's
  handlers, and what becomes of the attachments a runner receives.
\<close>

subsection \<open>From the runner to the surface\<close>

text \<open>What the gateway does with an item the runner wrote: a frame is dispatched, a chunk decoded and stored.\<close>

definition receive :: "env \<Rightarrow> (string \<Rightarrow> ChunkHeader option) \<Rightarrow> nat \<Rightarrow> rout \<Rightarrow> gw \<Rightarrow> gw" where
  "receive e unmarshal c x g =
     (case x of
        RFrame f \<Rightarrow> dispatch e c f g
      | RBinary data \<Rightarrow> (case DecodeChunk unmarshal data of Inl _ \<Rightarrow> g | Inr (h, payload) \<Rightarrow> onChunk e c h payload g))"

lemma runner_send_done:
  assumes "runner_send E f s = (s', None)"
  shows "s' = s\<lparr>rn_sent := rn_sent s @ [RFrame f]\<rparr>"
  using assms by (auto simp: runner_send_def runner_write_def split: sum.splits fmt_err.splits if_splits option.splits)

lemma runner_write_done:
  assumes "runner_write E x s = (s', None)"
  shows "s' = s\<lparr>rn_sent := rn_sent s @ [x]\<rparr>"
  using assms by (auto simp: runner_write_def split: if_splits option.splits)

text \<open>A chunk that carries the bytes \<open>b\<close> of the blob.\<close>

definition carries :: "(string \<Rightarrow> ChunkHeader option) \<Rightarrow> string \<Rightarrow> rout \<Rightarrow> string \<Rightarrow> bool" where
  "carries unmarshal blob x b \<longleftrightarrow> (\<exists>data sq. x = RBinary data \<and> DecodeChunk unmarshal data = Inr (\<lparr>ch_blob = blob, ch_seq = sq\<rparr>, b))"

lemma send_reads_writes:
  assumes "send_reads E blob bs None data sq s = (s', None)"
    and "\<And>h hdr. rv_header E h = Some hdr \<Longrightarrow> hdr \<noteq> [] \<and> unmarshal hdr = Some h"
  shows "\<exists>xs. rn_sent s' = rn_sent s @ xs @ [RFrame (FBlobEnd \<lparr>be_blob = blob, be_sha256 = rv_sha E (data @ concat bs),
      be_ok = True, be_error = []\<rparr>)] \<and> list_all2 (carries unmarshal blob) xs (filter (\<lambda>b. b \<noteq> []) bs)"
  using assms(1)
proof (induction bs arbitrary: data sq s)
  case Nil
  then show ?case using runner_send_done by fastforce
next
  case (Cons b bs)
  show ?case
  proof (cases "b = []")
    case True
    with Cons show ?thesis by simp
  next
    case False
    with Cons.prems obtain chunk s1 where c: "EncodeChunk (rv_header E) \<lparr>ch_blob = blob, ch_seq = sq\<rparr> b = Inr chunk"
      and w: "runner_write E (RBinary chunk) s = (s1, None)" and r: "send_reads E blob bs None (data @ b) (sq + 1) s1 = (s', None)"
      by (auto split: sum.splits fmt_err.splits prod.splits option.splits)
    from chunk_reads [OF c, of unmarshal] assms(2) have "DecodeChunk unmarshal chunk = Inr (\<lparr>ch_blob = blob, ch_seq = sq\<rparr>, b)" by blast
    then have "carries unmarshal blob (RBinary chunk) b" by (auto simp: carries_def)
    moreover from Cons.IH [OF r] obtain xs where "rn_sent s' = rn_sent s1 @ xs @ [RFrame (FBlobEnd \<lparr>be_blob = blob,
        be_sha256 = rv_sha E ((data @ b) @ concat bs), be_ok = True, be_error = []\<rparr>)]"
      "list_all2 (carries unmarshal blob) xs (filter (\<lambda>b. b \<noteq> []) bs)" by blast
    ultimately show ?thesis using runner_write_done [OF w] False by (intro exI [of _ "RBinary chunk # xs"]) simp
  qed
qed

lemma receive_chunks:
  assumes "list_all2 (carries unmarshal blob) xs bs" "\<forall>n. en_spool e n"
    and "map_of (gw_blobs g) (c, blob) = Some b" "\<not> ib_closed b"
  shows "map_of (gw_blobs (fold (receive e unmarshal c) xs g)) (c, blob) = Some (b\<lparr>ib_data := ib_data b @ concat bs\<rparr>)"
  using assms(1,3,4)
proof (induction xs bs arbitrary: g b rule: list_all2_induct)
  case (Cons x xs y bs)
  from Cons.hyps(1) obtain data sq where x: "x = RBinary data" "DecodeChunk unmarshal data = Inr (\<lparr>ch_blob = blob, ch_seq = sq\<rparr>, y)"
    by (auto simp: carries_def)
  let ?h = "\<lparr>ch_blob = blob, ch_seq = sq\<rparr>"
  have "map_of (gw_blobs (onChunk e c ?h y g)) (c, blob) = Some (b\<lparr>ib_data := ib_data b @ y\<rparr>)"
    using onChunk_appends [of g c ?h b e y] Cons.prems assms(2) by simp
  from Cons.IH [OF this] Cons.prems(2) show ?case by (simp add: x receive_def)
qed simp

lemma concat_nonempty: "concat (filter (\<lambda>b. b \<noteq> []) bs) = concat bs"
  by (induction bs) auto

text \<open>
  C20. A file an agent sends reaches its conversation whole: when the runner's send succeeded, the frames and
  chunks it wrote, taken in order by the gateway's handlers, end in an upload to the thread of the turn they
  name, of exactly the bytes that were read, under the file's own name.
\<close>

theorem artifact_reaches_surface:
  assumes "sendFile E thread p s = (s', None)" "rv_reads E p = (bs, None)"
    and "\<And>h hdr. rv_header E h = Some hdr \<Longrightarrow> hdr \<noteq> [] \<and> unmarshal hdr = Some h"
    and "rv_sha E (concat bs) = en_sha256 e (concat bs)"
    and "en_tempfile e (''blob_'' @ rv_id E) = None" "\<forall>n. en_spool e n" "\<forall>n. en_upload e n = None"
    and "map_of (gw_turns g) (turnForThread thread s) = Some t" "en_surface e (tc_Surface t)"
  shows "\<exists>xs. rn_sent s' = rn_sent s @ xs \<and>
    EUpload (tc_Surface t) (tc_Channel t) (tc_Thread t) (sanitizeName (path_base p)) (guessMime p) (concat bs)
      \<in> set (gw_out (fold (receive e unmarshal c) xs g))"
proof -
  let ?blob = "''blob_'' @ rv_id E"
  from assms(1,2) obtain sz s1 where b: "runner_send E (FBlobBegin (file_begin E thread p sz s)) s = (s1, None)"
    and r: "send_reads E ?blob bs None [] 0 s1 = (s', None)"
    by (auto simp: sendFile_def Let_def split: if_splits option.splits sum.splits prod.splits)
  let ?fb = "file_begin E thread p sz s"
  let ?fin = "\<lparr>be_blob = ?blob, be_sha256 = rv_sha E (concat bs), be_ok = True, be_error = []\<rparr>"
  from send_reads_writes [OF r assms(3)] obtain xs where xs: "rn_sent s' = rn_sent s1 @ xs @ [RFrame (FBlobEnd ?fin)]"
    "list_all2 (carries unmarshal ?blob) xs (filter (\<lambda>b. b \<noteq> []) bs)" by auto
  have sent: "rn_sent s' = rn_sent s @ RFrame (FBlobBegin ?fb) # xs @ [RFrame (FBlobEnd ?fin)]"
    using xs(1) runner_send_done [OF b] by simp
  let ?g1 = "onBlobBegin e c ?fb g" and ?t = "t\<lparr>tc_lastActivity := en_now e\<rparr>"
  have g1: "map_of (gw_blobs ?g1) (c, ?blob) = Some \<lparr>ib_meta = ?fb, ib_data = [], ib_closed = False, ib_turn = Some ?t\<rparr>"
    using assms(5,8) by (simp add: onBlobBegin_def turnFor_def file_begin_def Let_def)
  let ?g2 = "fold (receive e unmarshal c) xs ?g1"
  have g2: "map_of (gw_blobs ?g2) (c, ?blob) = Some \<lparr>ib_meta = ?fb, ib_data = concat bs, ib_closed = False, ib_turn = Some ?t\<rparr>"
    using receive_chunks [OF xs(2) assms(6) g1] by (simp add: concat_nonempty)
  have "EUpload (tc_Surface t) (tc_Channel t) (tc_Thread t) (sanitizeName (path_base p)) (guessMime p) (concat bs)
      \<in> set (gw_out (onBlobEnd e c ?fin ?g2))"
    using g2 assms(4,7,9)
    by (simp add: onBlobEnd_def Let_def outbound_record_def emit_def upd_store_def file_begin_def)
  then have "EUpload (tc_Surface t) (tc_Channel t) (tc_Thread t) (sanitizeName (path_base p)) (guessMime p) (concat bs)
      \<in> set (gw_out (fold (receive e unmarshal c) (RFrame (FBlobBegin ?fb) # xs @ [RFrame (FBlobEnd ?fin)]) g))"
    by (simp add: receive_def)
  with sent show ?thesis by blast
qed

definition artifact_runner :: rstate where
  "artifact_runner = (fresh_runner sample_ropts \<lparr>si_path = [], si_ids = Some []\<rparr> [(''/w/a.csv'', NFile ''1,2'' 420)])
     \<lparr>rn_conn := True, rn_sessions := [(''slack:C1:1.2'', \<lparr>tn_sessionID = [], tn_sess = None, tn_dir = [], tn_mcpPath = [],
        tn_lastActivity = 0, tn_currentTurn = ''turn_1'', tn_busy = True\<rparr>)]\<rparr>"

definition artifact_env :: renv where
  "artifact_env = sample_renv\<lparr>rv_header := (\<lambda>h. if ch_seq h = 0 then Some (ch_blob h @ ''.'') else None),
     rv_reads := (\<lambda>_. ([''1,2''], None)), rv_sha := (\<lambda>_. ''SUM'')\<rparr>"

definition artifact_gw :: gw where "artifact_gw = sample_gw\<lparr>gw_turns := [(''turn_1'', sample_turn)]\<rparr>"

lemma artifact_sent: "snd (sendFile artifact_env ''slack:C1:1.2'' ''/w/a.csv'' artifact_runner) = None"
proof -
  have f: "ReadFile (rv_fault artifact_env) ''/w/a.csv'' (rn_disk artifact_runner) = Some (Inr ''1,2'')" by code_simp
  have v: "validate_BlobBegin (file_begin artifact_env ''slack:C1:1.2'' ''/w/a.csv'' 3 artifact_runner) = []"
    by code_simp
  have c: "\<exists>x. EncodeChunk (rv_header artifact_env) \<lparr>ch_blob = ''blob_1'', ch_seq = 0\<rparr> ''1,2'' = Inr x"
    by (simp add: EncodeChunk_def artifact_env_def MaxChunk_def maxChunkHeader_def)
  have link: "good_link artifact_env" using sample_link by (simp add: good_link_def artifact_env_def)
  have conn: "rn_conn artifact_runner" by (simp add: artifact_runner_def)
  have send: "\<exists>s2. runner_send artifact_env f s1 = (s2, None) \<and> rn_conn s2" if "rn_conn s1" "Validate f = []" for f s1
  proof -
    have "\<not> is_err (Encode (rv_json artifact_env) (Some f))" "rv_write artifact_env i = None" for i
      using link that(2) unfolding good_link_def by blast+
    then show ?thesis using that(1)
      by (auto simp: runner_send_def runner_write_def is_err_def split: sum.splits fmt_err.split)
  qed
  have sha: "rv_sha artifact_env y = ''SUM''" "rv_reads artifact_env y = ([''1,2''], None)" "rv_id artifact_env = ''1''" for y
    by (simp_all add: artifact_env_def sample_renv_def)
  from c obtain x where x: "EncodeChunk (rv_header artifact_env) \<lparr>ch_blob = ''blob_1'', ch_seq = 0\<rparr> ''1,2'' = Inr x" by blast
  have v': "Validate (FBlobBegin (file_begin artifact_env ''slack:C1:1.2'' ''/w/a.csv'' 3 artifact_runner)) = []" using v by simp
  from send [OF conn v'] obtain s1 where s1: "runner_send artifact_env (FBlobBegin (file_begin artifact_env
      ''slack:C1:1.2'' ''/w/a.csv'' 3 artifact_runner)) artifact_runner = (s1, None)" "rn_conn s1" by blast
  have w: "runner_write artifact_env (RBinary x) s1 = (s1\<lparr>rn_sent := rn_sent s1 @ [RBinary x]\<rparr>, None)"
    using s1(2) link by (simp add: runner_write_def good_link_def)
  have "snd (send_reads artifact_env ''blob_1'' [''1,2''] None [] 0 s1) = None"
    using send [of "s1\<lparr>rn_sent := rn_sent s1 @ [RBinary x]\<rparr>" "FBlobEnd \<lparr>be_blob = ''blob_1'', be_sha256 = ''SUM'', be_ok = True, be_error = []\<rparr>"]
      s1(2) sha by (auto simp: x w validate_BlobEnd_def)
  then show ?thesis using f s1(1)
    by (simp add: sendFile_def MaxBlobSize_def sha)
qed

theorem artifact_reaches_surface_witness:
  "\<exists>xs. EUpload ''slack'' ''C1'' ''1.2'' (sanitizeName (path_base ''/w/a.csv'')) (guessMime ''/w/a.csv'') ''1,2''
     \<in> set (gw_out (fold (receive sample_env (\<lambda>x. Some \<lparr>ch_blob = butlast x, ch_seq = 0\<rparr>) 0) xs artifact_gw))"
proof -
  obtain s' where s: "sendFile artifact_env ''slack:C1:1.2'' ''/w/a.csv'' artifact_runner = (s', None)"
    using artifact_sent by (metis prod.collapse)
  have "\<exists>xs. rn_sent s' = rn_sent artifact_runner @ xs \<and>
    EUpload (tc_Surface sample_turn) (tc_Channel sample_turn) (tc_Thread sample_turn) (sanitizeName (path_base ''/w/a.csv''))
      (guessMime ''/w/a.csv'') (concat [''1,2''])
      \<in> set (gw_out (fold (receive sample_env (\<lambda>x. Some \<lparr>ch_blob = butlast x, ch_seq = 0\<rparr>) 0) xs artifact_gw))"
    by (rule artifact_reaches_surface [OF s])
       (auto simp: artifact_env_def sample_env_def artifact_gw_def artifact_runner_def turnForThread_def sample_turn_def
         split: if_splits)
  then show ?thesis by (auto simp: sample_turn_def)
qed

subsection \<open>Two attachments of one name\<close>

text \<open>
  Attachments of one name overwrite each other: when a second file with the same name begins in a thread
  while the first, complete and small enough to be inlined, is not yet claimed, claiming the first gives no
  bytes at all.
\<close>

theorem second_attachment_truncates_first:
  assumes "map_of (rn_blobs s) i = Some b" "nb_complete b" "\<not> nb_failed b" "nb_path b = upload_path E fr s"
    and "bb_blob fr \<noteq> i" "has_key (rn_blobs (runner_onBlobBegin E fr s)) (bb_blob fr)" "\<not> has_key (rn_blobs s) (bb_blob fr)"
    and "rv_fault E ''ReadFile'' (nb_path b) = None"
  shows "snd (takeBlob E i (runner_onBlobBegin E fr s)) = Some ([], nb_path b)"
proof -
  let ?dir = "path_join [threadDir E s (bb_thread fr), ''uploads'']"
  obtain d where ops: "run_all [MkdirAll (rv_fault E) ?dir, WriteFile (rv_fault E) (upload_path E fr s) [] 384] (rn_disk s) = (d, None)"
    using assms(6,7) by (auto simp: runner_onBlobBegin_def Let_def split: prod.splits option.splits)
  then have d: "map_of d (upload_path E fr s) = Some (NFile [] 384)"
    by (auto simp: run_all_def andThen_def io_done_def WriteFile_def guarded_def split: prod.splits option.splits if_splits)
  have "runner_onBlobBegin E fr s = s\<lparr>rn_disk := d, rn_blobs := put (bb_blob fr)
      \<lparr>nb_meta = fr, nb_path = upload_path E fr s, nb_hashed = [], nb_closed = False, nb_failed = False, nb_complete = False\<rparr> (rn_blobs s)\<rparr>"
    using ops by (simp add: runner_onBlobBegin_def Let_def)
  then show ?thesis using assms(1-5,8) d by (simp add: takeBlob_def ReadFile_def)
qed

definition shot :: "string \<Rightarrow> BlobBegin" where
  "shot blob = \<lparr>bb_blob = blob, bb_thread = ''t'', bb_turn = ''turn1'', bb_name = ''image.png'', bb_mime = ''image/png'',
     bb_size = 3, bb_sha256 = []\<rparr>"

definition shot_runner :: rstate where
  "shot_runner = fresh_runner sample_ropts \<lparr>si_path = [], si_ids = Some []\<rparr> []"

definition first_shot :: rstate where
  "first_shot = shot_runner\<lparr>
     rn_disk := [(''/run/box/threads/t/uploads/image.png'', NFile ''abc'' 384)],
     rn_blobs := [(''b1'', \<lparr>nb_meta = shot ''b1'', nb_path = ''/run/box/threads/t/uploads/image.png'', nb_hashed = ''abc'',
        nb_closed = True, nb_failed = False, nb_complete = True\<rparr>)]\<rparr>"

lemma shot_dir: "path_join [threadDir sample_renv shot_runner ''t'', ''uploads''] = ''/run/box/threads/t/uploads''"
  by code_simp

lemma shot_name: "runner_sanitizeName ''image.png'' = ''image.png''"
proof -
  have "TrimSpace ''image.png'' = ''image.png''" by (simp add: TrimSpace_graphic graphic_def)
  then show ?thesis
    by (simp add: runner_sanitizeName_def AfterLast_def separator_def slash_def backslash_def nul_def)
qed

lemma shot_path: "upload_path sample_renv (shot b) first_shot = ''/run/box/threads/t/uploads/image.png''"
proof -
  have "path_join [''/run/box/threads/t/uploads'', ''image.png''] = ''/run/box/threads/t/uploads/image.png''" by code_simp
  moreover have "threadDir sample_renv first_shot = threadDir sample_renv shot_runner"
    by (simp add: threadDir_def first_shot_def fun_eq_iff)
  ultimately show ?thesis by (simp add: upload_path_def shot_def shot_dir shot_name)
qed

theorem second_attachment_truncates_first_witness:
  "snd (takeBlob sample_renv ''b1'' (runner_onBlobBegin sample_renv (shot ''b2'') first_shot))
     = Some ([], ''/run/box/threads/t/uploads/image.png'')"
proof -
  let ?p = "''/run/box/threads/t/uploads/image.png''"
  let ?b = "\<lparr>nb_meta = shot ''b1'', nb_path = ?p, nb_hashed = ''abc'', nb_closed = True, nb_failed = False, nb_complete = True\<rparr>"
  have b: "map_of (rn_blobs first_shot) ''b1'' = Some ?b" by (simp add: first_shot_def)
  have dir: "path_join [threadDir sample_renv first_shot ''t'', ''uploads''] = ''/run/box/threads/t/uploads''"
    using shot_dir by (simp add: threadDir_def first_shot_def)
  have ops: "snd (run_all [MkdirAll (rv_fault sample_renv) ''/run/box/threads/t/uploads'', WriteFile (rv_fault sample_renv) ?p [] 384]
      (rn_disk first_shot)) = None"
    by code_simp
  have k: "has_key (rn_blobs (runner_onBlobBegin sample_renv (shot ''b2'') first_shot)) (bb_blob (shot ''b2''))"
    using ops dir shot_path [of "''b2''"]
    by (auto simp: runner_onBlobBegin_def Let_def shot_def split: prod.splits option.splits)
  show ?thesis
    using second_attachment_truncates_first [OF b _ _ _ _ k] shot_path [of "''b2''"]
    by (simp add: shot_def sample_renv_def sample_mat_def first_shot_def has_key_def)
qed

end
