(* ===== verification/FrameTypes.thy ===== *)
theory FrameTypes
  imports RunnerSample
begin

text \<open>
  The typing of the runner's half of the protocol: whatever steps the runner takes, every control frame it
  writes is valid and of a type a runner may originate, which is what the gateway's decoder asks of it.
\<close>

subsection \<open>What is written\<close>

fun well_typed :: "rout \<Rightarrow> bool" where
  "well_typed (RFrame f) = (Validate f = [] \<and> permits (Dir f) DirUp)"
| "well_typed (RBinary b) = True"

definition writes_typed :: "rstate \<Rightarrow> rstate \<Rightarrow> bool" where
  "writes_typed s s' \<longleftrightarrow> (\<exists>xs. rn_sent s' = rn_sent s @ xs \<and> list_all well_typed xs)"

lemma writes_same: "rn_sent s' = rn_sent s \<Longrightarrow> writes_typed s s'"
  by (simp add: writes_typed_def)

lemma writes_refl: "writes_typed s s"
  by (simp add: writes_same)

lemma writes_trans: "writes_typed s s' \<Longrightarrow> writes_typed s' s'' \<Longrightarrow> writes_typed s s''"
  by (auto simp: writes_typed_def)

lemma writes_then: "writes_typed s x \<Longrightarrow> rn_sent y = rn_sent x \<Longrightarrow> writes_typed s y"
  by (simp add: writes_typed_def)

lemma Encode_valid: "Encode J (Some f) = Inr x \<Longrightarrow> Validate f = []"
  by (auto simp: Encode_def split: if_splits)

lemma writes_send:
  assumes "permits (Dir f) DirUp"
  shows "writes_typed s (fst (runner_send E f s))"
proof (cases "Encode (rv_json E) (Some f)")
  case (Inl e)
  then show ?thesis by (cases e) (simp add: runner_send_def writes_refl)
next
  case (Inr x)
  then show ?thesis using Encode_valid [OF Inr] assms
    by (auto simp: runner_send_def runner_write_def writes_typed_def split: option.split)
qed

lemma writes_tell: "permits (Dir f) DirUp \<Longrightarrow> writes_typed s x \<Longrightarrow> writes_typed s (tell E f x)"
  unfolding tell_def by (erule writes_trans) (rule writes_send)

lemma writes_tell_same: "permits (Dir f) DirUp \<Longrightarrow> rn_sent x = rn_sent s \<Longrightarrow> writes_typed s (tell E f x)"
  by (simp add: writes_tell writes_same)

lemma writes_binary: "writes_typed s (fst (runner_write E (RBinary b) s))"
  by (auto simp: runner_write_def writes_typed_def split: option.split)

named_theorems quiet_ops \<open>operations that write nothing\<close>

lemma upd_thread_quiet [quiet_ops]: "rn_sent (upd_thread k f s) = rn_sent s"
  by (simp add: upd_thread_def split: option.split)

lemma close_session_sent [quiet_ops]: "rn_sent (close_session k s) = rn_sent s"
  by (simp add: close_session_def close_proc_def upd_thread_def split: option.split)

lemma evict_sent [quiet_ops]: "rn_sent (fst (evict E ks need s)) = rn_sent s"
  by (induction E ks need s rule: evict.induct) (simp_all add: close_session_sent)

lemma makeRoom_sent [quiet_ops]: "rn_sent (fst (makeRoom E k seen s)) = rn_sent s"
  using evict_sent by (auto simp: makeRoom_def Let_def split: prod.split) (metis fst_conv)

lemma start_session_sent [quiet_ops]: "rn_sent (fst (start_session E k resume s)) = rn_sent s"
  by (simp add: start_session_def Let_def started_def upd_thread_quiet split: prod.split option.split)

lemma sessionFor_sent [quiet_ops]: "rn_sent (fst (sessionFor E k s)) = rn_sent s"
proof -
  obtain s1 t where l: "load_or_store E k s = (s1, t)" by fastforce
  then have "rn_sent s1 = rn_sent s" by (auto simp: load_or_store_def Let_def split: option.splits)
  moreover obtain s2 r where "makeRoom E k s1 s1 = (s2, r)" by fastforce
  ultimately show ?thesis using makeRoom_sent [of E k s1 s1] by (auto simp: sessionFor_def l start_session_sent split: option.split)
qed

lemma attach_sent [quiet_ops]: "rn_sent (fst (attach E as inp s)) = rn_sent s"
proof (induction as arbitrary: inp s)
  case (Cons a as)
  obtain s' r where t: "takeBlob E (att_blob a) s = (s', r)" by fastforce
  have "rn_sent s' = rn_sent s" using takeBlob_fields(6) [of E "att_blob a" s] t by simp
  with Cons show ?case by (simp add: t split: option.split prod.split)
qed simp

lemma send_input_sent [quiet_ops]: "rn_sent (fst (send_input E k inp s)) = rn_sent s"
  by (simp add: send_input_def split: option.split)

lemma endSession_sent [quiet_ops]: "rn_sent (endSession E k s) = rn_sent s"
  by (simp add: endSession_def upd_thread_quiet close_session_sent)

lemma sweepIdle_sent [quiet_ops]: "rn_sent (sweepIdle E s) = rn_sent s"
proof -
  have "rn_sent (sweep_thread E k x) = rn_sent x" for k x
    by (simp add: sweep_thread_def close_session_sent split: option.split)
  then have "rn_sent (fold (sweep_thread E) ks x) = rn_sent x" for ks x by (induction ks arbitrary: x) simp_all
  then show ?thesis by (simp add: sweepIdle_def CleanupThreads_def Let_def)
qed

lemma event_stages_sent [quiet_ops]:
  "rn_sent (event_touched E p s) = rn_sent s" "rn_sent (event_recorded E p ev s) = rn_sent s"
  "rn_sent (event_settled E p ev s) = rn_sent s"
  by (simp_all add: event_touched_def event_recorded_def event_settled_def Let_def upd_thread_quiet)

subsection \<open>Every step\<close>

lemma writes_handleMessage: "writes_typed s (handleMessage E msg s)"
proof -
  have f: "permits (Dir (fail_frame msg code m)) DirUp" for code m by (simp add: fail_frame_def permits_def)
  define s1 where "s1 = (if m_command msg = ''new'' then endSession E (m_thread msg) s else s)"
  obtain s2 r where sf: "sessionFor E (m_thread msg) s1 = (s2, r)" by fastforce
  have s2: "rn_sent s2 = rn_sent s" using sessionFor_sent [of E "m_thread msg" s1] sf by (simp add: s1_def endSession_sent)
  let ?s3 = "touchActive E (upd_thread (m_thread msg) (setTurn (rv_now E) (m_turn msg)) s2)"
  obtain s4 inp where at: "attach E (m_attachments msg) \<lparr>inp_Text = withContext msg, inp_Images = []\<rparr> ?s3 = (s4, inp)" by fastforce
  obtain s5 r5 where si: "send_input E (m_thread msg) inp s4 = (s5, r5)" by fastforce
  have s4: "rn_sent s4 = rn_sent s" by (metis at attach_sent fst_conv touchActive_fields(6) upd_thread_quiet s2)
  have s5: "rn_sent s5 = rn_sent s" by (metis si send_input_sent fst_conv s4)
  show ?thesis
    using sf at si s2 s5 f
    by (simp add: handleMessage_def Let_def s1_def [symmetric] writes_tell_same writes_same split: option.split)
qed

lemma writes_pump_event: "writes_typed s (pump_event E n ev s)"
proof (cases "map_of (rn_procs s) n")
  case (Some p)
  have f: "permits (Dir f) DirUp" if "event_frame k turn sid ev = Some f" for k turn sid f
    using that by (cases ev) (auto simp: error_frame_def permits_def)
  show ?thesis unfolding pump_event_stages [OF Some]
    using f by (simp add: quiet_ops writes_tell_same writes_same split: option.split)
qed (simp add: pump_event_def writes_refl)

lemma writes_pump_end: "writes_typed s (pump_end E n s)"
  by (simp add: pump_end_def Let_def error_frame_def permits_def upd_thread_quiet writes_tell_same writes_same
      split: option.split)

lemma writes_report: "writes_typed s x \<Longrightarrow> writes_typed s (reportPluginError E m x)"
  by (simp add: reportPluginError_def writes_tell permits_def)

lemma writes_sync_markets: "writes_typed s (fst (sync_markets E P ms checkouts s))"
proof (induction E P ms checkouts s rule: sync_markets.induct)
  case (2 E P name mp ms checkouts s)
  obtain d r where m: "syncMarketplace E P (rn_opts s) name mp (rn_disk s) = (d, r)" by fastforce
  have c: "writes_typed s (s\<lparr>rn_disk := d\<rparr>)" by (simp add: writes_same)
  show ?case
  proof (cases r)
    case (Inl e)
    then show ?thesis using writes_trans [OF writes_report [OF c] 2(1) [OF m [symmetric] Inl]] by (simp add: m)
  next
    case (Inr dir)
    then show ?thesis using writes_trans [OF c 2(2) [OF m [symmetric] Inr]] by (simp add: m)
  qed
qed (simp add: writes_refl)

lemma writes_plugin_directories: "writes_typed s (fst (plugin_directories E P checkouts is s))"
proof (induction "is" arbitrary: s)
  case (Cons i "is")
  have "writes_typed s (fst (plugin_directories E P checkouts is (reportPluginError E m s)))" for m
    by (rule writes_trans [OF writes_report [OF writes_refl] Cons.IH])
  then show ?case using Cons.IH by (simp add: case_prod_beta split: sum.split option.split)
qed (simp add: writes_refl)

lemma writes_syncPlugins: "writes_typed s (syncPlugins E P configDir s)"
proof -
  have p: "writes_typed s x \<Longrightarrow> writes_typed s (x\<lparr>rn_plugins := y\<rparr>)" for x y by (erule writes_then) simp
  have "writes_typed s (fst (plugin_directories E P c is (fst (sync_markets E P ms [] s))))" for c "is" ms
    by (rule writes_trans [OF writes_sync_markets writes_plugin_directories])
  then show ?thesis
    by (auto simp: syncPlugins_def intro!: p writes_report writes_refl split: prod.split sum.split option.split) (metis fst_conv)
qed

lemma writes_request_start:
  assumes "permits (Dir f) DirUp"
  shows "writes_typed s (fst (request_start E i f s))"
proof -
  let ?s = "s\<lparr>rn_pending := put i None (rn_pending s)\<rparr>"
  obtain s1 r where q: "runner_send E f ?s = (s1, r)" by fastforce
  have "writes_typed s ?s" by (simp add: writes_same)
  then have "writes_typed s s1" using writes_trans [OF _ writes_send [OF assms, of ?s E]] q by simp
  then show ?thesis by (auto simp: request_start_def q intro: writes_then split: option.split)
qed

lemma writes_send_reads: "writes_typed s (fst (send_reads E blob bs rerr data sq s))"
proof (induction bs arbitrary: data sq s)
  case Nil
  show ?case by (simp add: writes_send writes_tell writes_refl permits_def split: option.split)
next
  case (Cons b bs)
  have "writes_typed s (fst (send_reads E blob bs rerr data' sq' (fst (runner_write E (RBinary x) s))))" for data' sq' x
    by (rule writes_trans [OF writes_binary Cons.IH])
  then show ?case using Cons.IH writes_binary
    by (simp add: case_prod_beta writes_refl split: sum.split fmt_err.split option.split)
qed

lemma writes_sendFile: "writes_typed s (fst (sendFile E thread p s))"
proof -
  have "writes_typed s (fst (case runner_send E (FBlobBegin b) s of (s', Some m) \<Rightarrow> (s', Some m)
      | (s', None) \<Rightarrow> (case rv_reads E p of (bs, rerr) \<Rightarrow> send_reads E blob bs rerr [] 0 s')))" for b blob
    using writes_trans [OF writes_send [of "FBlobBegin b" s E] writes_send_reads] writes_send [of "FBlobBegin b" s E]
    by (simp add: case_prod_beta permits_def split: option.split)
  then show ?thesis by (auto simp: sendFile_def Let_def writes_refl split: option.split sum.split)
qed

lemma writes_handleIPC: "writes_typed s (fst (handleIPC E J q s))"
proof -
  have i: "writes_typed s (fst r) \<Longrightarrow> writes_typed s (fst (ipc_start w r))" for r w
    by (cases r) (simp add: ipc_start_def split: option.split)
  have p: "writes_typed s (fst (requestPermission_start E th tl inp s))" for th tl inp
    using writes_request_start [of "FPermissionRequest (permission_request E th tl inp s)" s E "''perm_'' @ rv_id E"]
    by (simp add: requestPermission_start_def writes_refl permits_def case_prod_beta split: option.split)
  show ?thesis
    using p [of "ipc_Thread q" "ipc_Tool q" "ipc_Input q"] writes_sendFile [of s E "ipc_Thread q" "ipc_Path q"]
    by (auto simp: handleIPC_def Let_def writes_refl requestCredential_start_def callProxiedMCP_start_def permits_def
        listProxiedMCP_start_def writes_request_start intro!: i split: prod.split option.split sum.split)
qed

lemma writes_handleFrame: "writes_typed s (fst (handleFrame E P present f s))"
proof (cases f)
  case (FBundlePush push)
  have r: "writes_typed s x \<Longrightarrow> writes_typed s (plugins_reset b x)" for b x
    by (erule writes_then) (simp add: plugins_reset_def)
  have "writes_typed s (fst (handlePush E P present push s))"
    by (simp add: handlePush_def preflightMCP_def Let_def permits_def r writes_tell_same writes_same split: prod.split option.split)
  then show ?thesis using FBundlePush by (simp add: handleFrame_def case_prod_beta)
qed (simp_all add: handleFrame_def resolvePending_def runner_onBlobBegin_def runner_onBlobEnd_def drop_blob_def Let_def
      permits_def writes_refl writes_tell_same writes_same split: prod.split option.split)

text \<open>
  C25. The runner keeps to its half of the protocol: in every reachable state every control frame it has
  written is valid and of a type a runner may originate.
\<close>

theorem runner_frames_are_typed:
  assumes "runner_reach o1 s"
  shows "list_all well_typed (rn_sent s)"
  using assms
proof (induction rule: runner_reach.induct)
  case (RInit x d)
  show ?case by (simp add: fresh_runner_def)
next
  case (RStep s s')
  have "writes_typed s s'"
    using RStep.hyps(2)
  proof (cases rule: rstep.cases)
    case (RRead E P present x)
    have "writes_typed s (runner_onChunk E hdr payload s)" for hdr payload
      by (simp add: runner_onChunk_def writes_same split: option.split)
    then show ?thesis using RRead(1)
      by (auto simp: readOnce_def writes_handleFrame writes_refl split: socket_data.split sum.split)
  next
    case (RHelperEnd E J w)
    then show ?thesis by (auto simp: finishIPC_def request_end_def Let_def case_prod_beta intro!: writes_same split: option.split)
  next
    case (RConnect E host)
    let ?s = "s\<lparr>rn_conn := True\<rparr>"
    have "writes_typed s (fst (runner_send E (FHello (hello_frame host s)) ?s))"
      by (rule writes_trans [OF _ writes_send]) (simp_all add: writes_same permits_def)
    moreover have "rn_sent (disconnected x) = rn_sent x" for x by (simp add: disconnected_def failPending_def)
    ultimately show ?thesis using RConnect(1)
      by (auto simp: connected_def case_prod_beta intro: writes_then split: option.split)
  next
    case RDisconnect
    then show ?thesis by (simp add: disconnected_def failPending_def writes_same)
  qed (simp_all add: writes_handleMessage writes_pump_event writes_pump_end writes_syncPlugins writes_handleIPC
      writes_same sweepIdle_sent maintainActive_def)
  with RStep.IH show ?case by (auto simp: writes_typed_def)
qed

theorem runner_frames_are_typed_witness:
  "list_all well_typed (rn_sent (connected sample_renv sample_host (fresh_runner sample_ropts \<lparr>si_path = [], si_ids = Some []\<rparr> [])))"
  by (rule runner_frames_are_typed, rule RStep [OF RInit RConnect]) (simp add: fresh_runner_def)

end
