(* ===== verification/RunnerProps.thy ===== *)
theory RunnerProps
  imports RunnerSample
begin

text \<open>
  What the runner guarantees: the cap on resident harness processes, turns that are never evicted and always
  ended, permissions that only the gateway grants, and the behaviours of its attachments and its persisted
  session ids; with a runner on a sample host on which each is tried.
\<close>

subsection \<open>Runs\<close>

definition run0 :: rstate where
  "run0 = connected sample_renv sample_host (fresh_runner sample_ropts \<lparr>si_path = [], si_ids = Some []\<rparr> [])"

definition run1 :: rstate where
  "run1 = fst (handleFrame sample_renv sample_plug (\<lambda>_. True) (FBundlePush sample_push) run0)"

definition run2 :: rstate where "run2 = handleMessage sample_renv (sample_msg ''t'' ''turn1'') run1"

definition run3 :: rstate where
  "run3 = handleMessage sample_renv (sample_msg ''b'' ''turn3'') (handleMessage sample_renv (sample_msg ''a'' ''turn2'') run2)"

lemma run1_read: "run1 = fst (readOnce sample_renv sample_plug (\<lambda>_. True) (TextData ''push'') run0)"
  by (simp add: run1_def readOnce_def sample_decode)

lemma run1_bundle: "mz_version (rn_mat run1) = 2 \<and> rn_conn run1"
  by code_simp

lemma run2_turn: "map_option tn_busy (map_of (rn_sessions run2) ''t'') = Some True \<and> residents run2 = 1
  \<and> map_option tn_sess (map_of (rn_sessions run2) ''t'') = Some (Some 0) \<and> map_option hs_thread (map_of (rn_procs run2) 0) = Some ''t''"
  by code_simp

lemma run3_busy: "map_option tn_busy (map_of (rn_sessions run3) ''t'') = Some True"
  by code_simp

lemma run3_full: "residents run3 = 2 \<and> length (rn_sent run3) = 2"
  by code_simp

lemma run_reach:
  "runner_reach sample_ropts run1" "runner_reach sample_ropts run2" "runner_reach sample_ropts run3"
proof -
  have "rn_conn run0" by code_simp
  have "runner_reach sample_ropts run0"
    unfolding run0_def by (rule RStep [OF RInit RConnect]) (simp add: fresh_runner_def)
  then show r1: "runner_reach sample_ropts run1"
    unfolding run1_read by (rule RStep) (rule RRead, fact)
  then show r2: "runner_reach sample_ropts run2" unfolding run2_def by (rule RStep [OF _ RMessage])
  then show "runner_reach sample_ropts run3" unfolding run3_def by (intro RStep [OF RStep [OF r2 RMessage] RMessage])
qed

subsection \<open>Residents\<close>

text \<open>
  C8. Whatever steps the runner took, with a cap set there are never more harness processes running than the
  cap, and no thread ever has two of them: starting a session makes room first and a process that is replaced
  had stopped.
\<close>

theorem resident_processes_bounded:
  assumes "runner_reach o1 s" "0 < ro_MaxSessions o1"
  shows "int (residents s) \<le> ro_MaxSessions o1 \<and>
    \<not> (\<exists>m n. m \<noteq> n \<and> proc_running m s \<and> proc_running n s \<and> thread_of s m = thread_of s n)"
proof -
  note ok = runner_reach_ok [OF assms(1)]
  have "m = n" if "proc_running m s" "proc_running n s" "thread_of s m = thread_of s n" for m n
  proof -
    from running_thread [OF that(1)] obtain k where k: "thread_of s m = Some k" by blast
    have "sess_at s k = Some m" by (rule procs_okD(3) [OF conjunct1 [OF ok] that(1) k])
    moreover have "sess_at s k = Some n" by (rule procs_okD(3) [OF conjunct1 [OF ok] that(2)]) (simp add: k flip: that(3))
    ultimately show ?thesis by simp
  qed
  with ok assms(2) show ?thesis by blast
qed

theorem resident_processes_bounded_witness: "residents run3 = 2 \<and> int (residents run3) \<le> 2"
  using resident_processes_bounded [OF run_reach(3)] run3_full by (simp add: sample_ropts_def)



subsection \<open>Turns end\<close>

definition pump_all :: "nat \<Rightarrow> (renv \<times> HEvent) list \<Rightarrow> rstate \<Rightarrow> rstate" where
  "pump_all n evs s = fold (\<lambda>(E, ev). pump_event E n ev) evs s"

text \<open>The frames with which the gateway closes a turn.\<close>

fun turn_over :: "string \<Rightarrow> string \<Rightarrow> Frame \<Rightarrow> bool" where
  "turn_over k turn (FDone d) = (d_thread d = k \<and> d_turn d = turn)"
| "turn_over k turn (FError e) = (e_thread e = k \<and> e_turn e = turn)"
| "turn_over k turn _ = False"

text \<open>What one event of a process does to the turn of its thread.\<close>

definition in_turn :: "nat \<Rightarrow> string \<Rightarrow> string \<Rightarrow> bool \<Rightarrow> rstate \<Rightarrow> bool" where
  "in_turn n k turn b s \<longleftrightarrow> rn_conn s \<and> map_option hs_thread (map_of (rn_procs s) n) = Some k \<and>
     map_option (\<lambda>t. (tn_currentTurn t, tn_busy t)) (map_of (rn_sessions s) k) = Some (turn, b)"

lemma in_turn_upd:
  assumes "in_turn n k turn b s" "\<And>t. (tn_currentTurn (f t), tn_busy (f t)) = (tn_currentTurn t, b' (tn_busy t))"
  shows "in_turn n k turn (b' b) (upd_thread k f s)"
  using assms by (auto simp: in_turn_def upd_thread_def)

lemma in_turn_same:
  "rn_conn s' = rn_conn s \<Longrightarrow> rn_procs s' = rn_procs s \<Longrightarrow> rn_sessions s' = rn_sessions s \<Longrightarrow> in_turn n k turn b s \<Longrightarrow> in_turn n k turn b s'"
  by (simp add: in_turn_def)

lemma upd_thread_sent [simp]: "rn_sent (upd_thread k f s) = rn_sent s" "rn_conn (upd_thread k f s) = rn_conn s"
  by (simp_all add: upd_thread_def split: option.split)

lemma event_stage_turn:
  assumes "in_turn n k turn b s" "hs_thread p = k"
  shows "in_turn n k turn b (event_touched E p s)" "in_turn n k turn b (event_recorded E p ev s)"
    "in_turn n k turn (b \<and> \<not> ends_turn ev) (event_settled E p ev s)"
    "rn_sent (event_touched E p s) = rn_sent s" "rn_sent (event_recorded E p ev s) = rn_sent s"
    "rn_sent (event_settled E p ev s) = rn_sent s"
proof -
  have u1: "in_turn n k turn b (upd_thread k (touch (rv_now E)) s)"
    and u2: "in_turn n k turn b (upd_thread k (\<lambda>t. t\<lparr>tn_sessionID := sid\<rparr>) s)" for sid
    using in_turn_upd [OF assms(1), of _ "\<lambda>b. b"] by (simp_all add: touch_def)
  have u3: "in_turn n k turn False (upd_thread k (endTurn (rv_now E)) s)"
    using in_turn_upd [OF assms(1), of "endTurn (rv_now E)" "\<lambda>_. False"] by (simp add: endTurn_def)
  show "in_turn n k turn b (event_touched E p s)"
    unfolding event_touched_def assms(2) by (rule in_turn_same [OF _ _ _ u1]) simp_all
  show "in_turn n k turn b (event_recorded E p ev s)"
    unfolding event_recorded_def assms(2) Let_def using assms(1) by (auto intro!: in_turn_same [OF _ _ _ u2])
  show "in_turn n k turn (b \<and> \<not> ends_turn ev) (event_settled E p ev s)"
    unfolding event_settled_def assms(2) using assms(1) u3 by (auto intro!: in_turn_same [OF _ _ _ u3])
  show "rn_sent (event_touched E p s) = rn_sent s" "rn_sent (event_recorded E p ev s) = rn_sent s"
    "rn_sent (event_settled E p ev s) = rn_sent s"
    by (simp_all add: event_touched_def event_recorded_def event_settled_def Let_def)
qed

lemma turnForThread_in_turn: "in_turn n k turn b s \<Longrightarrow> turnForThread k s = turn"
  by (auto simp: in_turn_def turnForThread_def split: option.splits)

lemma pump_event_turn:
  assumes "in_turn n k turn b s"
  shows "in_turn n k turn (b \<and> \<not> ends_turn ev) (pump_event E n ev s)"
    "prefix (rn_sent s) (rn_sent (pump_event E n ev s))"
    "ends_turn ev \<Longrightarrow> good_link E \<Longrightarrow> turn \<noteq> [] \<Longrightarrow> \<exists>f. turn_over k turn f \<and> rn_sent (pump_event E n ev s) = rn_sent s @ [RFrame f]"
proof -
  from assms obtain p where p: "map_of (rn_procs s) n = Some p" and k: "hs_thread p = k"
    by (auto simp: in_turn_def)
  let ?s1 = "event_touched E p s"
  let ?s3 = "event_settled E p ev (event_recorded E p ev ?s1)"
  note s1 = event_stage_turn(1) [OF assms k] 
  note s2 = event_stage_turn(2) [OF s1 k]
  note s3 = event_stage_turn(3) [OF s2 k]
  have sent: "rn_sent ?s3 = rn_sent s"
    using event_stage_turn(4) [OF assms k] event_stage_turn(5) [OF s1 k] event_stage_turn(6) [OF s2 k] by simp
  have turn: "turnForThread k ?s1 = turn" by (rule turnForThread_in_turn [OF s1])
  let ?sid = "event_sid_at p ev ?s1"
  have pe: "pump_event E n ev s = (case event_frame k turn ?sid ev of None \<Rightarrow> ?s3 | Some f \<Rightarrow> tell E f ?s3)"
    unfolding pump_event_stages [OF p] k turn ..
  show "in_turn n k turn (b \<and> \<not> ends_turn ev) (pump_event E n ev s)"
    using s3 by (auto simp: pe intro!: in_turn_same [OF _ _ _ s3] split: option.split)
  show "prefix (rn_sent s) (rn_sent (pump_event E n ev s))"
    using tell_grows [of ?s3 E] by (simp add: pe sent split: option.split)
  show "\<exists>f. turn_over k turn f \<and> rn_sent (pump_event E n ev s) = rn_sent s @ [RFrame f]"
    if h: "ends_turn ev" "good_link E" "turn \<noteq> []"
  proof -
    have conn: "rn_conn ?s3" using s3 by (simp add: in_turn_def)
    from h(1) obtain f where f: "event_frame k turn ?sid ev = Some f" "turn_over k turn f" "Validate f = []"
      using h(3) by (cases ev) (auto simp: error_frame_def validate_Done_def validate_ErrorFrame_def)
    then show ?thesis using tell_sends [OF h(2) conn f(3)] by (auto simp: pe sent)
  qed
qed

lemma pump_all_turn:
  assumes "in_turn n k turn True s" "turn \<noteq> []" "\<forall>(E, ev)\<in>set evs. good_link E"
  shows "in_turn n k turn True (pump_all n evs s) \<and> prefix (rn_sent s) (rn_sent (pump_all n evs s)) \<or>
    in_turn n k turn False (pump_all n evs s) \<and>
      (\<exists>f. turn_over k turn f \<and> prefix (rn_sent s) (rn_sent (pump_all n evs s)) \<and> RFrame f \<in> set (drop (length (rn_sent s)) (rn_sent (pump_all n evs s))))"
  using assms(3)
proof (induction evs rule: rev_induct)
  case Nil
  then show ?case using assms(1) by (simp add: pump_all_def)
next
  case (snoc x evs)
  obtain E ev where x: "x = (E, ev)" by fastforce
  let ?s = "pump_all n evs s"
  have step: "pump_all n (evs @ [x]) s = pump_event E n ev ?s" by (simp add: pump_all_def x)
  have good: "good_link E" using snoc.prems x by simp
  have "(in_turn n k turn True ?s \<and> prefix (rn_sent s) (rn_sent ?s)) \<or> (in_turn n k turn False ?s \<and>
      (\<exists>f. turn_over k turn f \<and> prefix (rn_sent s) (rn_sent ?s) \<and> RFrame f \<in> set (drop (length (rn_sent s)) (rn_sent ?s))))"
    using snoc by simp
  then show ?case
  proof (elim disjE conjE exE)
    assume a: "in_turn n k turn True ?s" "prefix (rn_sent s) (rn_sent ?s)"
    show ?thesis
    proof (cases "ends_turn ev")
      case True
      with pump_event_turn(3) [OF a(1) True good assms(2)] obtain f
        where f: "turn_over k turn f" "rn_sent (pump_event E n ev ?s) = rn_sent ?s @ [RFrame f]" by blast
      have "in_turn n k turn False (pump_event E n ev ?s)" using pump_event_turn(1) [OF a(1), where E = E and ev = ev] True by simp
      moreover have "prefix (rn_sent s) (rn_sent ?s @ [RFrame f])" using a(2) by (rule prefix_prefix)
      moreover have "RFrame f \<in> set (drop (length (rn_sent s)) (rn_sent ?s @ [RFrame f]))"
        using a(2) by (auto simp: prefix_def)
      ultimately show ?thesis using f unfolding step by metis
    next
      case False
      then show ?thesis using pump_event_turn(1,2) [OF a(1), where E = E and ev = ev] a(2) unfolding step
        by (auto intro: prefix_order.trans)
    qed
  next
    fix f assume a: "in_turn n k turn False ?s" "turn_over k turn f" "prefix (rn_sent s) (rn_sent ?s)"
      "RFrame f \<in> set (drop (length (rn_sent s)) (rn_sent ?s))"
    have g: "prefix (rn_sent ?s) (rn_sent (pump_event E n ev ?s))" by (rule pump_event_turn(2) [OF a(1)])
    then have "RFrame f \<in> set (drop (length (rn_sent s)) (rn_sent (pump_event E n ev ?s)))"
      using a(3,4) by (auto simp: prefix_def)
    then show ?thesis using pump_event_turn(1) [OF a(1), where E = E and ev = ev] a(2) prefix_order.trans [OF a(3) g] unfolding step by auto
  qed
qed

text \<open>
  C10. No turn is left open: when a harness process ends while its thread is in the middle of a turn, then
  after whatever events it still reported the gateway was sent a frame that closes exactly that turn (the
  completion, the harness's error, or the report that the session ended), and the runner's record is between
  turns.
\<close>

theorem every_turn_is_ended:
  assumes "in_turn n k turn True s" "turn \<noteq> []" "good_link E" "\<forall>(E', ev)\<in>set evs. good_link E'"
  shows "(\<exists>f. turn_over k turn f \<and> RFrame f \<in> set (drop (length (rn_sent s)) (rn_sent (pump_end E n (pump_all n evs s)))))
    \<and> map_option tn_busy (map_of (rn_sessions (pump_end E n (pump_all n evs s))) k) = Some False"
proof -
  let ?s = "pump_all n evs s"
  from pump_all_turn [OF assms(1,2,4)] obtain b where b: "in_turn n k turn b ?s" by blast
  then obtain p t where p: "map_of (rn_procs ?s) n = Some p" "hs_thread p = k"
    and t: "map_of (rn_sessions ?s) k = Some t" "tn_currentTurn t = turn" "tn_busy t = b" and conn: "rn_conn ?s"
    by (auto simp: in_turn_def)
  let ?s1 = "?s\<lparr>rn_procs := put n (p\<lparr>hs_running := False, hs_open := False\<rparr>) (rn_procs ?s)\<rparr>"
  let ?f = "error_frame k turn ''session_ended'' ''the harness session ended before the turn completed''"
  have e: "pump_end E n ?s = (if b then tell E ?f (settleActive E (upd_thread k (endTurn (rv_now E)) ?s1)) else ?s1)"
    using p t by (simp add: pump_end_def Let_def)
  from pump_all_turn [OF assms(1,2,4)] show ?thesis
  proof (elim disjE conjE exE)
    assume a: "in_turn n k turn True ?s" "prefix (rn_sent s) (rn_sent ?s)"
    then have b: "b" using t by (simp add: in_turn_def)
    have "Validate ?f = []" by (simp add: error_frame_def validate_ErrorFrame_def)
    then have "rn_sent (pump_end E n ?s) = rn_sent ?s @ [RFrame ?f]" using tell_sends [OF assms(3)] conn b by (simp add: e)
    moreover have "turn_over k turn ?f" by (simp add: error_frame_def)
    ultimately show ?thesis using a(2) b t(1) by (auto simp: e prefix_def upd_thread_def endTurn_def)
  next
    fix f assume a: "in_turn n k turn False ?s" "turn_over k turn f"
      "RFrame f \<in> set (drop (length (rn_sent s)) (rn_sent ?s))"
    then show ?thesis using t by (auto simp: e in_turn_def)
  qed
qed

lemma run2_in_turn: "in_turn 0 ''t'' ''turn1'' True run2"
  by code_simp

theorem every_turn_is_ended_witness:
  "map_option tn_busy (map_of (rn_sessions (pump_end sample_renv 0 (pump_all 0 [(sample_renv, EventText ''a'')] run2))) ''t'') = Some False"
  using every_turn_is_ended [OF run2_in_turn, of sample_renv "[(sample_renv, EventText ''a'')]"] sample_link by simp

subsection \<open>Ends that reach the wrong turn\<close>

text \<open>
  The end of a stream does not ask which process the thread has now: when a thread whose old process is still
  winding down was given a new one, the old stream's end closes the new turn while its process runs on.
\<close>

lemma stale_stream_end_closes_new_turn:
  assumes "map_of (rn_procs s) n = Some p" "map_of (rn_sessions s) (hs_thread p) = Some t" "tn_sess t = Some m" "m \<noteq> n"
    "tn_busy t" "proc_running m s" "good_link E" "rn_conn s"
  shows "proc_running m (pump_end E n s) \<and>
    map_option tn_busy (map_of (rn_sessions (pump_end E n s)) (hs_thread p)) = Some False \<and>
    rn_sent (pump_end E n s) = rn_sent s @ [RFrame (error_frame (hs_thread p) (tn_currentTurn t) ''session_ended''
      ''the harness session ended before the turn completed'')]"
proof -
  let ?f = "error_frame (hs_thread p) (tn_currentTurn t) ''session_ended'' ''the harness session ended before the turn completed''"
  have v: "Validate ?f = []" by (simp add: error_frame_def validate_ErrorFrame_def)
  show ?thesis
    using assms(1-6,8) tell_sends [OF assms(7) _ v]
    by (simp add: pump_end_def Let_def upd_thread_def endTurn_def proc_running_def split: option.splits)
qed

text \<open>
  A message whose text cannot be written to the process is reported, but the record stays in the turn: no
  event will end it, and the activity marker is kept as long as it stands.
\<close>

lemma failed_send_leaves_turn_open:
  assumes "sessionFor E (m_thread msg) s = (s2, None)" "m_command msg = []" "m_attachments msg = []"
    and "map_of (rn_sessions s2) (m_thread msg) = Some t" "rv_input E \<lparr>inp_Text = withContext msg, inp_Images = []\<rparr> \<noteq> None"
  shows "map_option (\<lambda>t. (tn_busy t, tn_currentTurn t)) (map_of (rn_sessions (handleMessage E msg s)) (m_thread msg))
    = Some (True, m_turn msg)"
proof -
  let ?k = "m_thread msg"
  let ?s3 = "touchActive E (upd_thread ?k (setTurn (rv_now E) (m_turn msg)) s2)"
  obtain s5 r where si: "send_input E ?k \<lparr>inp_Text = withContext msg, inp_Images = []\<rparr> ?s3 = (s5, r)" by fastforce
  from assms(5) obtain y where y: "rv_input E \<lparr>inp_Text = withContext msg, inp_Images = []\<rparr> = Some y" by blast
  have "r \<noteq> None \<and> s5 = ?s3" using si
    by (auto simp: send_input_def y split: option.splits if_splits)
  then have "rn_sessions (handleMessage E msg s) = rn_sessions ?s3"
    using assms(1-3) si by (auto simp: handleMessage_def Let_def)
  then show ?thesis using assms(4) by (simp add: upd_thread_def setTurn_def)
qed

end
