(* ===== verification/Proxy.thy ===== *)
theory Proxy
  imports Prelude
begin

text \<open>
  The proxy for credentialed MCP servers (internal/mcpproxy/mcpproxy.go): the set of servers, the deny
  list, the JSON-RPC request with its credential, and the reading of a plain or an event-stream answer.
  The JSON text codec, the URL parser and the HTTP client are the argument \<open>proxy_env\<close>. A call
  returns the requests that left the gateway beside its outcome; errors are the constructors of
  \<open>proxy_err\<close>, one per return statement.
\<close>

subsection \<open>Servers\<close>

definition AuthNone :: string where "AuthNone = ''none''"
definition AuthBearer :: string where "AuthBearer = ''bearer''"
definition AuthBasic :: string where "AuthBasic = ''basic''"

record Server =
  sv_Name :: string
  sv_URL :: string
  sv_Auth :: string
  sv_User :: string
  sv_Secret :: string
  sv_Deny :: "string list"

record Proxy =
  px_servers :: "Server gomap"
  px_seq :: int

definition new_proxy :: Proxy where
  "new_proxy = \<lparr>px_servers = [], px_seq = 0\<rparr>"

definition Configure :: "Server list \<Rightarrow> Proxy \<Rightarrow> Proxy" where
  "Configure servers p = p\<lparr>px_servers := fold (\<lambda>s m. put (sv_Name s) s m) servers []\<rparr>"

definition Has :: "Proxy \<Rightarrow> string \<Rightarrow> bool" where
  "Has p name = has_key (px_servers p) name"

definition Names :: "Proxy \<Rightarrow> string list" where
  "Names p = map fst (px_servers p)"

text \<open>A rule is an exact tool name, or a prefix followed by a star.\<close>

definition matchTool :: "string \<Rightarrow> string \<Rightarrow> bool" where
  "matchTool rule tool = (case CutSuffix rule ''*'' of Some p \<Rightarrow> HasPrefix tool p | None \<Rightarrow> rule = tool)"

subsection \<open>Requests and answers\<close>

definition ListTool :: string where "ListTool = ''tools/list''"

datatype rpcParams = ListParams | CallParams string "string option"

record jsonRPCRequest =
  jq_ID :: int
  jq_Method :: string
  jq_Params :: rpcParams

record jsonRPCResponse =
  js_Result :: string
  js_Error :: "(int \<times> string) option"

record http_request =
  hr_URL :: string
  hr_Header :: "(string \<times> string) list"
  hr_Body :: string

record http_response =
  hp_StatusCode :: nat
  hp_Status :: string
  hp_ContentType :: string
  hp_Body :: string
  hp_ReadErr :: "string option"

record proxy_env =
  pv_Marshal :: "jsonRPCRequest \<Rightarrow> string + string"
  pv_NewRequest :: "string \<Rightarrow> string option"
  pv_Do :: "http_request \<Rightarrow> string + http_response"
  pv_Unmarshal :: "string \<Rightarrow> string + jsonRPCResponse"

datatype proxy_err =
    NotConfigured string
  | DeniedByPolicy string string
  | BadArguments string
  | BadURL string
  | UnknownAuth string string
  | CallFailed string string string
  | ReadFailed string
  | HTTPStatus string string string string
  | DecodeFailed string string
  | RPCFailed string string int string

text \<open>Base64 with padding, as basic authentication encodes its user and password.\<close>

definition b64_char :: "nat \<Rightarrow> char" where
  "b64_char n = (''ABCDEFGHIJKLMNOPQRSTUVWXYZabcdefghijklmnopqrstuvwxyz0123456789+/'' ! n)"

fun base64 :: "nat list \<Rightarrow> string" where
  "base64 [] = []"
| "base64 [a] = [b64_char (a div 4), b64_char (a mod 4 * 16)] @ ''==''"
| "base64 [a, b] = [b64_char (a div 4), b64_char (a mod 4 * 16 + b div 16), b64_char (b mod 16 * 4)] @ ''=''"
| "base64 (a # b # c # bs) =
     [b64_char (a div 4), b64_char (a mod 4 * 16 + b div 16), b64_char (b mod 16 * 4 + c div 64), b64_char (c mod 64)]
       @ base64 bs"

definition authorization :: "Server \<Rightarrow> ((string \<times> string) list) option" where
  "authorization s =
     (if sv_Auth s = AuthBearer then Some [(''Authorization'', ''Bearer '' @ sv_Secret s)]
      else if sv_Auth s = AuthBasic
      then Some [(''Authorization'', ''Basic '' @ base64 (map of_char (sv_User s @ '':'' @ sv_Secret s)))]
      else if sv_Auth s = AuthNone \<or> sv_Auth s = [] then Some []
      else None)"

definition rpc_request :: "string \<Rightarrow> string \<Rightarrow> int \<Rightarrow> jsonRPCRequest" where
  "rpc_request tool args i =
     (if tool = ListTool then \<lparr>jq_ID = i, jq_Method = ListTool, jq_Params = ListParams\<rparr>
      else \<lparr>jq_ID = i, jq_Method = ''tools/call'', jq_Params = CallParams tool (if args = [] then None else Some args)\<rparr>)"

definition ellipsis :: string where "ellipsis = bytes [226, 128, 166]"

definition trunc_body :: "string \<Rightarrow> nat \<Rightarrow> string" where
  "trunc_body s n = (if length s \<le> n then s else take n s @ ellipsis)"

text \<open>The lines of a body: \<open>bytes.Split\<close> at newlines.\<close>

definition newline_byte :: char where "newline_byte = CHR 0x0A"
definition return_byte :: char where "return_byte = CHR 0x0D"

fun split_lines :: "string \<Rightarrow> string \<Rightarrow> string list" where
  "split_lines acc [] = [acc]"
| "split_lines acc (c # cs) = (if c = newline_byte then acc # split_lines [] cs else split_lines (acc @ [c]) cs)"

definition TrimRightByte :: "char \<Rightarrow> string \<Rightarrow> string" where
  "TrimRightByte c s = rev (dropWhile (\<lambda>x. x = c) (rev s))"

text \<open>
  The last data line of an event-stream body. \<open>bytes.TrimSpace\<close> of a blank line is nil, so a
  blank data line forgets the line before it.
\<close>

definition sse_line :: "string \<Rightarrow> string option \<Rightarrow> string option" where
  "sse_line line0 last_data =
     (let line = TrimRightByte return_byte line0 in
      if HasPrefix line ''data:''
      then (let d = TrimSpace (drop 5 line) in if d = [] then None else Some d)
      else last_data)"

definition extractSSEData :: "string \<Rightarrow> string" where
  "extractSSEData raw = (case fold sse_line (split_lines [] raw) None of None \<Rightarrow> raw | Some d \<Rightarrow> d)"

definition maxResponse :: nat where "maxResponse = 8 * 2 ^ 20"

definition read_body :: "http_response \<Rightarrow> string + string" where
  "read_body r =
     (case hp_ReadErr r of
        Some m \<Rightarrow> if length (hp_Body r) < maxResponse then Inl m else Inr (take maxResponse (hp_Body r))
      | None \<Rightarrow> Inr (take maxResponse (hp_Body r)))"

definition read_answer :: "proxy_env \<Rightarrow> string \<Rightarrow> string \<Rightarrow> http_response \<Rightarrow> proxy_err + string" where
  "read_answer E server tool resp =
     (case read_body resp of
        Inl m \<Rightarrow> Inl (ReadFailed m)
      | Inr raw \<Rightarrow>
          if hp_StatusCode resp div 100 \<noteq> 2
          then Inl (HTTPStatus server tool (hp_Status resp) (TrimSpace (trunc_body raw 500)))
          else (case pv_Unmarshal E (if Contains (hp_ContentType resp) ''text/event-stream'' then extractSSEData raw else raw) of
                  Inl m \<Rightarrow> Inl (DecodeFailed server m)
                | Inr rpc \<Rightarrow> (case js_Error rpc of
                      Some (code, m) \<Rightarrow> Inl (RPCFailed server tool code m)
                    | None \<Rightarrow> Inr (js_Result rpc))))"

subsection \<open>Call\<close>

definition send_call :: "proxy_env \<Rightarrow> Server \<Rightarrow> string \<Rightarrow> string \<Rightarrow> string \<Rightarrow> http_request list \<times> (proxy_err + string)" where
  "send_call E s server tool body =
     (case pv_NewRequest E (sv_URL s) of
        Some m \<Rightarrow> ([], Inl (BadURL m))
      | None \<Rightarrow> (case authorization s of
            None \<Rightarrow> ([], Inl (UnknownAuth server (sv_Auth s)))
          | Some auth \<Rightarrow>
              (let req = \<lparr>hr_URL = sv_URL s,
                          hr_Header = [(''Content-Type'', ''application/json''), (''Accept'', ''application/json, text/event-stream'')] @ auth,
                          hr_Body = body\<rparr> in
               ([req], case pv_Do E req of
                         Inl m \<Rightarrow> Inl (CallFailed server tool m)
                       | Inr resp \<Rightarrow> read_answer E server tool resp))))"

definition Call :: "proxy_env \<Rightarrow> string \<Rightarrow> string \<Rightarrow> string \<Rightarrow> Proxy \<Rightarrow> Proxy \<times> http_request list \<times> (proxy_err + string)" where
  "Call E server tool args p =
     (case map_of (px_servers p) server of
        None \<Rightarrow> (p, [], Inl (NotConfigured server))
      | Some s \<Rightarrow>
          if tool \<noteq> ListTool \<and> list_ex (\<lambda>d. matchTool d tool) (sv_Deny s)
          then (p, [], Inl (DeniedByPolicy tool server))
          else (let i = px_seq p + 1; p' = p\<lparr>px_seq := i\<rparr> in
                case pv_Marshal E (rpc_request tool args i) of
                  Inl m \<Rightarrow> (p', [], Inl (BadArguments m))
                | Inr body \<Rightarrow> (p', send_call E s server tool body)))"

subsection \<open>The configured set\<close>

lemma configured_fold: "map_of (fold (\<lambda>s m. put (sv_Name s) s m) ss m) n =
    (case find (\<lambda>s. sv_Name s = n) (rev ss) of Some s \<Rightarrow> Some s | None \<Rightarrow> map_of m n)"
  by (induction ss rule: rev_induct) (auto split: option.splits)

text \<open>The last declaration of a name wins, and nothing of an earlier configuration remains.\<close>

lemma Configure_lookup: "map_of (px_servers (Configure ss p)) n = find (\<lambda>s. sv_Name s = n) (rev ss)"
  by (simp add: Configure_def configured_fold split: option.split)

lemma Has_Configure: "Has (Configure ss p) n \<longleftrightarrow> n \<in> sv_Name ` set ss"
proof -
  have "find (\<lambda>s. sv_Name s = n) (rev ss) \<noteq> None \<longleftrightarrow> n \<in> sv_Name ` set ss"
    by (auto simp: find_None_iff)
  then show ?thesis by (simp add: Has_def has_key_def Configure_lookup)
qed

lemma matchTool_wildcard [simp]: "matchTool (p @ ''*'') tool \<longleftrightarrow> HasPrefix tool p"
proof -
  have "CutSuffix (p @ ''*'') ''*'' = Some p" by (simp add: CutSuffix_Some)
  then show ?thesis by (simp add: matchTool_def)
qed

lemma matchTool_refl: "matchTool tool tool"
proof (cases "CutSuffix tool ''*''")
  case (Some p)
  then have "tool = p @ ''*''" by (simp add: CutSuffix_Some)
  then have "HasPrefix tool p" by (simp add: HasPrefix_def)
  with Some show ?thesis by (simp add: matchTool_def)
qed (simp add: matchTool_def)

subsection \<open>Event streams\<close>

lemma split_lines_app: "newline_byte \<notin> set l \<Longrightarrow> split_lines acc (l @ newline_byte # rest) = (acc @ l) # split_lines [] rest"
  by (induction l arbitrary: acc) auto

lemma sse_fold_keeps:
  "\<forall>l\<in>set ls. \<not> HasPrefix (TrimRightByte return_byte l) ''data:'' \<Longrightarrow> fold sse_line ls x = x"
  by (induction ls arbitrary: x) (auto simp: sse_line_def Let_def)

text \<open>The payload of the last data line is what the decoder reads, whatever lines surround it.\<close>

lemma extractSSEData_last:
  assumes "split_lines [] raw = before @ (''data:'' @ d) # after" "return_byte \<notin> set d" "TrimSpace d \<noteq> []"
    "\<forall>l\<in>set after. \<not> HasPrefix (TrimRightByte return_byte l) ''data:''"
  shows "extractSSEData raw = TrimSpace d"
proof -
  have "takeWhile (\<lambda>x. x = return_byte) (rev (''data:'' @ d)) = []"
    using assms(2) by (cases d rule: rev_cases) (auto simp: return_byte_def)
  then have "TrimRightByte return_byte (''data:'' @ d) = ''data:'' @ d"
    unfolding TrimRightByte_def by (metis append_Nil rev_rev_ident takeWhile_dropWhile_id)
  then have "sse_line (''data:'' @ d) x = Some (TrimSpace d)" for x
    using assms(3) by (simp add: sse_line_def HasPrefix_def)
  then show ?thesis using assms(1) sse_fold_keeps [OF assms(4)] by (simp add: extractSSEData_def)
qed

text \<open>A body without a data line is read as it stands.\<close>

lemma extractSSEData_plain:
  "\<forall>l\<in>set (split_lines [] raw). \<not> HasPrefix (TrimRightByte return_byte l) ''data:'' \<Longrightarrow> extractSSEData raw = raw"
  by (simp add: extractSSEData_def sse_fold_keeps)

subsection \<open>What a call sends and returns\<close>

lemma send_call_request:
  assumes "r \<in> set (fst (send_call E s server tool body))"
  shows "hr_URL r = sv_URL s" "hr_Body r = body" "\<exists>auth. authorization s = Some auth \<and> hr_Header r =
     [(''Content-Type'', ''application/json''), (''Accept'', ''application/json, text/event-stream'')] @ auth"
  using assms by (auto simp: send_call_def Let_def split: option.splits)

lemma send_call_once: "length (fst (send_call E s server tool body)) \<le> 1"
  by (simp add: send_call_def Let_def split: option.split)

lemma send_call_quiet: "snd (send_call E s server tool body) = Inr x \<Longrightarrow> length (fst (send_call E s server tool body)) = 1"
  by (auto simp: send_call_def Let_def split: option.splits)

text \<open>Discovery passes every deny list.\<close>

lemma discovery_never_denied: "snd (snd (Call E server ListTool args p)) \<noteq> Inl (DeniedByPolicy t x)"
proof -
  have "snd (send_call E s server ListTool body) \<noteq> Inl (DeniedByPolicy t x)" for s body
    by (auto simp: send_call_def Let_def read_answer_def split: option.split sum.split)
  then show ?thesis by (simp add: Call_def Let_def split: option.split sum.split)
qed

text \<open>Request ids grow by one with every call that is not refused.\<close>

lemma Call_seq: "px_seq (fst (Call E server tool args p)) \<in> {px_seq p, px_seq p + 1}"
  by (simp add: Call_def Let_def split: option.split sum.split)

lemma Call_servers: "px_servers (fst (Call E server tool args p)) = px_servers p"
  by (simp add: Call_def Let_def split: option.split sum.split)

text \<open>
  C18. A credential leaves the gateway only for the server it was configured for: whatever a proxied
  call sends goes to the URL of the configured server of that name, carries that server's own
  authorization header and no other secret, and is at most one request; and it is sent only when the call is discovery or no
  rule of that server's deny list matches the tool.
\<close>

theorem proxied_call_within_policy:
  assumes "Call E server tool args p = (p', sent, result)" "r \<in> set sent"
  shows "sent = [r] \<and> (\<exists>s auth. map_of (px_servers p) server = Some s \<and> hr_URL r = sv_URL s
     \<and> authorization s = Some auth \<and> hr_Header r =
        [(''Content-Type'', ''application/json''), (''Accept'', ''application/json, text/event-stream'')] @ auth
     \<and> (tool = ListTool \<or> \<not> (\<exists>d\<in>set (sv_Deny s). matchTool d tool))
     \<and> pv_Marshal E (rpc_request tool args (px_seq p + 1)) = Inr (hr_Body r))"
proof -
  obtain s where s: "map_of (px_servers p) server = Some s"
    using assms by (cases "map_of (px_servers p) server") (auto simp: Call_def)
  have allowed: "\<not> (tool \<noteq> ListTool \<and> list_ex (\<lambda>d. matchTool d tool) (sv_Deny s))"
    using assms s by (auto simp: Call_def)
  obtain body where b: "pv_Marshal E (rpc_request tool args (px_seq p + 1)) = Inr body"
    using assms s allowed by (cases "pv_Marshal E (rpc_request tool args (px_seq p + 1))") (auto simp: Call_def Let_def)
  have sent: "sent = fst (send_call E s server tool body)"
    using assms(1) s allowed b by (simp add: Call_def Let_def)
  have "length sent \<le> 1" using send_call_once sent by simp
  then have one: "sent = [r]" using assms(2) by (cases sent) auto
  show ?thesis using s allowed b one send_call_request [OF assms(2) [unfolded sent]]
    by (auto simp: list_ex_iff)
qed

definition sample_server :: Server where
  "sample_server = \<lparr>sv_Name = ''jira'', sv_URL = ''https://j/'', sv_Auth = AuthBasic, sv_User = ''a'', sv_Secret = ''s'',
     sv_Deny = [''delete*'']\<rparr>"

definition sample_proxy_env :: proxy_env where
  "sample_proxy_env = \<lparr>pv_Marshal = (\<lambda>q. Inr (jq_Method q)), pv_NewRequest = (\<lambda>_. None), pv_Do = (\<lambda>_. Inl ''refused''),
     pv_Unmarshal = (\<lambda>_. Inl ''none'')\<rparr>"

lemma sample_call: "fst (snd (Call sample_proxy_env ''jira'' ''search'' [] (Configure [sample_server] new_proxy))) =
    [\<lparr>hr_URL = ''https://j/'', hr_Header = [(''Content-Type'', ''application/json''), (''Accept'', ''application/json, text/event-stream''),
       (''Authorization'', ''Basic YTpz'')], hr_Body = ''tools/call''\<rparr>]"
  by code_simp

theorem proxied_call_within_policy_witness:
  "\<not> (\<exists>d\<in>set (sv_Deny sample_server). matchTool d ''search'')"
proof -
  obtain p' sent result where c: "Call sample_proxy_env ''jira'' ''search'' [] (Configure [sample_server] new_proxy) = (p', sent, result)"
    by (metis prod_cases3)
  let ?r = "\<lparr>hr_URL = ''https://j/'', hr_Header = [(''Content-Type'', ''application/json''), (''Accept'', ''application/json, text/event-stream''),
       (''Authorization'', ''Basic YTpz'')], hr_Body = ''tools/call''\<rparr>"
  have "?r \<in> set sent" using sample_call c by simp
  from proxied_call_within_policy [OF c this] show ?thesis
    by (auto simp: Configure_lookup sample_server_def ListTool_def)
qed

end
