(* ===== verification/Caching.thy ===== *)
theory Caching
  imports Main
begin

text \<open>
  The contract of a look-aside cache: an operation that answers from the source or from what it kept of
  an earlier answer. The clients that rely on it are the token cache of the forge provider and the value
  cache of the parameter store.
\<close>

subsection \<open>Runs\<close>

fun run_gets :: "('e \<Rightarrow> 'k \<Rightarrow> 's \<Rightarrow> 's \<times> 'r) \<Rightarrow> ('e \<times> 'k) list \<Rightarrow> 's \<Rightarrow> 'r list" where
  "run_gets get [] s = []"
| "run_gets get ((e, k) # calls) s = (case get e k s of (s', r) \<Rightarrow> r # run_gets get calls s')"

lemma run_gets_length [simp]: "length (run_gets get calls s) = length calls"
  by (induction get calls s rule: run_gets.induct) (simp_all split: prod.split)

subsection \<open>The interface\<close>

locale look_aside =
  fixes get :: "'e \<Rightarrow> 'k \<Rightarrow> 's \<Rightarrow> 's \<times> 'r"
    and src :: "'e \<Rightarrow> 'k \<Rightarrow> 'r"
    and served :: "'s \<Rightarrow> 'e \<Rightarrow> 'k \<Rightarrow> 'r \<Rightarrow> bool"
    and valid :: "'e \<Rightarrow> 'e \<Rightarrow> 'r \<Rightarrow> bool"
    and same :: "'s \<Rightarrow> bool"
  assumes same_get: "same s \<Longrightarrow> get e k s = (s', r) \<Longrightarrow> same s'"
    and answer: "same s \<Longrightarrow> get e k s = (s', r) \<Longrightarrow> r = src e k \<or> served s e k r"
    and kept: "same s \<Longrightarrow> get e k s = (s', r) \<Longrightarrow> served s' e' k' r' \<Longrightarrow>
        served s e' k' r' \<or> k' = k \<and> r' = src e k \<and> valid e e' r'"
begin

text \<open>What the cache would serve was an answer of the source in one of the environments seen so far.\<close>

definition traced :: "('e \<times> 'k) list \<Rightarrow> 's \<Rightarrow> bool" where
  "traced past s \<longleftrightarrow> (\<forall>e k r. served s e k r \<longrightarrow> (\<exists>j<length past. snd (past ! j) = k \<and>
      r = src (fst (past ! j)) k \<and> valid (fst (past ! j)) e r))"

lemma traced_get:
  assumes "traced past s" "same s" "get e k s = (s', r)"
  shows "traced (past @ [(e, k)]) s'"
  unfolding traced_def
proof (intro allI impI)
  fix e' k' r' assume "served s' e' k' r'"
  from kept [OF assms(2,3) this] show "\<exists>j<length (past @ [(e, k)]). snd ((past @ [(e, k)]) ! j) = k' \<and>
      r' = src (fst ((past @ [(e, k)]) ! j)) k' \<and> valid (fst ((past @ [(e, k)]) ! j)) e' r'"
  proof
    assume "served s e' k' r'"
    then obtain j where "j < length past" "snd (past ! j) = k'" "r' = src (fst (past ! j)) k'" "valid (fst (past ! j)) e' r'"
      using assms(1) unfolding traced_def by blast
    then show ?thesis by (intro exI [of _ j]) (simp add: nth_append)
  next
    assume "k' = k \<and> r' = src e k \<and> valid e e' r'"
    then show ?thesis by (intro exI [of _ "length past"]) auto
  qed
qed

lemma traced_answers:
  assumes "traced past s" "same s" "i < length calls" "run_gets get calls s ! i = r"
  shows "\<exists>j \<le> length past + i. snd ((past @ calls) ! j) = snd (calls ! i) \<and> r = src (fst ((past @ calls) ! j)) (snd (calls ! i))
     \<and> (j = length past + i \<or> valid (fst ((past @ calls) ! j)) (fst (calls ! i)) r)"
  using assms
proof (induction calls arbitrary: past s i)
  case (Cons x calls)
  obtain e k where x: "x = (e, k)" by fastforce
  obtain s' r0 where g: "get e k s = (s', r0)" by fastforce
  show ?case
  proof (cases i)
    case 0
    with Cons.prems(4) x g have r: "r = r0" by simp
    from answer [OF Cons.prems(2) g] show ?thesis
    proof
      assume "r0 = src e k"
      then show ?thesis using 0 r x by (intro exI [of _ "length past"]) simp
    next
      assume "served s e k r0"
      then obtain j where "j < length past" "snd (past ! j) = k" "r0 = src (fst (past ! j)) k" "valid (fst (past ! j)) e r0"
        using Cons.prems(1) unfolding traced_def by blast
      then show ?thesis using 0 r x by (intro exI [of _ j]) (simp add: nth_append)
    qed
  next
    case (Suc n)
    have "traced (past @ [x]) s'" using traced_get [OF Cons.prems(1,2) g] x by simp
    from Cons.IH [OF this same_get [OF Cons.prems(2) g], of n] Cons.prems(3,4) Suc x g
    show ?thesis by simp
  qed
qed simp

text \<open>
  Starting from an empty cache, every answer of a run is what the source said to some call of the run
  for the same key: that very call, or an earlier one whose answer is still valid.
\<close>

lemma answers_traced:
  assumes "\<And>e k r. \<not> served s e k r" "same s" "i < length calls" "calls ! i = (e, k)" "run_gets get calls s ! i = r"
  shows "\<exists>j e'. j \<le> i \<and> calls ! j = (e', k) \<and> r = src e' k \<and> (j = i \<or> valid e' e r)"
proof -
  have "traced [] s" using assms(1) by (simp add: traced_def)
  from traced_answers [OF this assms(2,3,5)] assms(4) show ?thesis
    by simp (metis prod.collapse)
qed

end

end
