(* ===== verification/Secrets.thy ===== *)
theory Secrets
  imports GoPath Caching
begin

text \<open>
  Secret backends (internal/secrets/secrets.go and ssm.go): the environment, a directory, AWS Parameter
  Store with its cache, and the chain that tries them in order. The process environment, the files, the
  clock, the AWS client, RFC 3339 parsing and the quoting of \<open>%q\<close> are the argument
  \<open>senv\<close>. An error keeps whether it wraps \<open>ErrNotFound\<close> and its text, because the
  chain classifies errors by their text. Times are nanoseconds.
\<close>

subsection \<open>Secrets and their sources\<close>

record Secret =
  sc_Name :: string
  sc_Value :: string
  sc_ExpiresAt :: "int option"

datatype serr = NotFoundErr string | OtherErr string

definition not_found_text :: string where "not_found_text = ''secrets: not found''"

fun err_text :: "serr \<Rightarrow> string" where
  "err_text (NotFoundErr m) = not_found_text @ '': '' @ m"
| "err_text (OtherErr m) = m"

definition isNotFound :: "serr \<Rightarrow> bool" where
  "isNotFound err = Contains (err_text err) not_found_text"

datatype file_read = NoFile | FileError string | FileBytes string
datatype param_answer = ParameterNotFound | ParameterError string | ParameterNil | ParameterValue string

record senv =
  se_now :: int
  se_environ :: "(string \<times> string) list"
  se_read :: "string \<Rightarrow> file_read"
  se_readdir :: "string \<Rightarrow> (string \<times> bool) list option"
  se_rfc3339 :: "string \<Rightarrow> string + int"
  se_quote :: "string \<Rightarrow> string"
  se_param :: "string \<Rightarrow> bool \<Rightarrow> param_answer"
  se_pages :: "(string option list \<times> string option) option list"

subsection \<open>The environment\<close>

definition upper_byte :: "char \<Rightarrow> char" where
  "upper_byte c = (let n = of_char c :: nat in if 97 \<le> n \<and> n \<le> 122 then char_of (n - 32) else c)"

definition ToUpper :: "string \<Rightarrow> string" where "ToUpper s = map upper_byte s"

definition env_prefix :: string where "env_prefix = ''SPLITSCREEN_SECRET_''"

definition env_key :: "string \<Rightarrow> string \<Rightarrow> string" where
  "env_key p name = p @ ToUpper (ReplaceByte CHR ''.'' CHR ''_'' (ReplaceByte CHR ''-'' CHR ''_'' name))"

definition env_Get :: "senv \<Rightarrow> string \<Rightarrow> string \<Rightarrow> serr + Secret" where
  "env_Get E p name =
     (case map_of (se_environ E) (env_key p name) of
        None \<Rightarrow> Inl (NotFoundErr (name @ '' (looked for '' @ env_key p name @ '')''))
      | Some v \<Rightarrow> Inr \<lparr>sc_Name = name, sc_Value = v, sc_ExpiresAt = None\<rparr>)"

definition env_Names :: "senv \<Rightarrow> string \<Rightarrow> string list" where
  "env_Names E p = map (\<lambda>kv. ToLower (TrimPrefix (fst kv) p)) (filter (\<lambda>kv. HasPrefix (fst kv) p) (se_environ E))"

subsection \<open>A directory\<close>

datatype dir_stat = StatError string | StatFile | StatDir nat

fun octal :: "nat \<Rightarrow> string" where
  "octal n = (if n < 8 then [digit n] else octal (n div 8) @ [digit (n mod 8)])"

declare octal.simps [simp del]

definition NewDirBackend :: "string \<Rightarrow> dir_stat \<Rightarrow> serr + string" where
  "NewDirBackend dir st =
     (case st of
        StatError m \<Rightarrow> Inl (OtherErr (''secrets: '' @ m))
      | StatFile \<Rightarrow> Inl (OtherErr (''secrets: '' @ dir @ '' is not a directory''))
      | StatDir perm \<Rightarrow> if perm mod 64 \<noteq> 0 then Inl (OtherErr (''secrets: '' @ dir @ '' is mode '' @ octal perm @ ''; it must not be readable by group or other''))
                       else Inr dir)"

definition safeName :: "senv \<Rightarrow> string \<Rightarrow> serr option" where
  "safeName E name =
     (if name = [] then Some (OtherErr ''secrets: empty name'')
      else if CHR ''/'' \<in> set name \<or> CHR 0x5C \<in> set name \<or> name = ''.'' \<or> name = ''..''
      then Some (OtherErr (''secrets: '' @ se_quote E name @ '' must be a bare name''))
      else None)"

definition TrimRightCRLF :: "string \<Rightarrow> string" where
  "TrimRightCRLF s = rev (dropWhile (\<lambda>c. c = CHR 0x0D \<or> c = CHR 0x0A) (rev s))"

definition dir_Get :: "senv \<Rightarrow> string \<Rightarrow> string \<Rightarrow> serr + Secret" where
  "dir_Get E dir name =
     (case safeName E name of Some err \<Rightarrow> Inl err
      | None \<Rightarrow>
          (case se_read E (path_join [dir, name]) of
             NoFile \<Rightarrow> Inl (NotFoundErr name)
           | FileError m \<Rightarrow> Inl (OtherErr (''secrets: read '' @ name @ '': '' @ m))
           | FileBytes raw \<Rightarrow>
               (let s = \<lparr>sc_Name = name, sc_Value = TrimRightCRLF raw, sc_ExpiresAt = None\<rparr> in
                case se_read E (path_join [dir, name @ ''.expires'']) of
                  FileBytes x \<Rightarrow>
                    (case se_rfc3339 E (TrimSpace x) of
                       Inl m \<Rightarrow> Inl (OtherErr (''secrets: '' @ name @ ''.expires is not RFC3339: '' @ m))
                     | Inr t \<Rightarrow> Inr (s\<lparr>sc_ExpiresAt := Some t\<rparr>))
                | _ \<Rightarrow> Inr s)))"

definition dir_Names :: "senv \<Rightarrow> string \<Rightarrow> string list" where
  "dir_Names E dir =
     (case se_readdir E dir of None \<Rightarrow> []
      | Some entries \<Rightarrow> map fst (filter (\<lambda>x. \<not> (snd x \<or> HasSuffix (fst x) ''.expires'')) entries))"

subsection \<open>Parameter Store\<close>

record cachedSecret =
  cs_secret :: Secret
  cs_fetched :: int
  cs_missing :: bool

record SSMBackend =
  sb_prefix :: string
  sb_ttl :: int
  sb_cache :: "cachedSecret gomap"

definition DefaultSSMCacheTTL :: int where "DefaultSSMCacheTTL = 5 * 60 * 1000000000"

text \<open>The configuration of the AWS client is the argument: its error, or the region it has.\<close>

definition NewSSMBackend :: "(string \<Rightarrow> string + string) \<Rightarrow> (string \<Rightarrow> string) \<Rightarrow> string \<Rightarrow> string \<Rightarrow> int \<Rightarrow> serr + SSMBackend" where
  "NewSSMBackend load quote prefix0 region cacheTTL =
     (let p = rev (dropWhile (\<lambda>c. c = CHR ''/'') (rev prefix0)) in
      if p = [] then Inl (OtherErr ''secrets: ssm prefix is required'')
      else if \<not> HasPrefix p ''/'' then Inl (OtherErr (''secrets: ssm prefix '' @ quote p @ '' must be absolute''))
      else (case load region of
              Inl m \<Rightarrow> Inl (OtherErr (''secrets: load aws config: '' @ m))
            | Inr r \<Rightarrow>
                if r = [] then Inl (OtherErr ''secrets: no AWS region configured for the ssm backend'')
                else Inr \<lparr>sb_prefix = p, sb_ttl = if cacheTTL \<le> 0 then DefaultSSMCacheTTL else cacheTTL, sb_cache = []\<rparr>))"

definition ssm_path :: "string \<Rightarrow> string \<Rightarrow> string" where
  "ssm_path p name = p @ ''/'' @ name"

definition ssm_fetch :: "senv \<Rightarrow> string \<Rightarrow> string \<Rightarrow> serr + Secret" where
  "ssm_fetch E p name =
     (case se_param E (ssm_path p name) True of
        ParameterNotFound \<Rightarrow> Inl (NotFoundErr name)
      | ParameterError m \<Rightarrow> Inl (OtherErr (''secrets: ssm get '' @ ssm_path p name @ '': '' @ m))
      | ParameterNil \<Rightarrow> Inl (NotFoundErr name)
      | ParameterValue v \<Rightarrow>
          Inr \<lparr>sc_Name = name, sc_Value = TrimRightCRLF v,
               sc_ExpiresAt = (case se_param E (ssm_path p name @ ''.expires'') False of
                   ParameterValue x \<Rightarrow> (case se_rfc3339 E (TrimSpace x) of Inl _ \<Rightarrow> None | Inr t \<Rightarrow> Some t)
                 | _ \<Rightarrow> None)\<rparr>)"

definition entry_answer :: "string \<Rightarrow> cachedSecret \<Rightarrow> serr + Secret" where
  "entry_answer name x = (if cs_missing x then Inl (NotFoundErr name) else Inr (cs_secret x))"

definition ssm_cached :: "senv \<Rightarrow> string \<Rightarrow> SSMBackend \<Rightarrow> cachedSecret option" where
  "ssm_cached E name b =
     (case map_of (sb_cache b) name of
        None \<Rightarrow> None | Some x \<Rightarrow> if se_now E - cs_fetched x < sb_ttl b then Some x else None)"

definition ssm_store :: "string \<Rightarrow> cachedSecret \<Rightarrow> SSMBackend \<Rightarrow> SSMBackend" where
  "ssm_store name x b = b\<lparr>sb_cache := put name x (sb_cache b)\<rparr>"

definition no_secret :: Secret where "no_secret = \<lparr>sc_Name = [], sc_Value = [], sc_ExpiresAt = None\<rparr>"

definition ssm_Get :: "senv \<Rightarrow> string \<Rightarrow> SSMBackend \<Rightarrow> SSMBackend \<times> (serr + Secret)" where
  "ssm_Get E name b =
     (case safeName E name of Some err \<Rightarrow> (b, Inl err)
      | None \<Rightarrow>
          (case ssm_cached E name b of
             Some x \<Rightarrow> (b, entry_answer name x)
           | None \<Rightarrow>
               (case ssm_fetch E (sb_prefix b) name of
                  Inl (NotFoundErr m) \<Rightarrow>
                    (ssm_store name \<lparr>cs_secret = no_secret, cs_fetched = se_now E, cs_missing = True\<rparr> b, Inl (NotFoundErr m))
                | Inl (OtherErr m) \<Rightarrow> (b, Inl (OtherErr m))
                | Inr sec \<Rightarrow> (ssm_store name \<lparr>cs_secret = sec, cs_fetched = se_now E, cs_missing = False\<rparr> b, Inr sec))))"

definition ssm_Invalidate :: "string \<Rightarrow> SSMBackend \<Rightarrow> SSMBackend" where
  "ssm_Invalidate name b = b\<lparr>sb_cache := del name (sb_cache b)\<rparr>"

text \<open>
  The pages of the listing, in the order the service gives them: a page has parameters and a token for
  the next one. \<open>None\<close> in the list is a failed call; when the list is used up the loop is still waiting.
\<close>

definition page_names :: "string \<Rightarrow> string option list \<Rightarrow> string list" where
  "page_names p ps = concat (map (\<lambda>x. case x of None \<Rightarrow> []
     | Some full \<Rightarrow> (let name = TrimPrefix full (p @ ''/'') in
          if HasSuffix name ''.expires'' \<or> CHR ''/'' \<in> set name then [] else [name])) ps)"

fun ssm_Names :: "string \<Rightarrow> (string option list \<times> string option) option list \<Rightarrow> string list \<Rightarrow> string list option" where
  "ssm_Names p [] out = None"
| "ssm_Names p (None # pages) out = Some out"
| "ssm_Names p (Some (ps, token) # pages) out =
     (let out' = out @ page_names p ps in
      if token = None \<or> token = Some [] then Some out' else ssm_Names p pages out')"

subsection \<open>The chain\<close>

datatype backend = EnvBackend string | DirBackend string | SSM SSMBackend

fun Get :: "senv \<Rightarrow> string \<Rightarrow> backend \<Rightarrow> backend \<times> (serr + Secret)" where
  "Get E name (EnvBackend p) = (EnvBackend p, env_Get E p name)"
| "Get E name (DirBackend d) = (DirBackend d, dir_Get E d name)"
| "Get E name (SSM b) = (case ssm_Get E name b of (b', r) \<Rightarrow> (SSM b', r))"

text \<open>A listing the service never finishes answering shows nothing.\<close>

fun Names :: "senv \<Rightarrow> backend \<Rightarrow> string list" where
  "Names E (EnvBackend p) = env_Names E p"
| "Names E (DirBackend d) = dir_Names E d"
| "Names E (SSM b) = (case ssm_Names (sb_prefix b) (se_pages E) [] of None \<Rightarrow> [] | Some ns \<Rightarrow> ns)"

fun Invalidate :: "string \<Rightarrow> backend \<Rightarrow> backend" where
  "Invalidate name (SSM b) = SSM (ssm_Invalidate name b)"
| "Invalidate name b = b"

fun chain_Get :: "senv \<Rightarrow> string \<Rightarrow> backend list \<Rightarrow> backend list \<times> (serr + Secret)" where
  "chain_Get E name [] = ([], Inl (NotFoundErr name))"
| "chain_Get E name (b # bs) =
     (case Get E name b of
        (b', Inr s) \<Rightarrow> (b' # bs, Inr s)
      | (b', Inl err) \<Rightarrow>
          if \<not> isNotFound err then (b' # bs, Inl err)
          else (case chain_Get E name bs of (bs', r) \<Rightarrow> (b' # bs', r)))"

definition chain_Names :: "senv \<Rightarrow> backend list \<Rightarrow> string list" where
  "chain_Names E bs = rev (fold (\<lambda>n out. if n \<in> set out then out else n # out) (concat (map (Names E) bs)) [])"

definition chain_Invalidate :: "string \<Rightarrow> backend list \<Rightarrow> backend list" where
  "chain_Invalidate name bs = map (Invalidate name) bs"

text \<open>The expiry sweep; a lookup may refresh a cache on the way.\<close>

fun expiring_loop :: "senv \<Rightarrow> int \<Rightarrow> string list \<Rightarrow> backend list \<Rightarrow> backend list \<times> Secret list" where
  "expiring_loop E within [] bs = (bs, [])"
| "expiring_loop E within (n # ns) bs =
     (case chain_Get E n bs of (bs', r) \<Rightarrow>
       (case expiring_loop E within ns bs' of (bs'', out) \<Rightarrow>
         (bs'', (case r of
             Inl _ \<Rightarrow> out
           | Inr s \<Rightarrow> (case sc_ExpiresAt s of None \<Rightarrow> out
               | Some t \<Rightarrow> if t - se_now E \<le> within then s\<lparr>sc_Value := []\<rparr> # out else out)))))"

definition Expiring :: "senv \<Rightarrow> int \<Rightarrow> backend list \<Rightarrow> backend list \<times> Secret list" where
  "Expiring E within bs = expiring_loop E within (chain_Names E bs) bs"

subsection \<open>Freshness\<close>

lemma safeName_None: "safeName E name = None \<longleftrightarrow> name \<noteq> [] \<and> CHR ''/'' \<notin> set name \<and> CHR 0x5C \<notin> set name \<and> name \<noteq> ''.'' \<and> name \<noteq> ''..''"
  by (simp add: safeName_def)

lemma safeName_any: "safeName E name = None \<Longrightarrow> safeName E' name = None"
  by (simp add: safeName_None)

definition ssm_source :: "SSMBackend \<Rightarrow> senv \<Rightarrow> string \<Rightarrow> serr + Secret" where
  "ssm_source b E name = (case safeName E name of Some err \<Rightarrow> Inl err | None \<Rightarrow> ssm_fetch E (sb_prefix b) name)"

definition ssm_served :: "SSMBackend \<Rightarrow> senv \<Rightarrow> string \<Rightarrow> serr + Secret \<Rightarrow> bool" where
  "ssm_served b E name r \<longleftrightarrow> safeName E name = None \<and> (\<exists>x. ssm_cached E name b = Some x \<and> r = entry_answer name x)"

definition ssm_recent :: "SSMBackend \<Rightarrow> senv \<Rightarrow> senv \<Rightarrow> serr + Secret \<Rightarrow> bool" where
  "ssm_recent b E' E r \<longleftrightarrow> se_now E - se_now E' < sb_ttl b"

definition same_ssm :: "SSMBackend \<Rightarrow> SSMBackend \<Rightarrow> bool" where
  "same_ssm b0 b \<longleftrightarrow> sb_prefix b = sb_prefix b0 \<and> sb_ttl b = sb_ttl b0"

lemma fetch_not_found: "ssm_fetch E p name = Inl (NotFoundErr m) \<Longrightarrow> m = name"
  by (auto simp: ssm_fetch_def split: param_answer.splits)

text \<open>A lookup answers from the cache, fails without storing, or stores what it answers.\<close>

lemma ssm_Get_cases:
  assumes "same_ssm b0 b" "ssm_Get E name b = (b', r)"
  obtains "b' = b" "ssm_served b E name r"
  | "b' = b" "r = ssm_source b0 E name"
  | x where "safeName E name = None" "b' = ssm_store name x b" "cs_fetched x = se_now E" "entry_answer name x = r" "r = ssm_source b0 E name"
proof (cases "safeName E name")
  case (Some err)
  with assms show ?thesis by (intro that(2)) (simp_all add: ssm_Get_def ssm_source_def)
next
  case n: None
  have src: "ssm_source b0 E name = ssm_fetch E (sb_prefix b) name" using n assms(1) by (simp add: ssm_source_def same_ssm_def)
  show ?thesis
  proof (cases "ssm_cached E name b")
    case (Some x)
    with n assms(2) show ?thesis by (intro that(1)) (simp_all add: ssm_Get_def ssm_served_def)
  next
    case c: None
    show ?thesis
    proof (cases "ssm_fetch E (sb_prefix b) name")
      case (Inr s)
      let ?x = "\<lparr>cs_secret = s, cs_fetched = se_now E, cs_missing = False\<rparr>"
      show ?thesis using n c Inr assms(2) src by (intro that(3) [of ?x]) (simp_all add: ssm_Get_def entry_answer_def)
    next
      case (Inl err)
      show ?thesis
      proof (cases err)
        case (OtherErr m)
        with n c Inl assms(2) src show ?thesis by (intro that(2)) (simp_all add: ssm_Get_def)
      next
        case (NotFoundErr m)
        let ?x = "\<lparr>cs_secret = no_secret, cs_fetched = se_now E, cs_missing = True\<rparr>"
        have "m = name" using fetch_not_found Inl NotFoundErr by simp
        then show ?thesis using n c Inl NotFoundErr assms(2) src
          by (intro that(3) [of ?x]) (simp_all add: ssm_Get_def entry_answer_def)
      qed
    qed
  qed
qed

lemma ssm_cached_store:
  "ssm_cached E' k (ssm_store name x b) =
     (if k = name then if se_now E' - cs_fetched x < sb_ttl b then Some x else None else ssm_cached E' k b)"
proof -
  have t: "sb_ttl (ssm_store name x b) = sb_ttl b" by (simp add: ssm_store_def)
  have m: "map_of (sb_cache (ssm_store name x b)) k = (if k = name then Some x else map_of (sb_cache b) k)"
    by (simp add: ssm_store_def)
  show ?thesis by (simp only: ssm_cached_def t m) simp
qed

interpretation ssm_cache: look_aside ssm_Get "ssm_source b0" ssm_served "ssm_recent b0" "same_ssm b0" for b0
proof
  fix b E name b' r
  assume s: "same_ssm b0 b" "ssm_Get E name b = (b', r)"
  show "same_ssm b0 b'" using s(1) by (cases rule: ssm_Get_cases [OF s]) (simp_all add: same_ssm_def ssm_store_def)
  show "r = ssm_source b0 E name \<or> ssm_served b E name r" by (cases rule: ssm_Get_cases [OF s]) simp_all
  fix E' k r'
  assume v: "ssm_served b' E' k r'"
  show "ssm_served b E' k r' \<or> k = name \<and> r' = ssm_source b0 E name \<and> ssm_recent b0 E E' r'"
  proof (cases rule: ssm_Get_cases [OF s])
    case (3 x)
    have "ssm_recent b0 E E' r'" if "se_now E' - cs_fetched x < sb_ttl b"
      using that 3(3) s(1) by (simp add: ssm_recent_def same_ssm_def)
    then show ?thesis using v 3 by (auto simp: ssm_served_def ssm_cached_store split: if_splits)
  qed (use v in simp_all)
qed

text \<open>
  C19. A secret read from Parameter Store is never older than the cache's lifetime: over any sequence of
  reads from an empty cache, every answer, a failure included, is what the store said to a read of the
  sequence of the same name: to this very read, or to an earlier one less than the lifetime ago. So a
  rotated or a removed parameter is honoured within the lifetime.
\<close>

theorem secret_never_stale:
  assumes "sb_cache b = []" "i < length calls" "calls ! i = (E, name)" "safeName E name = None" "run_gets ssm_Get calls b ! i = r"
  shows "\<exists>j E'. j \<le> i \<and> calls ! j = (E', name) \<and> r = ssm_fetch E' (sb_prefix b) name
     \<and> (j = i \<or> se_now E - se_now E' < sb_ttl b)"
proof -
  have "\<not> ssm_served b e k x" for e k x using assms(1) by (simp add: ssm_served_def ssm_cached_def)
  moreover have "same_ssm b b" by (simp add: same_ssm_def)
  ultimately obtain j E' where "j \<le> i" "calls ! j = (E', name)" "r = ssm_source b E' name" "j = i \<or> ssm_recent b E' E r"
    using ssm_cache.answers_traced assms(2,3,5) by metis
  then show ?thesis using safeName_any [OF assms(4), of E'] by (auto simp: ssm_source_def ssm_recent_def)
qed

definition sample_senv :: "int \<Rightarrow> string \<Rightarrow> senv" where
  "sample_senv t v = \<lparr>se_now = t, se_environ = [(''SPLITSCREEN_SECRET_A_B'', ''env'')], se_read = (\<lambda>_. FileError ''permission denied''),
     se_readdir = (\<lambda>_. None), se_rfc3339 = (\<lambda>_. Inl ''bad''), se_quote = (\<lambda>x. x),
     se_param = (\<lambda>_ decrypt. if decrypt then ParameterValue v else ParameterNotFound), se_pages = []\<rparr>"

definition sample_ssm :: SSMBackend where
  "sample_ssm = \<lparr>sb_prefix = ''/s'', sb_ttl = 300, sb_cache = []\<rparr>"

definition rotation :: "(senv \<times> string) list" where
  "rotation = [(sample_senv 0 ''old'', ''t''), (sample_senv 100 ''new'', ''t''), (sample_senv 400 ''new'', ''t'')]"

lemma rotation_reads:
  "run_gets ssm_Get rotation sample_ssm = [Inr \<lparr>sc_Name = ''t'', sc_Value = ''old'', sc_ExpiresAt = None\<rparr>,
     Inr \<lparr>sc_Name = ''t'', sc_Value = ''old'', sc_ExpiresAt = None\<rparr>, Inr \<lparr>sc_Name = ''t'', sc_Value = ''new'', sc_ExpiresAt = None\<rparr>]"
  by (simp add: rotation_def sample_ssm_def sample_senv_def ssm_Get_def safeName_def ssm_cached_def ssm_fetch_def ssm_store_def
      ssm_path_def TrimRightCRLF_def entry_answer_def)

theorem secret_never_stale_witness:
  "\<exists>j E'. j \<le> 2 \<and> rotation ! j = (E', ''t'') \<and> run_gets ssm_Get rotation sample_ssm ! 2 = ssm_fetch E' ''/s'' ''t''
     \<and> (j = 2 \<or> 400 - se_now E' < 300)"
proof -
  have e: "sb_cache sample_ssm = []" and l: "2 < length rotation" and c: "rotation ! 2 = (sample_senv 400 ''new'', ''t'')"
    and n: "safeName (sample_senv 400 ''new'') ''t'' = None"
    by (simp_all add: sample_ssm_def rotation_def safeName_None)
  from secret_never_stale [OF e l c n refl] show ?thesis
    by (simp add: sample_ssm_def sample_senv_def)
qed

text \<open>After an invalidation the next read asks the store.\<close>

lemma Invalidate_reads_through:
  "safeName E name = None \<Longrightarrow> snd (ssm_Get E name (ssm_Invalidate name b)) = ssm_fetch E (sb_prefix b) name"
  by (auto simp: ssm_Get_def ssm_cached_def ssm_Invalidate_def split: sum.split serr.split dest: fetch_not_found)

subsection \<open>The chain\<close>

text \<open>
  The answer is that of the first backend that does not report the name as missing: later ones are
  neither asked nor changed, so an outage of a backend is not papered over by the next one.
\<close>

lemma chain_first:
  assumes "\<forall>x\<in>set pre. \<exists>err. snd (Get E n x) = Inl err \<and> isNotFound err" "Get E n b = (b', r)"
    "\<forall>err. r = Inl err \<longrightarrow> \<not> isNotFound err"
  shows "chain_Get E n (pre @ b # post) = (map (\<lambda>x. fst (Get E n x)) pre @ b' # post, r)"
  using assms
proof (induction pre)
  case Nil
  then show ?case by (cases r) simp_all
next
  case (Cons x pre)
  then obtain err where "snd (Get E n x) = Inl err" "isNotFound err" by auto
  then obtain x' where "Get E n x = (x', Inl err)" by (metis prod.collapse)
  with Cons \<open>isNotFound err\<close> show ?case by simp
qed

lemma chain_missing:
  "\<forall>x\<in>set bs. \<exists>err. snd (Get E n x) = Inl err \<and> isNotFound err \<Longrightarrow> snd (chain_Get E n bs) = Inl (NotFoundErr n)"
proof (induction bs)
  case (Cons x bs)
  then obtain err where "snd (Get E n x) = Inl err" "isNotFound err" by auto
  then obtain x' where "Get E n x = (x', Inl err)" by (metis prod.collapse)
  with Cons \<open>isNotFound err\<close> show ?case by (cases "chain_Get E n bs") simp
qed simp

lemma isNotFound_NotFound [simp]: "isNotFound (NotFoundErr m)"
  by (simp add: isNotFound_def Contains_def sublist_append)

text \<open>What is found carries the name that was asked for.\<close>

lemma Get_name: "snd (Get E n b) = Inr s \<Longrightarrow> (case b of SSM x \<Rightarrow> sb_cache x = [] | _ \<Rightarrow> True) \<Longrightarrow> sc_Name s = n"
  by (cases b) (auto simp: env_Get_def dir_Get_def ssm_Get_def ssm_cached_def ssm_fetch_def Let_def
      split: option.splits file_read.splits sum.splits param_answer.splits serr.splits prod.splits)

text \<open>The warning path never carries a value, and names only secrets that expire in time.\<close>

lemma expiring_loop_blank:
  "s \<in> set (snd (expiring_loop E within ns bs)) \<Longrightarrow> sc_Value s = [] \<and> (\<exists>t. sc_ExpiresAt s = Some t \<and> t - se_now E \<le> within)"
proof (induction E within ns bs arbitrary: s rule: expiring_loop.induct)
  case (2 E within n ns bs)
  obtain bs' r where c: "chain_Get E n bs = (bs', r)" by fastforce
  obtain bs'' out where l: "expiring_loop E within ns bs' = (bs'', out)" by fastforce
  have IH: "x \<in> set out \<Longrightarrow> sc_Value x = [] \<and> (\<exists>t. sc_ExpiresAt x = Some t \<and> t - se_now E \<le> within)" for x
    using "2.IH" [OF c [symmetric], of x] l by simp
  show ?case using "2.prems" IH c l by (auto split: sum.splits option.splits if_splits)
qed simp

lemma Expiring_blank: "s \<in> set (snd (Expiring E within bs)) \<Longrightarrow> sc_Value s = []"
  using expiring_loop_blank by (simp add: Expiring_def)

text \<open>Names of the chain are listed once each.\<close>

lemma chain_Names_distinct: "distinct (chain_Names E bs)"
proof -
  have "distinct (fold (\<lambda>n out. if n \<in> set out then out else n # out) ns out)" if "distinct out" for ns and out :: "string list"
    using that by (induction ns arbitrary: out) auto
  then show ?thesis by (simp add: chain_Names_def)
qed

end
