(* ===== verification/Forge.thy ===== *)
theory Forge
  imports Gateway Proxy Caching
begin

text \<open>
  Forge credentials (internal/forge/forge.go): the GitHub App provider with its token cache and the
  static token. The key parsers, the signature of the App's assertion, the HTTP client and the JSON
  decoder of the token response are arguments. Times are seconds; a credential without an expiry has
  Go's zero time.
\<close>

subsection \<open>Providers\<close>

datatype Access = ReadWrite | ReadOnly

definition Access_String :: "Access \<Rightarrow> string" where
  "Access_String a = (if a = ReadOnly then ''read-only'' else ''read-write'')"

datatype parsed_key = RSAKey string | OtherKey string

record key_env =
  ke_pem :: "string \<Rightarrow> string option"
  ke_pkcs1 :: "string \<Rightarrow> string option"
  ke_pkcs8 :: "string \<Rightarrow> string + parsed_key"

datatype forge_err =
    NotPEM
  | KeyParse string
  | KeyKind string
  | MissingIDs
  | BadRepo string
  | SignFailed string
  | MintRequest string
  | MintCall string
  | MintStatus string string string
  | MintDecode string
  | EmptyToken

definition parseRSAKey :: "key_env \<Rightarrow> string \<Rightarrow> forge_err + string" where
  "parseRSAKey K pem =
     (case ke_pem K pem of None \<Rightarrow> Inl NotPEM
      | Some der \<Rightarrow> (case ke_pkcs1 K der of Some k \<Rightarrow> Inr k
          | None \<Rightarrow> (case ke_pkcs8 K der of
                Inl m \<Rightarrow> Inl (KeyParse m)
              | Inr (OtherKey t) \<Rightarrow> Inl (KeyKind t)
              | Inr (RSAKey k) \<Rightarrow> Inr k)))"

record GitHubApp =
  ga_AppID :: string
  ga_InstallationID :: string
  ga_key :: string
  ga_baseURL :: string
  ga_cache :: "Credential gomap"

definition NewGitHubApp :: "key_env \<Rightarrow> string \<Rightarrow> string \<Rightarrow> string \<Rightarrow> forge_err + GitHubApp" where
  "NewGitHubApp K appID installationID pem =
     (case parseRSAKey K pem of
        Inl m \<Rightarrow> Inl m
      | Inr key \<Rightarrow>
          if appID = [] \<or> installationID = [] then Inl MissingIDs
          else Inr \<lparr>ga_AppID = appID, ga_InstallationID = installationID, ga_key = key,
                    ga_baseURL = ''https://api.github.com'', ga_cache = []\<rparr>)"

record jwtClaims =
  jc_iat :: int
  jc_exp :: int
  jc_iss :: string

record mint_request =
  mq_URL :: string
  mq_Authorization :: string
  mq_repositories :: "string list"
  mq_permissions :: "(string \<times> string) list"

record forge_env =
  fo_now :: int
  fo_sign :: "string \<Rightarrow> jwtClaims \<Rightarrow> string + string"
  fo_NewRequest :: "string \<Rightarrow> string option"
  fo_Do :: "mint_request \<Rightarrow> string + http_response"
  fo_Unmarshal :: "string \<Rightarrow> string + (string \<times> int option)"

text \<open>The assertion of the App itself, backdated by a minute and good for nine.\<close>

definition appJWT :: "forge_env \<Rightarrow> GitHubApp \<Rightarrow> forge_err + string" where
  "appJWT E g =
     (case fo_sign E (ga_key g) \<lparr>jc_iat = fo_now E - 60, jc_exp = fo_now E + 9 * 60, jc_iss = ga_AppID g\<rparr> of
        Inl m \<Rightarrow> Inl (SignFailed m)
      | Inr t \<Rightarrow> Inr t)"

definition SplitRepo :: "string \<Rightarrow> forge_err + (string \<times> string)" where
  "SplitRepo repo =
     (case Cut repo (CHR ''/'') of (owner, name, ok) \<Rightarrow>
        if \<not> ok \<or> owner = [] \<or> name = [] \<or> CHR ''/'' \<in> set name then Inl (BadRepo repo)
        else Inr (owner, name))"

subsection \<open>Minting\<close>

definition cache_key :: "string \<Rightarrow> Access \<Rightarrow> string" where
  "cache_key repo access = repo @ ''#'' @ Access_String access"

definition cache_fresh :: "forge_env \<Rightarrow> Credential \<Rightarrow> bool" where
  "cache_fresh E c = (case cd_ExpiresAt c of None \<Rightarrow> False | Some t \<Rightarrow> fo_now E + 5 * 60 < t)"

definition token_request :: "GitHubApp \<Rightarrow> string \<Rightarrow> string \<Rightarrow> Access \<Rightarrow> mint_request" where
  "token_request g jwt name access =
     \<lparr>mq_URL = ga_baseURL g @ ''/app/installations/'' @ ga_InstallationID g @ ''/access_tokens'',
      mq_Authorization = ''Bearer '' @ jwt, mq_repositories = [name],
      mq_permissions = (if access = ReadOnly then [(''contents'', ''read''), (''metadata'', ''read'')] else [])\<rparr>"

definition maxToken :: nat where "maxToken = 2 ^ 20"

text \<open>What GitHub answers to a request: the credential it stands for, or why there is none.\<close>

definition token_answer :: "forge_env \<Rightarrow> string \<Rightarrow> http_response \<Rightarrow> forge_err + Credential" where
  "token_answer E repo resp =
     (let payload = take maxToken (hp_Body resp) in
      if hp_StatusCode resp div 100 \<noteq> 2 then Inl (MintStatus repo (hp_Status resp) (TrimSpace payload))
      else (case fo_Unmarshal E payload of
              Inl m \<Rightarrow> Inl (MintDecode m)
            | Inr (token, expires) \<Rightarrow>
                if token = [] then Inl EmptyToken
                else Inr \<lparr>cd_Username = ''x-access-token'', cd_Token = token, cd_ExpiresAt = expires\<rparr>))"

definition fetch_token :: "forge_env \<Rightarrow> GitHubApp \<Rightarrow> string \<Rightarrow> string \<Rightarrow> Access \<Rightarrow> forge_err + Credential" where
  "fetch_token E g repo name access =
     (case appJWT E g of
        Inl m \<Rightarrow> Inl m
      | Inr jwt \<Rightarrow>
          (let q = token_request g jwt name access in
           case fo_NewRequest E (mq_URL q) of
             Some m \<Rightarrow> Inl (MintRequest m)
           | None \<Rightarrow> (case fo_Do E q of
                 Inl m \<Rightarrow> Inl (MintCall m)
               | Inr resp \<Rightarrow> token_answer E repo resp)))"

definition cached_token :: "forge_env \<Rightarrow> string \<Rightarrow> GitHubApp \<Rightarrow> Credential option" where
  "cached_token E key g =
     (case map_of (ga_cache g) key of None \<Rightarrow> None | Some c \<Rightarrow> if cache_fresh E c then Some c else None)"

definition Mint :: "forge_env \<Rightarrow> string \<Rightarrow> Access \<Rightarrow> GitHubApp \<Rightarrow> GitHubApp \<times> (forge_err + Credential)" where
  "Mint E repo access g =
     (case SplitRepo repo of
        Inl m \<Rightarrow> (g, Inl m)
      | Inr (_, name) \<Rightarrow>
          (let key = cache_key repo access in
           case cached_token E key g of
             Some c \<Rightarrow> (g, Inr c)
           | None \<Rightarrow>
               (case fetch_token E g repo name access of
                  Inl m \<Rightarrow> (g, Inl m)
                | Inr cred \<Rightarrow> (g\<lparr>ga_cache := put key cred (ga_cache g)\<rparr>, Inr cred))))"

text \<open>What GitHub would answer now, the cache left aside; and the operation as a cache of it.\<close>

definition mint_source :: "GitHubApp \<Rightarrow> forge_env \<Rightarrow> string \<times> Access \<Rightarrow> forge_err + Credential" where
  "mint_source g E k = (case SplitRepo (fst k) of Inl m \<Rightarrow> Inl m | Inr (_, name) \<Rightarrow> fetch_token E g (fst k) name (snd k))"

definition mint_get :: "forge_env \<Rightarrow> string \<times> Access \<Rightarrow> GitHubApp \<Rightarrow> GitHubApp \<times> (forge_err + Credential)" where
  "mint_get E k g = Mint E (fst k) (snd k) g"

record StaticToken =
  st_Username :: string
  st_Token :: string
  st_Expires :: "int option"

definition StaticToken_Mint :: "string \<Rightarrow> Access \<Rightarrow> StaticToken \<Rightarrow> forge_err + Credential" where
  "StaticToken_Mint repo access s =
     (case SplitRepo repo of
        Inl m \<Rightarrow> Inl m
      | Inr _ \<Rightarrow> Inr \<lparr>cd_Username = if st_Username s = [] then ''x-access-token'' else st_Username s,
                      cd_Token = st_Token s, cd_ExpiresAt = st_Expires s\<rparr>)"

subsection \<open>Names and slots\<close>

lemma SplitRepo_iff:
  "SplitRepo repo = Inr (owner, name) \<longleftrightarrow>
     repo = owner @ CHR ''/'' # name \<and> owner \<noteq> [] \<and> name \<noteq> [] \<and> CHR ''/'' \<notin> set owner \<and> CHR ''/'' \<notin> set name"
proof
  assume l: "SplitRepo repo = Inr (owner, name)"
  then have "Cut repo (CHR ''/'') = (owner, name, True)" "owner \<noteq> []" "name \<noteq> []" "CHR ''/'' \<notin> set name"
    by (simp_all add: SplitRepo_def split: prod.splits if_splits)
  with Cut_join show "repo = owner @ CHR ''/'' # name \<and> owner \<noteq> [] \<and> name \<noteq> [] \<and> CHR ''/'' \<notin> set owner \<and> CHR ''/'' \<notin> set name"
    by blast
next
  assume r: "repo = owner @ CHR ''/'' # name \<and> owner \<noteq> [] \<and> name \<noteq> [] \<and> CHR ''/'' \<notin> set owner \<and> CHR ''/'' \<notin> set name"
  then have "Cut repo (CHR ''/'') = (owner, name, True)" using Cut_append by simp
  then show "SplitRepo repo = Inr (owner, name)" using r by (simp add: SplitRepo_def)
qed

text \<open>Read-only and read-write tokens live in different slots, and so do different repositories.\<close>

lemma cache_key_inj: "cache_key r1 a1 = cache_key r2 a2 \<longleftrightarrow> r1 = r2 \<and> a1 = a2"
proof -
  have "r1 @ ''#read-only'' \<noteq> r2 @ ''#read-write''" for r1 r2 :: string
  proof
    assume "r1 @ ''#read-only'' = r2 @ ''#read-write''"
    then have "last (r1 @ ''#read-only'') = last (r2 @ ''#read-write'')" by simp
    then show False by simp
  qed
  then show ?thesis by (cases a1; cases a2) (auto simp: cache_key_def Access_String_def)
qed

lemma fetch_fields:
  "ga_AppID g' = ga_AppID g \<Longrightarrow> ga_InstallationID g' = ga_InstallationID g \<Longrightarrow> ga_key g' = ga_key g \<Longrightarrow>
   ga_baseURL g' = ga_baseURL g \<Longrightarrow> fetch_token E g' repo name access = fetch_token E g repo name access"
proof -
  assume f: "ga_AppID g' = ga_AppID g" "ga_InstallationID g' = ga_InstallationID g" "ga_key g' = ga_key g" "ga_baseURL g' = ga_baseURL g"
  then have "token_request g' jwt name access = token_request g jwt name access" for jwt
    by (simp only: token_request_def)
  then show ?thesis using f by (simp only: fetch_token_def appJWT_def)
qed

subsection \<open>Whose token a credential is\<close>

definition mint_served :: "GitHubApp \<Rightarrow> forge_env \<Rightarrow> string \<times> Access \<Rightarrow> forge_err + Credential \<Rightarrow> bool" where
  "mint_served g E k r \<longleftrightarrow> (\<exists>c. r = Inr c \<and> cached_token E (cache_key (fst k) (snd k)) g = Some c)"

definition still_good :: "forge_env \<Rightarrow> forge_env \<Rightarrow> forge_err + Credential \<Rightarrow> bool" where
  "still_good E' E r \<longleftrightarrow> (\<exists>c t. r = Inr c \<and> cd_ExpiresAt c = Some t \<and> fo_now E + 5 * 60 < t)"

definition same_app :: "GitHubApp \<Rightarrow> GitHubApp \<Rightarrow> bool" where
  "same_app g0 g \<longleftrightarrow> ga_AppID g = ga_AppID g0 \<and> ga_InstallationID g = ga_InstallationID g0 \<and> ga_key g = ga_key g0
     \<and> ga_baseURL g = ga_baseURL g0"

lemma same_app_fetch: "same_app g0 g \<Longrightarrow> fetch_token E g repo name access = fetch_token E g0 repo name access"
  unfolding same_app_def by (rule fetch_fields) blast+

lemma Mint_cases:
  assumes "same_app g0 g" "mint_get E k g = (g', r)"
  obtains "g' = g" "mint_served g E k r"
  | "g' = g" "r = mint_source g0 E k"
  | c where "r = Inr c" "r = mint_source g0 E k" "g' = g\<lparr>ga_cache := put (cache_key (fst k) (snd k)) c (ga_cache g)\<rparr>"
proof (cases "SplitRepo (fst k)")
  case (Inl m)
  with assms(2) show ?thesis by (intro that(2)) (simp_all add: mint_get_def Mint_def mint_source_def)
next
  case (Inr on)
  obtain owner name where s: "SplitRepo (fst k) = Inr (owner, name)" using Inr by (cases on) simp
  let ?key = "cache_key (fst k) (snd k)"
  have src: "mint_source g0 E k = fetch_token E g (fst k) name (snd k)"
    using s same_app_fetch [OF assms(1)] by (simp add: mint_source_def)
  show ?thesis
  proof (cases "cached_token E ?key g")
    case (Some c)
    with s assms(2) show ?thesis by (intro that(1)) (simp_all add: mint_get_def Mint_def mint_served_def)
  next
    case None
    show ?thesis
    proof (cases "fetch_token E g (fst k) name (snd k)")
      case (Inl m)
      with s None assms(2) src show ?thesis by (intro that(2)) (simp_all add: mint_get_def Mint_def)
    next
      case (Inr c)
      with s None assms(2) src show ?thesis by (intro that(3) [of c]) (simp_all add: mint_get_def Mint_def)
    qed
  qed
qed

interpretation app_cache: look_aside mint_get "mint_source g0" mint_served still_good "same_app g0" for g0
proof
  fix s E k s' r
  assume s: "same_app g0 s" "mint_get E k s = (s', r)"
  show "same_app g0 s'" using s by (cases rule: Mint_cases [OF s]) (simp_all add: same_app_def)
  show "r = mint_source g0 E k \<or> mint_served s E k r" using s by (cases rule: Mint_cases [OF s]) simp_all
  fix E' k' r'
  assume v: "mint_served s' E' k' r'"
  then obtain c' where c': "r' = Inr c'" "map_of (ga_cache s') (cache_key (fst k') (snd k')) = Some c'" "cache_fresh E' c'"
    by (auto simp: mint_served_def cached_token_def split: option.splits if_splits)
  have good: "still_good E E' r'" using c' by (auto simp: still_good_def cache_fresh_def split: option.splits)
  show "mint_served s E' k' r' \<or> k' = k \<and> r' = mint_source g0 E k \<and> still_good E E' r'"
  proof (cases rule: Mint_cases [OF s])
    case (3 c)
    show ?thesis
    proof (cases "k' = k")
      case True
      then show ?thesis using 3 c' good by simp
    next
      case False
      then have "cache_key (fst k') (snd k') \<noteq> cache_key (fst k) (snd k)" using cache_key_inj by (auto simp: prod_eq_iff)
      then show ?thesis using 3 c' by (simp add: mint_served_def cached_token_def)
    qed
  qed (use v in simp_all)
qed


definition sample_app :: GitHubApp where
  "sample_app = \<lparr>ga_AppID = ''1'', ga_InstallationID = ''2'', ga_key = ''k'', ga_baseURL = ''https://api.github.com'', ga_cache = []\<rparr>"

definition sample_forge :: "int \<Rightarrow> forge_env" where
  "sample_forge t = \<lparr>fo_now = t, fo_sign = (\<lambda>_ _. Inr ''jwt''), fo_NewRequest = (\<lambda>_. None),
     fo_Do = (\<lambda>q. Inr \<lparr>hp_StatusCode = 201, hp_Status = [], hp_ContentType = [], hp_Body = concat (mq_repositories q), hp_ReadErr = None\<rparr>),
     fo_Unmarshal = (\<lambda>b. Inr (take 3 b, Some 4000))\<rparr>"

definition sample_calls :: "(forge_env \<times> string \<times> Access) list" where
  "sample_calls = [(sample_forge 0, ''o/web'', ReadWrite), (sample_forge 10, ''o/web'', ReadOnly), (sample_forge 20, ''o/web'', ReadOnly)]"

lemma sample_mints: "run_gets mint_get sample_calls sample_app ! 2 =
    Inr \<lparr>cd_Username = ''x-access-token'', cd_Token = ''web'', cd_ExpiresAt = Some 4000\<rparr>"
  by (simp add: sample_calls_def sample_app_def sample_forge_def mint_get_def Mint_def SplitRepo_def Cut_def cached_token_def
      cache_fresh_def fetch_token_def appJWT_def token_request_def token_answer_def maxToken_def Let_def cache_key_def Access_String_def)


subsection \<open>Scope and lifetime\<close>

text \<open>What is asked for: one repository name, and read access only when the access is read-only.\<close>

lemma token_request_scope:
  "mq_repositories (token_request g jwt name access) = [name]"
  "mq_permissions (token_request g jwt name ReadOnly) = [(''contents'', ''read''), (''metadata'', ''read'')]"
  by (simp_all add: token_request_def)

text \<open>A credential from the cache is good for more than five minutes.\<close>

lemma cached_token_lasts:
  "cached_token E key g = Some c \<Longrightarrow> \<exists>t. cd_ExpiresAt c = Some t \<and> fo_now E + 300 < t"
  by (auto simp: cached_token_def cache_fresh_def split: option.splits if_splits)

text \<open>
  The owner is not part of the request: two references that differ in it only are answered with the
  same token, that of the installation's own repository of that name.
\<close>

lemma owner_is_not_sent:
  assumes "SplitRepo r1 = Inr (o1, name)" "SplitRepo r2 = Inr (o2, name)" "fetch_token E g r1 name access = Inr c"
  shows "snd (Mint E r2 access (g\<lparr>ga_cache := []\<rparr>)) = Inr c"
proof -
  have "token_answer E r2 x = Inr c" if "token_answer E r1 x = Inr c" for x
    using that by (auto simp: token_answer_def Let_def split: if_splits sum.splits)
  then have "fetch_token E g r2 name access = Inr c"
    using assms(3) by (auto simp: fetch_token_def Let_def split: sum.splits option.splits)
  moreover have "fetch_token E (g\<lparr>ga_cache := []\<rparr>) r2 name access = fetch_token E g r2 name access"
    by (rule fetch_fields) simp_all
  ultimately have "fetch_token E (g\<lparr>ga_cache := []\<rparr>) r2 name access = Inr c" by simp
  then show ?thesis using assms(2) by (simp add: Mint_def cached_token_def)
qed

text \<open>A static token is the same whatever is asked for.\<close>

lemma static_token_unscoped:
  "StaticToken_Mint r1 a1 s = Inr c \<Longrightarrow> SplitRepo r2 = Inr x \<Longrightarrow> StaticToken_Mint r2 a2 s = Inr c"
  by (auto simp: StaticToken_Mint_def split: sum.splits)

end
