(* ===== verification/Slack.thy ===== *)
theory Slack
  imports Dispatch
begin

text \<open>
  The Slack surface (internal/surface/slackx): the directory of names (directory.go), the filter and the
  normalization of inbound events, the permission buttons, the outbound calls and the reading of Slack's
  errors (slack.go), and the part of mrkdwn.go that keeps code apart from prose. Slack's answers are
  arguments; so is \<open>conv\<close>, the rewriting of prose, which theory Mrkdwn supplies.
  Times are seconds.
\<close>

subsection \<open>The directory\<close>

record userEntry =
  ue_display :: string
  ue_email :: string
  ue_at :: int
  ue_failed :: bool

record chanEntry =
  ce_name :: string
  ce_at :: int
  ce_failed :: bool

record directory =
  dr_users :: "userEntry gomap"
  dr_chans :: "chanEntry gomap"

record slackUser =
  su_DisplayName :: string
  su_ProfileRealName :: string
  su_RealName :: string
  su_Name :: string
  su_Email :: string

definition directoryTTL :: int where "directoryTTL = 3600"
definition directoryFailTTL :: int where "directoryFailTTL = 10 * 60"

definition newDirectory :: directory where "newDirectory = \<lparr>dr_users = [], dr_chans = []\<rparr>"

definition dir_fresh :: "int \<Rightarrow> int \<Rightarrow> bool \<Rightarrow> bool" where
  "dir_fresh now at_time failed \<longleftrightarrow> now - at_time < (if failed then directoryFailTTL else directoryTTL)"

definition userDisplay :: "slackUser \<Rightarrow> string" where
  "userDisplay u =
     (case find (\<lambda>n. n \<noteq> []) (map TrimSpace [su_DisplayName u, su_ProfileRealName u, su_RealName u, su_Name u]) of
        None \<Rightarrow> [] | Some n \<Rightarrow> n)"

text \<open>\<open>answer\<close>: what the API says about the id, \<open>None\<close> for an error or no user.\<close>

definition dir_user :: "int \<Rightarrow> (string \<Rightarrow> slackUser option) \<Rightarrow> string \<Rightarrow> directory \<Rightarrow> directory \<times> string \<times> string" where
  "dir_user now api i d =
     (if i = [] then (d, [], [])
      else let e = (case map_of (dr_users d) i of Some e \<Rightarrow> e
                    | None \<Rightarrow> \<lparr>ue_display = [], ue_email = [], ue_at = 0, ue_failed = False\<rparr>) in
        if has_key (dr_users d) i \<and> dir_fresh now (ue_at e) (ue_failed e) then (d, ue_display e, ue_email e)
        else (case api i of
            None \<Rightarrow> (let e' = e\<lparr>ue_at := now, ue_failed := True\<rparr> in
                (d\<lparr>dr_users := put i e' (dr_users d)\<rparr>, ue_display e', ue_email e'))
          | Some u \<Rightarrow> (let e' = \<lparr>ue_display = userDisplay u, ue_email = su_Email u, ue_at = now, ue_failed = False\<rparr> in
                (d\<lparr>dr_users := put i e' (dr_users d)\<rparr>, ue_display e', ue_email e'))))"

definition rememberChannel :: "int \<Rightarrow> string \<Rightarrow> string \<Rightarrow> directory \<Rightarrow> directory" where
  "rememberChannel now i name d =
     (if name = [] then d
      else d\<lparr>dr_chans := put i \<lparr>ce_name = name, ce_at = now, ce_failed = False\<rparr> (dr_chans d)\<rparr>)"

definition dir_channel :: "int \<Rightarrow> (string \<Rightarrow> string option) \<Rightarrow> string \<Rightarrow> directory \<Rightarrow> directory \<times> string" where
  "dir_channel now api i d =
     (if i = [] then (d, [])
      else let e = (case map_of (dr_chans d) i of Some e \<Rightarrow> e
                    | None \<Rightarrow> \<lparr>ce_name = [], ce_at = 0, ce_failed = False\<rparr>) in
        if has_key (dr_chans d) i \<and> dir_fresh now (ce_at e) (ce_failed e) then (d, ce_name e)
        else (case api i of
            None \<Rightarrow> (d\<lparr>dr_chans := put i (e\<lparr>ce_at := now, ce_failed := True\<rparr>) (dr_chans d)\<rparr>, ce_name e)
          | Some n \<Rightarrow> (rememberChannel now i n d, n)))"

subsection \<open>Inbound events\<close>

record slackFile =
  sf_Name :: string
  sf_Mimetype :: string
  sf_Size :: int
  sf_URLPrivateDownload :: string
  sf_URLPrivate :: string

record MessageEvent =
  me_User :: string
  me_BotID :: string
  me_SubType :: string
  me_Text :: string
  me_Channel :: string
  me_ChannelType :: string
  me_TimeStamp :: string
  me_ThreadTimeStamp :: string
  me_Username :: string
  me_Message :: "(string \<times> slackFile list) option"

record slack_env =
  sl_now :: int
  sl_users :: "string \<Rightarrow> slackUser option"
  sl_chans :: "string \<Rightarrow> string option"
  sl_file :: "string \<Rightarrow> opened"

record slackSurface =
  ss_selfID :: string
  ss_botID :: string
  ss_teamID :: string
  ss_noStream :: bool
  ss_dir :: directory

definition NewSlack :: "string \<Rightarrow> string \<Rightarrow> string + slackSurface" where
  "NewSlack botToken appToken =
     (if \<not> HasPrefix botToken ''xoxb-'' then Inl ''slack: bot token should start with xoxb-''
      else if \<not> HasPrefix appToken ''xapp-'' then Inl ''slack: app token should start with xapp-''
      else Inr \<lparr>ss_selfID = [], ss_botID = [], ss_teamID = [], ss_noStream = False, ss_dir = newDirectory\<rparr>)"

text \<open>What Start learns of the app before it pumps events.\<close>

definition Start_auth :: "string + (string \<times> string \<times> string) \<Rightarrow> slackSurface \<Rightarrow> slackSurface \<times> string option" where
  "Start_auth answer s =
     (case answer of
        Inl m \<Rightarrow> (s, Some (''slack: auth test: '' @ m))
      | Inr (userID, botID, teamID) \<Rightarrow> (s\<lparr>ss_selfID := userID, ss_botID := botID, ss_teamID := teamID\<rparr>, None))"

definition accept_event :: "MessageEvent \<Rightarrow> string \<Rightarrow> string \<Rightarrow> bool" where
  "accept_event ev selfID botID =
     (if me_User ev \<noteq> [] \<and> me_User ev = selfID then False
      else if me_BotID ev \<noteq> [] \<and> me_BotID ev = botID then False
      else if me_SubType ev = [] \<or> me_SubType ev = ''file_share'' then me_User ev \<noteq> []
      else if me_SubType ev = ''bot_message'' then me_BotID ev \<noteq> []
      else False)"

definition inboundFile :: "slack_env \<Rightarrow> slackFile \<Rightarrow> File" where
  "inboundFile E f = \<lparr>fl_Name = sf_Name f, fl_Mime = sf_Mimetype f, fl_Size = sf_Size f,
     fl_Open = sl_file E (if sf_URLPrivateDownload f = [] then sf_URLPrivate f else sf_URLPrivateDownload f)\<rparr>"

definition enrich :: "slack_env \<Rightarrow> Inbound \<Rightarrow> slackSurface \<Rightarrow> slackSurface \<times> Inbound" where
  "enrich E inb s =
     (let (s1, in1) =
            (if usr_ID (in_User inb) \<noteq> in_BotID inb
             then (case dir_user (sl_now E) (sl_users E) (usr_ID (in_User inb)) (ss_dir s) of
                     (d, display, email) \<Rightarrow> (s\<lparr>ss_dir := d\<rparr>,
                       inb\<lparr>in_User := (in_User inb)\<lparr>usr_Display := display, usr_Email := email\<rparr>\<rparr>))
             else (s, inb))
      in if in_IsDM in1 then (s1, in1)
         else (case dir_channel (sl_now E) (sl_chans E) (in_Channel in1) (ss_dir s1) of
                 (d, name) \<Rightarrow> (s1\<lparr>ss_dir := d\<rparr>, in1\<lparr>in_ChannelName := name\<rparr>)))"

text \<open>The message as the gateway sees it, before names are added.\<close>

definition inbound_of :: "slack_env \<Rightarrow> slackSurface \<Rightarrow> MessageEvent \<Rightarrow> Inbound" where
  "inbound_of E s ev =
     (let isDM = (me_ChannelType ev = ''im'');
          txt = (if me_Text ev = [] then (case me_Message ev of None \<Rightarrow> [] | Some (t, _) \<Rightarrow> t) else me_Text ev)
      in \<lparr>in_Surface = ''slack'', in_Channel = me_Channel ev,
          in_Thread = (if me_ThreadTimeStamp ev = [] then me_TimeStamp ev else me_ThreadTimeStamp ev),
          in_User = (if me_User ev = [] then \<lparr>usr_ID = me_BotID ev, usr_Display = me_Username ev, usr_Email = []\<rparr>
                     else \<lparr>usr_ID = me_User ev, usr_Display = [], usr_Email = []\<rparr>),
          in_Text = txt, in_IsDM = isDM,
          in_Addressed = (isDM \<or> Contains txt (''<@'' @ ss_selfID s @ ''>'')),
          in_Files = (case me_Message ev of None \<Rightarrow> [] | Some (_, fs) \<Rightarrow> map (inboundFile E) fs),
          in_ChannelName = [], in_BotID = me_BotID ev\<rparr>)"

definition handleEvent :: "slack_env \<Rightarrow> MessageEvent \<Rightarrow> slackSurface \<Rightarrow> slackSurface \<times> Inbound option" where
  "handleEvent E ev s =
     (if \<not> accept_event ev (ss_selfID s) (ss_botID s) then (s, None)
      else (case enrich E (inbound_of E s ev) s of (s', inb) \<Rightarrow> (s', Some inb)))"

subsection \<open>Buttons and clicks\<close>

definition permissionAction :: string where "permissionAction = ''splitscreen_permission''"

record blockAction =
  ba_ActionID :: string
  ba_Value :: string

record buttonElement =
  be_ActionID :: string
  be_Value :: string
  be_Label :: string
  be_Style :: string

definition button :: "string \<Rightarrow> Decision \<Rightarrow> string \<Rightarrow> string \<Rightarrow> buttonElement" where
  "button label decision requestID style =
     \<lparr>be_ActionID = permissionAction @ ''_'' @ decision_string decision,
      be_Value = requestID @ ''|'' @ decision_string decision, be_Label = label, be_Style = style\<rparr>"

definition prompt_buttons :: "string \<Rightarrow> buttonElement list" where
  "prompt_buttons requestID = [button ''Allow'' DecisionAllow requestID ''primary'',
     button ''Session'' DecisionAllowSession requestID [], button ''Deny'' DecisionDeny requestID ''danger'']"

text \<open>The click on a button, as Slack reports it.\<close>

definition click_of :: "buttonElement \<Rightarrow> blockAction" where
  "click_of b = \<lparr>ba_ActionID = be_ActionID b, ba_Value = be_Value b\<rparr>"

definition protocol_Decision :: "string \<Rightarrow> Decision" where
  "protocol_Decision s =
     (if s = ''allow'' then DecisionAllow else if s = ''allow_session'' then DecisionAllowSession
      else if s = ''allow_always'' then DecisionAllowAlways else if s = ''deny'' then DecisionDeny else DecisionOther s)"

text \<open>The decisions handed to the gateway, each with the message it was clicked in.\<close>

definition handleInteraction :: "bool \<Rightarrow> User \<Rightarrow> Ref \<Rightarrow> blockAction list \<Rightarrow> (SurfaceDecision \<times> Ref) list" where
  "handleInteraction block_actions user ref actions =
     (if \<not> block_actions then []
      else concat (map (\<lambda>a.
        if \<not> HasPrefix (ba_ActionID a) permissionAction then []
        else (case Cut (ba_Value a) CHR ''|'' of (requestID, decision, ok) \<Rightarrow>
          if \<not> ok then []
          else [(\<lparr>sd_RequestID = requestID, sd_User = user\<lparr>usr_Email := []\<rparr>, sd_Decision = protocol_Decision decision\<rparr>, ref)])) actions))"

subsection \<open>Markdown\<close>

text \<open>A fenced block from its opening backquotes: what it spans, and the rest.\<close>

definition backquote :: char where "backquote = CHR 0x60"
definition fence :: string where "fence = [backquote, backquote, backquote]"

fun find_sub :: "string \<Rightarrow> string \<Rightarrow> nat option" where
  "find_sub sub [] = (if sub = [] then Some 0 else None)"
| "find_sub sub (c # cs) = (if prefix sub (c # cs) then Some 0 else map_option Suc (find_sub sub cs))"

definition next_fence :: "string \<Rightarrow> (nat \<times> nat) option" where
  "next_fence s =
     (case find_sub fence s of None \<Rightarrow> None
      | Some i \<Rightarrow> (case find_sub fence (drop (i + 3) s) of None \<Rightarrow> None | Some j \<Rightarrow> Some (i, i + j + 6)))"

text \<open>Inline code: a backquote, anything but backquotes and newlines, a backquote.\<close>

fun next_inline :: "string \<Rightarrow> (nat \<times> nat) option" where
  "next_inline [] = None"
| "next_inline (c # cs) =
     (if c = backquote
      then (let body = takeWhile (\<lambda>x. x \<noteq> backquote \<and> x \<noteq> newline) cs in
            if drop (length body) cs \<noteq> [] \<and> cs ! length body = backquote then Some (0, length body + 2)
            else map_option (\<lambda>(i, j). (i + 1, j + 1)) (next_inline cs))
      else map_option (\<lambda>(i, j). (i + 1, j + 1)) (next_inline cs))"

text \<open>Matches are found from left to right and do not overlap; what lies between is rewritten.\<close>

function mapOutside :: "(string \<Rightarrow> (nat \<times> nat) option) \<Rightarrow> (string \<Rightarrow> string) \<Rightarrow> string \<Rightarrow> string" where
  "mapOutside next f s =
     (case next s of None \<Rightarrow> f s
      | Some (i, j) \<Rightarrow> if j = 0 \<or> length s < j then f s
          else f (take i s) @ take (j - i) (drop i s) @ mapOutside next f (drop j s))"
  by pat_completeness auto
termination
  by (relation "measure (\<lambda>(_, _, s). length s)") auto

declare mapOutside.simps [simp del]

definition ToMrkdwn :: "(string \<Rightarrow> string) \<Rightarrow> string \<Rightarrow> string" where
  "ToMrkdwn conv s = mapOutside next_fence (mapOutside next_inline conv) s"

subsection \<open>Outbound\<close>

datatype MsgOption =
    OptText string | OptTS string | OptUsername string | OptIconURL string | OptIconEmoji string
  | OptBlocks "string list" "buttonElement list" | OptTaskDisplayPlan | OptRecipientUser string | OptRecipientTeam string

datatype slackCall =
    PostMessage string "MsgOption list"
  | PostEphemeral string string "MsgOption list"
  | UpdateMessage string string "MsgOption list"
  | SetThreadStatus string string string "MsgOption list"
  | StartStream string "MsgOption list"

definition icon_option :: "string \<Rightarrow> MsgOption list" where
  "icon_option icon = (if icon = [] then [] else [if HasPrefix icon ''http'' then OptIconURL icon else OptIconEmoji icon])"

definition personaOptions :: "Persona \<Rightarrow> MsgOption list" where
  "personaOptions p = (if pe_Name p = [] then [] else [OptUsername (pe_Name p)]) @ icon_option (pe_Icon p)"

definition thread_option :: "string \<Rightarrow> MsgOption list" where
  "thread_option t = (if t = [] then [] else [OptTS t])"

definition slack_Post :: "(string \<Rightarrow> string) \<Rightarrow> (slackCall \<Rightarrow> string + (string \<times> string)) \<Rightarrow> Post \<Rightarrow> slackCall \<times> (string + Ref)" where
  "slack_Post conv api p =
     (let opts = [OptText (ToMrkdwn conv (po_Text p))] @ thread_option (po_Thread p) @ personaOptions (po_Persona p) in
      if po_Ephemeral p \<and> po_User p \<noteq> []
      then (let c = PostEphemeral (po_Channel p) (po_User p) opts in
        (c, case api c of Inl m \<Rightarrow> Inl (''slack: post ephemeral: '' @ m)
            | Inr (_, ts) \<Rightarrow> Inr \<lparr>ref_Channel = po_Channel p, ref_Thread = po_Thread p, ref_ID = ts\<rparr>))
      else (let c = PostMessage (po_Channel p) opts in
        (c, case api c of Inl m \<Rightarrow> Inl (''slack: post: '' @ m)
            | Inr (channel, ts) \<Rightarrow> Inr \<lparr>ref_Channel = channel, ref_Thread = po_Thread p, ref_ID = ts\<rparr>)))"

definition slack_Update :: "(string \<Rightarrow> string) \<Rightarrow> (slackCall \<Rightarrow> string option) \<Rightarrow> Ref \<Rightarrow> Post \<Rightarrow> slackCall \<times> string option" where
  "slack_Update conv api ref p =
     (let c = UpdateMessage (ref_Channel ref) (ref_ID ref) ([OptText (ToMrkdwn conv (po_Text p))] @ personaOptions (po_Persona p)) in
      (c, map_option (\<lambda>m. ''slack: update: '' @ m) (api c)))"

definition truncated_mark :: string where
  "truncated_mark = [newline] @ ellipsis @ '' truncated''"

definition slack_truncate :: "string \<Rightarrow> nat \<Rightarrow> string" where
  "slack_truncate s n = (if length s \<le> n then s else take n s @ truncated_mark)"

definition prompt_header :: "(string \<Rightarrow> string) \<Rightarrow> Prompt \<Rightarrow> string" where
  "prompt_header conv p = ''*Permission requested*'' @ emdash @ [backquote] @ pt_Tool p @ [backquote]
     @ (if pt_Summary p = [] then [] else [newline] @ ToMrkdwn conv (pt_Summary p))"

definition slack_Prompt :: "(string \<Rightarrow> string) \<Rightarrow> (slackCall \<Rightarrow> string + (string \<times> string)) \<Rightarrow> Prompt \<Rightarrow> slackCall \<times> (string + Ref)" where
  "slack_Prompt conv api p =
     (let sections = [prompt_header conv p]
            @ (if pt_Detail p = [] then [] else [fence @ [newline] @ slack_truncate (pt_Detail p) 2500 @ [newline] @ fence]);
          c = PostMessage (pt_Channel p) ([OptBlocks sections (prompt_buttons (pt_RequestID p)), OptText (''Permission requested: '' @ pt_Tool p)]
            @ thread_option (pt_Thread p) @ personaOptions (pt_Persona p)) in
      (c, case api c of Inl m \<Rightarrow> Inl (''slack: prompt: '' @ m)
          | Inr (channel, ts) \<Rightarrow> Inr \<lparr>ref_Channel = channel, ref_Thread = pt_Thread p, ref_ID = ts\<rparr>))"

definition slack_Resolve :: "(string \<Rightarrow> string) \<Rightarrow> (slackCall \<Rightarrow> string option) \<Rightarrow> Ref \<Rightarrow> string \<Rightarrow> slackCall \<times> string option" where
  "slack_Resolve conv api ref txt =
     (let t = ToMrkdwn conv txt; c = UpdateMessage (ref_Channel ref) (ref_ID ref) [OptBlocks [t] [], OptText t] in
      (c, map_option (\<lambda>m. ''slack: resolve prompt: '' @ m) (api c)))"

text \<open>The upload is one call of the library.\<close>

record slackUpload =
  up_Channel :: string
  up_Thread :: string
  up_Name :: string
  up_Size :: int
  up_Comment :: string
  up_Content :: string

definition slack_Upload :: "(slackUpload \<Rightarrow> string option) \<Rightarrow> slackUpload \<Rightarrow> string option" where
  "slack_Upload api u = map_option (\<lambda>m. ''slack: upload: '' @ m) (api u)"

text \<open>A status failure: Slack's own error code, or anything else.\<close>

datatype status_error = SlackError string | TransportError string
datatype status_result = StatusOK | StatusUnavailableErr string | StatusTransient string

definition transient_codes :: "string list" where
  "transient_codes = [''ratelimited'', ''internal_error'', ''fatal_error'', ''service_unavailable'', ''request_timeout'']"

definition slack_SetStatus :: "(slackCall \<Rightarrow> status_error option) \<Rightarrow> string \<Rightarrow> string \<Rightarrow> string \<Rightarrow> Persona \<Rightarrow> slackCall \<times> status_result" where
  "slack_SetStatus api channel thread txt persona =
     (let c = SetThreadStatus channel thread txt ([OptUsername (pe_Name persona)] @ icon_option (pe_Icon persona)) in
      (c, case api c of
            None \<Rightarrow> StatusOK
          | Some (TransportError m) \<Rightarrow> StatusTransient m
          | Some (SlackError code) \<Rightarrow> if code \<in> set transient_codes then StatusTransient code else StatusUnavailableErr code))"

subsection \<open>Membership\<close>

datatype Membership = MembershipUnknown | MembershipJoined | MembershipNotJoined

record ChannelInfo =
  ci_ID :: string
  ci_Name :: string
  ci_Membership :: Membership
  ci_Detail :: string

definition slack_Channel :: "int \<Rightarrow> (string \<Rightarrow> string + (string \<times> bool)) \<Rightarrow> string \<Rightarrow> slackSurface \<Rightarrow> slackSurface \<times> ChannelInfo" where
  "slack_Channel now api i s =
     (let info = \<lparr>ci_ID = i, ci_Name = [], ci_Membership = MembershipUnknown, ci_Detail = []\<rparr> in
      case api i of
        Inl m \<Rightarrow>
          (s, if Contains m ''missing_scope''
              then info\<lparr>ci_Detail := ''needs the channels:read scope (groups:read for private channels)''\<rparr>
              else if Contains m ''channel_not_found''
              then info\<lparr>ci_Membership := MembershipNotJoined, ci_Detail := ''channel not found, or private and not joined''\<rparr>
              else info\<lparr>ci_Detail := m\<rparr>)
      | Inr (name, member) \<Rightarrow>
          (s\<lparr>ss_dir := rememberChannel now i name (ss_dir s)\<rparr>,
           if member then info\<lparr>ci_Name := name, ci_Membership := MembershipJoined\<rparr>
           else info\<lparr>ci_Name := name, ci_Membership := MembershipNotJoined, ci_Detail := ''invite the bot into the channel''\<rparr>))"

subsection \<open>Names\<close>

text \<open>A lookup that fails keeps the name known before.\<close>

lemma stale_name_kept:
  "i \<noteq> [] \<Longrightarrow> map_of (dr_users d) i = Some e \<Longrightarrow> api i = None \<Longrightarrow> snd (dir_user now api i d) = (ue_display e, ue_email e)"
  by (auto simp: dir_user_def Let_def has_key_def)

lemma fresh_name_costs_nothing:
  "map_of (dr_users d) i = Some e \<Longrightarrow> dir_fresh now (ue_at e) (ue_failed e) \<Longrightarrow> fst (dir_user now api i d) = d"
  by (auto simp: dir_user_def Let_def has_key_def)

text \<open>A failure is remembered for ten minutes, so it is not rediscovered on every message.\<close>

lemma failure_remembered:
  assumes "i \<noteq> []" "api i = None" "dir_user now api i d = (d', n)" "map_of (dr_users d) i = None"
    "t < now + directoryFailTTL"
  shows "dir_user t api' i d' = (d', n)"
  using assms by (auto simp: dir_user_def Let_def has_key_def dir_fresh_def)

subsection \<open>What reaches the gateway\<close>

lemma enrich_fields:
  "in_BotID (snd (enrich E inb s)) = in_BotID inb" "usr_ID (in_User (snd (enrich E inb s))) = usr_ID (in_User inb)"
  "in_Text (snd (enrich E inb s)) = in_Text inb" "in_Files (snd (enrich E inb s)) = in_Files inb"
  "in_Addressed (snd (enrich E inb s)) = in_Addressed inb" "in_IsDM (snd (enrich E inb s)) = in_IsDM inb"
proof -
  obtain d1 n m where u: "dir_user (sl_now E) (sl_users E) (usr_ID (in_User inb)) (ss_dir s) = (d1, n, m)" by (metis prod_cases3)
  obtain d2 c2 where c: "dir_channel (sl_now E) (sl_chans E) (in_Channel inb) (ss_dir s) = (d2, c2)" by fastforce
  obtain d3 c3 where c': "dir_channel (sl_now E) (sl_chans E) (in_Channel inb) d1 = (d3, c3)" by fastforce
  show "in_BotID (snd (enrich E inb s)) = in_BotID inb" "usr_ID (in_User (snd (enrich E inb s))) = usr_ID (in_User inb)"
    "in_Text (snd (enrich E inb s)) = in_Text inb" "in_Files (snd (enrich E inb s)) = in_Files inb"
    "in_Addressed (snd (enrich E inb s)) = in_Addressed inb" "in_IsDM (snd (enrich E inb s)) = in_IsDM inb"
    by (simp_all add: enrich_def Let_def u c c')
qed

text \<open>
  C36. The bot never hears itself, and no message is without a sender: a message that reaches the gateway
  was written by another user, or by another bot, which is then marked, edits, deletions and joins
  are dropped, and the sender's id is not empty.
\<close>

theorem bot_never_hears_itself:
  assumes "handleEvent E ev s = (s', Some inb)" "ss_selfID s \<noteq> []" "ss_botID s \<noteq> []"
  shows "usr_ID (in_User inb) \<noteq> [] \<and> me_User ev \<noteq> ss_selfID s \<and> in_BotID inb = me_BotID ev \<and> in_BotID inb \<noteq> ss_botID s
     \<and> usr_ID (in_User inb) \<in> {me_User ev, me_BotID ev} \<and> me_SubType ev \<in> {[], ''file_share'', ''bot_message''}"
proof -
  have a: "accept_event ev (ss_selfID s) (ss_botID s)" and i: "inb = snd (enrich E (inbound_of E s ev) s)"
    using assms(1) by (auto simp: handleEvent_def split: if_splits prod.splits)
  have b: "in_BotID inb = me_BotID ev" "usr_ID (in_User inb) = (if me_User ev = [] then me_BotID ev else me_User ev)"
    using enrich_fields(1,2) [of E "inbound_of E s ev" s] i by (simp_all add: inbound_of_def Let_def)
  show ?thesis using a b assms(2,3) by (auto simp: accept_event_def split: if_splits)
qed

definition sample_slack :: slackSurface where
  "sample_slack = \<lparr>ss_selfID = ''U0'', ss_botID = ''B0'', ss_teamID = ''T0'', ss_noStream = False, ss_dir = newDirectory\<rparr>"

definition sample_slack_env :: slack_env where
  "sample_slack_env = \<lparr>sl_now = 0, sl_users = (\<lambda>_. None), sl_chans = (\<lambda>_. Some ''general''), sl_file = (\<lambda>_. OpenFails ''x'')\<rparr>"

definition alert_event :: MessageEvent where
  "alert_event = \<lparr>me_User = [], me_BotID = ''B7'', me_SubType = ''bot_message'', me_Text = ''disk full'', me_Channel = ''C1'',
     me_ChannelType = ''channel'', me_TimeStamp = ''1.2'', me_ThreadTimeStamp = [], me_Username = ''alerts'', me_Message = None\<rparr>"

theorem bot_never_hears_itself_witness:
  "(case handleEvent sample_slack_env alert_event sample_slack of (_, Some inb) \<Rightarrow> in_BotID inb = ''B7'' | _ \<Rightarrow> False)"
proof -
  obtain s' r where h: "handleEvent sample_slack_env alert_event sample_slack = (s', r)" by fastforce
  have "accept_event alert_event ''U0'' ''B0''" by (simp add: accept_event_def alert_event_def)
  then obtain inb where i: "r = Some inb" using h
    by (auto simp: handleEvent_def sample_slack_def split: prod.splits)
  have n: "ss_selfID sample_slack \<noteq> []" "ss_botID sample_slack \<noteq> []" by (simp_all add: sample_slack_def)
  from bot_never_hears_itself [OF h [unfolded i] n] have "in_BotID inb = ''B7''" by (simp add: alert_event_def)
  then show ?thesis by (simp only: h i prod.case option.case)
qed

text \<open>A mention makes a message addressed, an upload's caption included.\<close>

lemma caption_is_addressed:
  "me_Text ev = [] \<Longrightarrow> me_Message ev = Some (cap, fs) \<Longrightarrow> Contains cap (''<@'' @ ss_selfID s @ ''>'') \<Longrightarrow>
     in_Addressed (inbound_of E s ev)"
  by (simp add: inbound_of_def Let_def)

subsection \<open>Clicks\<close>

lemma Decision_string_roundtrip: "(\<forall>x. d \<noteq> DecisionOther x) \<Longrightarrow> protocol_Decision (decision_string d) = d"
  by (cases d) (simp_all add: protocol_Decision_def)

text \<open>
  C37. A click decides the request it was shown for: whatever button of a prompt is clicked, the gateway
  receives exactly one decision, with the prompt's request id, the button's decision and the person
  who clicked, provided the id has no vertical bar.
\<close>

theorem click_decides_its_request:
  assumes "CHR ''|'' \<notin> set requestID" "\<forall>x. d \<noteq> DecisionOther x"
  shows "handleInteraction True user ref [click_of (button label d requestID style)] =
     [(\<lparr>sd_RequestID = requestID, sd_User = user\<lparr>usr_Email := []\<rparr>, sd_Decision = d\<rparr>, ref)]"
proof -
  have "Cut (requestID @ ''|'' @ decision_string d) CHR ''|'' = (requestID, decision_string d, True)"
    using Cut_append [OF assms(1), of "decision_string d"] by simp
  moreover have "HasPrefix (permissionAction @ x) permissionAction" for x by (simp add: HasPrefix_def)
  ultimately show ?thesis using Decision_string_roundtrip [OF assms(2)]
    by (simp add: handleInteraction_def click_of_def button_def)
qed

theorem click_decides_its_request_witness:
  "handleInteraction True \<lparr>usr_ID = ''U1'', usr_Display = ''Ann'', usr_Email = []\<rparr> \<lparr>ref_Channel = ''C1'', ref_Thread = ''1.2'', ref_ID = ''1.3''\<rparr>
     [click_of (button ''Deny'' DecisionDeny ''perm_1'' ''danger'')] =
   [(\<lparr>sd_RequestID = ''perm_1'', sd_User = \<lparr>usr_ID = ''U1'', usr_Display = ''Ann'', usr_Email = []\<rparr>, sd_Decision = DecisionDeny\<rparr>,
     \<lparr>ref_Channel = ''C1'', ref_Thread = ''1.2'', ref_ID = ''1.3''\<rparr>)]"
  using click_decides_its_request [of "''perm_1''" DecisionDeny] by simp

text \<open>A request id with a bar is cut short: the decision is no longer the button's.\<close>

lemma barred_request_is_misread:
  assumes "CHR ''|'' \<notin> set a"
  shows "handleInteraction True user ref [click_of (button label DecisionAllow (a @ ''|'' @ b) style)] =
     [(\<lparr>sd_RequestID = a, sd_User = user\<lparr>usr_Email := []\<rparr>, sd_Decision = protocol_Decision (b @ ''|allow'')\<rparr>, ref)]"
proof -
  have "Cut ((a @ ''|'' @ b) @ ''|'' @ decision_string DecisionAllow) CHR ''|'' = (a, b @ ''|allow'', True)"
    using Cut_append [OF assms, of "b @ ''|allow''"] by simp
  moreover have "HasPrefix (permissionAction @ x) permissionAction" for x by (simp add: HasPrefix_def)
  ultimately show ?thesis by (simp add: handleInteraction_def click_of_def button_def)
qed

subsection \<open>Code is not rewritten\<close>

lemma find_sub_skip:
  assumes "c \<notin> set a" "sub = c # cs"
  shows "find_sub sub (a @ sub @ rest) = Some (length a)"
  using assms(1)
proof (induction a)
  case Nil
  then show ?case by (simp add: assms(2))
next
  case (Cons x a)
  then show ?case using assms(2) by (simp add: Cons_prefix_Cons)
qed

lemma mapOutside_step:
  "next s = Some (i, j) \<Longrightarrow> 0 < j \<Longrightarrow> j \<le> length s \<Longrightarrow>
     mapOutside next f s = f (take i s) @ take (j - i) (drop i s) @ mapOutside next f (drop j s)"
  by (subst mapOutside.simps) simp

text \<open>A fenced block is posted as it was written, and the text around it is converted on its own.\<close>

lemma fenced_code_kept:
  assumes "backquote \<notin> set a" "backquote \<notin> set body"
  shows "ToMrkdwn conv (a @ fence @ body @ fence @ rest) =
     mapOutside next_inline conv a @ fence @ body @ fence @ ToMrkdwn conv rest"
proof -
  let ?s = "a @ fence @ body @ fence @ rest"
  have f: "find_sub fence ?s = Some (length a)" "find_sub fence (body @ fence @ rest) = Some (length body)"
    using find_sub_skip [OF assms(1), of fence "[backquote, backquote]"] find_sub_skip [OF assms(2), of fence "[backquote, backquote]"]
    by (simp_all add: fence_def)
  have d: "drop (length a + 3) ?s = body @ fence @ rest" by (simp add: fence_def)
  have n: "next_fence ?s = Some (length a, length a + length body + 6)" by (simp only: next_fence_def f d option.case)
  have l: "length a + length body + 6 \<le> length ?s" by (simp add: fence_def)
  have w: "?s = (a @ fence @ body @ fence) @ rest" "drop (length a) ?s = (fence @ body @ fence) @ rest" by simp_all
  have len: "length a + length body + 6 = length (a @ fence @ body @ fence)"
    "length a + length body + 6 - length a = length (fence @ body @ fence)" by (simp_all add: fence_def)
  have cut: "take (length x) (x @ rest) = x" "drop (length x) (x @ rest) = rest" for x :: string by simp_all
  have t: "take (length a + length body + 6 - length a) (drop (length a) ?s) = fence @ body @ fence"
    unfolding w(2) len(2) by (rule cut(1))
  have r: "drop (length a + length body + 6) ?s = rest"
    unfolding w(1) len(1) by (rule cut(2))
  have p: "0 < length a + length body + 6" by simp
  have "take (length a) ?s = a" by simp
  with mapOutside_step [of next_fence ?s, OF n p l, of "mapOutside next_inline conv"] t r show ?thesis by (simp only: ToMrkdwn_def append.assoc)
qed

subsection \<open>Membership\<close>

text \<open>A missing scope is not reported as a channel the bot has not joined.\<close>

lemma missing_scope_is_unknown:
  "api i = Inl m \<Longrightarrow> Contains m ''missing_scope'' \<Longrightarrow> ci_Membership (snd (slack_Channel now api i s)) = MembershipUnknown"
  by (simp add: slack_Channel_def Let_def)

end
