(* ===== verification/Startup.thy ===== *)
theory Startup
  imports Conns Secrets Forge Slack
begin

text \<open>
  What the commands do before anything runs (cmd/splitscreen/gateway.go, tools.go, runner.go): the
  gateway's secret backends, the check that the secrets it needs exist, its surface and its forge; the
  enrollment of a runner; where a runner's token comes from; and the client that starts machines
  (internal/wake/wake.go). The file system, the AWS SDK, the random source and the key parsers are
  arguments; flags and printed text are left out.
\<close>

subsection \<open>Secret backends and the check of them\<close>

record start_env =
  su_senv :: senv
  su_stat :: dir_stat
  su_aws :: "string \<Rightarrow> string + string"
  su_keys :: key_env
  su_keyfile :: "string \<Rightarrow> string + string"
  su_store :: "string \<Rightarrow> string option"

datatype start_error =
    SecretError string serr
  | ForgeError forge_err
  | StartError string
  | Unresolved "string list"

definition secrets_dir :: "start_env \<Rightarrow> Config \<Rightarrow> serr + backend list" where
  "secrets_dir E c =
     (if g_SecretsDir (Gateway c) = [] then Inr []
      else (case NewDirBackend (g_SecretsDir (Gateway c)) (su_stat E) of Inl m \<Rightarrow> Inl m | Inr d \<Rightarrow> Inr [DirBackend d]))"

definition secrets_ssm :: "start_env \<Rightarrow> Config \<Rightarrow> serr + backend list" where
  "secrets_ssm E c =
     (if g_SSMPrefix (Gateway c) = [] then Inr []
      else (case NewSSMBackend (su_aws E) (se_quote (su_senv E)) (g_SSMPrefix (Gateway c)) (g_SSMRegion (Gateway c)) (g_SSMCacheTTL (Gateway c)) of
              Inl m \<Rightarrow> Inl m | Inr b \<Rightarrow> Inr [SSM b]))"

definition buildSecrets :: "start_env \<Rightarrow> Config \<Rightarrow> serr + backend list" where
  "buildSecrets E c =
     (case secrets_dir E c of Inl m \<Rightarrow> Inl m
      | Inr ds \<Rightarrow> (case secrets_ssm E c of Inl m \<Rightarrow> Inl m
          | Inr bs \<Rightarrow> Inr (ds @ bs @ [EnvBackend env_prefix])))"

record secretReport =
  sr_Fatal :: "string list"
  sr_Unenrolled :: "string gomap"

definition harness_secrets :: "Config \<Rightarrow> string list" where
  "harness_secrets c = concat (map (\<lambda>(_, r). case r of None \<Rightarrow> []
     | Some r \<Rightarrow> if r_HarnessSecret r = [] then [] else [r_HarnessSecret r]) (Runners c))"

definition nonToken :: "Config \<Rightarrow> string \<Rightarrow> bool" where
  "nonToken c n \<longleftrightarrow> (n \<in> set (SecretRefs c) \<and> map_of (RunnerTokenSecrets c) n = None) \<or> n \<in> set (harness_secrets c)"

text \<open>Each reference is resolved in turn; a lookup may fill a cache.\<close>

fun check_refs :: "senv \<Rightarrow> Config \<Rightarrow> string list \<Rightarrow> backend list \<Rightarrow> secretReport \<Rightarrow> backend list \<times> secretReport" where
  "check_refs S c [] bs rep = (bs, rep)"
| "check_refs S c (n # ns) bs rep =
     (case chain_Get S n bs of
        (bs', Inr _) \<Rightarrow> check_refs S c ns bs' rep
      | (bs', Inl _) \<Rightarrow> check_refs S c ns bs'
          (if nonToken c n then rep\<lparr>sr_Fatal := sr_Fatal rep @ [n]\<rparr>
           else rep\<lparr>sr_Unenrolled := put (get_or [] (RunnerTokenSecrets c) n) n (sr_Unenrolled rep)\<rparr>))"

definition checkSecrets :: "senv \<Rightarrow> Config \<Rightarrow> backend list \<Rightarrow> backend list \<times> secretReport" where
  "checkSecrets S c bs =
     (case check_refs S c (SecretRefs c) bs \<lparr>sr_Fatal = [], sr_Unenrolled = []\<rparr> of
        (bs', rep) \<Rightarrow> (bs', rep\<lparr>sr_Fatal := sort (sr_Fatal rep)\<rparr>))"

definition verifySecrets :: "senv \<Rightarrow> Config \<Rightarrow> backend list \<Rightarrow> backend list \<times> start_error option" where
  "verifySecrets S c bs =
     (case checkSecrets S c bs of (bs', rep) \<Rightarrow> (bs', if sr_Fatal rep = [] then None else Some (Unresolved (sr_Fatal rep))))"

subsection \<open>The surface and the forge\<close>

definition buildSurfaces :: "senv \<Rightarrow> Config \<Rightarrow> backend list \<Rightarrow> backend list \<times> (start_error + slackSurface gomap)" where
  "buildSurfaces S c bs =
     (if g_BotTokenSecret (Gateway c) = []
      then (bs, Inl (StartError ''gateway: no surfaces are configured; nothing could reach a runner''))
      else (case chain_Get S (g_BotTokenSecret (Gateway c)) bs of
        (b1, Inl m) \<Rightarrow> (b1, Inl (SecretError ''gateway: slack bot token'' m))
      | (b1, Inr btok) \<Rightarrow> (case chain_Get S (g_AppTokenSecret (Gateway c)) b1 of
            (b2, Inl m) \<Rightarrow> (b2, Inl (SecretError ''gateway: slack app token'' m))
          | (b2, Inr atok) \<Rightarrow> (b2, (case NewSlack (sc_Value btok) (sc_Value atok) of
                Inl m \<Rightarrow> Inl (StartError m) | Inr s \<Rightarrow> Inr [(''slack'', s)])))))"

datatype forge_provider = NoForge | AppForge GitHubApp | TokenForge StaticToken

definition buildForge :: "start_env \<Rightarrow> Config \<Rightarrow> backend list \<Rightarrow> backend list \<times> (start_error + forge_provider)" where
  "buildForge E c bs =
     (let f = g_Forge (Gateway c) in
      if f_Kind f = [] then (bs, Inr NoForge)
      else if f_Kind f = ForgeGitHubApp
      then (bs, (case su_keyfile E (f_KeyFile f) of
              Inl m \<Rightarrow> Inl (StartError (''gateway: read forge key: '' @ m))
            | Inr key \<Rightarrow> (case NewGitHubApp (su_keys E) (f_AppID f) (f_InstallationID f) key of
                  Inl m \<Rightarrow> Inl (ForgeError m) | Inr p \<Rightarrow> Inr (AppForge p))))
      else if f_Kind f = ForgeStatic
      then (case chain_Get (su_senv E) (f_TokenSecret f) bs of
              (b1, Inl m) \<Rightarrow> (b1, Inl (SecretError ''gateway: forge token'' m))
            | (b1, Inr tok) \<Rightarrow> (b1, Inr (TokenForge \<lparr>st_Username = f_Username f, st_Token = sc_Value tok, st_Expires = sc_ExpiresAt tok\<rparr>)))
      else (bs, Inl (StartError (''gateway: unknown forge kind '' @ se_quote (su_senv E) (f_Kind f)))))"

definition storePath :: "string \<Rightarrow> Config \<Rightarrow> string" where
  "storePath cfgPath c =
     (let p = g_Store (Gateway c) in
      if IsAbs p then p else path_join [path_dir cfgPath, p])"

record started =
  sg_store :: string
  sg_secrets :: "backend list"
  sg_surfaces :: "slackSurface gomap"
  sg_forge :: forge_provider
  sg_wakeRegion :: string

text \<open>The options the gateway is made from, or why it does not start.\<close>

definition gateway_options :: "start_env \<Rightarrow> string \<Rightarrow> string + Config \<Rightarrow> start_error + started" where
  "gateway_options E cfgPath loaded =
     (case loaded of Inl m \<Rightarrow> Inl (StartError m)
      | Inr c \<Rightarrow> (case buildSecrets E c of Inl m \<Rightarrow> Inl (SecretError [] m)
      | Inr b0 \<Rightarrow> (case verifySecrets (su_senv E) c b0 of (_, Some m) \<Rightarrow> Inl m
      | (b1, None) \<Rightarrow> (case su_store E (storePath cfgPath c) of Some m \<Rightarrow> Inl (StartError m)
      | None \<Rightarrow> (case buildSurfaces (su_senv E) c b1 of (_, Inl m) \<Rightarrow> Inl m
      | (b2, Inr ss) \<Rightarrow> (case buildForge E c b2 of (_, Inl m) \<Rightarrow> Inl m
      | (b3, Inr fg) \<Rightarrow> Inr \<lparr>sg_store = storePath cfgPath c, sg_secrets = b3, sg_surfaces = ss, sg_forge = fg,
                           sg_wakeRegion = g_SSMRegion (Gateway c)\<rparr>))))))"

subsection \<open>What the gateway needs to start\<close>

lemma ssm_Get_other:
  assumes "m \<noteq> n"
  shows "snd (ssm_Get S m (fst (ssm_Get S n b))) = snd (ssm_Get S m b)"
proof -
  obtain b' r where g: "ssm_Get S n b = (b', r)" by fastforce
  have "same_ssm b b" by (simp add: same_ssm_def)
  then have "b' = b \<or> (\<exists>x. b' = ssm_store n x b)" using g by (cases rule: ssm_Get_cases) auto
  moreover have "snd (ssm_Get S m (ssm_store n x b)) = snd (ssm_Get S m b)" for x
  proof -
    have "ssm_cached S m (ssm_store n x b) = ssm_cached S m b" using assms by (simp add: ssm_cached_store)
    moreover have "sb_prefix (ssm_store n x b) = sb_prefix b" by (simp add: ssm_store_def)
    ultimately show ?thesis
      by (simp add: ssm_Get_def split: option.split sum.split serr.split)
  qed
  ultimately show ?thesis using g by auto
qed

lemma Get_other: "m \<noteq> n \<Longrightarrow> snd (Get S m (fst (Get S n b))) = snd (Get S m b)"
proof (cases b)
  case (SSM x)
  assume "m \<noteq> n"
  then have "snd (ssm_Get S m (fst (ssm_Get S n x))) = snd (ssm_Get S m x)" by (rule ssm_Get_other)
  then show ?thesis using SSM by (simp add: case_prod_beta)
qed simp_all

lemma chain_Get_head:
  "chain_Get S n (b # bs) =
     (fst (Get S n b) # (case snd (Get S n b) of Inr _ \<Rightarrow> bs | Inl x \<Rightarrow> if isNotFound x then fst (chain_Get S n bs) else bs),
      (case snd (Get S n b) of Inr s \<Rightarrow> Inr s | Inl x \<Rightarrow> if isNotFound x then snd (chain_Get S n bs) else Inl x))"
  by (cases "Get S n b"; cases "chain_Get S n bs") (simp split: sum.split)

lemma chain_Get_other: "m \<noteq> n \<Longrightarrow> snd (chain_Get S m (fst (chain_Get S n bs))) = snd (chain_Get S m bs)"
proof (induction bs)
  case (Cons b bs)
  have g: "snd (Get S m (fst (Get S n b))) = snd (Get S m b)" using Cons.prems by (rule Get_other)
  show ?case
  proof (cases "snd (Get S n b)")
    case (Inr s)
    then show ?thesis by (simp add: chain_Get_head g del: chain_Get.simps)
  next
    case (Inl x)
    have IH: "snd (chain_Get S m (fst (chain_Get S n bs))) = snd (chain_Get S m bs)" by (rule Cons.IH [OF Cons.prems])
    from Inl show ?thesis by (cases "snd (Get S m b)") (simp_all add: chain_Get_head g IH del: chain_Get.simps)
  qed
qed simp

definition resolves :: "senv \<Rightarrow> backend list \<Rightarrow> string \<Rightarrow> bool" where
  "resolves S bs n \<longleftrightarrow> (case snd (chain_Get S n bs) of Inl _ \<Rightarrow> False | Inr _ \<Rightarrow> True)"

lemma resolves_other: "m \<noteq> n \<Longrightarrow> resolves S (fst (chain_Get S n bs)) m = resolves S bs m"
  by (simp add: resolves_def chain_Get_other)

lemma check_refs_Fatal:
  "distinct ns \<Longrightarrow> sr_Fatal (snd (check_refs S c ns bs rep))
     = sr_Fatal rep @ filter (\<lambda>n. \<not> resolves S bs n \<and> nonToken c n) ns"
proof (induction ns arbitrary: bs rep)
  case (Cons n ns)
  have rest: "filter (\<lambda>m. \<not> resolves S (fst (chain_Get S n bs)) m \<and> nonToken c m) ns
      = filter (\<lambda>m. \<not> resolves S bs m \<and> nonToken c m) ns"
    using Cons.prems by (intro filter_cong refl) (metis distinct.simps(2) resolves_other)
  show ?case
  proof (cases "snd (chain_Get S n bs)")
    case (Inr s)
    then have step: "check_refs S c (n # ns) bs rep = check_refs S c ns (fst (chain_Get S n bs)) rep"
      by (cases "chain_Get S n bs") simp
    show ?thesis using Cons.prems Inr by (simp add: step Cons.IH rest del: check_refs.simps) (simp add: resolves_def)
  next
    case (Inl m)
    then have step: "check_refs S c (n # ns) bs rep = check_refs S c ns (fst (chain_Get S n bs))
        (if nonToken c n then rep\<lparr>sr_Fatal := sr_Fatal rep @ [n]\<rparr>
         else rep\<lparr>sr_Unenrolled := put (get_or [] (RunnerTokenSecrets c) n) n (sr_Unenrolled rep)\<rparr>)"
      by (cases "chain_Get S n bs") simp
    have "\<not> resolves S bs n" using Inl by (simp add: resolves_def)
    then show ?thesis using Cons.prems by (simp add: step Cons.IH rest del: check_refs.simps)
  qed
qed simp

lemma SecretRefs_distinct: "distinct (SecretRefs c)"
  by (simp add: SecretRefs_def)


definition start_cfg :: "string \<Rightarrow> Config" where
  "start_cfg app = sample_config\<lparr>Gateway := (Gateway sample_config)\<lparr>g_BotTokenSecret := ''bot'', g_AppTokenSecret := app,
     g_Forge := (g_Forge (Gateway sample_config))\<lparr>f_TokenSecret := []\<rparr>\<rparr>\<rparr>"

definition start_senv :: senv where
  "start_senv = (sample_senv 0 [])\<lparr>se_environ := [(''SPLITSCREEN_SECRET_BOT'', ''xoxb-1''), (''SPLITSCREEN_SECRET_APP'', ''xapp-1'')]\<rparr>"

lemma start_refs:
  "SecretRefs (start_cfg ''app'') = [''bot'', ''app'', ''runner-box'']"
  "SecretRefs (start_cfg ''runner-box'') = [''bot'', ''runner-box'']"
  "RunnerTokenSecrets (start_cfg app) = [(''runner-box'', ''box'')]" "harness_secrets (start_cfg app) = []"
  by (simp_all add: SecretRefs_def RunnerTokenSecrets_def harness_secrets_def start_cfg_def sample_config_def sample_runner_def
      EffectiveTokenSecret_def put_def)

lemma start_lookups:
  "chain_Get start_senv ''bot'' [EnvBackend env_prefix] = ([EnvBackend env_prefix], Inr \<lparr>sc_Name = ''bot'', sc_Value = ''xoxb-1'', sc_ExpiresAt = None\<rparr>)"
  "chain_Get start_senv ''app'' [EnvBackend env_prefix] = ([EnvBackend env_prefix], Inr \<lparr>sc_Name = ''app'', sc_Value = ''xapp-1'', sc_ExpiresAt = None\<rparr>)"
  "chain_Get start_senv ''runner-box'' [EnvBackend env_prefix] = ([EnvBackend env_prefix], Inl (NotFoundErr ''runner-box''))"
  by code_simp+


text \<open>
  A name that is a runner's enrollment token and the app token of the surface at once is reported as an
  unenrolled runner when it is missing: the check passes and building the surface fails.
\<close>

lemma shared_token_name_is_not_fatal:
  "snd (verifySecrets start_senv (start_cfg ''runner-box'') [EnvBackend env_prefix]) = None"
  "snd (buildSurfaces start_senv (start_cfg ''runner-box'') [EnvBackend env_prefix])
     = Inl (SecretError ''gateway: slack app token'' (NotFoundErr ''runner-box''))"
proof -
  show "snd (verifySecrets start_senv (start_cfg ''runner-box'') [EnvBackend env_prefix]) = None"
    by (simp add: verifySecrets_def checkSecrets_def start_refs start_lookups nonToken_def del: chain_Get.simps)
  have "g_BotTokenSecret (Gateway (start_cfg a)) = ''bot''" "g_AppTokenSecret (Gateway (start_cfg a)) = a" for a
    by (simp_all add: start_cfg_def)
  then show "snd (buildSurfaces start_senv (start_cfg ''runner-box'') [EnvBackend env_prefix])
     = Inl (SecretError ''gateway: slack app token'' (NotFoundErr ''runner-box''))"
    by (simp add: buildSurfaces_def start_lookups del: chain_Get.simps)
qed

subsection \<open>Enrollment\<close>

record enroll_env =
  el_random :: "string + nat list"
  el_stdin :: "string + string"
  el_load :: "string + Config"
  el_exists :: "string \<Rightarrow> bool"
  el_write :: "string \<Rightarrow> string option"
  el_quote :: "string \<Rightarrow> string"

text \<open>\<open>base64.RawURLEncoding\<close>: the URL alphabet, without padding.\<close>

definition url_char :: "char \<Rightarrow> char" where
  "url_char c = (if c = CHR ''+'' then CHR ''-'' else if c = CHR ''/'' then CHR ''_'' else c)"

definition raw_url64 :: "nat list \<Rightarrow> string" where
  "raw_url64 bs = map url_char (filter (\<lambda>c. c \<noteq> CHR ''='') (base64 bs))"

definition minTokenLen :: nat where "minTokenLen = 32"

definition token_stop :: "char set" where
  "token_stop = {CHR '' '', CHR 0x09, CHR 0x0D, CHR 0x0A, CHR 0x27, CHR 0x22}"

definition enrollmentToken :: "enroll_env \<Rightarrow> bool \<Rightarrow> string + string" where
  "enrollmentToken E fromStdin =
     (if \<not> fromStdin then (case el_random E of Inl m \<Rightarrow> Inl m | Inr raw \<Rightarrow> Inr (raw_url64 raw))
      else (case el_stdin E of
        Inl m \<Rightarrow> Inl (''splitscreen: read token: '' @ m)
      | Inr raw \<Rightarrow>
          (let token = TrimSpace (take 4096 raw) in
           if length token < minTokenLen
           then Inl (''splitscreen: the token on stdin is '' @ nat_string (length token) @ '' characters; at least '' @ nat_string minTokenLen @ '' are required'')
           else if set token \<inter> token_stop \<noteq> {} then Inl ''splitscreen: the token on stdin contains whitespace or quotes''
           else Inr token)))"

record enrolled =
  er_Token :: string
  er_SecretName :: string
  er_Stored :: string

text \<open>The command; a file that is written holds the token. A runner without a body would crash it.\<close>

definition enroll_write :: "enroll_env \<Rightarrow> string \<Rightarrow> bool \<Rightarrow> string \<Rightarrow> string + enrolled" where
  "enroll_write E name force token =
     (case el_load E of Inl m \<Rightarrow> Inl (''--write needs a valid config to find the secret store:'' @ [CHR 0x0A] @ m)
      | Inr c \<Rightarrow> (case map_of (Runners c) name of
          None \<Rightarrow> Inl (''no runner named '' @ el_quote E name @ '' is configured'')
        | Some None \<Rightarrow> Inl ''nil runner''
        | Some (Some rc) \<Rightarrow>
            (let secretName = EffectiveTokenSecret rc name; dest = path_join [g_SecretsDir (Gateway c), secretName] in
             if g_SecretsDir (Gateway c) = []
             then Inl (''--write needs gateway.secrets_dir; for the ssm backend, put the value at '' @ g_SSMPrefix (Gateway c) @ ''/'' @ secretName @ '' instead'')
             else if el_exists E dest \<and> \<not> force
             then Inl (dest @ '' already exists; pass --force to replace it (every runner using the old token will be locked out)'')
             else (case el_write E dest of Some m \<Rightarrow> Inl (''splitscreen: write secret: '' @ m)
                   | None \<Rightarrow> Inr \<lparr>er_Token = token, er_SecretName = secretName, er_Stored = dest\<rparr>))))"

definition enroll :: "enroll_env \<Rightarrow> string \<Rightarrow> bool \<Rightarrow> bool \<Rightarrow> bool \<Rightarrow> string + enrolled" where
  "enroll E name write force tokenStdin =
     (if \<not> ValidSlug name
      then Inl (''splitscreen: '' @ el_quote E name @ '' is not a valid runner name (lowercase letters, digits, dashes)'')
      else (case enrollmentToken E tokenStdin of Inl m \<Rightarrow> Inl m
        | Inr token \<Rightarrow> if write then enroll_write E name force token
            else Inr \<lparr>er_Token = token, er_SecretName = ''runner-'' @ name, er_Stored = []\<rparr>))"

subsection \<open>The runner's token\<close>

definition runner_token :: "string \<Rightarrow> string \<Rightarrow> (string \<Rightarrow> string + string) \<Rightarrow> string \<Rightarrow> string + string" where
  "runner_token token tokenFile readFile env_token =
     (case (if token = [] \<and> tokenFile \<noteq> []
            then (case readFile tokenFile of Inl m \<Rightarrow> Inl (''runner: read token file: '' @ m) | Inr raw \<Rightarrow> Inr (TrimSpace raw))
            else Inr token) of
        Inl m \<Rightarrow> Inl m
      | Inr t \<Rightarrow> if t \<noteq> [] then Inr t
          else if env_token \<noteq> [] then Inr env_token
          else Inl ''runner: no enrollment token (use --token-file or SPLITSCREEN_TOKEN)'')"

definition runner_cwd :: "string \<Rightarrow> bool option \<Rightarrow> (string \<Rightarrow> string) \<Rightarrow> string option" where
  "runner_cwd cwd isDir quote =
     (if cwd = [] then Some ''runner: --cwd is required; it is the working tree the agent operates on''
      else if isDir \<noteq> Some True then Some (''runner: --cwd '' @ quote cwd @ '' is not a directory'')
      else None)"

definition envInt :: "string \<Rightarrow> int \<Rightarrow> int" where
  "envInt v fallback = (if v = [] then fallback else (case Atoi v of None \<Rightarrow> fallback | Some n \<Rightarrow> n))"

subsection \<open>Starting machines\<close>

text \<open>An error of the service has a code and a message; the answer lists the state changes it made.\<close>

datatype start_call = APIError string string | OtherFailure string | Changes "(string option \<times> string option) list"

record ec2_env =
  ee_client :: "string \<Rightarrow> string + string"
  ee_start :: "string \<Rightarrow> string \<Rightarrow> start_call"

record EC2 =
  ec_DefaultRegion :: string
  ec_clients :: "string gomap"

datatype wake_error = ErrStopping | WakeError string

record wake_result =
  wr_PreviousState :: string
  wr_CurrentState :: string

definition NewEC2 :: "string \<Rightarrow> EC2" where "NewEC2 region = \<lparr>ec_DefaultRegion = region, ec_clients = []\<rparr>"

definition wr_Started :: "wake_result \<Rightarrow> bool" where "wr_Started r \<longleftrightarrow> wr_PreviousState r = ''stopped''"

text \<open>\<open>cfgs\<close>: the AWS configuration for a region, and the region it ends up with.\<close>

definition loadClient :: "(string \<Rightarrow> string + string) \<Rightarrow> string \<Rightarrow> string + string" where
  "loadClient cfgs region =
     (case cfgs region of Inl m \<Rightarrow> Inl (''wake: load aws config: '' @ m)
      | Inr r \<Rightarrow> if r = [] then Inl ''wake: no AWS region configured'' else Inr r)"

definition ec2_client :: "ec2_env \<Rightarrow> string \<Rightarrow> EC2 \<Rightarrow> EC2 \<times> (string + string)" where
  "ec2_client E region e =
     (case map_of (ec_clients e) region of
        Some cl \<Rightarrow> (e, Inr cl)
      | None \<Rightarrow> (case loadClient (ee_client E) region of
            Inl m \<Rightarrow> (e, Inl m)
          | Inr cl \<Rightarrow> (e\<lparr>ec_clients := put region cl (ec_clients e)\<rparr>, Inr cl)))"

definition api_error :: "string \<Rightarrow> string \<Rightarrow> string \<Rightarrow> wake_error" where
  "api_error i code msg =
     (if code = ''IncorrectInstanceState'' then ErrStopping
      else if code = ''UnauthorizedOperation''
      then WakeError (''the gateway is not allowed to start '' @ i @ '' (ec2:StartInstances denied)'')
      else if code = ''InvalidInstanceID.NotFound'' \<or> code = ''InvalidInstanceID.Malformed''
      then WakeError (''instance '' @ i @ '' does not exist'')
      else if code = ''InsufficientInstanceCapacity''
      then WakeError ''AWS has no capacity for this instance type right now; try again shortly''
      else WakeError (''start '' @ i @ '': '' @ msg))"

definition ec2_Start :: "ec2_env \<Rightarrow> string \<Rightarrow> string \<Rightarrow> EC2 \<Rightarrow> EC2 \<times> (wake_error + wake_result)" where
  "ec2_Start E region0 i e =
     (let region = (if region0 = [] then ec_DefaultRegion e else region0) in
      case ec2_client E region e of
        (e', Inl m) \<Rightarrow> (e', Inl (WakeError m))
      | (e', Inr cl) \<Rightarrow> (e', (case ee_start E cl i of
            APIError code msg \<Rightarrow> Inl (api_error i code msg)
          | OtherFailure m \<Rightarrow> Inl (WakeError (''start '' @ i @ '': '' @ m))
          | Changes cs \<Rightarrow> Inr (fold (\<lambda>(p, q) r. r\<lparr>wr_PreviousState := (case p of None \<Rightarrow> wr_PreviousState r | Some s \<Rightarrow> s),
                 wr_CurrentState := (case q of None \<Rightarrow> wr_CurrentState r | Some s \<Rightarrow> s)\<rparr>) cs
                 \<lparr>wr_PreviousState = [], wr_CurrentState = []\<rparr>))))"

text \<open>What the gateway is told: the answer to its start request of startMachine.\<close>

definition start_answer :: "wake_error + wake_result \<Rightarrow> start_result" where
  "start_answer r = (case r of Inl ErrStopping \<Rightarrow> Stopping | Inl (WakeError m) \<Rightarrow> StartFailed m | Inr x \<Rightarrow> StartOK (wr_Started x))"

subsection \<open>An enrolled runner is let in\<close>

lemma b64_char_range: "n < 64 \<Longrightarrow> b64_char n \<in> set ''ABCDEFGHIJKLMNOPQRSTUVWXYZabcdefghijklmnopqrstuvwxyz0123456789+/''"
  unfolding b64_char_def by (rule nth_mem) simp

lemma b64_char_plain: "n < 64 \<Longrightarrow> b64_char n \<noteq> CHR ''='' \<and> url_char (b64_char n) \<notin> token_stop"
proof -
  assume "n < 64"
  moreover have "\<forall>c\<in>set ''ABCDEFGHIJKLMNOPQRSTUVWXYZabcdefghijklmnopqrstuvwxyz0123456789+/''. c \<noteq> CHR ''='' \<and> url_char c \<notin> token_stop"
    by (simp add: url_char_def token_stop_def)
  ultimately show ?thesis using b64_char_range by blast
qed

lemma raw_url64_token:
  "\<forall>b\<in>set bs. b < 256 \<Longrightarrow> length (raw_url64 bs) = (length bs * 8 + 5) div 6 \<and> set (raw_url64 bs) \<inter> token_stop = {}"
proof (induction bs rule: base64.induct)
  case (4 a b c bs)
  have h: "a div 4 < 64" "a mod 4 * 16 + b div 16 < 64" "b mod 16 * 4 + c div 64 < 64" "c mod 64 < 64" using "4.prems" by auto
  have "raw_url64 (a # b # c # bs) = url_char (b64_char (a div 4)) # url_char (b64_char (a mod 4 * 16 + b div 16))
      # url_char (b64_char (b mod 16 * 4 + c div 64)) # url_char (b64_char (c mod 64)) # raw_url64 bs"
    using h b64_char_plain by (simp add: raw_url64_def)
  then show ?case using "4" h b64_char_plain by simp
next
  case (2 a)
  then have h: "a div 4 < 64" "a mod 4 * 16 < 64" by auto
  then show ?case using b64_char_plain by (simp add: raw_url64_def)
next
  case (3 a b)
  then have h: "a div 4 < 64" "a mod 4 * 16 + b div 16 < 64" "b mod 16 * 4 < 64" by auto
  then show ?case using b64_char_plain by (simp add: raw_url64_def)
qed (simp add: raw_url64_def)

text \<open>A generated token passes the checks a supplied one has to pass.\<close>

lemma enrollmentToken_ok:
  assumes "enrollmentToken E stdin = Inr t" "\<And>raw. el_random E = Inr raw \<Longrightarrow> length raw = 32 \<and> (\<forall>b\<in>set raw. b < 256)"
  shows "minTokenLen \<le> length t \<and> set t \<inter> token_stop = {}"
proof (cases stdin)
  case True
  with assms(1) show ?thesis by (auto simp: enrollmentToken_def Let_def split: sum.splits if_splits)
next
  case False
  then obtain raw where r: "el_random E = Inr raw" "t = raw_url64 raw"
    using assms(1) by (auto simp: enrollmentToken_def split: sum.splits)
  with assms(2) raw_url64_token [of raw] show ?thesis by (simp add: minTokenLen_def)
qed

lemma TrimRightCRLF_id: "CHR 0x0D \<notin> set s \<Longrightarrow> CHR 0x0A \<notin> set s \<Longrightarrow> TrimRightCRLF s = s"
proof (cases s rule: rev_cases)
  case (snoc xs x)
  assume "CHR 0x0D \<notin> set s" "CHR 0x0A \<notin> set s"
  then have "x \<noteq> CHR 0x0D" "x \<noteq> CHR 0x0A" using snoc by auto
  then show ?thesis using snoc by (simp add: TrimRightCRLF_def)
qed (simp add: TrimRightCRLF_def)

definition chain_secret :: "senv \<Rightarrow> backend list \<Rightarrow> string \<Rightarrow> string + string" where
  "chain_secret S bs n = (case snd (chain_Get S n bs) of Inl x \<Rightarrow> Inl (err_text x) | Inr s \<Rightarrow> Inr (sc_Value s))"

text \<open>
  C30. Enrolling a runner on the gateway host lets it in: when the command stored a token, the file holds
  it, and the gateway resolves secrets from that directory first, then a runner that presents the token
  in its hello is authenticated, whatever the later backends hold and whether the token was generated or
  supplied; any other token is refused.
\<close>

theorem enrolled_runner_is_let_in:
  assumes "enroll N name True force stdin = Inr r" "el_load N = Inr c" "map_of (Runners c) name = Some (Some rc)"
    and "\<And>raw. el_random N = Inr raw \<Longrightarrow> length raw = 32 \<and> (\<forall>b\<in>set raw. b < 256)"
    and "safeName S (er_SecretName r) = None" "se_read S (er_Stored r) = FileBytes (er_Token r)"
    and "se_read S (path_join [g_SecretsDir (Gateway c), er_SecretName r @ ''.expires'']) = NoFile"
    and "en_secret e = chain_secret S (DirBackend (g_SecretsDir (Gateway c)) # bs)"
    and "hello_runner h = name" "a_mode (hello_auth h) = AuthToken"
  shows "authenticate e h rc = None \<longleftrightarrow> a_value (hello_auth h) = er_Token r"
proof -
  obtain t where t: "enrollmentToken N stdin = Inr t" and w: "enroll_write N name force t = Inr r"
    using assms(1) by (auto simp: enroll_def split: if_splits sum.splits)
  have r: "er_Token r = t" "er_SecretName r = EffectiveTokenSecret rc name"
      "er_Stored r = path_join [g_SecretsDir (Gateway c), EffectiveTokenSecret rc name]"
    using w assms(2,3) by (auto simp: enroll_write_def Let_def split: if_splits option.splits)
  from enrollmentToken_ok [OF t assms(4)] have ok: "t \<noteq> []" "TrimRightCRLF t = t"
    by (auto simp: minTokenLen_def token_stop_def intro: TrimRightCRLF_id)
  have "dir_Get S (g_SecretsDir (Gateway c)) (er_SecretName r) = Inr \<lparr>sc_Name = er_SecretName r, sc_Value = t, sc_ExpiresAt = None\<rparr>"
    using assms(5-7) ok r by (simp add: dir_Get_def)
  then have "en_secret e (EffectiveTokenSecret rc name) = Inr t" using assms(8) r by (simp add: chain_secret_def)
  then show ?thesis using assms(9,10) ok r by (auto simp: authenticate_def)
qed

definition sample_enroll :: enroll_env where
  "sample_enroll = \<lparr>el_random = Inr (replicate 32 0), el_stdin = Inl [],
     el_load = Inr (sample_config\<lparr>Gateway := sample_gateway\<lparr>g_SecretsDir := ''/s''\<rparr>\<rparr>),
     el_exists = (\<lambda>_. False), el_write = (\<lambda>_. None), el_quote = gq\<rparr>"

definition enrolled_senv :: senv where
  "enrolled_senv = (sample_senv 0 [])\<lparr>se_read := (\<lambda>p. if p = ''/s/runner-box'' then FileBytes (replicate 43 CHR ''A'') else NoFile)\<rparr>"

lemma sample_enrolled:
  "enroll sample_enroll ''box'' True False False
     = Inr \<lparr>er_Token = replicate 43 CHR ''A'', er_SecretName = ''runner-box'', er_Stored = ''/s/runner-box''\<rparr>"
proof -
  have r: "replicate 32 (0::nat) = [0, 0, 0, 0, 0, 0, 0, 0, 0, 0, 0, 0, 0, 0, 0, 0, 0, 0, 0, 0, 0, 0, 0, 0, 0, 0, 0, 0, 0, 0, 0, 0]"
    by (simp add: numeral_eq_Suc)
  have "raw_url64 (replicate 32 0) = replicate 43 CHR ''A''"
    unfolding r by (simp add: raw_url64_def b64_char_def url_char_def) (simp add: numeral_eq_Suc)
  moreover have "path_join [''/s'', ''runner-box''] = ''/s/runner-box''" "ValidSlug ''box''" by code_simp+
  ultimately show ?thesis
    by (simp add: enroll_def enroll_write_def enrollmentToken_def sample_enroll_def sample_config_def sample_runner_def EffectiveTokenSecret_def
        Let_def)
qed

theorem enrolled_runner_is_let_in_witness:
  "authenticate (sample_env\<lparr>en_secret := chain_secret enrolled_senv [DirBackend ''/s'']\<rparr>)
      (sample_hello\<lparr>hello_auth := \<lparr>a_mode = AuthToken, a_value = replicate 43 CHR ''A''\<rparr>\<rparr>) sample_runner = None"
proof -
  let ?h = "sample_hello\<lparr>hello_auth := \<lparr>a_mode = AuthToken, a_value = replicate 43 CHR ''A''\<rparr>\<rparr>"
  let ?e = "sample_env\<lparr>en_secret := chain_secret enrolled_senv [DirBackend ''/s'']\<rparr>"
  let ?c = "sample_config\<lparr>Gateway := sample_gateway\<lparr>g_SecretsDir := ''/s''\<rparr>\<rparr>"
  have l: "el_load sample_enroll = Inr ?c" by (simp add: sample_enroll_def)
  have m: "map_of (Runners ?c) ''box'' = Some (Some sample_runner)" by (simp add: sample_config_def)
  have raw: "length raw = 32 \<and> (\<forall>b\<in>set raw. b < 256)" if "el_random sample_enroll = Inr raw" for raw
    using that by (auto simp: sample_enroll_def)
  have n: "safeName enrolled_senv ''runner-box'' = None" by (simp add: safeName_None)
  have p: "path_join [''/s'', ''runner-box'' @ ''.expires''] = ''/s/runner-box.expires''" by code_simp
  have f: "se_read enrolled_senv ''/s/runner-box'' = FileBytes (replicate 43 CHR ''A'')"
    "se_read enrolled_senv (path_join [g_SecretsDir (Gateway ?c), ''runner-box'' @ ''.expires'']) = NoFile"
    unfolding enrolled_senv_def by (simp_all add: p [simplified])
  have "authenticate ?e ?h sample_runner = None \<longleftrightarrow> a_value (hello_auth ?h) = replicate 43 CHR ''A''"
    using enrolled_runner_is_let_in [OF sample_enrolled l m raw, of enrolled_senv ?e "[]" ?h] n f
    by (simp add: sample_hello_def)
  then show ?thesis by simp
qed

text \<open>A paste longer than 4096 bytes is cut without a word: what is stored is not what was supplied.\<close>

lemma long_token_is_cut:
  assumes "length raw = 4096 + n" "\<forall>c\<in>set raw. graphic c" "set raw \<inter> token_stop = {}" "el_stdin E = Inr raw"
  shows "enrollmentToken E True = Inr (take 4096 raw)"
proof -
  have ne: "take 4096 raw \<noteq> []" using assms(1) by auto
  then have "hd (take 4096 raw) \<in> set raw" "last (take 4096 raw) \<in> set raw" using hd_in_set last_in_set in_set_takeD by metis+
  then have "TrimSpace (take 4096 raw) = take 4096 raw" using ne assms(2) by (intro TrimSpace_graphic) blast+
  moreover have "set (take 4096 raw) \<inter> token_stop = {}" using assms(3) by (auto dest: in_set_takeD)
  ultimately show ?thesis using assms(1,4) by (simp add: enrollmentToken_def minTokenLen_def)
qed

text \<open>A flag wins over the file, the file over the environment.\<close>

lemma runner_token_order:
  "t \<noteq> [] \<Longrightarrow> runner_token t f rd v = Inr t"
  "f \<noteq> [] \<Longrightarrow> rd f = Inr raw \<Longrightarrow> TrimSpace raw \<noteq> [] \<Longrightarrow> runner_token [] f rd v = Inr (TrimSpace raw)"
  "f \<noteq> [] \<Longrightarrow> rd f = Inl m \<Longrightarrow> runner_token [] f rd v = Inl (''runner: read token file: '' @ m)"
  by (simp_all add: runner_token_def)

text \<open>Clients are kept per region, only ones that loaded, and a known region is not loaded again.\<close>

lemma ec2_client_kept:
  "snd (ec2_client E region e) = Inr cl \<Longrightarrow> ec2_client E' region (fst (ec2_client E region e)) = (fst (ec2_client E region e), Inr cl)"
  by (auto simp: ec2_client_def split: option.splits sum.splits)

text \<open>The gateway retries exactly while the machine is stopping, and calls it started only if it was stopped.\<close>

lemma start_answer_stopping:
  "start_answer (snd (ec2_Start E region i e)) = Stopping \<longleftrightarrow>
     (\<exists>cl msg. snd (ec2_client E (if region = [] then ec_DefaultRegion e else region) e) = Inr cl
        \<and> ee_start E cl i = APIError ''IncorrectInstanceState'' msg)"
proof -
  obtain e' x where c: "ec2_client E (if region = [] then ec_DefaultRegion e else region) e = (e', x)" by fastforce
  show ?thesis
  proof (cases x)
    case (Inr cl)
    with c show ?thesis by (cases "ee_start E cl i") (simp_all add: ec2_Start_def start_answer_def api_error_def)
  qed (use c in \<open>simp add: ec2_Start_def start_answer_def\<close>)
qed

subsection \<open>The gateway's own start\<close>

text \<open>The rates a gateway starts with when it is given no table, and why it would not start.\<close>

definition DefaultPriceTable :: Table where
  "DefaultPriceTable =
     (let std = \<lparr>r_Input = 15, r_Output = 75, r_CacheWriteMult = 5 / 4, r_CacheReadMult = 1 / 10, r_CacheWriteMult1h = 2\<rparr> in
      \<lparr>t_Version = ''unset-defaults'',
       t_Rates = [(''claude-opus'', std), (''claude-sonnet'', std\<lparr>r_Input := 3, r_Output := 15\<rparr>), (''claude-haiku'', std\<lparr>r_Input := 1, r_Output := 5\<rparr>)],
       t_Default = None\<rparr>)"

definition gateway_New :: "Config option \<Rightarrow> Store option \<Rightarrow> Table option \<Rightarrow> start_error + (Config \<times> Store \<times> Table)" where
  "gateway_New c s prices =
     (case c of None \<Rightarrow> Inl (StartError ''gateway: config is required'')
      | Some c \<Rightarrow> (case s of None \<Rightarrow> Inl (StartError ''gateway: store is required'')
          | Some s \<Rightarrow> (let t = (case prices of None \<Rightarrow> DefaultPriceTable | Some t \<Rightarrow> t) in
              case Validate_Table t of Some (Err m _) \<Rightarrow> Inl (StartError m) | None \<Rightarrow> Inr (c, s, t))))"

text \<open>One look for secrets about to expire; \<open>stamp\<close> prints a time.\<close>

definition check_expiry :: "senv \<Rightarrow> (int \<Rightarrow> string) \<Rightarrow> backend list \<Rightarrow> gw \<Rightarrow> backend list \<times> gw" where
  "check_expiry S stamp bs g =
     (case Expiring S (g_SecretExpiryWarning (Gateway (gw_cfg g))) bs of (bs', ss) \<Rightarrow>
       (bs', fold (\<lambda>s. log_event \<lparr>ev_Kind = ''secret.expiring'', ev_Runner = [], ev_ThreadID = [], ev_TurnID = [], ev_SurfaceUser = [],
                ev_Detail = [(''secret'', sc_Name s), (''expires_at'', case sc_ExpiresAt s of None \<Rightarrow> ''null'' | Some t \<Rightarrow> stamp t)]\<rparr>) ss g))"

text \<open>\<open>config check --resolve\<close>: the warnings printed, and the error.\<close>

definition resolveCheck :: "start_env \<Rightarrow> Config \<Rightarrow> (string \<times> string) list \<times> start_error option" where
  "resolveCheck E c =
     (case buildSecrets E c of Inl m \<Rightarrow> ([], Some (SecretError ''secret backends'' m))
      | Inr bs \<Rightarrow> (case checkSecrets (su_senv E) c bs of (_, rep) \<Rightarrow>
          (map (\<lambda>r. (r, get_or [] (sr_Unenrolled rep) r)) (sort (map fst (sr_Unenrolled rep))),
           if sr_Fatal rep = [] then None else Some (Unresolved (sr_Fatal rep)))))"

lemma default_prices_start: "gateway_New (Some c) (Some s) None = Inr (c, s, DefaultPriceTable)"
  by (simp add: gateway_New_def Validate_Table_def DefaultPriceTable_def negative_rate_def Let_def)

text \<open>The check agrees with start-up: it fails on secrets exactly when the gateway would not start for them.\<close>

lemma resolve_check_predicts_start:
  "buildSecrets E c = Inr bs \<Longrightarrow> snd (resolveCheck E c) = snd (verifySecrets (su_senv E) c bs)"
  by (simp add: resolveCheck_def verifySecrets_def split: prod.split)

text \<open>No secret's value reaches the audit log.\<close>

lemma fold_log: "Events (gw_store (fold (\<lambda>s. log_event (f s)) ss g)) = Events (gw_store g) @ map f ss"
  by (induction ss arbitrary: g) (simp_all add: log_event_def Log_def)

lemma expiry_log_has_no_value:
  assumes "check_expiry S stamp bs g = (bs', g')"
  shows "\<exists>evs. Events (gw_store g') = Events (gw_store g) @ evs
    \<and> (\<forall>ev\<in>set evs. \<exists>s\<in>set (snd (Expiring S (g_SecretExpiryWarning (Gateway (gw_cfg g))) bs)).
          sc_Value s = [] \<and> ev_Detail ev = [(''secret'', sc_Name s), (''expires_at'', case sc_ExpiresAt s of None \<Rightarrow> ''null'' | Some t \<Rightarrow> stamp t)])"
proof -
  obtain ss where e: "Expiring S (g_SecretExpiryWarning (Gateway (gw_cfg g))) bs = (bs', ss)"
    and g': "g' = fold (\<lambda>s. log_event \<lparr>ev_Kind = ''secret.expiring'', ev_Runner = [], ev_ThreadID = [], ev_TurnID = [], ev_SurfaceUser = [],
                ev_Detail = [(''secret'', sc_Name s), (''expires_at'', case sc_ExpiresAt s of None \<Rightarrow> ''null'' | Some t \<Rightarrow> stamp t)]\<rparr>) ss g"
    using assms by (auto simp: check_expiry_def split: prod.splits)
  have blank: "sc_Value s = []" if "s \<in> set ss" for s using Expiring_blank [of s S _ bs] e that by (metis snd_conv)
  show ?thesis unfolding g' fold_log e snd_conv 
  proof (intro exI conjI refl ballI)
    fix ev
    assume "ev \<in> set (map (\<lambda>s. \<lparr>ev_Kind = ''secret.expiring'', ev_Runner = [], ev_ThreadID = [], ev_TurnID = [], ev_SurfaceUser = [],
                ev_Detail = [(''secret'', sc_Name s), (''expires_at'', case sc_ExpiresAt s of None \<Rightarrow> ''null'' | Some t \<Rightarrow> stamp t)]\<rparr>) ss)"
    then obtain s where "s \<in> set ss" "ev_Detail ev = [(''secret'', sc_Name s), (''expires_at'', case sc_ExpiresAt s of None \<Rightarrow> ''null'' | Some t \<Rightarrow> stamp t)]"
      by auto
    then show "\<exists>s\<in>set ss. sc_Value s = [] \<and> ev_Detail ev = [(''secret'', sc_Name s), (''expires_at'', case sc_ExpiresAt s of None \<Rightarrow> ''null'' | Some t \<Rightarrow> stamp t)]"
      using blank by blast
  qed (rule refl)
qed

end
