(* ===== verification/Durations.thy ===== *)
theory Durations
  imports Prelude
begin

text \<open>
  Go's durations, in nanoseconds, where the program prints them: \<open>Duration.String\<close>,
  \<open>Duration.Round\<close> to a positive unit, and the gateway's \<open>humanDuration\<close>
  (internal/gateway/status.go).
\<close>

definition micro :: int where "micro = 1000"
definition milli :: int where "milli = 1000000"
definition second :: int where "second = 1000000000"
definition minute :: int where "minute = 60 * second"
definition hour :: int where "hour = 3600 * second"

subsection \<open>Printing\<close>

text \<open>The last \<open>p\<close> digits of a number as a fraction, without trailing zeros.\<close>

definition fraction :: "nat \<Rightarrow> nat \<Rightarrow> string" where
  "fraction p n =
     (let ds = nat_string (n mod 10 ^ p);
          full = replicate (p - length ds) CHR ''0'' @ ds;
          kept = rev (dropWhile (\<lambda>c. c = CHR ''0'') (rev full))
      in if kept = [] then [] else CHR ''.'' # kept)"

definition with_fraction :: "nat \<Rightarrow> nat \<Rightarrow> string" where
  "with_fraction p n = nat_string (n div 10 ^ p) @ fraction p n"

definition micro_sign :: string where "micro_sign = bytes [194, 181]"

definition unsigned_duration :: "nat \<Rightarrow> string" where
  "unsigned_duration u =
     (if u = 0 then ''0s''
      else if u < 1000 then nat_string u @ ''ns''
      else if u < 1000000 then with_fraction 3 u @ micro_sign @ ''s''
      else if u < 1000000000 then with_fraction 6 u @ ''ms''
      else (let s = u div 10 ^ 9; m = s div 60; h = m div 60 in
        (if 0 < h then nat_string h @ ''h'' else [])
        @ (if 0 < m then nat_string (m mod 60) @ ''m'' else [])
        @ nat_string (s mod 60) @ fraction 9 u @ ''s''))"

definition Duration_String :: "int \<Rightarrow> string" where
  "Duration_String d = (if d < 0 then CHR ''-'' # unsigned_duration (nat (- d)) else unsigned_duration (nat d))"

subsection \<open>Rounding\<close>

text \<open>To the nearest multiple, halves away from zero, for durations far from the 64-bit limits.\<close>

definition Round :: "int \<Rightarrow> int \<Rightarrow> int" where
  "Round d m =
     (if m \<le> 0 then d
      else if d < 0 then (let r = (- d) mod m in if r + r < m then d + r else d - m + r)
      else (let r = d mod m in if r + r < m then d - r else d + m - r))"

lemma Round_near: "0 < m \<Longrightarrow> 2 * \<bar>Round d m - d\<bar> \<le> m"
proof -
  assume m: "0 < m"
  have "2 * \<bar>(if r + r < m then d - r else d + m - r) - d\<bar> \<le> m" "2 * \<bar>(if r + r < m then d + r else d - m + r) - d\<bar> \<le> m"
    if "0 \<le> r" "r < m" for r using that by (simp_all add: abs_if)
  from this(1) [of "d mod m"] this(2) [of "(- d) mod m"] m show ?thesis by (simp only: Round_def Let_def) simp
qed

lemma Round_multiple: "0 < m \<Longrightarrow> m dvd Round d m"
proof -
  assume m: "0 < m"
  have a: "m dvd d - d mod m" by (simp add: minus_mod_eq_mult_div)
  have b: "m dvd d + (- d) mod m" proof -
    have "m dvd - (- d - (- d) mod m)" by (simp only: dvd_minus_iff dvd_minus_mod)
    then show ?thesis by (simp add: add.commute)
  qed
  have "m dvd (d - d mod m) + m" "m dvd (d + (- d) mod m) - m" using a b by (simp_all only: dvd_add dvd_diff dvd_refl)
  then have "m dvd d + m - d mod m" "m dvd d - m + (- d) mod m" by (simp_all only: algebra_simps)
  then show ?thesis using a b m by (simp only: Round_def Let_def split: if_split) simp
qed

subsection \<open>humanDuration\<close>

definition humanDuration :: "int \<Rightarrow> string" where
  "humanDuration d =
     (if d < minute then Itoa (if d < 0 then - ((- d) div second) else d div second) @ ''s''
      else if d < hour then Itoa (d div minute) @ ''m''
      else if d < 48 * hour then Itoa (d div hour) @ ''h''
      else Itoa (d div hour div 24) @ ''d'')"

end
