(* ===== verification/Reports.thy ===== *)
theory Reports
  imports Conns Durations Slack "HOL-Library.Multiset"
begin

text \<open>
  What the gateway tells operators: channel membership (internal/gateway/channels.go), the status, routes
  and cost texts (status.go), the data of the status page (web.go), and the cost rollups they read
  (internal/store/store.go). Times are nanoseconds. The clock, what a connection's hello said, the
  surfaces' answers, Go's rendering of floating-point numbers and of a date are the argument
  \<open>report_env\<close>; costs are real numbers. The page's template is not modelled, its data is.
\<close>

record channelState =
  cl_Info :: ChannelInfo
  cl_Runner :: string
  cl_Surface :: string
  cl_Checked :: int

record report_env =
  rp_now :: int
  rp_date :: "int \<Rightarrow> string"
  rp_connectedAt :: "nat \<Rightarrow> int"
  rp_adapter :: "nat \<Rightarrow> string"
  rp_proxied :: "string list"
  rp_forge :: "string option"
  rp_surfaces :: "string list"
  rp_channel :: "string \<Rightarrow> string \<Rightarrow> ChannelInfo option"
  rp_fmt2 :: "real \<Rightarrow> string"
  rp_fmt1 :: "real \<Rightarrow> string"
  rp_prices :: string

subsection \<open>Cost rollups\<close>

text \<open>RFC 3339 with nanoseconds, trailing zeros dropped; SQLite compares the texts byte by byte.\<close>

definition nowString :: "report_env \<Rightarrow> int \<Rightarrow> string" where
  "nowString E t = rp_date E (t div second) @ fraction 9 (nat (t mod second)) @ ''Z''"

record CostRow =
  co_Key :: string
  co_Turns :: nat
  co_Input :: int
  co_CacheWrite :: int
  co_CacheRead :: int
  co_Output :: int
  co_CostUSD :: real
  co_UnknownTurns :: nat

definition turn_cost :: "Turn \<Rightarrow> real" where
  "turn_cost t = (case u_ComputedUSD (tn_Usage t) of None \<Rightarrow> 0 | Some c \<Rightarrow> c)"

definition turns_since :: "string \<Rightarrow> Store \<Rightarrow> Turn list" where
  "turns_since since s = filter (\<lambda>t. since \<le> tn_StartedAt t) (map snd (Turns s))"

definition cost_row :: "(Turn \<Rightarrow> string) \<Rightarrow> Turn list \<Rightarrow> string \<Rightarrow> CostRow" where
  "cost_row col ts k =
     (let g = filter (\<lambda>t. col t = k) ts; sum = (\<lambda>f. sum_list (map (f \<circ> tn_Usage) g)) in
      \<lparr>co_Key = k, co_Turns = length g, co_Input = sum u_InputTokens, co_CacheWrite = sum u_CacheWriteTokens,
       co_CacheRead = sum u_CacheReadTokens, co_Output = sum u_OutputTokens, co_CostUSD = sum_list (map turn_cost g),
       co_UnknownTurns = length (filter (\<lambda>t. \<not> u_Known (tn_Usage t)) g)\<rparr>)"

text \<open>Most expensive first, then most turns; the order of the rest is the table's.\<close>

definition costBy :: "(Turn \<Rightarrow> string) \<Rightarrow> string \<Rightarrow> Store \<Rightarrow> CostRow list" where
  "costBy col since s =
     (let ts = turns_since since s in
      sort_key (\<lambda>r. - co_CostUSD r) (sort_key (\<lambda>r. - int (co_Turns r)) (map (cost_row col ts) (remdups (map col ts)))))"

definition CostByRunner :: "string \<Rightarrow> Store \<Rightarrow> CostRow list" where "CostByRunner since s = costBy tn_Runner since s"
definition CostByChannel :: "string \<Rightarrow> Store \<Rightarrow> CostRow list" where "CostByChannel since s = costBy tn_Channel since s"
definition CostByUser :: "string \<Rightarrow> Store \<Rightarrow> CostRow list" where "CostByUser since s = costBy tn_SurfaceUser since s"

text \<open>The token counters of these rows stay zero.\<close>

definition TopThreads :: "string \<Rightarrow> nat \<Rightarrow> Store \<Rightarrow> CostRow list" where
  "TopThreads since limit s =
     (let ts = turns_since since s in
      take limit (sort_key (\<lambda>r. - co_CostUSD r)
        (map (\<lambda>k. (cost_row tn_ThreadID ts k)\<lparr>co_Input := 0, co_CacheWrite := 0, co_CacheRead := 0, co_Output := 0, co_UnknownTurns := 0\<rparr>)
          (remdups (map tn_ThreadID ts)))))"

subsection \<open>Channel membership\<close>

text \<open>The first surface that answers is believed.\<close>

fun check_channel :: "report_env \<Rightarrow> string \<Rightarrow> string list \<Rightarrow> (string \<times> ChannelInfo) option" where
  "check_channel E ch [] = None"
| "check_channel E ch (n # ns) = (case rp_channel E n ch of None \<Rightarrow> check_channel E ch ns | Some info \<Rightarrow> Some (n, info))"

definition refresh_route :: "report_env \<Rightarrow> Route \<Rightarrow> channelState gomap \<times> gw \<Rightarrow> channelState gomap \<times> gw" where
  "refresh_route E r x =
     (case x of (cache, g) \<Rightarrow>
      if rt_DM r \<or> rt_Channel r = [] then (cache, g)
      else (case check_channel E (rt_Channel r) (rp_surfaces E) of
          None \<Rightarrow> (cache, g)
        | Some (n, info) \<Rightarrow>
            (put (rt_Channel r) \<lparr>cl_Info = info, cl_Runner = rt_Runner r, cl_Surface = n, cl_Checked = rp_now E\<rparr> cache,
             if ci_Membership info = MembershipNotJoined
             then log_event \<lparr>ev_Kind = ''channel.not_joined'', ev_Runner = rt_Runner r, ev_ThreadID = [], ev_TurnID = [],
                    ev_SurfaceUser = [], ev_Detail = [(''channel'', rt_Channel r), (''name'', ci_Name info), (''detail'', ci_Detail info)]\<rparr> g
             else g)))"

definition RefreshChannels :: "report_env \<Rightarrow> gw \<Rightarrow> channelState gomap \<times> gw" where
  "RefreshChannels E g = fold (refresh_route E) (Routes (gw_cfg g)) ([], g)"

definition UnreachableChannels :: "channelState gomap \<Rightarrow> channelState list" where
  "UnreachableChannels cache = filter (\<lambda>st. ci_Membership (cl_Info st) = MembershipNotJoined) (map snd cache)"

definition tick :: "string \<Rightarrow> string" where "tick s = CHR 0x60 # s @ [CHR 0x60]"

definition channelLabel :: "channelState gomap \<Rightarrow> string \<Rightarrow> string" where
  "channelLabel cache i =
     (case map_of cache i of None \<Rightarrow> tick i
      | Some st \<Rightarrow> (let label = (if ci_Name (cl_Info st) \<noteq> [] then CHR ''#'' # ci_Name (cl_Info st) else tick i) in
          case ci_Membership (cl_Info st) of
            MembershipNotJoined \<Rightarrow> label @ '' :warning: *not joined*''
          | MembershipUnknown \<Rightarrow> label @ '' _(unverified)_''
          | MembershipJoined \<Rightarrow> label))"

subsection \<open>The texts\<close>

definition nl :: string where "nl = [CHR 0x0A]"
definition bullet :: string where "bullet = bytes [226, 128, 162] @ '' ''"
definition dash :: string where "dash = '' '' @ bytes [226, 128, 148] @ '' ''"
definition arrow :: string where "arrow = '' '' @ bytes [226, 134, 146] @ '' ''"
definition middot :: string where "middot = '' '' @ bytes [194, 183] @ '' ''"

definition state_text :: "ConnState \<Rightarrow> string" where
  "state_text x = (case x of StateConnected \<Rightarrow> ''connected'' | StateDegraded \<Rightarrow> ''degraded'' | StateDisconnected \<Rightarrow> ''disconnected'')"

definition state_icon :: "ConnState \<Rightarrow> string" where
  "state_icon x = (if x = StateConnected then '':large_green_circle:'' else '':large_yellow_circle:'')"

text \<open>\<open>since\<close>.\<close>

definition age :: "report_env \<Rightarrow> int \<Rightarrow> string" where "age E t = humanDuration (rp_now E - t)"

definition runner_line :: "report_env \<Rightarrow> gw \<Rightarrow> string \<Rightarrow> Runner option \<Rightarrow> string" where
  "runner_line E g name rc =
     (case map_option (\<lambda>i. (i, conn_of g i)) (hub_Get g name) of
        Some (i, Some c) \<Rightarrow>
          (let st = Conn_State (rp_now E) c (g_Heartbeat (Gateway (gw_cfg g))) in
           bullet @ tick name @ dash @ state_icon st @ '' '' @ state_text st @ '', up '' @ age E (rp_connectedAt E i)
             @ '', bundle v'' @ Itoa (cn_bundleVersion c)
             @ (if rp_adapter E i = [] then [] else '', harness '' @ rp_adapter E i))
      | _ \<Rightarrow>
          (case (if Wakeable rc then map_option r_Wake rc else None) of
             Some (Some w) \<Rightarrow> bullet @ tick name @ dash @ '':zzz: asleep, wakes on message ('' @ tick (wk_EC2Instance w) @ '')''
           | _ \<Rightarrow> bullet @ tick name @ dash @ '':red_circle: disconnected''))"

definition runner_lines :: "report_env \<Rightarrow> gw \<Rightarrow> string \<Rightarrow> string" where
  "runner_lines E g name =
     (let rc = runnerConfig g name; depth = QueueDepth (gw_store g) name in
      runner_line E g name rc
      @ (if 0 < depth then '', *'' @ nat_string depth @ '' queued*'' else [])
      @ (case rc of None \<Rightarrow> []
         | Some r \<Rightarrow> nl @ ''    '' @ PostureText rc
             @ (if dp_Name (r_Display r) = [] then [] else middot @ ''posts as _'' @ dp_Name (r_Display r) @ ''_'')
             @ nl @ ''    cwd '' @ tick (r_Cwd r) @ '', idle '' @ Duration_String (r_Idle r))
      @ nl)"

definition sorted_runners :: "gw \<Rightarrow> string list" where
  "sorted_runners g = sort (map fst (Runners (gw_cfg g)))"

definition unreachable_text :: "channelState list \<Rightarrow> string" where
  "unreachable_text bad =
     (if bad = [] then []
      else nl @ '':warning: *Routed but not joined*'' @ nl
        @ concat (map (\<lambda>st. bullet @ CHR ''#'' # (if ci_Name (cl_Info st) = [] then ci_ID (cl_Info st) else ci_Name (cl_Info st))
             @ arrow @ tick (cl_Runner st) @ dash @ ci_Detail (cl_Info st) @ nl) bad)
        @ ''_Messages in these channels never reach the gateway._'' @ nl)"

definition StatusText :: "report_env \<Rightarrow> channelState gomap \<Rightarrow> gw \<Rightarrow> string" where
  "StatusText E cache g =
     ''*Runners*'' @ nl @ concat (map (runner_lines E g) (sorted_runners g)) @ unreachable_text (UnreachableChannels cache)
     @ (if rp_proxied E = [] then [] else nl @ ''*Proxied MCP*: '' @ Join (sort (rp_proxied E)) '', '' @ nl)
     @ (case rp_forge E of Some n \<Rightarrow> ''*Forge*: '' @ n @ nl
        | None \<Rightarrow> ''*Forge*: not configured'' @ dash @ ''git credentials will be refused'' @ nl)"

definition RoutesText :: "channelState gomap \<Rightarrow> gw \<Rightarrow> string" where
  "RoutesText cache g =
     ''*Routes*'' @ nl
     @ (if Routes (gw_cfg g) = [] then ''_none'' @ dash @ ''every channel is ignored_'' @ nl
        else concat (map (\<lambda>r. bullet @ (if rt_DM r then ''direct messages'' else channelLabel cache (rt_Channel r))
               @ arrow @ tick (rt_Runner r) @ nl) (Routes (gw_cfg g)))
          @ nl @ ''_Unlisted channels are ignored. A thread keeps its runner even after a route changes; use '' @ tick ''!rebind'' @ ''._'' @ nl)"

text \<open>Go prints the quotient with one digit.\<close>

definition humanCount :: "report_env \<Rightarrow> int \<Rightarrow> string" where
  "humanCount E n =
     (if n < 1000 then Itoa n
      else if n < 1000000 then rp_fmt1 E (real_of_int n / 1000) @ ''k''
      else rp_fmt1 E (real_of_int n / 1000000) @ ''M'')"

definition subscription :: "gw \<Rightarrow> string \<Rightarrow> bool" where
  "subscription g n \<longleftrightarrow> (case runnerConfig g n of None \<Rightarrow> False | Some r \<Rightarrow> r_Billing r = ''subscription'')"

definition cost_lines :: "report_env \<Rightarrow> gw \<Rightarrow> CostRow \<Rightarrow> string" where
  "cost_lines E g r =
     bullet @ tick (co_Key r) @ dash @ nat_string (co_Turns r) @ '' turns, ''
     @ (let tokens = humanCount E (co_Input r + co_CacheWrite r + co_CacheRead r + co_Output r) in
        if subscription g (co_Key r)
        then tokens @ '' tokens _(subscription: no marginal cost; consumes the rate-limit window)_''
        else ''$'' @ rp_fmt2 E (co_CostUSD r) @ '', '' @ tokens @ '' tokens'') @ nl
     @ ''    in '' @ humanCount E (co_Input r) @ middot @ ''cache write '' @ humanCount E (co_CacheWrite r)
     @ middot @ ''cache read '' @ humanCount E (co_CacheRead r) @ middot @ ''out '' @ humanCount E (co_Output r) @ nl"

definition metered_total :: "gw \<Rightarrow> CostRow list \<Rightarrow> real" where
  "metered_total g rows = sum_list (map co_CostUSD (filter (\<lambda>r. \<not> subscription g (co_Key r)) rows))"

definition unknown_total :: "CostRow list \<Rightarrow> nat" where
  "unknown_total rows = sum_list (map co_UnknownTurns rows)"

definition CostText :: "report_env \<Rightarrow> int \<Rightarrow> gw \<Rightarrow> string" where
  "CostText E window g =
     (let since = nowString E (rp_now E - window); rows = CostByRunner since (gw_store g);
          top5 = TopThreads since 5 (gw_store g);
          title = ''*Usage'' @ dash @ ''last '' @ humanDuration window @ ''*'' @ nl in
      if rows = [] then title @ ''_no turns recorded_'' @ nl
      else title @ concat (map (cost_lines E g) rows) @ nl @ ''*Total (metered)*: $'' @ rp_fmt2 E (metered_total g rows) @ nl
        @ (if 0 < unknown_total rows
           then '':warning: '' @ nat_string (unknown_total rows) @ '' turns reported no usage and are excluded from every figure above.'' @ nl
           else [])
        @ (if rp_prices E = ''unset-defaults''
           then ''_Priced with the built-in placeholder table; set a real one before trusting these numbers._'' @ nl
           else ''_Price table '' @ rp_prices E @ ''._'' @ nl)
        @ (if top5 = [] then []
           else nl @ ''*Most expensive threads*'' @ nl
             @ concat (map (\<lambda>t. bullet @ co_Key t @ dash @ nat_string (co_Turns t) @ '' turns, $'' @ rp_fmt2 E (co_CostUSD t) @ nl) top5)))"

subsection \<open>The status page\<close>

record webChannel =
  wc_Label :: string
  wc_Problem :: string

record webRunner =
  wr_Name :: string
  wr_Persona :: string
  wr_State :: ConnState
  wr_Online :: bool
  wr_Since :: string
  wr_Bundle :: int
  wr_Harness :: string
  wr_Cwd :: string
  wr_Idle :: string
  wr_Queued :: nat
  wr_Channels :: "webChannel list"
  wr_Billing :: string

record webData =
  wd_Runners :: "webRunner list"
  wd_Proxied :: "string list"
  wd_Forge :: string
  wd_Costs :: "CostRow list"
  wd_Threads :: "CostRow list"
  wd_PriceVer :: string

definition web_channel :: "channelState gomap \<Rightarrow> Route \<Rightarrow> webChannel" where
  "web_channel cache r =
     (if rt_DM r then \<lparr>wc_Label = ''direct messages'', wc_Problem = []\<rparr>
      else (case map_of cache (rt_Channel r) of
          None \<Rightarrow> \<lparr>wc_Label = rt_Channel r, wc_Problem = []\<rparr>
        | Some st \<Rightarrow> \<lparr>wc_Label = (if ci_Name (cl_Info st) = [] then rt_Channel r else CHR ''#'' # ci_Name (cl_Info st)),
             wc_Problem = (case ci_Membership (cl_Info st) of
                 MembershipNotJoined \<Rightarrow> ''not joined'' @ dash @ ci_Detail (cl_Info st)
               | MembershipUnknown \<Rightarrow> ''unverified'' | MembershipJoined \<Rightarrow> [])\<rparr>))"

definition web_runner :: "report_env \<Rightarrow> channelState gomap \<Rightarrow> gw \<Rightarrow> string \<Rightarrow> Runner \<Rightarrow> webRunner" where
  "web_runner E cache g name rc =
     (let row = \<lparr>wr_Name = name, wr_Persona = dp_Name (r_Display rc), wr_State = StateDisconnected, wr_Online = False,
            wr_Since = [], wr_Bundle = 0, wr_Harness = r_Harness rc, wr_Cwd = r_Cwd rc, wr_Idle = Duration_String (r_Idle rc),
            wr_Queued = QueueDepth (gw_store g) name,
            wr_Channels = map (web_channel cache) (filter (\<lambda>r. rt_Runner r = name) (Routes (gw_cfg g))), wr_Billing = r_Billing rc\<rparr> in
      case map_option (\<lambda>i. (i, conn_of g i)) (hub_Get g name) of
        Some (i, Some c) \<Rightarrow> row\<lparr>wr_Online := True, wr_State := Conn_State (rp_now E) c (g_Heartbeat (Gateway (gw_cfg g))),
            wr_Since := age E (rp_connectedAt E i), wr_Bundle := cn_bundleVersion c,
            wr_Harness := (if rp_adapter E i = [] then wr_Harness row else rp_adapter E i)\<rparr>
      | _ \<Rightarrow> row)"

text \<open>\<open>None\<close>: not found. A runner without a body cannot be in a configuration that was loaded.\<close>

definition handleIndex :: "report_env \<Rightarrow> channelState gomap \<Rightarrow> gw \<Rightarrow> string \<Rightarrow> webData option" where
  "handleIndex E cache g path =
     (if path \<noteq> ''/'' then None
      else (let since = nowString E (rp_now E - 7 * 24 * hour) in
        Some \<lparr>wd_Runners = concat (map (\<lambda>n. case runnerConfig g n of None \<Rightarrow> [] | Some rc \<Rightarrow> [web_runner E cache g n rc]) (sorted_runners g)),
              wd_Proxied = sort (rp_proxied E),
              wd_Forge = (case rp_forge E of None \<Rightarrow> ''not configured'' | Some n \<Rightarrow> n),
              wd_Costs = CostByRunner since (gw_store g), wd_Threads = TopThreads since 10 (gw_store g), wd_PriceVer = rp_prices E\<rparr>))"

definition audit_answer :: string where
  "audit_answer = ''The audit log lives in the gateway's SQLite store.'' @ nl
     @ ''Query it directly; it is deliberately not exposed over HTTP,'' @ nl
     @ ''because it contains message text, tool inputs, and decisions.'' @ nl"

subsection \<open>Every turn is counted once\<close>

lemma sum_groups:
  fixes f :: "'x \<Rightarrow> 'n::comm_monoid_add"
  assumes "finite K" "col ` set ts \<subseteq> K"
  shows "(\<Sum>k\<in>K. sum_list (map f (filter (\<lambda>t. col t = k) ts))) = sum_list (map f ts)"
  using assms(2)
proof (induction ts)
  case (Cons t ts)
  have "(\<Sum>k\<in>K. sum_list (map f (filter (\<lambda>x. col x = k) (t # ts))))
      = (\<Sum>k\<in>K. (if col t = k then f t else 0) + sum_list (map f (filter (\<lambda>x. col x = k) ts)))"
    by (intro sum.cong refl) simp
  also have "\<dots> = f t + sum_list (map f ts)" using Cons assms(1) by (simp add: sum.distrib sum.delta)
  finally show ?case by simp
qed simp

lemma sum_rows:
  fixes f :: "Turn \<Rightarrow> 'n::comm_monoid_add"
  assumes "\<And>k. F (cost_row col ts k) = sum_list (map f (filter (\<lambda>t. col t = k) ts))"
  shows "sum_list (map F (map (cost_row col ts) (remdups (map col ts)))) = sum_list (map f ts)"
proof -
  have "sum_list (map F (map (cost_row col ts) (remdups (map col ts)))) = (\<Sum>k\<in>set (map col ts). F (cost_row col ts k))"
    by (simp add: o_def sum_list_distinct_conv_sum_set)
  also have "\<dots> = sum_list (map f ts)" by (subst assms, rule sum_groups) simp_all
  finally show ?thesis .
qed

lemma sum_list_mset: "mset xs = mset ys \<Longrightarrow> sum_list (map F xs) = (sum_list (map F ys) :: 'n::comm_monoid_add)"
  by (metis mset_map sum_mset_sum_list)

lemma costBy_mset: "mset (costBy col since s) = mset (map (cost_row col (turns_since since s)) (remdups (map col (turns_since since s))))"
  by (simp add: costBy_def Let_def)

lemma costBy_sum:
  fixes f :: "Turn \<Rightarrow> 'n::comm_monoid_add"
  assumes "\<And>k. F (cost_row col (turns_since since s) k) = sum_list (map f (filter (\<lambda>t. col t = k) (turns_since since s)))"
  shows "sum_list (map F (costBy col since s)) = sum_list (map f (turns_since since s))"
  by (rule trans [OF sum_list_mset [OF costBy_mset] sum_rows [of F col "turns_since since s" f, OF assms]])

lemma length_as_sum: "length xs = sum_list (map (\<lambda>_. Suc 0) xs)"
  by (induction xs) simp_all

lemma length_filter_as_sum: "length (filter P xs) = sum_list (map (\<lambda>x. if P x then Suc 0 else 0) xs)"
  by (induction xs) simp_all

lemma costBy_row: "r \<in> set (costBy col since s) \<Longrightarrow> r = cost_row col (turns_since since s) (co_Key r)"
proof -
  assume "r \<in> set (costBy col since s)"
  then have "r \<in> set (map (cost_row col (turns_since since s)) (remdups (map col (turns_since since s))))"
    by (simp only: set_mset_mset [symmetric] costBy_mset)
  then obtain k where r: "r = cost_row col (turns_since since s) k" by auto
  then have "co_Key r = k" by (simp add: cost_row_def Let_def)
  with r show ?thesis by simp
qed

lemma costBy_keys: "distinct (map co_Key (costBy col since s)) \<and> set (map co_Key (costBy col since s)) = col ` set (turns_since since s)"
proof -
  let ?ks = "remdups (map col (turns_since since s))"
  have k: "co_Key (cost_row col ts k) = k" for ts k by (simp add: cost_row_def Let_def)
  have "mset (map co_Key (costBy col since s)) = mset ?ks"
    using arg_cong [OF costBy_mset [of col since s], of "image_mset co_Key"]
    by (simp add: k o_def image_mset.compositionality)
  then show ?thesis
    by (metis distinct_remdups mset_eq_imp_distinct_iff mset_eq_setD set_remdups list.set_map)
qed

lemma filter_sum:
  "sum_list (map F (filter P xs)) = (sum_list (map (\<lambda>x. if P x then F x else 0) xs) :: 'n::comm_monoid_add)"
  by (induction xs) simp_all

lemma metered_sum:
  "metered_total g (CostByRunner since s) = sum_list (map turn_cost (filter (\<lambda>t. \<not> subscription g (tn_Runner t)) (turns_since since s)))"
proof -
  let ?ts = "turns_since since s"
  have "(if \<not> subscription g (co_Key (cost_row tn_Runner ?ts k)) then co_CostUSD (cost_row tn_Runner ?ts k) else 0)
      = sum_list (map (\<lambda>t. if \<not> subscription g (tn_Runner t) then turn_cost t else 0) (filter (\<lambda>t. tn_Runner t = k) ?ts))" for k
  proof -
    have m: "map (\<lambda>t. if \<not> subscription g (tn_Runner t) then turn_cost t else 0) (filter (\<lambda>t. tn_Runner t = k) ?ts)
        = map (\<lambda>t. if \<not> subscription g k then turn_cost t else 0) (filter (\<lambda>t. tn_Runner t = k) ?ts)"
      by (intro map_cong refl) simp
    show ?thesis unfolding m by (cases "subscription g k") (simp_all add: cost_row_def Let_def)
  qed
  from costBy_sum [of "\<lambda>r. if \<not> subscription g (co_Key r) then co_CostUSD r else 0", OF this]
  show ?thesis by (simp only: metered_total_def CostByRunner_def filter_sum)
qed


text \<open>
  A turn that reported no usage is counted among its runner's turns, a figure the warning says it is
  excluded from.
\<close>

lemma unmetered_turn_is_counted:
  "t \<in> set (turns_since since s) \<Longrightarrow> \<not> u_Known (tn_Usage t) \<Longrightarrow>
     \<exists>r\<in>set (CostByRunner since s). co_Key r = tn_Runner t \<and> 0 < co_Turns r \<and> 0 < co_UnknownTurns r"
proof -
  assume t: "t \<in> set (turns_since since s)" "\<not> u_Known (tn_Usage t)"
  then have "tn_Runner t \<in> set (map co_Key (CostByRunner since s))" using costBy_keys [of tn_Runner since s] by (auto simp: CostByRunner_def)
  then obtain r where r: "r \<in> set (CostByRunner since s)" "co_Key r = tn_Runner t" by auto
  have "r = cost_row tn_Runner (turns_since since s) (tn_Runner t)" using costBy_row r by (metis CostByRunner_def)
  then have "co_Turns r = length (filter (\<lambda>x. tn_Runner x = tn_Runner t) (turns_since since s))"
    "co_UnknownTurns r = length (filter (\<lambda>x. \<not> u_Known (tn_Usage x)) (filter (\<lambda>x. tn_Runner x = tn_Runner t) (turns_since since s)))"
    by (simp_all add: cost_row_def Let_def)
  moreover have "t \<in> set (filter (\<lambda>x. tn_Runner x = tn_Runner t) (turns_since since s))"
    "t \<in> set (filter (\<lambda>x. \<not> u_Known (tn_Usage x)) (filter (\<lambda>x. tn_Runner x = tn_Runner t) (turns_since since s)))" using t by simp_all
  ultimately show ?thesis using r by (metis length_pos_if_in_set)
qed

text \<open>
  The texts are not in the order of the times they stand for: a whole second sorts after its fractions, so
  a turn started within the second the window opens in can be left out.
\<close>

lemma whole_second_sorts_last:
  assumes "t div second = k" "fraction 9 (nat (t mod second)) \<noteq> []"
  shows "nowString E t < nowString E (k * second)"
proof -
  obtain f where f: "fraction 9 (nat (t mod second)) = CHR ''.'' # f" using assms(2) by (auto simp: fraction_def Let_def split: if_splits)
  have "nat_string 0 = ''0''" by code_simp
  then have "fraction 9 0 = []" by (simp add: fraction_def)
  then have w: "nowString E (k * second) = rp_date E k @ ''Z''" by (simp add: nowString_def second_def)
  have "CHR ''.'' # f @ ''Z'' < ''Z''" by (simp add: less_char_def)
  then show ?thesis unfolding w by (simp add: nowString_def assms(1) f list_less_def lexord_append_leftI)
qed

subsection \<open>Membership\<close>

text \<open>
  What is reported as unreachable is what a surface said it has not joined: a surface that cannot tell
  raises no alarm.
\<close>

definition cache_sound :: "report_env \<Rightarrow> Config \<Rightarrow> channelState gomap \<Rightarrow> bool" where
  "cache_sound E c cache \<longleftrightarrow> (\<forall>(ch, st)\<in>set cache. (\<exists>r\<in>set (Routes c). \<not> rt_DM r \<and> rt_Channel r = ch \<and> rt_Runner r = cl_Runner st)
     \<and> rp_channel E (cl_Surface st) ch = Some (cl_Info st))"

lemma check_channel_Some: "check_channel E ch ns = Some (n, info) \<Longrightarrow> n \<in> set ns \<and> rp_channel E n ch = Some info"
  by (induction ns) (auto split: option.splits)

lemma set_put: "set (put k v m) \<subseteq> insert (k, v) (set m)"
proof -
  have "set (AList.update k v m) \<subseteq> insert (k, v) (set m)" by (induction m) auto
  then show ?thesis by (simp add: put_def)
qed

lemma refresh_sound:
  "r \<in> set (Routes c) \<Longrightarrow> cache_sound E c cache \<Longrightarrow> cache_sound E c (fst (refresh_route E r (cache, g)))"
proof (cases "rt_DM r \<or> rt_Channel r = [] \<or> check_channel E (rt_Channel r) (rp_surfaces E) = None")
  case False
  assume r: "r \<in> set (Routes c)" "cache_sound E c cache"
  obtain n info where k: "check_channel E (rt_Channel r) (rp_surfaces E) = Some (n, info)" using False by auto
  let ?st = "\<lparr>cl_Info = info, cl_Runner = rt_Runner r, cl_Surface = n, cl_Checked = rp_now E\<rparr>"
  have "fst (refresh_route E r (cache, g)) = put (rt_Channel r) ?st cache" using False k by (simp add: refresh_route_def)
  moreover have "cache_sound E c (put (rt_Channel r) ?st cache)"
    unfolding cache_sound_def
  proof (intro ballI, clarify)
    fix ch st
    assume "(ch, st) \<in> set (put (rt_Channel r) ?st cache)"
    from subsetD [OF set_put this] have "(ch = rt_Channel r \<and> st = ?st) \<or> (ch, st) \<in> set cache" by (simp only: insert_iff prod.inject)
    then consider "ch = rt_Channel r" "st = ?st" | "(ch, st) \<in> set cache" by (elim disjE conjE)
    then show "(\<exists>r\<in>set (Routes c). \<not> rt_DM r \<and> rt_Channel r = ch \<and> rt_Runner r = cl_Runner st)
        \<and> rp_channel E (cl_Surface st) ch = Some (cl_Info st)"
    proof cases
      case 1
      have "rp_channel E n (rt_Channel r) = Some info" using check_channel_Some [OF k] by simp
      moreover have "\<not> rt_DM r" using False by simp
      ultimately show ?thesis unfolding 1 by (intro conjI bexI [OF _ r(1)]) simp_all
    next
      case 2
      then show ?thesis using r(2) by (auto simp: cache_sound_def)
    qed
  qed
  ultimately show ?thesis by simp
qed (auto simp: refresh_route_def)

lemma RefreshChannels_sound: "cache_sound E (gw_cfg g) (fst (RefreshChannels E g))"
proof -
  have "cache_sound E (gw_cfg g) (fst (fold (refresh_route E) rs x))" if "set rs \<subseteq> set (Routes (gw_cfg g))" "cache_sound E (gw_cfg g) (fst x)" for rs x
    using that
  proof (induction rs arbitrary: x)
    case (Cons r rs)
    then have "cache_sound E (gw_cfg g) (fst (refresh_route E r x))"
      using refresh_sound [of r "gw_cfg g" E "fst x" "snd x"] by simp
    with Cons show ?case by simp
  qed simp
  moreover have "cache_sound E (gw_cfg g) (fst ([], g))" by (simp add: cache_sound_def)
  ultimately show ?thesis unfolding RefreshChannels_def by blast
qed

lemma unreachable_is_real:
  assumes "st \<in> set (UnreachableChannels (fst (RefreshChannels E g)))"
  shows "\<exists>r\<in>set (Routes (gw_cfg g)). \<not> rt_DM r \<and> rt_Runner r = cl_Runner st
     \<and> rp_channel E (cl_Surface st) (rt_Channel r) = Some (cl_Info st) \<and> ci_Membership (cl_Info st) = MembershipNotJoined"
proof -
  from assms obtain ch where "(ch, st) \<in> set (fst (RefreshChannels E g))" "ci_Membership (cl_Info st) = MembershipNotJoined"
    by (auto simp: UnreachableChannels_def)
  then show ?thesis using RefreshChannels_sound [of E g] by (force simp: cache_sound_def)
qed

end
