(* ===== verification/Mrkdwn.thy ===== *)
theory Mrkdwn
  imports Slack
begin

text \<open>
  Prose from CommonMark to Slack's mrkdwn (internal/surface/slackx/mrkdwn.go). Go's regular expressions
  are given as far as the file uses them: a pattern's matches at a position, in the order a leftmost-first
  matcher prefers them, so that the head of the list is the match. Patterns are matched byte by byte; every
  pattern here continues after a negated class with ASCII or the end of a line, so that no match ends
  within a UTF-8 sequence. A position is what comes before, reversed, and what follows.
\<close>

subsection \<open>Patterns\<close>

datatype re =
    LineStart
  | LineEnd
  | One "char \<Rightarrow> bool"
  | Many nat "nat option" bool "char \<Rightarrow> bool"
  | Then re re
  | Either re re
  | Maybe re
  | Group nat re

type_synonym groups = "(nat \<times> string) list"

text \<open>\<open>Many lo hi greedy P\<close>: as many bytes as can be, or as few as needed.\<close>

fun matches :: "re \<Rightarrow> string \<Rightarrow> string \<Rightarrow> groups \<Rightarrow> (string \<times> string \<times> groups) list" where
  "matches LineStart p s gs = (if p = [] \<or> hd p = newline then [(p, s, gs)] else [])"
| "matches LineEnd p s gs = (if s = [] \<or> hd s = newline then [(p, s, gs)] else [])"
| "matches (One P) p s gs = (case s of [] \<Rightarrow> [] | x # xs \<Rightarrow> if P x then [(x # p, xs, gs)] else [])"
| "matches (Many lo hi greedy P) p s gs =
     (let n = length (takeWhile P (case hi of None \<Rightarrow> s | Some h \<Rightarrow> take h s)); ks = [lo..<Suc n]
      in map (\<lambda>k. (rev (take k s) @ p, drop k s, gs)) (if greedy then rev ks else ks))"
| "matches (Then a b) p s gs = concat (map (\<lambda>(p', s', gs'). matches b p' s' gs') (matches a p s gs))"
| "matches (Either a b) p s gs = matches a p s gs @ matches b p s gs"
| "matches (Maybe a) p s gs = matches a p s gs @ [(p, s, gs)]"
| "matches (Group i a) p s gs =
     map (\<lambda>(p', s', gs'). (p', s', (i, take (length s - length s') s) # gs')) (matches a p s gs)"

definition group :: "groups \<Rightarrow> nat \<Rightarrow> string" where "group gs i = get_or [] gs i"

text \<open>
  Every match replaced, from left to right; the patterns here never match nothing, and a match that is
  empty is passed over.
\<close>

function ReplaceAll :: "re \<Rightarrow> (groups \<Rightarrow> string) \<Rightarrow> string \<Rightarrow> string \<Rightarrow> string" where
  "ReplaceAll r f p s =
     (case matches r p s [] of
        (p', s', gs) # _ \<Rightarrow>
          (if length s' < length s then f gs @ ReplaceAll r f p' s'
           else (case s of [] \<Rightarrow> [] | x # xs \<Rightarrow> x # ReplaceAll r f (x # p) xs))
      | [] \<Rightarrow> (case s of [] \<Rightarrow> [] | x # xs \<Rightarrow> x # ReplaceAll r f (x # p) xs))"
  by pat_completeness auto
termination
  by (relation "measure (\<lambda>(_, _, _, s). length s)") auto

declare ReplaceAll.simps [simp del]

subsection \<open>The patterns of the file\<close>

definition is_space :: "char \<Rightarrow> bool" where
  "is_space c \<longleftrightarrow> c = CHR 0x20 \<or> c = CHR 0x09 \<or> c = CHR 0x0A \<or> c = CHR 0x0C \<or> c = CHR 0x0D"

definition spaces :: re where "spaces = Many 0 None True is_space"
definition some_spaces :: re where "some_spaces = Many 1 None True is_space"
definition ch :: "char \<Rightarrow> re" where "ch c = One (\<lambda>x. x = c)"

fun seqs :: "re list \<Rightarrow> re" where
  "seqs [] = Many 0 (Some 0) True (\<lambda>_. False)"
| "seqs [r] = r"
| "seqs (r # rs) = Then r (seqs rs)"

definition star :: char where "star = CHR 0x2A"
definition underscore :: char where "underscore = CHR 0x5F"
definition tilde :: char where "tilde = CHR 0x7E"
definition quote :: char where "quote = CHR 0x22"

definition not_line :: "char \<Rightarrow> char \<Rightarrow> bool" where "not_line c x \<longleftrightarrow> x \<noteq> c \<and> x \<noteq> newline"

definition mdLinkRe :: re where
  "mdLinkRe = seqs [ch (CHR 0x5B), Group 1 (Many 0 None True (\<lambda>x. x \<noteq> CHR 0x5D)), ch (CHR 0x5D), ch (CHR 0x28),
     Group 2 (Many 1 None True (\<lambda>x. x \<noteq> CHR 0x29 \<and> \<not> is_space x)),
     Maybe (seqs [some_spaces, ch quote, Many 0 None True (\<lambda>x. x \<noteq> quote), ch quote]), ch (CHR 0x29)]"

definition paired :: "char \<Rightarrow> re" where
  "paired c = seqs [ch c, ch c, Group 1 (Many 1 None True (not_line c)), ch c, ch c]"

definition boldRe :: re where "boldRe = paired star"
definition boldUnder :: re where "boldUnder = paired underscore"
definition strikeRe :: re where "strikeRe = paired tilde"

definition italicStar :: re where
  "italicStar = seqs [ch star, Group 1 (Many 1 None True (not_line star)), ch star]"

definition headingRe :: re where
  "headingRe = seqs [LineStart, Many 0 (Some 3) True is_space, Many 1 (Some 6) True (\<lambda>x. x = CHR 0x23), some_spaces,
     Group 1 (Many 0 None False (\<lambda>x. x \<noteq> newline)), spaces, Many 0 None True (\<lambda>x. x = CHR 0x23), spaces, LineEnd]"

definition bulletRe :: re where
  "bulletRe = seqs [LineStart, Group 1 spaces, One (\<lambda>x. x = CHR 0x2D \<or> x = star \<or> x = CHR 0x2B), some_spaces]"

definition three :: "char \<Rightarrow> re" where "three c = seqs [ch c, ch c, Many 1 None True (\<lambda>x. x = c)]"

definition hrRe :: re where
  "hrRe = seqs [LineStart, Many 0 (Some 3) True is_space, Either (three (CHR 0x2D)) (Either (three star) (three underscore)), spaces, LineEnd]"

subsection \<open>Converting\<close>

definition boldOpen :: string where "boldOpen = [CHR 0x00, CHR 0x42, CHR 0x3C]"
definition boldClose :: string where "boldClose = [CHR 0x00, CHR 0x42, CHR 0x3E]"

text \<open>\<open>strings.ReplaceAll\<close> of a text that is not empty.\<close>

function replace_sub :: "string \<Rightarrow> string \<Rightarrow> string \<Rightarrow> string" where
  "replace_sub old new s =
     (case s of [] \<Rightarrow> []
      | x # xs \<Rightarrow> if old \<noteq> [] \<and> prefix old s then new @ replace_sub old new (drop (length old) s)
                 else x # replace_sub old new xs)"
  by pat_completeness auto
termination
  by (relation "measure (\<lambda>(_, _, s). length s)") auto

declare replace_sub.simps [simp del]

definition bold_mark :: "groups \<Rightarrow> string" where "bold_mark gs = boldOpen @ group gs 1 @ boldClose"

definition rule_line :: string where "rule_line = concat (replicate 11 (bytes [226, 148, 128]))"

definition link_text :: "groups \<Rightarrow> string" where
  "link_text gs =
     (if TrimSpace (group gs 1) = [] then ''<'' @ group gs 2 @ ''>''
      else ''<'' @ group gs 2 @ ''|'' @ group gs 1 @ ''>'')"

definition bullet_sign :: string where "bullet_sign = bytes [226, 128, 162]"

definition convertProse :: "string \<Rightarrow> string" where
  "convertProse s0 =
     (let s1 = ReplaceAll headingRe bold_mark [] s0;
          s2 = ReplaceAll hrRe (\<lambda>_. rule_line) [] s1;
          s3 = ReplaceAll mdLinkRe link_text [] s2;
          s4 = ReplaceAll boldRe bold_mark [] s3;
          s5 = ReplaceAll boldUnder bold_mark [] s4;
          s6 = ReplaceAll italicStar (\<lambda>gs. [underscore] @ group gs 1 @ [underscore]) [] s5;
          s7 = ReplaceAll strikeRe (\<lambda>gs. [tilde] @ group gs 1 @ [tilde]) [] s6;
          s8 = ReplaceAll bulletRe (\<lambda>gs. group gs 1 @ bullet_sign @ '' '') [] s7
      in replace_sub boldClose [star] (replace_sub boldOpen [star] s8))"

definition slackText :: "string \<Rightarrow> string" where "slackText s = ToMrkdwn convertProse s"

subsection \<open>Text without markup\<close>

text \<open>What a match of a pattern cannot do without.\<close>

fun must :: "re \<Rightarrow> (char \<Rightarrow> bool) \<Rightarrow> bool" where
  "must (One Q) P = (\<forall>c. Q c \<longrightarrow> P c)"
| "must (Many lo hi greedy Q) P = (0 < lo \<and> (\<forall>c. Q c \<longrightarrow> P c))"
| "must (Then a b) P = (must a P \<or> must b P)"
| "must (Either a b) P = (must a P \<and> must b P)"
| "must (Group i a) P = must a P"
| "must _ P = False"

lemma matches_suffix: "(p', s', gs') \<in> set (matches r p s gs) \<Longrightarrow> suffix s' s"
proof (induction r arbitrary: p s gs p' s' gs')
  case (One P)
  then show ?case by (auto split: list.splits if_splits intro: suffix_ConsI)
next
  case (Many lo hi greedy P)
  then show ?case by (auto simp: Let_def suffix_drop split: if_splits)
next
  case (Then a b)
  from Then.prems obtain p1 s1 gs1 where "(p1, s1, gs1) \<in> set (matches a p s gs)" "(p', s', gs') \<in> set (matches b p1 s1 gs1)"
    by auto
  then show ?case using Then.IH suffix_order.trans by blast
next
  case (Group i a)
  then show ?case by auto
qed (auto split: if_splits)

lemma must_none: "must r P \<Longrightarrow> \<forall>x\<in>set s. \<not> P x \<Longrightarrow> matches r p s gs = []"
proof (induction r P arbitrary: p s gs rule: must.induct)
  case (1 Q P)
  then show ?case by (cases s) auto
next
  case (2 lo hi greedy Q P)
  have "takeWhile Q (case hi of None \<Rightarrow> s | Some h \<Rightarrow> take h s) = []"
  proof -
    have "set (case hi of None \<Rightarrow> s | Some h \<Rightarrow> take h s) \<subseteq> set s" by (auto split: option.split dest: in_set_takeD)
    then have "\<not> Q x" if "x \<in> set (case hi of None \<Rightarrow> s | Some h \<Rightarrow> take h s)" for x using that 2 by auto
    then show ?thesis using hd_in_set by (auto simp only: takeWhile_eq_Nil_iff)
  qed
  with 2 show ?case by (simp add: Let_def)
next
  case (3 a b P)
  then consider "must a P" | "must b P" by auto
  then show ?case
  proof cases
    case 1
    with 3 show ?thesis by simp
  next
    case 2
    have "matches b p' s' gs' = []" if "(p', s', gs') \<in> set (matches a p s gs)" for p' s' gs'
      using matches_suffix [OF that] 3 2 by (auto simp: suffix_def)
    then show ?thesis by auto
  qed
qed auto

lemma ReplaceAll_none: "must r P \<Longrightarrow> \<forall>x\<in>set s. \<not> P x \<Longrightarrow> ReplaceAll r f p s = s"
proof (induction s arbitrary: p)
  case (Cons x s)
  then show ?case using must_none [OF Cons.prems] by (subst ReplaceAll.simps) simp
qed (subst ReplaceAll.simps, simp add: must_none)

lemma replace_sub_none: "x \<notin> set s \<Longrightarrow> replace_sub (x # old) new s = s"
  by (induction s) (subst replace_sub.simps; auto)+

definition markup :: "char \<Rightarrow> bool" where
  "markup c \<longleftrightarrow> c \<in> {star, underscore, tilde, CHR 0x23, CHR 0x5B, CHR 0x2D, CHR 0x2B, CHR 0x00}"

lemmas re_defs = headingRe_def hrRe_def mdLinkRe_def boldRe_def boldUnder_def italicStar_def strikeRe_def bulletRe_def
  three_def paired_def ch_def spaces_def some_spaces_def

lemma patterns_need_markup:
  "must headingRe markup" "must hrRe markup" "must mdLinkRe markup" "must boldRe markup" "must boldUnder markup"
  "must italicStar markup" "must strikeRe markup" "must bulletRe markup"
  by (simp_all add: re_defs markup_def)

lemma convertProse_plain: "\<forall>c\<in>set s. \<not> markup c \<Longrightarrow> convertProse s = s"
proof -
  assume s: "\<forall>c\<in>set s. \<not> markup c"
  then have "CHR 0x00 \<notin> set s" by (auto simp: markup_def)
  then show ?thesis using patterns_need_markup [THEN ReplaceAll_none [OF _ s]]
    by (simp add: convertProse_def boldOpen_def boldClose_def replace_sub_none)
qed

lemma mapOutside_id:
  assumes "\<And>t i j. nxt t = Some (i, j) \<Longrightarrow> i \<le> j"
  shows "(\<And>u. set u \<subseteq> set s \<Longrightarrow> f u = u) \<Longrightarrow> mapOutside nxt f s = s"
proof (induction "length s" arbitrary: s rule: less_induct)
  case less
  show ?case
  proof (cases "nxt s")
    case (Some ij)
    obtain i j where ij: "ij = (i, j)" by fastforce
    show ?thesis
    proof (cases "j = 0 \<or> length s < j")
      case False
      then have "length (drop j s) < length s" by auto
      moreover have "f u = u" if "set u \<subseteq> set (drop j s)" for u
        using less.prems [of u] that set_drop_subset [of j s] by blast
      ultimately have rest: "mapOutside nxt f (drop j s) = drop j s" by (rule less.hyps)
      have pre: "f (take i s) = take i s" using less.prems set_take_subset by metis
      have "i \<le> j" using assms Some ij by blast
      then have "take i s @ take (j - i) (drop i s) @ drop j s = s"
        by (metis append.assoc append_take_drop_id le_add_diff_inverse take_add)
      then show ?thesis using Some ij False rest pre by (simp add: mapOutside.simps [of nxt f s])
    qed (use Some ij less.prems in \<open>simp add: mapOutside.simps [of nxt f s]\<close>)
  qed (use less.prems in \<open>simp add: mapOutside.simps [of nxt f s]\<close>)
qed

lemma next_inline_le: "next_inline t = Some (i, j) \<Longrightarrow> i \<le> j"
  by (induction t arbitrary: i j) (auto simp: Let_def split: if_splits)

lemma next_fence_le: "next_fence t = Some (i, j) \<Longrightarrow> i \<le> j"
  by (auto simp: next_fence_def split: option.splits)

text \<open>
  What is not markup arrives as it was written: a text without an asterisk, underscore, tilde, number
  sign, opening bracket, dash, plus sign or NUL byte is posted to Slack byte for byte, code spans and
  fences included.
\<close>

theorem unmarked_text_is_verbatim:
  assumes "\<forall>c\<in>set s. \<not> markup c"
  shows "slackText s = s"
  unfolding slackText_def ToMrkdwn_def
proof (rule mapOutside_id)
  fix u assume u: "set u \<subseteq> set s"
  show "mapOutside next_inline convertProse u = u"
    by (rule mapOutside_id) (use u assms next_inline_le in \<open>auto intro!: convertProse_plain\<close>)
qed (rule next_fence_le)

definition plain_sample :: string where
  "plain_sample = ''run '' @ [backquote] @ ''ls'' @ [backquote] @ '' now: 1 < 2.''"

theorem unmarked_text_is_verbatim_witness: "slackText plain_sample = plain_sample"
proof -
  have "\<forall>c\<in>set plain_sample. \<not> markup c" by code_simp
  then show ?thesis by (rule unmarked_text_is_verbatim)
qed

subsection \<open>Where the conversion goes wrong\<close>

text \<open>What follows a code span starts a line for the patterns, so a dash there becomes a bullet.\<close>

lemma dash_after_code_is_a_bullet:
  "slackText ([backquote] @ ''a'' @ [backquote] @ '' - b'') = [backquote] @ ''a'' @ [backquote] @ '' '' @ bullet_sign @ '' b''"
  by code_simp

text \<open>Bold text with a code span in it keeps its asterisks.\<close>

lemma bold_around_code_is_kept:
  "slackText (''**a '' @ [backquote] @ ''b'' @ [backquote] @ '' c**'') = ''**a '' @ [backquote] @ ''b'' @ [backquote] @ '' c**''"
  by code_simp

text \<open>A product is read as italics.\<close>

lemma product_becomes_italic: "slackText ''2 * 3 * 4'' = ''2 _ 3 _ 4''"
  by code_simp

text \<open>The blank line below a heading is swallowed.\<close>

lemma heading_swallows_blank_line:
  "slackText (''# T'' @ [newline, newline] @ ''x'') = ''*T*'' @ [newline] @ ''x''"
  by code_simp

text \<open>Bold, italics, strikes and links as they are meant.\<close>

lemma mixed_markup: "slackText ''**b** *i* ~~s~~ [t](u)'' = ''*b* _i_ ~s~ <u|t>''"
  by code_simp

end
