(* ===== verification/SlackStream.thy ===== *)
theory SlackStream
  imports Slack Durations
begin

text \<open>
  Slack's native streaming message (internal/surface/slackx/stream.go): the plan with its task cards, the
  overflow card past Slack's cap, the titles, and the latch for workspaces that cannot stream. The
  answers of Slack's three streaming calls are arguments. Times are nanoseconds.
\<close>

subsection \<open>Chunks\<close>

definition maxPlanTasks :: nat where "maxPlanTasks = 50"
definition overflowID :: string where "overflowID = ''overflow''"

datatype TaskCardStatus = TaskComplete | TaskError | TaskInProgress

record taskChunk =
  tk_ID :: string
  tk_Title :: string
  tk_Status :: TaskCardStatus
  tk_Details :: string
  tk_Output :: string

datatype chunk = MarkdownText string | PlanUpdate string | TaskUpdate taskChunk

definition streamDenied :: "string list" where
  "streamDenied = [''missing_scope'', ''not_allowed_token_type'', ''method_not_supported_for_channel_type'',
     ''invalid_arguments'', ''unknown_method'']"

definition deniedPermanently :: "string \<Rightarrow> bool" where
  "deniedPermanently msg \<longleftrightarrow> list_ex (\<lambda>code. Contains msg code) streamDenied"

subsection \<open>The stream\<close>

record slackStream =
  sk_ref :: Ref
  sk_opened :: int
  sk_closed :: bool
  sk_slots :: "string list"
  sk_status :: "StepStatus gomap"
  sk_overflow :: "StepStatus gomap"
  sk_titled :: bool

datatype streamCall = CallAppend Ref "chunk list" | CallStop Ref "chunk list"

definition start_options :: "slackSurface \<Rightarrow> Post \<Rightarrow> MsgOption list" where
  "start_options s p = [OptTS (po_Thread p), OptTaskDisplayPlan]
     @ (if po_User p = [] then [] else [OptRecipientUser (po_User p)])
     @ (if ss_teamID s = [] then [] else [OptRecipientTeam (ss_teamID s)])
     @ personaOptions (po_Persona p)"

text \<open>\<open>answer\<close>: the channel and time stamp Slack gives the message, or its error.\<close>

definition OpenStream :: "int \<Rightarrow> (slackCall \<Rightarrow> string + (string \<times> string)) \<Rightarrow> Post \<Rightarrow> slackSurface \<Rightarrow>
    slackSurface \<times> slackCall list \<times> (string + slackStream)" where
  "OpenStream now api p s =
     (if ss_noStream s then (s, [], Inl ''slack: streaming not available for this app'')
      else if po_Thread p = [] then (s, [], Inl ''slack: streaming requires a thread'')
      else (let c = StartStream (po_Channel p) (start_options s p) in
        case api c of
          Inl m \<Rightarrow> (if deniedPermanently m then s\<lparr>ss_noStream := True\<rparr> else s, [c], Inl (''slack: start stream: '' @ m))
        | Inr (channel, ts) \<Rightarrow>
            (s, [c], Inr \<lparr>sk_ref = \<lparr>ref_Channel = channel, ref_Thread = po_Thread p, ref_ID = ts\<rparr>, sk_opened = now,
                     sk_closed = False, sk_slots = [], sk_status = [], sk_overflow = [], sk_titled = False\<rparr>)))"

definition taskStatus :: "StepStatus \<Rightarrow> TaskCardStatus" where
  "taskStatus st = (case st of StepDone \<Rightarrow> TaskComplete | StepFailed \<Rightarrow> TaskError | StepRunning \<Rightarrow> TaskInProgress)"

definition middle_dot :: string where "middle_dot = bytes [194, 183]"

definition detailFor :: "Step \<Rightarrow> string" where
  "detailFor step =
     (let took = Duration_String (Round (st_Elapsed step) (100 * milli));
          detail = (if st_Status step \<noteq> StepRunning \<and> 100 * milli \<le> st_Elapsed step
                    then (if st_Detail step = [] then took else st_Detail step @ ''  '' @ middle_dot @ ''  '' @ took)
                    else st_Detail step)
      in slack_truncate detail 2000)"

definition truncateTitle :: "string \<Rightarrow> string" where
  "truncateTitle s0 = (let s = ReplaceByte newline (CHR '' '') (TrimSpace s0) in if s = [] then ''tool'' else slack_truncate s 250)"

definition own_card :: "Step \<Rightarrow> taskChunk" where
  "own_card step = \<lparr>tk_ID = st_ID step, tk_Title = truncateTitle (st_Title step), tk_Status = taskStatus (st_Status step),
     tk_Details = detailFor step, tk_Output = (if st_Output step = [] then [] else slack_truncate (st_Output step) 2000)\<rparr>"

definition count_status :: "StepStatus \<Rightarrow> StepStatus gomap \<Rightarrow> nat" where
  "count_status x m = length (filter (\<lambda>p. snd p = x) m)"

definition overflow_card :: "Step \<Rightarrow> StepStatus gomap \<Rightarrow> taskChunk" where
  "overflow_card step over =
     \<lparr>tk_ID = overflowID, tk_Title = ellipsis @ ''and '' @ nat_string (length over) @ '' more steps'',
      tk_Status = (if 0 < count_status StepFailed over then TaskError
                   else if 0 < count_status StepRunning over then TaskInProgress else TaskComplete),
      tk_Details = slack_truncate (st_Title step @ (if st_Detail step = [] then [] else '': '' @ st_Detail step)) 2000,
      tk_Output = []\<rparr>"

definition taskChunkLocked :: "Step \<Rightarrow> slackStream \<Rightarrow> slackStream \<times> taskChunk" where
  "taskChunkLocked step st0 =
     (let st = (if st_ID step \<notin> set (sk_slots st0) \<and> length (sk_slots st0) < maxPlanTasks - 1
                then st0\<lparr>sk_slots := st_ID step # sk_slots st0\<rparr> else st0) in
      if st_ID step \<in> set (sk_slots st) then (st, own_card step)
      else (let over = put (st_ID step) (st_Status step) (sk_overflow st) in
        (st\<lparr>sk_overflow := over\<rparr>, overflow_card step over)))"

fun step_chunks :: "Step list \<Rightarrow> slackStream \<Rightarrow> slackStream \<times> chunk list" where
  "step_chunks [] st = (st, [])"
| "step_chunks (step # steps) st =
     (case taskChunkLocked step (st\<lparr>sk_status := put (st_ID step) (st_Status step) (sk_status st)\<rparr>) of
        (st1, c) \<Rightarrow> (case step_chunks steps st1 of (st2, cs) \<Rightarrow> (st2, TaskUpdate c # cs)))"

definition chunksLocked :: "StreamUpdate \<Rightarrow> slackStream \<Rightarrow> slackStream \<times> chunk list" where
  "chunksLocked u st =
     (let prose = (if su_Text u = [] then [] else [MarkdownText (su_Text u)]);
          title = su_Steps u \<noteq> [] \<and> \<not> sk_titled st;
          st1 = (if title then st\<lparr>sk_titled := True\<rparr> else st)
      in case step_chunks (su_Steps u) st1 of (st2, cs) \<Rightarrow>
           (st2, prose @ (if title then [PlanUpdate (''Working'' @ ellipsis)] else []) @ cs))"

definition finalTitleLocked :: "int \<Rightarrow> slackStream \<Rightarrow> string" where
  "finalTitleLocked now st =
     (if \<not> sk_titled st then []
      else (let n = length (sk_status st); failed = count_status StepFailed (sk_status st);
                took = Round (now - sk_opened st) second in
        (if n = 1 then ''1 step'' else nat_string n @ '' steps'')
        @ (if 0 < failed then '' '' @ middle_dot @ '' '' @ nat_string failed @ '' failed'' else [])
        @ (if 0 < took then '' '' @ middle_dot @ '' '' @ Duration_String took else [])))"

definition Append :: "(streamCall \<Rightarrow> string option) \<Rightarrow> StreamUpdate \<Rightarrow> slackStream \<Rightarrow> slackStream \<times> streamCall list \<times> string option" where
  "Append api u st =
     (if sk_closed st then (st, [], Some ''slack: stream already closed'')
      else (case chunksLocked u st of (st', chunks) \<Rightarrow>
        if chunks = [] then (st', [], None)
        else (let c = CallAppend (sk_ref st') chunks in (st', [c], map_option (\<lambda>m. ''slack: append stream: '' @ m) (api c)))))"

definition CloseStream :: "int \<Rightarrow> (streamCall \<Rightarrow> string option) \<Rightarrow> StreamUpdate \<Rightarrow> slackStream \<Rightarrow> slackStream \<times> streamCall list \<times> string option" where
  "CloseStream now api u st0 =
     (if sk_closed st0 then (st0, [], None)
      else (case chunksLocked u (st0\<lparr>sk_closed := True\<rparr>) of (st, chunks) \<Rightarrow>
        (let title = finalTitleLocked now st;
             c = CallStop (sk_ref st) (chunks @ (if title = [] then [] else [PlanUpdate title])) in
         case api c of
           None \<Rightarrow> (st, [c], None)
         | Some m \<Rightarrow> (st, [c, CallStop (sk_ref st) (if title = [] then [] else [PlanUpdate title])], Some (''slack: stop stream: '' @ m)))))"

text \<open>The life of a stream: a sequence of appends and closes, and everything it asked of Slack.\<close>

datatype stream_op = OpAppend StreamUpdate | OpClose int StreamUpdate

fun run_stream :: "(nat \<Rightarrow> streamCall \<Rightarrow> string option) \<Rightarrow> stream_op list \<Rightarrow> slackStream \<Rightarrow> slackStream \<times> streamCall list" where
  "run_stream api [] st = (st, [])"
| "run_stream api (x # ops) st =
     (case (case x of OpAppend u \<Rightarrow> Append (api (length ops)) u st | OpClose now u \<Rightarrow> CloseStream now (api (length ops)) u st) of
        (st1, calls, _) \<Rightarrow> (case run_stream api ops st1 of (st2, rest) \<Rightarrow> (st2, calls @ rest)))"

subsection \<open>The cap of the plan\<close>

fun call_chunks :: "streamCall \<Rightarrow> chunk list" where
  "call_chunks (CallAppend r cs) = cs"
| "call_chunks (CallStop r cs) = cs"

fun card_ids :: "chunk list \<Rightarrow> string set" where
  "card_ids [] = {}"
| "card_ids (TaskUpdate c # cs) = insert (tk_ID c) (card_ids cs)"
| "card_ids (_ # cs) = card_ids cs"

definition cards_of :: "streamCall list \<Rightarrow> string set" where
  "cards_of calls = (\<Union>c\<in>set calls. card_ids (call_chunks c))"

lemma card_ids_append [simp]: "card_ids (a @ b) = card_ids a \<union> card_ids b"
  by (induction a rule: card_ids.induct) auto

lemma cards_of_append [simp]: "cards_of (a @ b) = cards_of a \<union> cards_of b"
  by (simp add: cards_of_def)

text \<open>Slots are only ever added, and never past the cap less one.\<close>

definition slots_ok :: "slackStream \<Rightarrow> bool" where
  "slots_ok st \<longleftrightarrow> length (sk_slots st) \<le> maxPlanTasks - 1"

text \<open>One step of the stream: what it sends shows cards with a slot, or the overflow card.\<close>

definition capped :: "slackStream \<Rightarrow> slackStream \<Rightarrow> string set \<Rightarrow> bool" where
  "capped st st' ids \<longleftrightarrow> (slots_ok st \<longrightarrow> slots_ok st') \<and> set (sk_slots st) \<subseteq> set (sk_slots st')
     \<and> ids \<subseteq> insert overflowID (set (sk_slots st'))"

lemma capped_refl: "capped st st {}"
  by (simp add: capped_def)

lemma capped_trans: "capped a b x \<Longrightarrow> capped b c y \<Longrightarrow> capped a c (x \<union> y)"
  by (auto simp: capped_def)

lemma taskChunk_capped: "taskChunkLocked step st = (st', c) \<Longrightarrow> capped st st' {tk_ID c}"
  by (auto simp: taskChunkLocked_def Let_def capped_def slots_ok_def own_card_def overflow_card_def split: if_splits)

lemma step_chunks_capped: "step_chunks steps st = (st', cs) \<Longrightarrow> capped st st' (card_ids cs)"
proof (induction steps arbitrary: st st' cs)
  case Nil
  then show ?case by (simp add: capped_refl)
next
  case (Cons step steps)
  let ?st = "st\<lparr>sk_status := put (st_ID step) (st_Status step) (sk_status st)\<rparr>"
  obtain st1 c where c: "taskChunkLocked step ?st = (st1, c)" by fastforce
  obtain st2 cs2 where s: "step_chunks steps st1 = (st2, cs2)" by fastforce
  have "capped ?st st2 ({tk_ID c} \<union> card_ids cs2)"
    by (rule capped_trans [OF taskChunk_capped [OF c] Cons.IH [OF s]])
  moreover have "st2 = st'" "cs = TaskUpdate c # cs2" using Cons.prems c s by auto
  ultimately show ?case by (simp add: capped_def slots_ok_def)
qed

lemma chunks_capped:
  assumes "chunksLocked u st = (st', cs)"
  shows "capped st st' (card_ids cs)"
proof -
  let ?t = "su_Steps u \<noteq> [] \<and> \<not> sk_titled st"
  let ?st = "if ?t then st\<lparr>sk_titled := True\<rparr> else st"
  obtain st2 cs2 where s: "step_chunks (su_Steps u) ?st = (st2, cs2)" by fastforce
  have "capped ?st st2 (card_ids cs2)" by (rule step_chunks_capped [OF s])
  then have "capped st st2 (card_ids cs2)" by (auto simp: capped_def slots_ok_def split: if_splits)
  then show ?thesis using assms s by (auto simp: chunksLocked_def Let_def split: if_splits)
qed

lemma Append_capped: "Append api u st = (st', calls, r) \<Longrightarrow> capped st st' (cards_of calls)"
proof -
  obtain st1 cs where c: "chunksLocked u st = (st1, cs)" by fastforce
  assume "Append api u st = (st', calls, r)"
  then show ?thesis using chunks_capped [OF c] c
    by (auto simp: Append_def Let_def cards_of_def capped_refl split: if_splits)
qed

lemma Close_capped:
  assumes "CloseStream now api u st = (st', calls, r)"
  shows "capped st st' (cards_of calls)"
proof (cases "sk_closed st")
  case True
  with assms show ?thesis by (simp add: CloseStream_def cards_of_def capped_refl)
next
  case False
  obtain st1 cs where c: "chunksLocked u (st\<lparr>sk_closed := True\<rparr>) = (st1, cs)" by fastforce
  from chunks_capped [OF c] have "capped st st1 (card_ids cs)" by (simp add: capped_def slots_ok_def)
  then show ?thesis using assms c False
    by (auto simp: CloseStream_def Let_def cards_of_def split: option.splits if_splits)
qed

lemma run_stream_capped: "run_stream api ops st = (st', calls) \<Longrightarrow> capped st st' (cards_of calls)"
proof (induction ops arbitrary: st st' calls)
  case Nil
  then show ?case by (simp add: cards_of_def capped_refl)
next
  case (Cons x ops)
  obtain st1 c1 r where o1: "(case x of OpAppend u \<Rightarrow> Append (api (length ops)) u st
      | OpClose now u \<Rightarrow> CloseStream now (api (length ops)) u st) = (st1, c1, r)" by (metis prod_cases3)
  obtain st2 c2 where o2: "run_stream api ops st1 = (st2, c2)" by fastforce
  have "capped st st1 (cards_of c1)" using o1 Append_capped Close_capped by (cases x) auto
  from capped_trans [OF this Cons.IH [OF o2]] have "capped st st2 (cards_of (c1 @ c2))" by simp
  moreover have "st2 = st'" "calls = c1 @ c2" using Cons.prems o1 o2 by auto
  ultimately show ?case by simp
qed

text \<open>
  C29. A plan never outgrows Slack's cap: whatever a turn appends to a freshly opened stream, in
  however many steps, and however its closing calls fail, the task cards it ever asks Slack for are at
  most fifty.
\<close>

theorem plan_within_cap:
  assumes "sk_slots st = []" "run_stream api ops st = (st', calls)"
  shows "card (cards_of calls) \<le> maxPlanTasks"
proof -
  have c: "capped st st' (cards_of calls)" by (rule run_stream_capped [OF assms(2)])
  have "slots_ok st" using assms(1) by (simp add: slots_ok_def)
  with c have s: "length (sk_slots st') \<le> maxPlanTasks - 1" "cards_of calls \<subseteq> insert overflowID (set (sk_slots st'))"
    by (simp_all add: capped_def slots_ok_def)
  have "card (cards_of calls) \<le> card (insert overflowID (set (sk_slots st')))"
    by (rule card_mono) (use s in simp_all)
  also have "\<dots> \<le> Suc (length (sk_slots st'))"
    by (metis card_insert_le_m1 card_length diff_Suc_1 zero_less_Suc)
  also have "\<dots> \<le> maxPlanTasks" using s(1) by (simp add: maxPlanTasks_def)
  finally show ?thesis .
qed

definition fresh_stream :: slackStream where
  "fresh_stream = \<lparr>sk_ref = \<lparr>ref_Channel = ''C1'', ref_Thread = ''1.2'', ref_ID = ''1.3''\<rparr>, sk_opened = 0, sk_closed = False,
     sk_slots = [], sk_status = [], sk_overflow = [], sk_titled = False\<rparr>"

definition sample_step :: Step where
  "sample_step = \<lparr>st_ID = ''s1'', st_Title = ''Bash'', st_Detail = ''ls'', st_Status = StepRunning, st_Output = [], st_Elapsed = 0\<rparr>"

theorem plan_within_cap_witness:
  "card (cards_of (snd (run_stream (\<lambda>_ _. None) [OpAppend \<lparr>su_Text = ''hi'', su_Steps = [sample_step]\<rparr>] fresh_stream))) \<le> 50"
proof -
  obtain st' calls where r: "run_stream (\<lambda>_ _. None) [OpAppend \<lparr>su_Text = ''hi'', su_Steps = [sample_step]\<rparr>] fresh_stream = (st', calls)"
    by fastforce
  have "sk_slots fresh_stream = []" by (simp add: fresh_stream_def)
  from plan_within_cap [OF this r] show ?thesis by (simp only: r snd_conv maxPlanTasks_def)
qed

subsection \<open>Closing\<close>

text \<open>A closed stream sends nothing more, whichever operation is tried.\<close>

lemma closed_is_silent:
  "sk_closed st \<Longrightarrow> fst (snd (Append api u st)) = [] \<and> fst (snd (CloseStream now api u st)) = [] \<and> snd (snd (CloseStream now api u st)) = None"
  by (simp add: Append_def CloseStream_def)

lemma chunks_fields: "chunksLocked u st = (st', cs) \<Longrightarrow> sk_closed st' = sk_closed st \<and> sk_ref st' = sk_ref st"
proof -
  have t: "sk_closed (fst (taskChunkLocked x s)) = sk_closed s \<and> sk_ref (fst (taskChunkLocked x s)) = sk_ref s" for x s
    by (simp add: taskChunkLocked_def Let_def)
  have "sk_closed (fst (step_chunks xs s)) = sk_closed s \<and> sk_ref (fst (step_chunks xs s)) = sk_ref s" for xs s
  proof (induction xs arbitrary: s)
    case (Cons x xs)
    obtain s1 c where c: "taskChunkLocked x (s\<lparr>sk_status := put (st_ID x) (st_Status x) (sk_status s)\<rparr>) = (s1, c)" by fastforce
    obtain s2 cs where d: "step_chunks xs s1 = (s2, cs)" by fastforce
    show ?case using t [of x "s\<lparr>sk_status := put (st_ID x) (st_Status x) (sk_status s)\<rparr>"] Cons [of s1] c d by simp
  qed simp
  from this [of "su_Steps u" "if su_Steps u \<noteq> [] \<and> \<not> sk_titled st then st\<lparr>sk_titled := True\<rparr> else st"]
  show "chunksLocked u st = (st', cs) \<Longrightarrow> ?thesis"
    by (auto simp: chunksLocked_def Let_def split: prod.splits if_splits)
qed

text \<open>
  A rejected close is followed by one that carries at most the title, so the card leaves its working
  state, and the error is still reported, so the caller delivers the prose itself.
\<close>

lemma rejected_close_finalizes:
  assumes "\<not> sk_closed st" "CloseStream now api u st = (st', calls, Some m)"
  shows "sk_closed st' \<and> (\<exists>c. calls = [c, CallStop (sk_ref st) (if finalTitleLocked now st' = [] then [] else [PlanUpdate (finalTitleLocked now st')])])"
proof -
  obtain st1 cs where c: "chunksLocked u (st\<lparr>sk_closed := True\<rparr>) = (st1, cs)" by fastforce
  from chunks_fields [OF c] have "sk_closed st1" "sk_ref st1 = sk_ref st" by simp_all
  then show ?thesis using assms c by (auto simp: CloseStream_def Let_def split: option.splits)
qed

text \<open>Once an app is told it cannot stream, it never asks again.\<close>

lemma denial_is_latched:
  assumes "OpenStream now api p s = (s1, c, Inl m)" "c \<noteq> []" "deniedPermanently (drop (length ''slack: start stream: '') m)"
  shows "fst (snd (OpenStream now' api' p' s1)) = []"
  using assms by (auto simp: OpenStream_def Let_def split: if_splits sum.splits)

text \<open>
  The title cut is not within Slack's 256 characters: a title of 251 plain letters is sent with 264
  bytes, of which 262 characters.
\<close>

lemma long_title_exceeds_limit:
  assumes "length s = 251" "\<forall>c\<in>set s. graphic c"
  shows "length (truncateTitle s) = 264"
proof -
  have "s \<noteq> []" using assms(1) by auto
  then have "TrimSpace s = s" using assms(2) by (intro TrimSpace_graphic) auto
  then show ?thesis using assms(1)
    by (auto simp: truncateTitle_def ReplaceByte_def slack_truncate_def truncated_mark_def ellipsis_def bytes_def Let_def)
qed

end
