(* ===== verification/ConfigEdit.thy ===== *)
theory ConfigEdit
  imports Validate
begin

text \<open>
  The commands that edit the configuration file (cmd/splitscreen/route.go and runners.go): routes, policy
  rules, and runners copied from a template. They work on the YAML node tree, so that comments survive.
  The YAML parser, printer and decoder, the file system and the clock are the argument
  \<open>cenv\<close>; a node's alias target is not modelled (an alias is a node without content).
\<close>

subsection \<open>The node tree\<close>

datatype ykind = DocumentNode | SequenceNode | MappingNode | ScalarNode | AliasNode
datatype ystyle = PlainStyle | FlowStyle | DoubleQuotedStyle | OtherStyle

datatype ynode = YNode (y_kind: ykind) (y_tag: string) (y_value: string) (y_style: ystyle) (y_comment: string) (y_content: "ynode list")

definition y_scalar :: "string \<Rightarrow> string \<Rightarrow> ynode" where
  "y_scalar tag v = YNode ScalarNode tag v PlainStyle [] []"

definition y_str :: "string \<Rightarrow> ynode" where "y_str v = y_scalar ''!!str'' v"
definition empty_map :: ynode where "empty_map = YNode MappingNode ''!!map'' [] PlainStyle [] []"
definition empty_seq :: ynode where "empty_seq = YNode SequenceNode ''!!seq'' [] PlainStyle [] []"

definition with_content :: "ynode list \<Rightarrow> ynode \<Rightarrow> ynode" where
  "with_content cs n = YNode (y_kind n) (y_tag n) (y_value n) (y_style n) (y_comment n) cs"

text \<open>A mapping's content alternates keys and values; the first occurrence of a key counts.\<close>

fun value_of :: "ynode list \<Rightarrow> string \<Rightarrow> ynode option" where
  "value_of (k # v # rest) key = (if y_value k = key then Some v else value_of rest key)"
| "value_of _ key = None"

definition mappingValue :: "ynode \<Rightarrow> string \<Rightarrow> ynode option" where
  "mappingValue m key = value_of (y_content m) key"

definition nodeMapValue :: "ynode \<Rightarrow> string \<Rightarrow> string" where
  "nodeMapValue m key =
     (if y_kind m \<noteq> MappingNode then [] else (case mappingValue m key of None \<Rightarrow> [] | Some v \<Rightarrow> y_value v))"

text \<open>What an edit through the pointer to a value does to its parent.\<close>

fun set_value :: "ynode list \<Rightarrow> string \<Rightarrow> ynode \<Rightarrow> ynode list" where
  "set_value (k # v # rest) key x = (if y_value k = key then k # x # rest else k # v # set_value rest key x)"
| "set_value cs key x = cs"

definition put_value :: "string \<Rightarrow> ynode \<Rightarrow> ynode \<Rightarrow> ynode" where
  "put_value key x m = with_content (set_value (y_content m) key x) m"

definition append_pair :: "string \<Rightarrow> ynode \<Rightarrow> ynode \<Rightarrow> ynode" where
  "append_pair key x m = with_content (y_content m @ [y_str key, x]) m"

text \<open>Write a value: in place where the key exists, at the end where it does not.\<close>

definition upsert :: "string \<Rightarrow> ynode \<Rightarrow> ynode \<Rightarrow> ynode" where
  "upsert key x m = (if mappingValue m key = None then append_pair key x m else put_value key x m)"

fun del_value :: "ynode list \<Rightarrow> string \<Rightarrow> ynode list" where
  "del_value (k # v # rest) key = (if y_value k = key then rest else k # v # del_value rest key)"
| "del_value cs key = cs"

definition deleteKey :: "ynode \<Rightarrow> string \<Rightarrow> ynode \<times> bool" where
  "deleteKey m key = (with_content (del_value (y_content m) key) m, mappingValue m key \<noteq> None)"

fun stripComments :: "ynode \<Rightarrow> ynode" where
  "stripComments (YNode k t v st c cs) = YNode k t v st [] (map stripComments cs)"

subsection \<open>The file\<close>

record cenv =
  cv_lock :: "string option"
  cv_read :: "string + string"
  cv_unmarshal :: "string \<Rightarrow> string + ynode option"
  cv_encode :: "ynode \<Rightarrow> string + string"
  cv_decode :: "string \<Rightarrow> string + Config"
  cv_write :: "string \<Rightarrow> string option"
  cv_exists :: "string \<Rightarrow> bool"
  cv_scalar :: "string \<Rightarrow> ynode option"
  cv_stamp :: string

datatype edit_error =
    LockFailed string | ReadFailed string | ExistingInvalid | Refused string | ResultInvalid | WriteFailed string | Crash

text \<open>\<open>config.Parse\<close> of a text.\<close>

definition parse_text :: "cenv \<Rightarrow> string \<Rightarrow> Config outcome" where
  "parse_text E data = (case cv_decode E data of Inl m \<Rightarrow> Fail (Err m []) | Inr c \<Rightarrow> Parse c)"

text \<open>Lock the file and load the configuration it holds.\<close>

definition load_locked :: "cenv \<Rightarrow> edit_error + Config" where
  "load_locked E =
     (case cv_lock E of Some m \<Rightarrow> Inl (LockFailed m)
      | None \<Rightarrow> (case cv_read E of Inl m \<Rightarrow> Inl ExistingInvalid
          | Inr raw \<Rightarrow> (case parse_text E raw of Ok c \<Rightarrow> Inr c | Fail _ \<Rightarrow> Inl ExistingInvalid | Panic \<Rightarrow> Inl Crash)))"

text \<open>\<open>editDoc\<close>: apply an edit to the root mapping and print the document; an edit may report a value.\<close>

definition editDoc :: "cenv \<Rightarrow> (ynode \<Rightarrow> string + (ynode \<times> 'x)) \<Rightarrow> edit_error + (ynode \<times> string \<times> 'x)" where
  "editDoc E fn =
     (case cv_read E of Inl m \<Rightarrow> Inl (ReadFailed m)
      | Inr raw \<Rightarrow> (case cv_unmarshal E raw of
            Inl m \<Rightarrow> Inl (Refused (''config: '' @ m))
          | Inr None \<Rightarrow> Inl (Refused ''config: not a YAML mapping'')
          | Inr (Some doc) \<Rightarrow>
              if y_kind doc \<noteq> MappingNode then Inl (Refused ''config: not a YAML mapping'')
              else (case fn doc of Inl m \<Rightarrow> Inl (Refused m)
                | Inr (doc', x) \<Rightarrow> (case cv_encode E doc' of Inl m \<Rightarrow> Inl (Refused m) | Inr data \<Rightarrow> Inr (doc', data, x)))))"

text \<open>Validate what would be written, then replace the file.\<close>

definition commit :: "cenv \<Rightarrow> (Config \<Rightarrow> string option) \<Rightarrow> string \<Rightarrow> edit_error + Config" where
  "commit E check data =
     (case parse_text E data of Panic \<Rightarrow> Inl Crash | Fail _ \<Rightarrow> Inl ResultInvalid
      | Ok c \<Rightarrow> (case check c of Some m \<Rightarrow> Inl (Refused m)
          | None \<Rightarrow> (case cv_write E data of Some m \<Rightarrow> Inl (WriteFailed m) | None \<Rightarrow> Inr c)))"

text \<open>A successful command: the document and the text written, the configuration it holds, a report.\<close>

record 'x written =
  wr_doc :: ynode
  wr_data :: string
  wr_config :: Config
  wr_report :: 'x

definition edit_commit :: "cenv \<Rightarrow> (ynode \<Rightarrow> string + (ynode \<times> 'x)) \<Rightarrow> ('x \<Rightarrow> string option) \<Rightarrow> (Config \<Rightarrow> string option) \<Rightarrow>
    edit_error + 'x written" where
  "edit_commit E fn found check =
     (case editDoc E fn of Inl m \<Rightarrow> Inl m
      | Inr (doc, data, x) \<Rightarrow> (case found x of Some m \<Rightarrow> Inl (Refused m)
          | None \<Rightarrow> (case commit E check data of Inl m \<Rightarrow> Inl m
              | Inr c \<Rightarrow> Inr \<lparr>wr_doc = doc, wr_data = data, wr_config = c, wr_report = x\<rparr>)))"

definition edit_file :: "cenv \<Rightarrow> (Config \<Rightarrow> string option) \<Rightarrow> (ynode \<Rightarrow> string + (ynode \<times> 'x)) \<Rightarrow> (Config \<Rightarrow> string option) \<Rightarrow>
    edit_error + 'x written" where
  "edit_file E guard fn check =
     (case load_locked E of Inl m \<Rightarrow> Inl m
      | Inr c \<Rightarrow> (case guard c of Some m \<Rightarrow> Inl (Refused m) | None \<Rightarrow> edit_commit E fn (\<lambda>_. None) check))"

subsection \<open>Routes\<close>

definition routesSeq :: "ynode \<Rightarrow> string + (ynode \<times> ynode)" where
  "routesSeq doc =
     (let doc' = (if mappingValue doc ''routes'' = None then append_pair ''routes'' empty_seq doc else doc);
          s = (case mappingValue doc ''routes'' of None \<Rightarrow> empty_seq | Some s \<Rightarrow> s)
      in if y_kind s \<noteq> SequenceNode then Inl ''config: routes is not a list'' else Inr (doc', s))"

definition set_routes :: "ynode list \<Rightarrow> ynode \<Rightarrow> ynode \<Rightarrow> ynode" where
  "set_routes items s doc = put_value ''routes'' (with_content items s) doc"

definition routeNode :: "string \<Rightarrow> string \<Rightarrow> bool \<Rightarrow> string list \<Rightarrow> ynode" where
  "routeNode channel runner dm allowBots =
     YNode MappingNode ''!!map'' [] FlowStyle []
       ((if dm then [y_str ''dm'', y_scalar ''!!bool'' ''true''] else [y_str ''channel'', y_str channel])
        @ [y_str ''runner'', y_str runner]
        @ (if allowBots = [] then [] else [y_str ''allow_bots'', YNode SequenceNode ''!!seq'' [] FlowStyle [] (map y_str allowBots)]))"

definition route_taken :: "string \<Rightarrow> bool \<Rightarrow> Route \<Rightarrow> bool" where
  "route_taken channel dm r \<longleftrightarrow> \<not> dm \<and> rt_Channel r = channel \<or> dm \<and> rt_DM r"

definition route_guard :: "string \<Rightarrow> string \<Rightarrow> bool \<Rightarrow> Config \<Rightarrow> string option" where
  "route_guard channel runner dm c =
     (if \<not> has_key (Runners c) runner then Some ''no such runner''
      else if list_ex (route_taken channel dm) (Routes c) then Some ''already routed'' else None)"

definition routeAdd :: "cenv \<Rightarrow> string \<Rightarrow> string \<Rightarrow> bool \<Rightarrow> string list \<Rightarrow> edit_error + unit written" where
  "routeAdd E channel runner dm allowBots =
     edit_file E (route_guard channel runner dm)
       (\<lambda>doc. case routesSeq doc of Inl m \<Rightarrow> Inl m
          | Inr (doc', s) \<Rightarrow> Inr (set_routes (y_content s @ [routeNode channel runner dm allowBots]) s doc', ()))
       (\<lambda>_. None)"

text \<open>Removing does not load the configuration first: only the result has to be valid.\<close>

definition routeRemove :: "cenv \<Rightarrow> string \<Rightarrow> edit_error + bool written" where
  "routeRemove E channel =
     (case cv_lock E of Some m \<Rightarrow> Inl (LockFailed m)
      | None \<Rightarrow> edit_commit E
          (\<lambda>doc. case routesSeq doc of Inl m \<Rightarrow> Inl m
             | Inr (doc', s) \<Rightarrow> Inr (set_routes (filter (\<lambda>item. nodeMapValue item ''channel'' \<noteq> channel) (y_content s)) s doc',
                 list_ex (\<lambda>item. nodeMapValue item ''channel'' = channel) (y_content s)))
          (\<lambda>found. if found then None else Some ''no route for the channel'') (\<lambda>_. None))"

subsection \<open>Policy rules\<close>

definition policy_edit :: "string \<Rightarrow> string \<Rightarrow> string \<Rightarrow> ynode \<Rightarrow> string + (ynode \<times> unit)" where
  "policy_edit runner kind rule doc =
     (case mappingValue doc ''runners'' of None \<Rightarrow> Inl ''config: no runners section''
      | Some runners \<Rightarrow> (case mappingValue runners runner of None \<Rightarrow> Inl ''config: runner not found in the file''
          | Some rc \<Rightarrow>
              (let policy = (case mappingValue rc ''policy'' of None \<Rightarrow> empty_map | Some p \<Rightarrow> p);
                   rules = (case mappingValue policy kind of None \<Rightarrow> empty_seq | Some l \<Rightarrow> l);
                   rules' = with_content (y_content rules @ [YNode ScalarNode ''!!str'' rule DoubleQuotedStyle [] []]) rules
               in Inr (put_value ''runners'' (put_value runner (upsert ''policy'' (upsert kind rules' policy) rc) runners) doc, ()))))"

definition rule_guard :: "string \<Rightarrow> string \<Rightarrow> string \<Rightarrow> Config \<Rightarrow> string option outcome" where
  "rule_guard runner kind rule c =
     (case map_of (Runners c) runner of None \<Rightarrow> Ok (Some ''no such runner'')
      | Some None \<Rightarrow> Panic
      | Some (Some rc) \<Rightarrow>
          Ok (if rule \<in> set (if kind = ''deny'' then Deny (r_Policy rc) else Allow (r_Policy rc)) then Some ''already has that rule'' else None))"

definition policyRule :: "cenv \<Rightarrow> string \<Rightarrow> string \<Rightarrow> string \<Rightarrow> edit_error + unit written" where
  "policyRule E kind runner rule =
     (case load_locked E of Inl m \<Rightarrow> Inl m
      | Inr c \<Rightarrow> (case rule_guard runner kind rule c of
            Ok (Some m) \<Rightarrow> Inl (Refused m)
          | Ok None \<Rightarrow> edit_commit E (policy_edit runner kind rule) (\<lambda>_. None) (\<lambda>_. None)
          | _ \<Rightarrow> Inl Crash))"

subsection \<open>Overrides\<close>

fun split_dots :: "string \<Rightarrow> string \<Rightarrow> string list" where
  "split_dots acc [] = [acc]"
| "split_dots acc (c # cs) = (if c = CHR ''.'' then acc # split_dots [] cs else split_dots (acc @ [c]) cs)"

definition key_head :: "char \<Rightarrow> bool" where
  "key_head c \<longleftrightarrow> (let n = of_char c :: nat in 97 \<le> n \<and> n \<le> 122)"

definition key_tail :: "char \<Rightarrow> bool" where
  "key_tail c \<longleftrightarrow> key_head c \<or> (let n = of_char c :: nat in 48 \<le> n \<and> n \<le> 57) \<or> c = CHR ''_''"

definition setKey :: "string \<Rightarrow> bool" where
  "setKey k \<longleftrightarrow> list_all (\<lambda>p. p \<noteq> [] \<and> key_head (hd p) \<and> list_all key_tail (tl p)) (split_dots [] k)"

fun parseSets :: "string list \<Rightarrow> string list \<Rightarrow> string + (string list \<times> string) list" where
  "parseSets [] seen = Inr []"
| "parseSets (s # ss) seen =
     (case Cut s CHR ''='' of (k, v, ok) \<Rightarrow>
        if \<not> ok then Inl ''expected key=value''
        else if \<not> setKey k then Inl ''key must be a dotted path of lowercase field names''
        else if k \<in> set seen then Inl ''given twice''
        else (case parseSets ss (k # seen) of Inl m \<Rightarrow> Inl m | Inr os \<Rightarrow> Inr ((split_dots [] k, v) # os)))"

text \<open>
  The tag YAML resolves an unquoted value to; \<open>scalar\<close>: the one node of the document a value is as a
  text, when it is a document of one node.
\<close>

definition scalarTag :: "(string \<Rightarrow> ynode option) \<Rightarrow> string \<Rightarrow> string" where
  "scalarTag scalar v =
     (case scalar v of None \<Rightarrow> ''!!str''
      | Some n \<Rightarrow> if y_kind n \<noteq> ScalarNode \<or> y_value n \<noteq> v then ''!!str''
          else if y_tag n = ''!!int'' \<or> y_tag n = ''!!bool'' \<or> y_tag n = ''!!float'' then y_tag n else ''!!str'')"

text \<open>Write a scalar at a path, with the tag its text would resolve to unless a string is there already.\<close>

fun setPath :: "(string \<Rightarrow> string) \<Rightarrow> string list \<Rightarrow> string \<Rightarrow> ynode \<Rightarrow> string + ynode" where
  "setPath tagOf [] v m = Inr m"
| "setPath tagOf [key] v m =
     (if y_kind m \<noteq> MappingNode then Inl ''not a section''
      else (case mappingValue m key of
              None \<Rightarrow> Inr (append_pair key (y_scalar (tagOf v) v) m)
            | Some cur \<Rightarrow>
                if y_kind cur \<noteq> ScalarNode then Inl ''is not a scalar field; edit the template instead''
                else Inr (put_value key (y_scalar (if y_tag cur = ''!!str'' then ''!!str'' else tagOf v) v) m)))"
| "setPath tagOf (key # k2 # ks) v m =
     (if y_kind m \<noteq> MappingNode then Inl ''not a section''
      else (case setPath tagOf (k2 # ks) v (case mappingValue m key of None \<Rightarrow> empty_map | Some cur \<Rightarrow> cur) of
              Inl e \<Rightarrow> Inl e
            | Inr sub \<Rightarrow> Inr (upsert key sub m)))"

fun setPaths :: "(string \<Rightarrow> string) \<Rightarrow> (string list \<times> string) list \<Rightarrow> ynode \<Rightarrow> string + ynode" where
  "setPaths tagOf [] m = Inr m"
| "setPaths tagOf ((p, v) # os) m = (case setPath tagOf p v m of Inl e \<Rightarrow> Inl e | Inr m' \<Rightarrow> setPaths tagOf os m')"

subsection \<open>Runners\<close>

definition identityKeys :: "string list" where "identityKeys = [''token_secret'']"

definition is_section :: "ynode option \<Rightarrow> bool" where
  "is_section x \<longleftrightarrow> (case x of None \<Rightarrow> False | Some n \<Rightarrow> y_kind n = MappingNode)"

text \<open>The copy before its overrides: no comments, block style, no identity of the template's.\<close>

definition template_copy :: "ynode \<Rightarrow> ynode" where
  "template_copy src =
     (let b0 = stripComments src;
          b1 = YNode (y_kind b0) (y_tag b0) (y_value b0) PlainStyle (y_comment b0) (y_content b0);
          b2 = fold (\<lambda>k b. fst (deleteKey b k)) identityKeys b1
      in case mappingValue b2 ''wake'' of
           Some w \<Rightarrow> if y_kind w = MappingNode then put_value ''wake'' (fst (deleteKey w ''ec2_instance'')) b2 else b2
         | None \<Rightarrow> b2)"

definition fillWakeFromHost :: "(string \<Rightarrow> string) \<Rightarrow> bool \<Rightarrow> ynode \<Rightarrow> string + ynode" where
  "fillWakeFromHost tagOf hostSet block =
     (case mappingValue block ''wake'' of
        None \<Rightarrow> Inr block
      | Some w \<Rightarrow>
          if y_kind w \<noteq> MappingNode then Inr block
          else if (case mappingValue w ''ec2_instance'' of None \<Rightarrow> False | Some i \<Rightarrow> y_value i \<noteq> []) then Inr block
          else if \<not> hostSet then Inl ''the template declares wake, so each copy needs its own machine''
          else if \<not> IsEC2InstanceID (nodeMapValue block ''host'') then Inl ''host is not an instance id''
          else (case setPath tagOf [''ec2_instance''] (nodeMapValue block ''host'') w of
                  Inl e \<Rightarrow> Inl e | Inr w' \<Rightarrow> Inr (put_value ''wake'' w' block)))"

definition copy_block :: "(string \<Rightarrow> string) \<Rightarrow> (string list \<times> string) list \<Rightarrow> ynode \<Rightarrow> string + ynode" where
  "copy_block tagOf overrides src =
     (case setPaths tagOf overrides (template_copy src) of Inl e \<Rightarrow> Inl e
      | Inr b \<Rightarrow> fillWakeFromHost tagOf (list_ex (\<lambda>o1. fst o1 = [''host'']) overrides) b)"

definition add_edit :: "cenv \<Rightarrow> string \<Rightarrow> string \<Rightarrow> (string list \<times> string) list \<Rightarrow> ynode \<Rightarrow> string + (ynode \<times> ynode)" where
  "add_edit E name template overrides doc =
     (case mappingValue doc ''runners'' of None \<Rightarrow> Inl ''config: no runners section''
      | Some runners \<Rightarrow>
          if y_kind runners \<noteq> MappingNode then Inl ''config: no runners section''
          else (case mappingValue runners template of None \<Rightarrow> Inl ''config: template is not a mapping in the file''
            | Some src \<Rightarrow>
                if y_kind src \<noteq> MappingNode then Inl ''config: template is not a mapping in the file''
                else (case copy_block (scalarTag (cv_scalar E)) overrides src of Inl e \<Rightarrow> Inl e
                  | Inr block \<Rightarrow>
                      Inr (put_value ''runners'' (with_content (y_content runners @
                             [YNode ScalarNode ''!!str'' name PlainStyle (''Added by `splitscreen runner add` from '' @ template @ '', '' @ cv_stamp E @ ''.'') [],
                              block]) runners) doc, block))))"

definition add_guard :: "string \<Rightarrow> string \<Rightarrow> Config \<Rightarrow> string option" where
  "add_guard name template c =
     (if has_key (Runners c) name then Some ''a runner of that name already exists''
      else if \<not> has_key (Runners c) template then Some ''no such template'' else None)"

text \<open>A secret file of an earlier runner of that name would shadow the one the new runner is given.\<close>

definition stale_secret :: "cenv \<Rightarrow> string \<Rightarrow> Config \<Rightarrow> string option" where
  "stale_secret E name c =
     (let dir = g_SecretsDir (Gateway c) in
      if dir = [] then None
      else (case map_of (Runners c) name of
              Some (Some rc) \<Rightarrow> if cv_exists E (path_join [dir, EffectiveTokenSecret rc name]) then Some ''a stale secret file exists'' else None
            | _ \<Rightarrow> None))"

definition runnerAdd :: "cenv \<Rightarrow> string \<Rightarrow> string \<Rightarrow> string list \<Rightarrow> edit_error + ynode written" where
  "runnerAdd E name template sets =
     (if \<not> ValidSlug name then Inl (Refused ''not a valid runner name'')
      else if template = [] then Inl (Refused ''--template is required'')
      else (case parseSets sets [] of Inl m \<Rightarrow> Inl (Refused m)
        | Inr overrides \<Rightarrow> edit_file E (add_guard name template) (add_edit E name template overrides) (stale_secret E name)))"

definition remove_edit :: "string \<Rightarrow> ynode \<Rightarrow> string + (ynode \<times> string list)" where
  "remove_edit name doc =
     (case mappingValue doc ''runners'' of None \<Rightarrow> Inl ''config: runner not found in the file''
      | Some runners \<Rightarrow>
          (case deleteKey runners name of (runners', found) \<Rightarrow>
            if \<not> found then Inl ''config: runner not found in the file''
            else (case routesSeq (put_value ''runners'' runners' doc) of Inl m \<Rightarrow> Inl m
              | Inr (doc', s) \<Rightarrow>
                  (let mine = (\<lambda>item. nodeMapValue item ''runner'' = name) in
                   Inr (set_routes (filter (\<lambda>item. \<not> mine item) (y_content s)) s doc',
                        map (\<lambda>item. if nodeMapValue item ''channel'' = [] then ''<dm>'' else nodeMapValue item ''channel'')
                          (filter mine (y_content s)))))))"

text \<open>A removed runner, with the files to delete; \<open>None\<close> when it was not there and that is fine.\<close>

definition runnerRemove :: "cenv \<Rightarrow> string \<Rightarrow> bool \<Rightarrow> bool \<Rightarrow> edit_error + (string list written \<times> string list) option" where
  "runnerRemove E name missingOK keepSecret =
     (case load_locked E of Inl m \<Rightarrow> Inl m
      | Inr c \<Rightarrow> (case map_of (Runners c) name of
            None \<Rightarrow> if missingOK then Inr None else Inl (Refused ''no such runner'')
          | Some None \<Rightarrow> Inl Crash
          | Some (Some rc) \<Rightarrow>
              (case edit_commit E (remove_edit name) (\<lambda>_. None) (\<lambda>_. None) of Inl m \<Rightarrow> Inl m
               | Inr w \<Rightarrow>
                   (let dir = g_SecretsDir (Gateway c); f = EffectiveTokenSecret rc name in
                    Inr (Some (w, if dir = [] \<or> keepSecret then [] else [path_join [dir, f], path_join [dir, f @ ''.expires'']]))))))"

subsection \<open>Pairs\<close>

text \<open>A mapping's content as key-value pairs; on content of even length this loses nothing.\<close>

fun pairs :: "ynode list \<Rightarrow> (string \<times> ynode) list" where
  "pairs (k # v # rest) = (y_value k, v) # pairs rest"
| "pairs _ = []"

lemma value_of_pairs: "value_of cs key = map_of (pairs cs) key"
  by (induction cs key rule: value_of.induct) auto

lemma pairs_append: "even (length cs) \<Longrightarrow> pairs (cs @ ds) = pairs cs @ pairs ds"
  by (induction cs rule: pairs.induct) auto

lemma set_value_length [simp]: "length (set_value cs key x) = length cs"
  by (induction cs key x rule: set_value.induct) auto

lemma value_of_set: "value_of cs key \<noteq> None \<Longrightarrow> value_of (set_value cs key x) k = (if k = key then Some x else value_of cs k)"
  by (induction cs key x rule: set_value.induct) (auto split: if_splits)

lemma set_value_same: "value_of cs key \<noteq> None \<Longrightarrow> map fst (pairs (set_value cs key x)) = map fst (pairs cs)"
  by (induction cs key x rule: set_value.induct) auto

lemma del_value_even: "even (length (del_value cs key)) \<longleftrightarrow> even (length cs)"
  by (induction cs key rule: del_value.induct) auto

lemma value_of_del:
  "distinct (map fst (pairs cs)) \<Longrightarrow> value_of (del_value cs key) k = (if k = key then None else value_of cs k)"
proof (induction cs key rule: del_value.induct)
  case (1 a v rest key)
  have "map_of (pairs rest) (y_value a) = None" using 1(2) by (simp add: map_of_eq_None_iff)
  then show ?case using 1 by (auto simp: value_of_pairs)
qed auto

lemma del_value_keys: "distinct (map fst (pairs cs)) \<Longrightarrow> distinct (map fst (pairs (del_value cs key)))
    \<and> set (map fst (pairs (del_value cs key))) \<subseteq> set (map fst (pairs cs))"
  by (induction cs key rule: del_value.induct) auto

lemma mappingValue_put [simp]:
  "mappingValue m key \<noteq> None \<Longrightarrow> mappingValue (put_value key x m) k = (if k = key then Some x else mappingValue m k)"
  by (simp add: mappingValue_def put_value_def with_content_def value_of_set)

definition even_map :: "ynode \<Rightarrow> bool" where
  "even_map m \<longleftrightarrow> even (length (y_content m))"

lemma mappingValue_append:
  "even_map m \<Longrightarrow> mappingValue m key = None \<Longrightarrow> mappingValue (append_pair key x m) k = (if k = key then Some x else mappingValue m k)"
  by (auto simp: mappingValue_def append_pair_def with_content_def even_map_def value_of_pairs pairs_append y_str_def y_scalar_def
      map_add_def split: option.split)

lemma mappingValue_upsert:
  "even_map m \<Longrightarrow> mappingValue (upsert key x m) k = (if k = key then Some x else mappingValue m k)"
  by (simp add: upsert_def mappingValue_append)

lemma kinds [simp]: "y_kind (with_content cs n) = y_kind n" "y_kind (put_value key x n) = y_kind n"
  "y_kind (append_pair key x n) = y_kind n" "y_kind (upsert key x n) = y_kind n" "y_value (with_content cs n) = y_value n"
  "y_content (with_content cs n) = cs"
  by (simp_all add: with_content_def put_value_def append_pair_def upsert_def)

lemma even_maps [simp]: "even_map (put_value key x n) = even_map n" "even_map (append_pair key x n) = even_map n"
  "even_map (upsert key x n) = even_map n"
  by (simp_all add: even_map_def put_value_def append_pair_def upsert_def)

subsection \<open>Nothing invalid is written\<close>

lemma commit_ok: "commit E check data = Inr c \<Longrightarrow> parse_text E data = Ok c \<and> check c = None \<and> cv_write E data = None"
  by (auto simp: commit_def split: outcome.splits option.splits)

lemma edit_commit_ok:
  assumes "edit_commit E fn found check = Inr w"
  shows "parse_text E (wr_data w) = Ok (wr_config w) \<and> cv_write E (wr_data w) = None \<and> check (wr_config w) = None
    \<and> found (wr_report w) = None \<and> editDoc E fn = Inr (wr_doc w, wr_data w, wr_report w)"
proof -
  obtain doc data x where e: "editDoc E fn = Inr (doc, data, x)"
    using assms by (cases "editDoc E fn") (auto simp: edit_commit_def)
  then obtain c where f: "found x = None" "commit E check data = Inr c" "w = \<lparr>wr_doc = doc, wr_data = data, wr_config = c, wr_report = x\<rparr>"
    using assms by (auto simp: edit_commit_def split: option.splits sum.splits)
  then show ?thesis using e commit_ok [OF f(2)] by simp
qed

lemma edit_file_ok:
  "edit_file E guard fn check = Inr w \<Longrightarrow> edit_commit E fn (\<lambda>_. None) check = Inr w \<and> (\<exists>c. load_locked E = Inr c \<and> guard c = None)"
  by (auto simp: edit_file_def split: sum.splits option.splits)

text \<open>The commands, and the text a command leaves in the file.\<close>

datatype edit_cmd =
    RouteAdd string string bool "string list" | RouteRemove string | PolicyRule string string string
  | RunnerAdd string string "string list" | RunnerRemove string bool bool

fun run_cmd :: "cenv \<Rightarrow> edit_cmd \<Rightarrow> edit_error + string option" where
  "run_cmd E (RouteAdd channel runner dm bots) = map_sum id (\<lambda>w. Some (wr_data w)) (routeAdd E channel runner dm bots)"
| "run_cmd E (RouteRemove channel) = map_sum id (\<lambda>w. Some (wr_data w)) (routeRemove E channel)"
| "run_cmd E (PolicyRule kind runner rule) = map_sum id (\<lambda>w. Some (wr_data w)) (policyRule E kind runner rule)"
| "run_cmd E (RunnerAdd name template sets) = map_sum id (\<lambda>w. Some (wr_data w)) (runnerAdd E name template sets)"
| "run_cmd E (RunnerRemove name missingOK keepSecret) =
     map_sum id (\<lambda>r. map_option (\<lambda>(w, _). wr_data w) r) (runnerRemove E name missingOK keepSecret)"

lemma run_cmd_writes:
  assumes "run_cmd E cmd = Inr (Some data)"
  shows "\<exists>c. parse_text E data = Ok c \<and> cv_write E data = None"
proof (cases cmd)
  case (RouteAdd channel runner dm bots)
  then obtain w where "routeAdd E channel runner dm bots = Inr w" "data = wr_data w"
    using assms by (cases "routeAdd E channel runner dm bots") auto
  then show ?thesis using edit_commit_ok edit_file_ok unfolding routeAdd_def by blast
next
  case (RouteRemove channel)
  then obtain w where w: "routeRemove E channel = Inr w" "data = wr_data w"
    using assms by (cases "routeRemove E channel") auto
  from w(1) show ?thesis unfolding routeRemove_def w(2) by (cases "cv_lock E") (auto dest: edit_commit_ok)
next
  case (PolicyRule kind runner rule)
  then obtain w where w: "policyRule E kind runner rule = Inr w" "data = wr_data w"
    using assms by (cases "policyRule E kind runner rule") auto
  then show ?thesis by (auto simp: policyRule_def split: sum.splits outcome.splits option.splits dest: edit_commit_ok)
next
  case (RunnerAdd name template sets)
  then obtain w where w: "runnerAdd E name template sets = Inr w" "data = wr_data w"
    using assms by (cases "runnerAdd E name template sets") auto
  then obtain os where "edit_file E (add_guard name template) (add_edit E name template os) (stale_secret E name) = Inr w"
    by (auto simp: runnerAdd_def split: if_splits sum.splits)
  then show ?thesis using edit_commit_ok edit_file_ok w(2) by blast
next
  case (RunnerRemove name missingOK keepSecret)
  then obtain w fs where w: "runnerRemove E name missingOK keepSecret = Inr (Some (w, fs))" "data = wr_data w"
    using assms by (cases "runnerRemove E name missingOK keepSecret") auto
  then have "edit_commit E (remove_edit name) (\<lambda>_. None) (\<lambda>_. None) = Inr w"
    by (auto simp: runnerRemove_def Let_def split: sum.splits option.splits if_splits)
  then show ?thesis using edit_commit_ok w(2) by blast
qed


definition sample_file :: ynode where
  "sample_file = YNode MappingNode ''!!map'' [] PlainStyle []
     [y_str ''routes'', YNode SequenceNode ''!!seq'' [] PlainStyle [] [routeNode ''C9'' ''box'' False [], routeNode ''C1'' ''box'' False []]]"

definition sample_cenv :: cenv where
  "sample_cenv = \<lparr>cv_lock = None, cv_read = Inr ''raw'', cv_unmarshal = (\<lambda>_. Inr (Some sample_file)), cv_encode = (\<lambda>_. Inr ''edited''),
     cv_decode = (\<lambda>_. Inr sample_config), cv_write = (\<lambda>_. None), cv_exists = (\<lambda>_. False), cv_scalar = (\<lambda>_. None),
     cv_stamp = []\<rparr>"

lemma sample_parses: "\<exists>c. Parse sample_config = Ok c"
  using sample_valid by (auto simp: valid_config_def Parse_def applyDefaults_def applyGatewayDefaults_def sample_defs Let_def)

lemma sample_cenv_fields:
  "cv_lock sample_cenv = None" "cv_read sample_cenv = Inr ''raw''" "cv_unmarshal sample_cenv x = Inr (Some sample_file)"
  "cv_encode sample_cenv n = Inr ''edited''" "cv_decode sample_cenv x = Inr sample_config" "cv_write sample_cenv x = None"
  by (simp_all add: sample_cenv_def)

lemma sample_removal: "run_cmd sample_cenv (RouteRemove ''C9'') = Inr (Some ''edited'')"
proof -
  obtain c where "Parse sample_config = Ok c" using sample_parses by blast
  then have c: "commit sample_cenv (\<lambda>_. None) ''edited'' = Inr c" by (simp add: commit_def parse_text_def sample_cenv_fields)
  have s: "routesSeq sample_file = Inr (sample_file, YNode SequenceNode ''!!seq'' [] PlainStyle []
      [routeNode ''C9'' ''box'' False [], routeNode ''C1'' ''box'' False []])"
    by (simp add: routesSeq_def mappingValue_def sample_file_def y_str_def y_scalar_def)
  have k: "y_kind sample_file = MappingNode" by (simp add: sample_file_def)
  have n: "nodeMapValue (routeNode ''C9'' ''box'' False []) ''channel'' = ''C9''"
    by (simp add: nodeMapValue_def mappingValue_def routeNode_def y_str_def y_scalar_def)
  show ?thesis by (simp add: routeRemove_def edit_commit_def editDoc_def sample_cenv_fields s k c n)
qed


subsection \<open>What an edit leaves alone\<close>

lemma routesSeq_value:
  assumes "routesSeq doc = Inr (doc', s)" "even_map doc"
  shows "mappingValue doc' ''routes'' = Some s" "k \<noteq> ''routes'' \<Longrightarrow> mappingValue doc' k = mappingValue doc k"
  using assms by (auto simp: routesSeq_def Let_def mappingValue_append split: if_splits option.splits)

lemma set_routes_value:
  assumes "routesSeq doc = Inr (doc', s)" "even_map doc"
  shows "mappingValue (set_routes items s doc') k = (if k = ''routes'' then Some (with_content items s) else mappingValue doc k)"
  using routesSeq_value [OF assms] by (simp add: set_routes_def)

text \<open>Adding a route appends it to the list and changes no other section.\<close>

lemma routeAdd_appends:
  assumes "routeAdd E channel runner dm bots = Inr w" "cv_read E = Inr raw" "cv_unmarshal E raw = Inr (Some doc)" "even_map doc"
  shows "\<exists>s. mappingValue (wr_doc w) ''routes'' = Some (with_content (y_content s @ [routeNode channel runner dm bots]) s)
     \<and> (mappingValue doc ''routes'' = Some s \<or> mappingValue doc ''routes'' = None \<and> s = empty_seq)
     \<and> (\<forall>k. k \<noteq> ''routes'' \<longrightarrow> mappingValue (wr_doc w) k = mappingValue doc k)"
proof -
  have "edit_commit E (\<lambda>doc. case routesSeq doc of Inl m \<Rightarrow> Inl m
          | Inr (doc', s) \<Rightarrow> Inr (set_routes (y_content s @ [routeNode channel runner dm bots]) s doc', ())) (\<lambda>_. None) (\<lambda>_. None) = Inr w"
    using edit_file_ok assms(1) unfolding routeAdd_def by blast
  from edit_commit_ok [OF this] assms(2,3) obtain doc' s where r: "routesSeq doc = Inr (doc', s)"
    and w: "wr_doc w = set_routes (y_content s @ [routeNode channel runner dm bots]) s doc'"
    by (auto simp: editDoc_def split: if_splits sum.splits)
  have "mappingValue doc ''routes'' = Some s \<or> mappingValue doc ''routes'' = None \<and> s = empty_seq"
    using r by (auto simp: routesSeq_def Let_def split: if_splits option.splits)
  then show ?thesis using set_routes_value [OF r assms(4)] w by auto
qed

text \<open>A route is added only where no route of that channel, or of direct messages, is.\<close>

lemma routeAdd_unique:
  assumes "routeAdd E channel runner dm bots = Inr w" "load_locked E = Inr c"
  shows "has_key (Runners c) runner \<and> \<not> (\<exists>r\<in>set (Routes c). route_taken channel dm r)"
proof -
  from edit_file_ok assms(1) obtain c' where c': "load_locked E = Inr c'" "route_guard channel runner dm c' = None"
    unfolding routeAdd_def by blast
  then have "c' = c" using assms(2) by simp
  with c'(2) show ?thesis by (auto simp: route_guard_def list_ex_iff split: if_splits)
qed

text \<open>Removing a runner leaves no route to it in the file.\<close>

lemma removed_runner_unrouted:
  assumes "remove_edit name doc = Inr (doc', dropped)" "even_map doc"
  shows "\<exists>s. mappingValue doc' ''routes'' = Some s \<and> \<not> (\<exists>item\<in>set (y_content s). nodeMapValue item ''runner'' = name)"
proof -
  obtain runners where r: "mappingValue doc ''runners'' = Some runners"
    using assms(1) by (cases "mappingValue doc ''runners''") (auto simp: remove_edit_def)
  obtain runners' found where d: "deleteKey runners name = (runners', found)" by fastforce
  with r assms(1) obtain doc1 s where q: "routesSeq (put_value ''runners'' runners' doc) = Inr (doc1, s)"
    and w: "doc' = set_routes (filter (\<lambda>item. nodeMapValue item ''runner'' \<noteq> name) (y_content s)) s doc1"
    by (auto simp: remove_edit_def Let_def split: if_splits sum.splits)
  from set_routes_value [OF q] assms(2) w show ?thesis by auto
qed

end
