(* ===== verification/RunnerCopy.thy ===== *)
theory RunnerCopy
  imports ConfigEdit
begin

text \<open>
  What a runner copied from a template has of the template (cmd/splitscreen/runners.go): never the
  template's token secret or machine. The lemmas follow a node through comments, deletions and
  overrides; \<open>wf_yaml\<close> is what a YAML parser yields and the decoder accepts, mappings of keys
  and values without duplicate keys.
\<close>

subsection \<open>Well-formed nodes\<close>

fun wf_yaml :: "ynode \<Rightarrow> bool" where
  "wf_yaml (YNode k t v st c cs) \<longleftrightarrow>
     (k = MappingNode \<longrightarrow> even (length cs) \<and> distinct (map fst (pairs cs))) \<and> (\<forall>x\<in>set cs. wf_yaml x)"

lemma wf_with: "wf_yaml (with_content cs m) \<longleftrightarrow>
    (y_kind m = MappingNode \<longrightarrow> even (length cs) \<and> distinct (map fst (pairs cs))) \<and> (\<forall>x\<in>set cs. wf_yaml x)"
  by (simp add: with_content_def)

lemma wf_parts: "wf_yaml m \<Longrightarrow> (y_kind m = MappingNode \<longrightarrow> even (length (y_content m)) \<and> distinct (map fst (pairs (y_content m))))
    \<and> (\<forall>x\<in>set (y_content m). wf_yaml x)"
  by (cases m) simp

lemma wf_scalar [simp]: "wf_yaml (y_scalar t v)"
  by (simp add: y_scalar_def)

lemma wf_empty_map [simp]: "wf_yaml empty_map"
  by (simp add: empty_map_def)

lemma value_of_in: "value_of cs key = Some x \<Longrightarrow> x \<in> set cs"
  by (induction cs key rule: value_of.induct) (auto split: if_splits)

lemma wf_value: "wf_yaml m \<Longrightarrow> mappingValue m key = Some x \<Longrightarrow> wf_yaml x"
  using value_of_in wf_parts by (auto simp: mappingValue_def)

lemma set_value_in: "x \<in> set (set_value cs key y) \<Longrightarrow> x = y \<or> x \<in> set cs"
  by (induction cs key y rule: set_value.induct) (auto split: if_splits)

lemma del_value_in: "x \<in> set (del_value cs key) \<Longrightarrow> x \<in> set cs"
  by (induction cs key rule: del_value.induct) (auto split: if_splits)

lemma wf_upsert:
  assumes "wf_yaml m" "y_kind m = MappingNode" "wf_yaml x"
  shows "wf_yaml (upsert key x m)"
proof (cases "mappingValue m key = None")
  case True
  then have "key \<notin> set (map fst (pairs (y_content m)))"
    by (simp add: mappingValue_def value_of_pairs map_of_eq_None_iff)
  then show ?thesis using True assms wf_parts [OF assms(1)]
    by (simp add: upsert_def append_pair_def wf_with pairs_append y_str_def y_scalar_def)
next
  case False
  then have "map fst (pairs (set_value (y_content m) key x)) = map fst (pairs (y_content m))"
    by (intro set_value_same) (simp add: mappingValue_def)
  moreover have "\<forall>y\<in>set (set_value (y_content m) key x). wf_yaml y"
    using set_value_in wf_parts [OF assms(1)] assms(3) by blast
  moreover have "upsert key x m = put_value key x m" using False by (auto simp: upsert_def)
  ultimately show ?thesis using assms(2) wf_parts [OF assms(1)] by (simp add: put_value_def wf_with)
qed

lemma wf_deleteKey:
  assumes "wf_yaml m" shows "wf_yaml (fst (deleteKey m key))"
proof -
  have "\<forall>y\<in>set (del_value (y_content m) key). wf_yaml y" using del_value_in wf_parts [OF assms] by blast
  then show ?thesis using wf_parts [OF assms] del_value_keys [of "y_content m" key]
    by (simp add: deleteKey_def wf_with del_value_even)
qed

lemma mappingValue_delete:
  "wf_yaml m \<Longrightarrow> y_kind m = MappingNode \<Longrightarrow> mappingValue (fst (deleteKey m key)) k = (if k = key then None else mappingValue m k)"
  using wf_parts [of m] by (simp add: deleteKey_def mappingValue_def value_of_del)

lemma deleteKey_kind [simp]: "y_kind (fst (deleteKey m key)) = y_kind m"
  by (simp add: deleteKey_def)

lemma strip_fields [simp]: "y_kind (stripComments n) = y_kind n" "y_value (stripComments n) = y_value n"
  "y_content (stripComments n) = map stripComments (y_content n)"
  by (cases n; simp)+

lemma pairs_strip: "pairs (map stripComments cs) = map (\<lambda>p. (fst p, stripComments (snd p))) (pairs cs)"
  by (induction cs rule: pairs.induct) auto

lemma wf_strip: "wf_yaml n \<Longrightarrow> wf_yaml (stripComments n)"
proof (induction n rule: stripComments.induct)
  case (1 k t v st c cs)
  have "map fst (pairs (map stripComments cs)) = map fst (pairs cs)" by (simp add: pairs_strip comp_def)
  with 1 show ?case by auto
qed

subsection \<open>Overrides\<close>

text \<open>What an override does one level down.\<close>

lemma setPath_step:
  assumes "setPath tagOf (key # ks) v m = Inr m'" "even_map m"
  shows "y_kind m = MappingNode \<and> (\<exists>x. (\<forall>k. mappingValue m' k = (if k = key then Some x else mappingValue m k)) \<and>
     (if ks = [] then y_kind x = ScalarNode \<and> y_value x = v \<and> (\<forall>cur. mappingValue m key = Some cur \<longrightarrow> y_kind cur = ScalarNode)
      else setPath tagOf ks v (case mappingValue m key of None \<Rightarrow> empty_map | Some cur \<Rightarrow> cur) = Inr x))"
proof (cases ks)
  case Nil
  then show ?thesis using assms
    by (auto simp: mappingValue_append y_scalar_def split: if_splits option.splits)
next
  case (Cons k2 ks')
  then show ?thesis using assms by (auto simp: mappingValue_upsert split: if_splits sum.splits)
qed

lemma setPath_fields:
  "setPath tagOf p v m = Inr m' \<Longrightarrow> wf_yaml m \<Longrightarrow> wf_yaml m' \<and> y_kind m' = y_kind m \<and> y_value m' = y_value m"
proof (induction tagOf p v m arbitrary: m' rule: setPath.induct)
  case (2 tagOf key v m)
  have u: "\<And>x. mappingValue m key = None \<Longrightarrow> append_pair key x m = upsert key x m"
    "\<And>x. mappingValue m key \<noteq> None \<Longrightarrow> put_value key x m = upsert key x m" by (auto simp: upsert_def)
  have k: "y_kind m = MappingNode" using 2(1) by (auto split: if_splits)
  then obtain x where "m' = upsert key x m" "wf_yaml x"
    using 2(1) u by (cases "mappingValue m key") (auto split: if_splits)
  then show ?case using wf_upsert [OF 2(2) k] by (simp add: upsert_def put_value_def append_pair_def)
next
  case (3 tagOf key k2 ks v m)
  let ?cur = "case mappingValue m key of None \<Rightarrow> empty_map | Some cur \<Rightarrow> cur"
  have k: "y_kind m = MappingNode" using 3(2) by (auto split: if_splits)
  then obtain sub where s: "setPath tagOf (k2 # ks) v ?cur = Inr sub" "m' = upsert key sub m"
    using 3(2) by (auto split: sum.splits)
  have "wf_yaml ?cur" using wf_value [OF 3(3)] by (simp split: option.split)
  then have "wf_yaml sub" using 3(1) k s(1) by blast
  then show ?case using wf_upsert [OF 3(3) k] s(2) by (simp add: upsert_def put_value_def append_pair_def)
qed simp

text \<open>Where the values of a copy's identity fields come from.\<close>

definition machine_from :: "(string list \<times> string) set \<Rightarrow> ynode \<Rightarrow> bool" where
  "machine_from os b \<longleftrightarrow> (\<forall>w i. mappingValue b ''wake'' = Some w \<longrightarrow> y_kind w = MappingNode \<longrightarrow>
     mappingValue w ''ec2_instance'' = Some i \<longrightarrow> y_value i \<noteq> [] \<longrightarrow> ([''wake'', ''ec2_instance''], y_value i) \<in> os)"

definition host_from :: "(string list \<times> string) set \<Rightarrow> ynode \<Rightarrow> bool" where
  "host_from os b \<longleftrightarrow> (\<exists>n. mappingValue b ''host'' = Some n \<and> y_kind n = ScalarNode \<and> ([''host''], y_value n) \<in> os)"

lemma wf_even: "wf_yaml m \<Longrightarrow> y_kind m = MappingNode \<Longrightarrow> even_map m"
  using wf_parts by (simp add: even_map_def)

lemma machine_step:
  assumes "setPath tagOf p v b = Inr b'" "(p, v) \<in> os" "machine_from os b" "wf_yaml b" "y_kind b = MappingNode"
  shows "machine_from os b'"
proof (cases p)
  case Nil
  then show ?thesis using assms by simp
next
  case (Cons key ks)
  from setPath_step [OF assms(1) [unfolded Cons] wf_even [OF assms(4,5)]] obtain x where
    x: "\<And>k. mappingValue b' k = (if k = key then Some x else mappingValue b k)"
       "if ks = [] then y_kind x = ScalarNode \<and> y_value x = v \<and> (\<forall>cur. mappingValue b key = Some cur \<longrightarrow> y_kind cur = ScalarNode)
        else setPath tagOf ks v (case mappingValue b key of None \<Rightarrow> empty_map | Some cur \<Rightarrow> cur) = Inr x" by blast
  show ?thesis
  proof (cases "key = ''wake'' \<and> ks \<noteq> []")
    case False
    then show ?thesis using x assms(3) by (auto simp: machine_from_def)
  next
    case True
    let ?w = "case mappingValue b ''wake'' of None \<Rightarrow> empty_map | Some cur \<Rightarrow> cur"
    have wfw: "wf_yaml ?w" using wf_value [OF assms(4)] by (simp split: option.split)
    obtain k2 ks2 where ks: "ks = k2 # ks2" using True by (cases ks) auto
    have sw: "setPath tagOf (k2 # ks2) v ?w = Inr x" using x(2) True ks by simp
    then have kw: "y_kind ?w = MappingNode" by (cases ks2) (auto split: if_splits)
    from setPath_step [OF sw wf_even [OF wfw kw]] obtain y where
      y: "\<And>k. mappingValue x k = (if k = k2 then Some y else mappingValue ?w k)"
         "if ks2 = [] then y_kind y = ScalarNode \<and> y_value y = v \<and> (\<forall>cur. mappingValue ?w k2 = Some cur \<longrightarrow> y_kind cur = ScalarNode)
          else setPath tagOf ks2 v (case mappingValue ?w k2 of None \<Rightarrow> empty_map | Some cur \<Rightarrow> cur) = Inr y" by blast
    have old: "([''wake'', ''ec2_instance''], y_value i) \<in> os" if "mappingValue ?w ''ec2_instance'' = Some i" "y_value i \<noteq> []" for i
      using that assms(3) kw by (auto simp: machine_from_def empty_map_def mappingValue_def [of "YNode _ _ _ _ _ _"] split: option.splits)
    have "([''wake'', ''ec2_instance''], y_value i) \<in> os" if i: "mappingValue x ''ec2_instance'' = Some i" "y_value i \<noteq> []" for i
    proof (cases "k2 = ''ec2_instance''")
      case False
      then show ?thesis using old i y(1) by simp
    next
      case k2: True
      then have iy: "i = y" using i(1) y(1) by simp
      show ?thesis
      proof (cases "ks2 = []")
        case True
        then show ?thesis using y(2) iy k2 ks \<open>key = ''wake'' \<and> ks \<noteq> []\<close> Cons assms(2) by simp
      next
        case False
        let ?i = "case mappingValue ?w k2 of None \<Rightarrow> empty_map | Some cur \<Rightarrow> cur"
        have "wf_yaml ?i" using wf_value [OF wfw] by (simp split: option.split)
        with setPath_fields y(2) False have "y_value y = y_value ?i" by auto
        then show ?thesis using old i(2) iy k2 by (auto simp: empty_map_def split: option.splits)
      qed
    qed
    then show ?thesis using x(1) True by (auto simp: machine_from_def)
  qed
qed

lemma host_step:
  assumes "setPath tagOf p v b = Inr b'" "(p, v) \<in> os" "wf_yaml b" "y_kind b = MappingNode" "host_from os b \<or> p = [''host'']"
  shows "host_from os b'"
proof (cases p)
  case Nil
  then show ?thesis using assms by simp
next
  case (Cons key ks)
  from setPath_step [OF assms(1) [unfolded Cons] wf_even [OF assms(3,4)]] obtain x where
    x: "\<And>k. mappingValue b' k = (if k = key then Some x else mappingValue b k)"
       "if ks = [] then y_kind x = ScalarNode \<and> y_value x = v \<and> (\<forall>cur. mappingValue b key = Some cur \<longrightarrow> y_kind cur = ScalarNode)
        else setPath tagOf ks v (case mappingValue b key of None \<Rightarrow> empty_map | Some cur \<Rightarrow> cur) = Inr x" by blast
  show ?thesis
  proof (cases "key = ''host''")
    case False
    then show ?thesis using x(1) assms(5) Cons by (auto simp: host_from_def)
  next
    case True
    show ?thesis
    proof (cases "ks = []")
      case True
      then show ?thesis using x \<open>key = ''host''\<close> Cons assms(2) by (auto simp: host_from_def)
    next
      case False
      then have "host_from os b" using assms(5) Cons by auto
      then obtain n where "mappingValue b ''host'' = Some n" "y_kind n = ScalarNode" by (auto simp: host_from_def)
      with x(2) False True show ?thesis by (cases ks; cases "tl ks") (auto split: if_splits)
    qed
  qed
qed

lemma token_step:
  assumes "setPath tagOf p v b = Inr b'" "wf_yaml b" "y_kind b = MappingNode" "p = [] \<or> hd p \<noteq> key"
  shows "mappingValue b' key = mappingValue b key"
proof (cases p)
  case Nil
  then show ?thesis using assms by simp
next
  case (Cons k ks)
  from setPath_step [OF assms(1) [unfolded Cons] wf_even [OF assms(2,3)]] assms(4) Cons show ?thesis by auto
qed

lemma setPaths_copy:
  assumes "setPaths tagOf done_os b = Inr b'" "set done_os \<subseteq> os" "wf_yaml b" "y_kind b = MappingNode" "machine_from os b"
  shows "wf_yaml b' \<and> y_kind b' = MappingNode \<and> machine_from os b'
     \<and> (host_from os b \<or> (\<exists>v. ([''host''], v) \<in> set done_os) \<longrightarrow> host_from os b')
     \<and> ((\<forall>o1\<in>set done_os. fst o1 = [] \<or> hd (fst o1) \<noteq> key) \<longrightarrow> mappingValue b' key = mappingValue b key)"
  using assms
proof (induction done_os arbitrary: b)
  case (Cons x rest)
  obtain p v where x: "x = (p, v)" by fastforce
  obtain b1 where s: "setPath tagOf p v b = Inr b1" "setPaths tagOf rest b1 = Inr b'"
    using Cons.prems(1) x by (auto split: sum.splits)
  have f: "wf_yaml b1" "y_kind b1 = MappingNode" using setPath_fields [OF s(1) Cons.prems(3)] Cons.prems(4) by simp_all
  have in_os: "(p, v) \<in> os" using Cons.prems(2) x by simp
  have m: "machine_from os b1" using machine_step [OF s(1) in_os Cons.prems(5,3,4)] .
  have h: "host_from os b \<or> p = [''host''] \<Longrightarrow> host_from os b1" using host_step [OF s(1) in_os Cons.prems(3,4)] .
  have t: "p = [] \<or> hd p \<noteq> key \<Longrightarrow> mappingValue b1 key = mappingValue b key"
    using token_step [OF s(1) Cons.prems(3,4)] .
  from Cons.IH [OF s(2) _ f m] Cons.prems(2) h t x show ?case by auto
qed simp

subsection \<open>The copy\<close>

lemma value_of_strip: "value_of (map stripComments cs) key = map_option stripComments (value_of cs key)"
  by (induction cs key rule: value_of.induct) auto

text \<open>A fresh copy has no token secret, and its wake section names no machine.\<close>

lemma template_copy_clean:
  assumes "wf_yaml src" "y_kind src = MappingNode"
  shows "wf_yaml (template_copy src) \<and> y_kind (template_copy src) = MappingNode \<and>
    mappingValue (template_copy src) ''token_secret'' = None \<and> machine_from os (template_copy src)"
proof -
  define b0 where "b0 = stripComments src"
  define b1 where "b1 = YNode (y_kind b0) (y_tag b0) (y_value b0) PlainStyle (y_comment b0) (y_content b0)"
  define b2 where "b2 = fst (deleteKey b1 ''token_secret'')"
  have k: "y_kind b0 = MappingNode" "y_kind b1 = MappingNode" using assms(2) by (simp_all add: b0_def b1_def)
  have "wf_yaml b0" unfolding b0_def by (rule wf_strip [OF assms(1)])
  then have "wf_yaml b1" using wf_parts [of b0] k(1) by (simp add: b1_def)
  then have b2: "wf_yaml b2" "y_kind b2 = MappingNode" "mappingValue b2 ''token_secret'' = None"
    unfolding b2_def using k(2) by (simp_all add: wf_deleteKey mappingValue_delete)
  have t: "template_copy src = (case mappingValue b2 ''wake'' of
           Some w \<Rightarrow> if y_kind w = MappingNode then put_value ''wake'' (fst (deleteKey w ''ec2_instance'')) b2 else b2
         | None \<Rightarrow> b2)"
    by (simp only: template_copy_def identityKeys_def Let_def fold_simps b2_def b1_def b0_def split: option.split)
  show ?thesis
  proof (cases "mappingValue b2 ''wake''")
    case None
    then show ?thesis using t b2 by (simp add: machine_from_def)
  next
    case (Some w)
    show ?thesis
    proof (cases "y_kind w = MappingNode")
      case False
      then show ?thesis using t b2 Some by (simp add: machine_from_def)
    next
      case True
      let ?w = "fst (deleteKey w ''ec2_instance'')"
      have w: "wf_yaml w" by (rule wf_value [OF b2(1) Some])
      have u: "put_value ''wake'' ?w b2 = upsert ''wake'' ?w b2" using Some by (simp add: upsert_def)
      have "template_copy src = put_value ''wake'' ?w b2" using t Some True by simp
      moreover have "wf_yaml (put_value ''wake'' ?w b2)" unfolding u by (rule wf_upsert [OF b2(1,2) wf_deleteKey [OF w]])
      moreover have "mappingValue ?w ''ec2_instance'' = None" using mappingValue_delete [OF w True] by simp
      ultimately show ?thesis using b2 Some by (simp add: machine_from_def)
    qed
  qed
qed

lemma copy_block_identity:
  assumes "copy_block tagOf overrides src = Inr block" "wf_yaml src" "y_kind src = MappingNode"
  shows "(mappingValue block ''token_secret'' = None \<or> (\<exists>p v. (''token_secret'' # p, v) \<in> set overrides)) \<and>
    \<not> (\<exists>w. mappingValue block ''wake'' = Some w \<and> y_kind w = MappingNode \<and>
       \<not> (\<exists>i. mappingValue w ''ec2_instance'' = Some i \<and> y_value i \<noteq> [] \<and>
          (([''wake'', ''ec2_instance''], y_value i) \<in> set overrides \<or> ([''host''], y_value i) \<in> set overrides)))"
proof -
  let ?os = "set overrides"
  note c = template_copy_clean [OF assms(2,3), of ?os]
  obtain b where b: "setPaths tagOf overrides (template_copy src) = Inr b"
    "fillWakeFromHost tagOf (list_ex (\<lambda>o1. fst o1 = [''host'']) overrides) b = Inr block"
    using assms(1) by (auto simp: copy_block_def split: sum.splits)
  have p: "wf_yaml b" "y_kind b = MappingNode" "machine_from ?os b" "(\<exists>v. ([''host''], v) \<in> ?os) \<longrightarrow> host_from ?os b"
    "(\<forall>o1\<in>?os. fst o1 = [] \<or> hd (fst o1) \<noteq> ''token_secret'') \<longrightarrow> mappingValue b ''token_secret'' = None"
    using setPaths_copy [OF b(1) order_refl, of "''token_secret''"] c by simp_all
  have tok: "mappingValue b ''token_secret'' = None \<or> (\<exists>p v. (''token_secret'' # p, v) \<in> ?os)"
  proof (rule ccontr)
    assume n: "\<not> ?thesis"
    then obtain o1 where "o1 \<in> ?os" "fst o1 \<noteq> []" "hd (fst o1) = ''token_secret''" using p(5) by blast
    then have "(''token_secret'' # tl (fst o1), snd o1) \<in> ?os" by (metis list.collapse prod.collapse)
    with n show False by blast
  qed
  show ?thesis
  proof (cases "mappingValue b ''wake''")
    case None
    then show ?thesis using b(2) tok by (simp add: fillWakeFromHost_def)
  next
    case (Some w)
    show ?thesis
    proof (cases "y_kind w = MappingNode")
      case False
      then show ?thesis using b(2) tok Some by (simp add: fillWakeFromHost_def)
    next
      case k: True
      show ?thesis
      proof (cases "\<exists>i. mappingValue w ''ec2_instance'' = Some i \<and> y_value i \<noteq> []")
        case True
        then have "block = b" using b(2) Some k by (auto simp: fillWakeFromHost_def)
        then show ?thesis using p(3) tok True Some k by (auto simp: machine_from_def)
      next
        case False
        then have n: "\<not> (case mappingValue w ''ec2_instance'' of None \<Rightarrow> False | Some i \<Rightarrow> y_value i \<noteq> [])"
          by (simp split: option.split)
        let ?h = "nodeMapValue b ''host''"
        obtain w' where f: "list_ex (\<lambda>o1. fst o1 = [''host'']) overrides" "IsEC2InstanceID ?h"
            "setPath tagOf [''ec2_instance''] ?h w = Inr w'" "block = put_value ''wake'' w' b"
          using b(2) Some k n by (auto simp: fillWakeFromHost_def simp del: setPath.simps split: if_splits sum.splits)
        from f(1) have "\<exists>v. ([''host''], v) \<in> ?os" by (auto simp: list_ex_iff)
        then obtain m where m: "mappingValue b ''host'' = Some m" "([''host''], y_value m) \<in> ?os"
          using p(4) by (auto simp: host_from_def)
        then have h: "?h = y_value m" using p(2) by (simp add: nodeMapValue_def)
        have w: "wf_yaml w" by (rule wf_value [OF p(1) Some])
        from setPath_step [OF f(3) wf_even [OF w k]] obtain x where
          x: "mappingValue w' ''ec2_instance'' = Some x" "y_value x = ?h" by auto
        have "?h \<noteq> []" using f(2) by (auto simp: IsEC2InstanceID_def)
        moreover have "mappingValue block k = (if k = ''wake'' then Some w' else mappingValue b k)" for k
          using Some f(4) by simp
        ultimately show ?thesis using x m h tok by auto
      qed
    qed
  qed
qed


definition copy_doc :: ynode where
  "copy_doc = YNode MappingNode ''!!map'' [] PlainStyle [] [y_str ''runners'', YNode MappingNode ''!!map'' [] PlainStyle []
     [y_str ''box'', YNode MappingNode ''!!map'' [] FlowStyle []
        [y_str ''token_secret'', y_str ''shared'', y_str ''wake'',
         YNode MappingNode ''!!map'' [] FlowStyle [] [y_str ''region'', y_str ''eu-west-1'', y_str ''ec2_instance'', y_str ''i-00000000'']]]]"

definition copy_env :: cenv where
  "copy_env = sample_cenv\<lparr>cv_unmarshal := (\<lambda>_. Inr (Some copy_doc))\<rparr>"

definition copy_overrides :: "(string list \<times> string) list" where
  "copy_overrides = [([''host''], ''i-12345678'')]"

definition template_block :: ynode where
  "template_block = YNode MappingNode ''!!map'' [] FlowStyle []
        [y_str ''token_secret'', y_str ''shared'', y_str ''wake'',
         YNode MappingNode ''!!map'' [] FlowStyle [] [y_str ''region'', y_str ''eu-west-1'', y_str ''ec2_instance'', y_str ''i-00000000'']]"

lemma template_found:
  "\<exists>runners. mappingValue copy_doc ''runners'' = Some runners \<and> y_kind runners = MappingNode \<and> mappingValue runners ''box'' = Some template_block"
  by (simp add: copy_doc_def mappingValue_def y_str_def y_scalar_def template_block_def)

lemma host_is_machine: "IsEC2InstanceID ''i-12345678''"
  by (simp add: IsEC2InstanceID_def hexdigit_def isdigit_def byte_def)

lemma copies: "\<exists>b. copy_block (\<lambda>_. ''!!str'') copy_overrides template_block = Inr b"
  using host_is_machine
  by (simp add: copy_block_def copy_overrides_def template_copy_def identityKeys_def deleteKey_def mappingValue_def with_content_def
      put_value_def y_str_def y_scalar_def append_pair_def fillWakeFromHost_def nodeMapValue_def template_block_def Let_def)

lemma copy_overrides_parse: "parseSets [''host=i-12345678''] [] = Inr copy_overrides"
  by (simp add: Cut_def setKey_def key_head_def key_tail_def copy_overrides_def Let_def)

lemma copy_runs: "\<exists>w. runnerAdd copy_env ''new'' ''box'' [''host=i-12345678''] = Inr w"
proof -
  obtain c where c: "Parse sample_config = Ok c" using sample_parses by blast
  have r: "Runners c = [(''box'', Some sample_runner)]" "g_SecretsDir (Gateway c) = []"
    using c by (auto simp: Parse_def applyDefaults_def applyGatewayDefaults_def sample_defs Let_def split: outcome.splits if_splits)
  obtain b where b: "copy_block (\<lambda>_. ''!!str'') copy_overrides template_block = Inr b" using copies by blast
  obtain runners where t: "mappingValue copy_doc ''runners'' = Some runners" "y_kind runners = MappingNode"
    "mappingValue runners ''box'' = Some template_block" using template_found by blast
  have k: "y_kind copy_doc = MappingNode" "y_kind template_block = MappingNode" by (simp_all add: copy_doc_def template_block_def)
  have f: "cv_lock copy_env = None" "cv_read copy_env = Inr ''raw''" "cv_unmarshal copy_env x = Inr (Some copy_doc)"
    "cv_encode copy_env n = Inr ''edited''" "cv_decode copy_env x = Inr sample_config" "cv_write copy_env x = None"
    "scalarTag (cv_scalar copy_env) = (\<lambda>_. ''!!str'')" for x n by (simp_all add: copy_env_def sample_cenv_def scalarTag_def fun_eq_iff)
  have p: "parse_text copy_env x = Ok c" for x by (simp add: parse_text_def f c)
  have a: "\<exists>d. add_edit copy_env ''new'' ''box'' copy_overrides copy_doc = Inr (d, b)" by (simp add: add_edit_def t k f b)
  have s: "ValidSlug ''new''" by (simp add: ValidSlug_def slug_head_def slug_tail_def byte_def)
  have g: "load_locked copy_env = Inr c" "add_guard ''new'' ''box'' c = None" "stale_secret copy_env ''new'' c = None"
    by (simp_all add: load_locked_def f p add_guard_def r has_key_def stale_secret_def)
  have e: "\<exists>d. editDoc copy_env (add_edit copy_env ''new'' ''box'' copy_overrides) = Inr (d, ''edited'', b)"
    using a by (auto simp: editDoc_def f k)
  have "commit copy_env (stale_secret copy_env ''new'') ''edited'' = Inr c" by (simp add: commit_def p g f)
  then show ?thesis using s g e by (auto simp: runnerAdd_def copy_overrides_parse edit_file_def edit_commit_def simp del: parseSets.simps)
qed


end
