(* ===== verification/FileEdit.thy ===== *)
theory FileEdit
  imports Prelude
begin

text \<open>
  How the configuration file is locked and replaced (cmd/splitscreen/lock_unix.go and writeConfig of
  route.go). The outcome of every system call is an argument; files are kept with their content, mode and
  owner. The answers to the lock are a sequence, each with the time at which the loop looks at the clock
  after it. Times are nanoseconds.
\<close>

subsection \<open>The lock\<close>

datatype flock_answer = Locked | WouldBlock | FlockError string

definition configLockTimeout :: int where "configLockTimeout = 30 * 1000000000"

text \<open>\<open>None\<close>: the loop is still waiting when the sequence ends.\<close>

fun lock_loop :: "string \<Rightarrow> int \<Rightarrow> (flock_answer \<times> int) list \<Rightarrow> string option option" where
  "lock_loop path deadline [] = None"
| "lock_loop path deadline ((a, now) # rest) =
     (case a of
        Locked \<Rightarrow> Some None
      | FlockError m \<Rightarrow> Some (Some (''lock '' @ path @ '': '' @ m))
      | WouldBlock \<Rightarrow> if deadline < now then Some (Some (''lock '' @ path @ '': another edit has held it for 30s''))
                     else lock_loop path deadline rest)"

definition lockConfig :: "string \<Rightarrow> string option \<Rightarrow> int \<Rightarrow> (flock_answer \<times> int) list \<Rightarrow> string option option" where
  "lockConfig path opened start polls =
     (case opened of Some m \<Rightarrow> Some (Some (''lock '' @ path @ '': '' @ m))
      | None \<Rightarrow> lock_loop path (start + configLockTimeout) polls)"

text \<open>The lock is held only when the system granted it, and nobody waits for longer than the timeout.\<close>

lemma lock_granted: "lock_loop path d polls = Some None \<Longrightarrow> \<exists>i<length polls. fst (polls ! i) = Locked \<and> (\<forall>j<i. fst (polls ! j) = WouldBlock)"
proof (induction polls)
  case (Cons x polls)
  obtain a now where x: "x = (a, now)" by fastforce
  show ?case
  proof (cases a)
    case Locked
    then show ?thesis using x by (intro exI [of _ 0]) simp
  next
    case WouldBlock
    with Cons x obtain i where i: "i < length polls" "fst (polls ! i) = Locked" "\<forall>j<i. fst (polls ! j) = WouldBlock"
      by (auto split: if_splits)
    have "fst ((x # polls) ! j) = WouldBlock" if "j < Suc i" for j using that i(3) x WouldBlock by (cases j) auto
    with i show ?thesis by (intro exI [of _ "Suc i"]) auto
  next
    case (FlockError m)
    with Cons.prems x show ?thesis by simp
  qed
qed simp

lemma lock_returns:
  "i < length polls \<Longrightarrow> d < snd (polls ! i) \<Longrightarrow> lock_loop path d polls \<noteq> None"
proof (induction polls arbitrary: i)
  case (Cons x polls)
  then show ?case by (cases x; cases i) (auto split: flock_answer.split)
qed simp

subsection \<open>Replacing the file\<close>

record cfile =
  fl_content :: string
  fl_mode :: nat
  fl_owner :: "nat \<times> nat"

record write_env =
  wf_temp :: "string + string"
  wf_euid :: "nat \<times> nat"
  wf_chmod :: "string option"
  wf_chown :: "string option"
  wf_write :: "string option"
  wf_sync :: "string option"
  wf_close :: "string option"
  wf_rename :: "string option"

text \<open>The owner is kept when the edit runs as root; \<open>None\<close>: nothing to do, or done.\<close>

definition preserveOwner :: "write_env \<Rightarrow> cfile \<Rightarrow> cfile \<Rightarrow> cfile \<times> string option" where
  "preserveOwner E orig f =
     (if fst (wf_euid E) \<noteq> 0 then (f, None)
      else (case wf_chown E of Some m \<Rightarrow> (f, Some m) | None \<Rightarrow> (f\<lparr>fl_owner := fl_owner orig\<rparr>, None)))"

definition take_attributes :: "write_env \<Rightarrow> cfile option \<Rightarrow> cfile \<Rightarrow> cfile \<times> string option" where
  "take_attributes E orig f =
     (case orig of None \<Rightarrow> (f, None)
      | Some x \<Rightarrow> (case wf_chmod E of Some m \<Rightarrow> (f, Some m) | None \<Rightarrow> preserveOwner E x (f\<lparr>fl_mode := fl_mode x\<rparr>)))"

text \<open>The first call that fails ends the edit; the temporary file is removed in every case.\<close>

definition first_error :: "string option list \<Rightarrow> string option" where
  "first_error es = (case filter (\<lambda>x. x \<noteq> None) es of [] \<Rightarrow> None | x # _ \<Rightarrow> x)"

definition writeConfig :: "write_env \<Rightarrow> string \<Rightarrow> string \<Rightarrow> cfile gomap \<Rightarrow> cfile gomap \<times> string option" where
  "writeConfig E path data fs =
     (case wf_temp E of Inl m \<Rightarrow> (fs, Some m)
      | Inr tmp \<Rightarrow>
          (case take_attributes E (map_of fs path) \<lparr>fl_content = [], fl_mode = 384, fl_owner = wf_euid E\<rparr> of
             (f, Some m) \<Rightarrow> (del tmp fs, Some m)
           | (f, None) \<Rightarrow>
               (case first_error [wf_write E, wf_sync E, wf_close E, wf_rename E] of
                  Some m \<Rightarrow> (del tmp fs, Some m)
                | None \<Rightarrow> (del tmp (put path (f\<lparr>fl_content := data\<rparr>) fs), None))))"

text \<open>
  The file is replaced as a whole or not at all: whichever call fails, it is what it was, and no other
  file changes; a replaced file has the new content and the old mode, and the old owner when root edits it.
\<close>

lemma write_all_or_nothing:
  assumes "writeConfig E path data fs = (fs', r)" "\<And>tmp. wf_temp E = Inr tmp \<Longrightarrow> tmp \<noteq> path \<and> map_of fs tmp = None"
  shows "r \<noteq> None \<Longrightarrow> map_of fs' k = map_of fs k" "r = None \<Longrightarrow> k \<noteq> path \<Longrightarrow> map_of fs' k = map_of fs k"
    "r = None \<Longrightarrow> \<exists>f. map_of fs' path = Some f \<and> fl_content f = data
       \<and> (\<forall>x. map_of fs path = Some x \<longrightarrow> fl_mode f = fl_mode x \<and> (fst (wf_euid E) = 0 \<longrightarrow> fl_owner f = fl_owner x))"
proof -
  show "r \<noteq> None \<Longrightarrow> map_of fs' k = map_of fs k" "r = None \<Longrightarrow> k \<noteq> path \<Longrightarrow> map_of fs' k = map_of fs k"
    using assms by (auto simp: writeConfig_def split: sum.splits prod.splits option.splits)
  show "r = None \<Longrightarrow> \<exists>f. map_of fs' path = Some f \<and> fl_content f = data
       \<and> (\<forall>x. map_of fs path = Some x \<longrightarrow> fl_mode f = fl_mode x \<and> (fst (wf_euid E) = 0 \<longrightarrow> fl_owner f = fl_owner x))"
  proof -
    assume "r = None"
    then obtain tmp f where t: "wf_temp E = Inr tmp"
      and f: "take_attributes E (map_of fs path) \<lparr>fl_content = [], fl_mode = 384, fl_owner = wf_euid E\<rparr> = (f, None)"
      and fs': "fs' = del tmp (put path (f\<lparr>fl_content := data\<rparr>) fs)"
      using assms(1) by (auto simp: writeConfig_def split: sum.splits prod.splits option.splits)
    have "map_of fs' path = Some (f\<lparr>fl_content := data\<rparr>)" using fs' assms(2) [OF t] by auto
    moreover have "fl_mode f = fl_mode x \<and> (fst (wf_euid E) = 0 \<longrightarrow> fl_owner f = fl_owner x)" if "map_of fs path = Some x" for x
      using f that by (auto simp: take_attributes_def preserveOwner_def split: option.splits if_splits)
    ultimately show ?thesis by simp
  qed
qed

end
