(* ===== verification/Shims.thy ===== *)
theory Shims
  imports Requests
begin

text \<open>
  The local helpers (cmd/splitscreen/helpers.go) and the loop they serve their tools with
  (internal/mcpstdio/mcpstdio.go): the git credential helper, the permission shim, the shim of a proxied
  server, the file sender. The runner's socket, JSON texts and standard streams are arguments: a
  stream is its lines, a handler what its two methods return. The tool use id of a permission request, which
  the runner never reads, is left out.
\<close>

subsection \<open>The stdio loop\<close>

record shimTool =
  sh_Name :: string
  sh_Description :: string
  sh_InputSchema :: string

record shim_request =
  rq_ID :: string
  rq_Method :: string
  rq_Params :: string

datatype shim_result =
    InitializeResult string
  | PingResult
  | ToolsResult "shimTool list"
  | ErrorContent string
  | PassThrough string
  | TextContent string
  | EmptyContent
  | RPCError int string

record shim_response =
  rs_ID :: string
  rs_Result :: shim_result

record stdio_codec =
  io_request :: "string \<Rightarrow> shim_request option"
  io_params :: "string \<Rightarrow> string + (string \<times> string)"
  io_has_content :: "string \<Rightarrow> bool"
  io_response :: "shim_response \<Rightarrow> string option"

record handler =
  hd_Tools :: "string + shimTool list option"
  hd_Call :: "string \<Rightarrow> string \<Rightarrow> string + string"

definition wrapContent :: "stdio_codec \<Rightarrow> string \<Rightarrow> shim_result" where
  "wrapContent C result =
     (if result = [] then EmptyContent else if io_has_content C result then PassThrough result else TextContent result)"

text \<open>What a request is answered with; \<open>None\<close>: nothing is written.\<close>

definition answer_request :: "stdio_codec \<Rightarrow> string \<Rightarrow> handler \<Rightarrow> shim_request \<Rightarrow> shim_result option" where
  "answer_request C name h q =
     (let notification = (rq_ID q = []); m = rq_Method q in
      if m = ''initialize'' then (if notification then None else Some (InitializeResult name))
      else if m = ''notifications/initialized'' \<or> m = ''initialized'' then None
      else if m = ''ping'' then (if notification then None else Some PingResult)
      else if m = ''tools/list''
      then (if notification then None
            else Some (case hd_Tools h of Inl e \<Rightarrow> RPCError (- 32603) e
                 | Inr None \<Rightarrow> ToolsResult [] | Inr (Some ts) \<Rightarrow> ToolsResult ts))
      else if m = ''tools/call''
      then (if notification then None
            else Some (case io_params C (rq_Params q) of
                 Inl e \<Rightarrow> RPCError (- 32602) (''bad params: '' @ e)
               | Inr (tool, args) \<Rightarrow> (case hd_Call h tool args of Inl e \<Rightarrow> ErrorContent e | Inr r \<Rightarrow> wrapContent C r)))
      else (if notification then None else Some (RPCError (- 32601) (''unknown method '' @ m))))"

definition serve_line :: "stdio_codec \<Rightarrow> string \<Rightarrow> handler \<Rightarrow> string \<Rightarrow> shim_response list" where
  "serve_line C name h line =
     (if TrimSpace line = [] then []
      else (case io_request C line of None \<Rightarrow> []
        | Some q \<Rightarrow> (case answer_request C name h q of None \<Rightarrow> [] | Some r \<Rightarrow> [\<lparr>rs_ID = rq_ID q, rs_Result = r\<rparr>])))"

text \<open>
  The lines up to the end of the input or its error, each with the handler as it answers at that moment;
  a response that cannot be printed is dropped.
\<close>

definition Serve :: "stdio_codec \<Rightarrow> string \<Rightarrow> (nat \<Rightarrow> handler) \<Rightarrow> string list \<Rightarrow> shim_response list" where
  "Serve C name h lines = concat (map (\<lambda>(i, line). filter (\<lambda>r. io_response C r \<noteq> None) (serve_line C name (h i) line)) (enumerate 0 lines))"

subsection \<open>The permission shim\<close>

datatype shim_decision = AllowInput string | DenyWith string

record shim_env =
  se_ipc :: "IPCRequest \<Rightarrow> string + IPCResponse"
  se_permission :: "string \<Rightarrow> string + (string \<times> string)"
  se_decision :: "string \<Rightarrow> string + PermissionResult"
  se_credential :: "string \<Rightarrow> string + CredentialResult"
  se_tools :: "string \<Rightarrow> shimTool list option"

definition blank_ipc :: "string \<Rightarrow> string \<Rightarrow> IPCRequest" where
  "blank_ipc x thread = \<lparr>ipc_Op = x, ipc_Thread = thread, ipc_Resource = [], ipc_Tool = [], ipc_Input = [], ipc_Server = [],
     ipc_Args = [], ipc_Path = [], ipc_Comment = []\<rparr>"

definition permission_Tools :: "string + shimTool list option" where
  "permission_Tools = Inr (Some [\<lparr>sh_Name = ''permission_prompt'',
     sh_Description = ''Ask the operators whether this tool call may proceed.'', sh_InputSchema = ''tool_name, input''\<rparr>])"

definition permission_Call :: "shim_env \<Rightarrow> string \<Rightarrow> string \<Rightarrow> string \<Rightarrow> string + shim_decision" where
  "permission_Call E thread name args =
     (if name \<noteq> ''permission_prompt'' then Inl ''unknown tool''
      else (case se_permission E args of
        Inl m \<Rightarrow> Inl m
      | Inr (tool, input) \<Rightarrow>
          (case se_ipc E ((blank_ipc ''permission'' thread)\<lparr>ipc_Tool := tool, ipc_Input := input\<rparr>) of
             Inl m \<Rightarrow> Inr (DenyWith (''could not reach the control plane: '' @ m))
           | Inr resp \<Rightarrow>
               if \<not> ir_OK resp then Inr (DenyWith (ir_Error resp))
               else (case se_decision E (ir_Data resp) of
                       Inl _ \<Rightarrow> Inr (DenyWith ''malformed decision'')
                     | Inr d \<Rightarrow> if pres_Behavior d = ''allow'' then Inr (AllowInput input) else Inr (DenyWith (pres_Message d))))))"

subsection \<open>The shim of a proxied server\<close>

definition proxy_Tools :: "shim_env \<Rightarrow> string \<Rightarrow> string \<Rightarrow> string + shimTool list option" where
  "proxy_Tools E thread server =
     (case se_ipc E ((blank_ipc ''mcp.list'' thread)\<lparr>ipc_Server := server\<rparr>) of
        Inl m \<Rightarrow> Inl m
      | Inr resp \<Rightarrow> if \<not> ir_OK resp then Inl (ir_Error resp)
          else (case se_tools E (ir_Data resp) of Some ts \<Rightarrow> Inr (if ts = [] then None else Some ts) | None \<Rightarrow> Inr None))"

definition proxy_Call :: "shim_env \<Rightarrow> string \<Rightarrow> string \<Rightarrow> string \<Rightarrow> string \<Rightarrow> string + string" where
  "proxy_Call E thread server name args =
     (case se_ipc E ((blank_ipc ''mcp.call'' thread)\<lparr>ipc_Server := server, ipc_Tool := name, ipc_Args := args\<rparr>) of
        Inl m \<Rightarrow> Inl m
      | Inr resp \<Rightarrow> if \<not> ir_OK resp then Inl (ir_Error resp) else Inr (ir_Data resp))"

subsection \<open>The git credential helper\<close>

fun readCredentialAttrs :: "string list \<Rightarrow> string gomap \<Rightarrow> string gomap" where
  "readCredentialAttrs [] attrs = attrs"
| "readCredentialAttrs (line # lines) attrs =
     (if line = [] then attrs
      else (case Cut line CHR ''='' of (k, v, ok) \<Rightarrow> readCredentialAttrs lines (if ok then put k v attrs else attrs)))"

definition trim_byte :: "char \<Rightarrow> string \<Rightarrow> string" where
  "trim_byte c s = rev (dropWhile (\<lambda>x. x = c) (rev (dropWhile (\<lambda>x. x = c) s)))"

definition TrimSuffix :: "string \<Rightarrow> string \<Rightarrow> string" where
  "TrimSuffix s p = (case CutSuffix s p of None \<Rightarrow> s | Some q \<Rightarrow> q)"

definition repoFromPath :: "string \<Rightarrow> string" where
  "repoFromPath path = trim_byte CHR ''/'' (TrimSuffix (TrimSpace path) ''.git'')"

text \<open>The lines printed for git, or the error; \<open>readErr\<close>: how reading standard input ended.\<close>

definition credentialHelper :: "shim_env \<Rightarrow> string list \<Rightarrow> string list \<Rightarrow> string option \<Rightarrow> string + string list" where
  "credentialHelper E args lines readErr =
     (let x = (case args of [] \<Rightarrow> ''get'' | a # _ \<Rightarrow> a) in
      if x \<noteq> ''get'' then Inr []
      else (case readErr of Some m \<Rightarrow> Inl m
        | None \<Rightarrow>
            (let repo = repoFromPath (get_or [] (readCredentialAttrs lines []) ''path'') in
             if repo = [] then Inl ''splitscreen: git did not supply a repository path''
             else (case se_ipc E ((blank_ipc ''credential'' [])\<lparr>ipc_Resource := repo\<rparr>) of
                     Inl m \<Rightarrow> Inl m
                   | Inr resp \<Rightarrow>
                       if \<not> ir_OK resp then Inl (''splitscreen: '' @ ir_Error resp)
                       else (case se_credential E (ir_Data resp) of
                               Inl m \<Rightarrow> Inl m
                             | Inr c \<Rightarrow> Inr [''username='' @ cres_Username c, ''password='' @ cres_Password c])))))"

definition send_file_cmd :: "shim_env \<Rightarrow> string \<Rightarrow> string \<Rightarrow> string \<Rightarrow> string \<Rightarrow> string option" where
  "send_file_cmd E envThread thread0 path comment =
     (let thread = (if thread0 = [] then envThread else thread0) in
      case se_ipc E ((blank_ipc ''send-file'' thread)\<lparr>ipc_Path := path, ipc_Comment := comment\<rparr>) of
        Inl m \<Rightarrow> Some m
      | Inr resp \<Rightarrow> if ir_OK resp then None else Some (''splitscreen: '' @ ir_Error resp))"

subsection \<open>One answer per request\<close>

text \<open>A request with an id is answered, except the end of the handshake; a notification is not.\<close>

lemma answered_iff:
  "answer_request C name h q \<noteq> None \<longleftrightarrow> rq_ID q \<noteq> [] \<and> rq_Method q \<notin> {''notifications/initialized'', ''initialized''}"
  by (auto simp: answer_request_def Let_def)

lemma serve_line_once: "length (serve_line C name h line) \<le> 1"
  by (simp add: serve_line_def split: option.split)

lemma serve_line_id:
  "r \<in> set (serve_line C name h line) \<Longrightarrow> \<exists>q. io_request C line = Some q \<and> rs_ID r = rq_ID q \<and> rq_ID q \<noteq> []"
proof -
  assume r: "r \<in> set (serve_line C name h line)"
  have "TrimSpace line \<noteq> []" using r by (auto simp: serve_line_def)
  then have nonblank: "serve_line C name h line = (case io_request C line of None \<Rightarrow> []
      | Some q \<Rightarrow> (case answer_request C name h q of None \<Rightarrow> [] | Some r \<Rightarrow> [\<lparr>rs_ID = rq_ID q, rs_Result = r\<rparr>]))"
    by (simp add: serve_line_def)
  obtain q where q0: "io_request C line = Some q" using r nonblank by (cases "io_request C line") simp_all
  obtain x where x0: "answer_request C name h q = Some x" using r nonblank q0 by (cases "answer_request C name h q") simp_all
  have q: "io_request C line = Some q" "answer_request C name h q = Some x" "r = \<lparr>rs_ID = rq_ID q, rs_Result = x\<rparr>"
    using r nonblank q0 x0 by simp_all
  then have "rq_ID q \<noteq> []" using answered_iff [of C name h q] by simp
  with q show ?thesis by simp
qed

text \<open>The answers come in the order of the requests, so their ids are a subsequence of the requests' ids.\<close>

lemma serve_ids: "subseq (map rs_ID (Serve C name h lines)) (concat (map (\<lambda>line. case io_request C line of None \<Rightarrow> [] | Some q \<Rightarrow> [rq_ID q]) lines))"
proof -
  have line: "subseq (map rs_ID (filter P (serve_line C name h' line))) (case io_request C line of None \<Rightarrow> [] | Some q \<Rightarrow> [rq_ID q])"
    for P h' line by (auto simp: serve_line_def split: option.splits)
  have "subseq (map rs_ID (concat (map (\<lambda>(i, line). filter (\<lambda>r. io_response C r \<noteq> None) (serve_line C name (h i) line)) (enumerate n lines))))
      (concat (map (\<lambda>line. case io_request C line of None \<Rightarrow> [] | Some q \<Rightarrow> [rq_ID q]) lines))" for n
  proof (induction lines arbitrary: n)
    case (Cons l ls)
    from list_emb_append_mono [OF line Cons [of "Suc n"]] show ?case by simp
  qed simp
  then show ?thesis by (simp add: Serve_def)
qed

subsection \<open>Failing closed\<close>

text \<open>
  The permission shim fails closed: it lets a tool call through only when the runner answered the
  request for this tool and input with a well-formed decision that allows it, and then with the input
  that was asked about; an unreachable runner, a refused request, a malformed answer and any other
  behaviour deny.
\<close>

theorem shim_fails_closed:
  assumes "permission_Call E thread name args = Inr (AllowInput i)"
  shows "\<exists>tool resp d. se_permission E args = Inr (tool, i)
     \<and> se_ipc E ((blank_ipc ''permission'' thread)\<lparr>ipc_Tool := tool, ipc_Input := i\<rparr>) = Inr resp \<and> ir_OK resp
     \<and> se_decision E (ir_Data resp) = Inr d \<and> pres_Behavior d = ''allow''"
  using assms by (auto simp: permission_Call_def split: if_splits sum.splits)

definition sample_shim :: shim_env where
  "sample_shim = \<lparr>se_ipc = (\<lambda>q. if ipc_Tool q = ''Read'' then Inr (ipc_ok ''yes'') else Inl ''gone''),
     se_permission = (\<lambda>a. Inr (a, ''{}'')), se_decision = (\<lambda>_. Inr \<lparr>pres_Behavior = ''allow'', pres_Message = []\<rparr>),
     se_credential = (\<lambda>_. Inr \<lparr>cres_Username = ''x'', cres_Password = ''tok''\<rparr>), se_tools = (\<lambda>_. None)\<rparr>"

lemma sample_allows: "permission_Call sample_shim ''t'' ''permission_prompt'' ''Read'' = Inr (AllowInput ''{}'')"
  by (simp add: permission_Call_def sample_shim_def blank_ipc_def ipc_ok_def)

theorem shim_fails_closed_witness:
  "\<exists>tool resp d. se_permission sample_shim ''Read'' = Inr (tool, ''{}'')
     \<and> se_ipc sample_shim ((blank_ipc ''permission'' ''t'')\<lparr>ipc_Tool := tool, ipc_Input := ''{}''\<rparr>) = Inr resp \<and> ir_OK resp
     \<and> se_decision sample_shim (ir_Data resp) = Inr d \<and> pres_Behavior d = ''allow''"
  by (rule shim_fails_closed [OF sample_allows])

lemma unreachable_denies:
  "(\<And>q. se_ipc E q = Inl m) \<Longrightarrow> permission_Call E thread name args \<noteq> Inr (AllowInput i)"
  by (auto simp: permission_Call_def split: sum.split)

subsection \<open>Whom a credential is for\<close>

lemma attrs_ignore:
  "k' \<noteq> k \<Longrightarrow> CHR ''='' \<notin> set k \<Longrightarrow>
    get_or [] (readCredentialAttrs ((k @ CHR ''='' # v) # lines) attrs) k' = get_or [] (readCredentialAttrs lines (put k v attrs)) k'"
  by (simp add: Cut_append)

lemma attrs_same:
  "(\<And>x. x \<noteq> k \<Longrightarrow> get_or [] a x = get_or [] b x) \<Longrightarrow> k' \<noteq> k \<Longrightarrow>
     get_or [] (readCredentialAttrs lines a) k' = get_or [] (readCredentialAttrs lines b) k'"
proof (induction lines arbitrary: a b)
  case (Cons line lines)
  obtain x v ok where c: "Cut line CHR ''='' = (x, v, ok)" by (metis prod_cases3)
  have kept: "get_or [] (readCredentialAttrs lines (put x v a)) k' = get_or [] (readCredentialAttrs lines (put x v b)) k'"
    by (rule Cons.IH) (simp_all add: Cons.prems)
  have plain: "get_or [] (readCredentialAttrs lines a) k' = get_or [] (readCredentialAttrs lines b) k'"
    by (rule Cons.IH [OF Cons.prems])
  show ?case using Cons.prems(1) [OF Cons.prems(2)] kept plain by (simp add: c)
qed simp

text \<open>
  The host git is talking to plays no part: whatever host it names, the helper answers the token minted
  for the path, so a repository of the same path on any other host is sent a token for the forge.
\<close>

lemma helper_ignores_host:
  "credentialHelper E args ((''host='' @ h1) # lines) e = credentialHelper E args ((''host='' @ h2) # lines) e"
proof -
  have "get_or [] (readCredentialAttrs ((''host='' @ h) # lines) []) ''path''
      = get_or [] (readCredentialAttrs lines (put ''host'' h [])) ''path''" for h
    using attrs_ignore [of "''path''" "''host''" h lines "[]"] by simp
  moreover have "get_or [] (readCredentialAttrs lines (put ''host'' h1 [])) ''path''
      = get_or [] (readCredentialAttrs lines (put ''host'' h2 [])) ''path''"
    by (rule attrs_same [of "''host''"]) simp_all
  ultimately show ?thesis by (simp only: credentialHelper_def)
qed

text \<open>Nothing is stored and nothing erased.\<close>

lemma helper_only_gets: "x \<noteq> ''get'' \<Longrightarrow> credentialHelper E (x # args) lines e = Inr []"
  by (simp add: credentialHelper_def)

end
