(* ===== verification/LocalSocket.thy ===== *)
theory LocalSocket
  imports Answers Shims
begin

text \<open>
  The socket between a runner and its local helpers (internal/runner/ipc.go): how it is opened, one request
  as the runner handles it and as a helper makes it, and the whole way of a permission from the harness's
  question to the gateway's answer. The JSON texts are the argument \<open>ipc_text\<close>, what the system calls
  answer are arguments. While a request waits, the runner reads from the gateway.
\<close>

subsection \<open>Opening it\<close>

definition SocketPath :: "string \<Rightarrow> string \<Rightarrow> string" where
  "SocketPath runtime name = path_join [runtime, name, ''run.sock'']"

datatype sock_act = MakeDir string nat | ClearStale string | ListenOn string | Restrict string nat | CloseListener | ServeLocal

record sock_env =
  so_mkdir :: "string option"
  so_remove :: "string option"
  so_absent :: bool
  so_listen :: "string option"
  so_chmod :: "string option"

definition startIPC :: "sock_env \<Rightarrow> string \<Rightarrow> sock_act list \<times> string option" where
  "startIPC X path =
     (case so_mkdir X of Some m \<Rightarrow> ([MakeDir (path_dir path) 448], Some (''runner: create runtime dir: '' @ m))
      | None \<Rightarrow>
          (let a = [MakeDir (path_dir path) 448, ClearStale path] in
           case (if so_absent X then None else so_remove X) of Some m \<Rightarrow> (a, Some (''runner: clear stale socket: '' @ m))
           | None \<Rightarrow>
               (case so_listen X of Some m \<Rightarrow> (a @ [ListenOn path], Some (''runner: listen on '' @ path @ '': '' @ m))
                | None \<Rightarrow>
                    (case so_chmod X of
                       Some m \<Rightarrow> (a @ [ListenOn path, Restrict path 384, CloseListener], Some (''runner: secure socket: '' @ m))
                     | None \<Rightarrow> (a @ [ListenOn path, Restrict path 384, ServeLocal], None)))))"

text \<open>Nobody is served before the socket is its owner's alone.\<close>

lemma served_only_when_restricted:
  "startIPC X path = (a @ ServeLocal # b, r) \<Longrightarrow> Restrict path 384 \<in> set a \<and> r = None \<and> b = []"
  by (auto simp: startIPC_def Let_def append_eq_Cons_conv Cons_eq_append_conv split: option.splits if_splits)

subsection \<open>A request\<close>

record ipc_text =
  it_request :: "IPCRequest \<Rightarrow> string + string"
  it_read_request :: "string \<Rightarrow> string + IPCRequest"
  it_response :: "IPCResponse \<Rightarrow> string option"
  it_read_response :: "string \<Rightarrow> string + IPCResponse"

definition writeIPC :: "ipc_text \<Rightarrow> IPCResponse \<Rightarrow> string" where
  "writeIPC T r =
     (case it_response T r of Some b \<Rightarrow> b
      | None \<Rightarrow> (case it_response T (ipc_error ''could not encode response'') of Some b \<Rightarrow> b | None \<Rightarrow> [])) @ [newline]"

text \<open>
  One connection: \<open>xs\<close> is what the runner reads from the gateway until the request's answer is looked for
  under \<open>E'\<close>. The second result is what is written to the helper, \<open>None\<close> as long as nothing is.
\<close>

definition ipc_handle :: "ipc_text \<Rightarrow> renv \<Rightarrow> renv \<Rightarrow> ipc_json \<Rightarrow> plug_env \<Rightarrow> (string \<Rightarrow> bool) \<Rightarrow> socket_data list \<Rightarrow> string \<Rightarrow>
    rstate \<Rightarrow> rstate \<times> string option" where
  "ipc_handle T E E' J P present xs line s =
     (case it_read_request T line of
        Inl m \<Rightarrow> (s, Some (writeIPC T (ipc_error (''malformed request: '' @ m))))
      | Inr q \<Rightarrow>
          (case handleIPC E J q s of
             (s1, Answered r) \<Rightarrow> (s1, Some (writeIPC T r))
           | (s1, Blocked w) \<Rightarrow>
               (case finishIPC E' J w (read_all E P present xs s1) of
                  (s2, r) \<Rightarrow> (s2, map_option (writeIPC T) r))))"

text \<open>The helper's side; \<open>ch_reply\<close> is what it reads back, its deadline being an error.\<close>

record ipc_channel =
  ch_dial :: "string option"
  ch_write :: "string \<Rightarrow> string option"
  ch_reply :: "string \<Rightarrow> string + string"

definition CallIPC :: "ipc_text \<Rightarrow> ipc_channel \<Rightarrow> string \<Rightarrow> IPCRequest \<Rightarrow> string + IPCResponse" where
  "CallIPC T X socket q =
     (case ch_dial X of Some m \<Rightarrow> Inl (''splitscreen: cannot reach the runner at '' @ socket @ '': '' @ m)
      | None \<Rightarrow>
          (case it_request T q of Inl m \<Rightarrow> Inl m
           | Inr body \<Rightarrow>
               (case ch_write X (body @ [newline]) of Some m \<Rightarrow> Inl m
                | None \<Rightarrow>
                    (case (case ch_reply X (body @ [newline]) of Inl m \<Rightarrow> Inl m | Inr out \<Rightarrow> it_read_response T out) of
                       Inl m \<Rightarrow> Inl (''splitscreen: no reply from the runner: '' @ m)
                     | Inr resp \<Rightarrow>
                         if \<not> ir_OK resp \<and> ir_Error resp = [] then Inl ''splitscreen: request failed without a reason''
                         else Inr resp))))"

text \<open>A helper and a runner that are connected.\<close>

definition runner_reply :: "ipc_text \<Rightarrow> renv \<Rightarrow> renv \<Rightarrow> ipc_json \<Rightarrow> plug_env \<Rightarrow> (string \<Rightarrow> bool) \<Rightarrow> socket_data list \<Rightarrow> rstate \<Rightarrow>
    string \<Rightarrow> string + string" where
  "runner_reply T E E' J P present xs s line =
     (case snd (ipc_handle T E E' J P present xs line s) of None \<Rightarrow> Inl ''i/o timeout'' | Some out \<Rightarrow> Inr out)"

subsection \<open>The texts\<close>

text \<open>
  What is relied on of the JSON texts: an operation of the protocol survives the way to the runner; a response
  that can be read back is as good as it was, and a decision in it is the decision that was put there; a line
  without a value is no response. \<open>D\<close> is the helper's reading of a decision.
\<close>

definition ipc_ops :: "string list" where
  "ipc_ops = [''credential'', ''permission'', ''mcp.call'', ''mcp.list'', ''send-file'', ''ping'']"

definition texts_faithful :: "ipc_text \<Rightarrow> ipc_json \<Rightarrow> (string \<Rightarrow> string + PermissionResult) \<Rightarrow> bool" where
  "texts_faithful T J D \<longleftrightarrow>
     (\<forall>q b. ipc_Op q \<in> set ipc_ops \<longrightarrow> it_request T q = Inr b \<longrightarrow>
        (\<exists>q'. it_read_request T (b @ [newline]) = Inr q' \<and> ipc_Op q' = ipc_Op q)) \<and>
     (\<forall>r b r'. it_response T r = Some b \<longrightarrow> it_read_response T (b @ [newline]) = Inr r' \<longrightarrow> ir_OK r' = ir_OK r \<and>
        (\<forall>d d'. ir_Data r = xj_perm J d \<longrightarrow> D (ir_Data r') = Inr d' \<longrightarrow>
           (pres_Behavior d' = ''allow'' \<longleftrightarrow> pres_Behavior d = ''allow''))) \<and>
     (\<forall>r. it_read_response T [newline] \<noteq> Inr r)"

lemma texts_request:
  assumes "texts_faithful T J D" "it_request T q = Inr b" "ipc_Op q = ''permission''"
  obtains q' where "it_read_request T (b @ [newline]) = Inr q'" "ipc_Op q' = ''permission''"
proof -
  have "ipc_Op q \<in> set ipc_ops" using assms(3) by (simp add: ipc_ops_def)
  with assms that show thesis unfolding texts_faithful_def by metis
qed

text \<open>A response that is read as an allowing decision was written for an allowing decision.\<close>

lemma texts_decision:
  assumes T: "texts_faithful T J D" and w: "it_read_response T (writeIPC T r) = Inr r'" "ir_OK r'"
    and d: "D (ir_Data r') = Inr d'" "pres_Behavior d' = ''allow''"
  shows "ir_OK r" "ir_Data r = xj_perm J x \<Longrightarrow> pres_Behavior x = ''allow''"
proof -
  obtain b where b: "it_response T r = Some b"
  proof (cases "it_response T r")
    case None
    let ?e = "ipc_error ''could not encode response''"
    show ?thesis
    proof (cases "it_response T ?e")
      case None
      with \<open>it_response T r = None\<close> w(1) T show ?thesis by (simp add: writeIPC_def texts_faithful_def)
    next
      case (Some b)
      with None w(1) have "it_read_response T (b @ [newline]) = Inr r'" by (simp add: writeIPC_def)
      with Some T have "ir_OK r' = ir_OK ?e" unfolding texts_faithful_def by blast
      with w(2) show ?thesis by (simp add: ipc_error_def)
    qed
  qed (use that in blast)
  then have rd: "it_read_response T (b @ [newline]) = Inr r'" using w(1) by (simp add: writeIPC_def)
  have law: "ir_OK r' = ir_OK r \<and> (\<forall>x y. ir_Data r = xj_perm J x \<longrightarrow> D (ir_Data r') = Inr y \<longrightarrow>
      (pres_Behavior y = ''allow'' \<longleftrightarrow> pres_Behavior x = ''allow''))"
    using T b rd unfolding texts_faithful_def by blast
  then show "ir_OK r" using w(2) by blast
  show "pres_Behavior x = ''allow''" if "ir_Data r = xj_perm J x" using law that d by blast
qed

subsection \<open>A permission from end to end\<close>

lemma CallIPC_reads:
  assumes "CallIPC T X socket q = Inr r"
  shows "\<exists>b out. it_request T q = Inr b \<and> ch_reply X (b @ [newline]) = Inr out \<and> it_read_response T out = Inr r"
  using assms by (auto simp: CallIPC_def split: option.splits sum.splits if_splits)

lemma request_start_waits:
  assumes "request_start E i f s = (s1, None)"
  shows "map_of (rn_pending s1) i = Some None"
  using assms
  by (auto simp: request_start_def runner_send_def runner_write_def split: sum.splits fmt_err.splits option.splits if_splits)

text \<open>A request for a permission is refused at once or waits for the gateway.\<close>

lemma permission_started:
  assumes "ipc_Op q = ''permission''" "handleIPC E J q s = (s1, st)"
  shows "(\<exists>m. st = Answered (ipc_error m)) \<or> (\<exists>m. st = Answered (ipc_ok (xj_perm J (permission_result (Inl m)))))
    \<or> st = Blocked (WaitPermission (''perm_'' @ rv_id E)) \<and> map_of (rn_pending s1) (''perm_'' @ rv_id E) = Some None"
  using assms by (auto simp: handleIPC_def Let_def requestPermission_start_def dest!: request_start_waits
    split: option.splits prod.splits sum.splits if_splits)

lemma runner_allows:
  assumes T: "texts_faithful T J D" and q: "it_read_request T line = Inr q" "ipc_Op q = ''permission''"
    and out: "runner_reply T E E' J P present xs s line = Inr out"
    and r: "it_read_response T out = Inr r" "ir_OK r" "D (ir_Data r) = Inr d" "pres_Behavior d = ''allow''"
  shows "\<exists>p data. TextData data \<in> set xs \<and> Decode (rv_json E) data DirDown = Inr (FPermissionResponse p) \<and>
    pr_request p = ''perm_'' @ rv_id E \<and> pr_decision p \<in> {DecisionAllow, DecisionAllowSession, DecisionAllowAlways}"
proof -
  let ?i = "''perm_'' @ rv_id E"
  obtain s1 st where st: "handleIPC E J q s = (s1, st)" by fastforce
  have bad: False if "st = Answered a" for a
  proof -
    from that st q(1) out have "out = writeIPC T a" by (simp add: runner_reply_def ipc_handle_def)
    note ok = texts_decision [OF T r(1,2,3,4) [unfolded this]]
    from permission_started [OF q(2) st] that ok(1)
    obtain m where "a = ipc_ok (xj_perm J (permission_result (Inl m)))" by (auto simp: ipc_error_def)
    with ok(2) [of "permission_result (Inl m)"] show False by (simp add: ipc_ok_def permission_result_def deny_with_def)
  qed
  with permission_started [OF q(2) st] have w: "st = Blocked (WaitPermission ?i)" "map_of (rn_pending s1) ?i = Some None"
    by auto
  obtain s2 v where v: "request_end E' ?i (read_all E P present xs s1) = (s2, v)" by fastforce
  then obtain v' where v': "v = Some v'" "out = writeIPC T (ipc_ok (xj_perm J (permission_result v')))"
    using out q(1) st w(1)
    by (cases v) (auto simp: runner_reply_def ipc_handle_def finishIPC_def ipc_answer_def)
  have "pres_Behavior (permission_result v') = ''allow''"
    using texts_decision(2) [OF T r(1,2,3,4) [unfolded v'(2)]] by (simp add: ipc_ok_def)
  from allow_was_read [OF w(2) v [unfolded v'(1)] this] show ?thesis .
qed

text \<open>
  C7. A tool call the permission shim lets through was allowed by the gateway: with the shim connected to a
  runner over the local socket, the harness is told to go on only when the runner, while the request waited,
  read from its connection a valid permission response for this very request that allows the call, and then
  the call goes on with the input that was asked about. Whatever else happens on the way, an unreachable
  socket, a refused or malformed request, a deadline, an error or an answer that cannot be read, denies.
\<close>

theorem harness_goes_on_only_if_the_gateway_allows:
  assumes "se_ipc H = CallIPC T (X\<lparr>ch_reply := runner_reply T E E' J P present xs s\<rparr>) socket"
    and "texts_faithful T J (se_decision H)"
    and "permission_Call H thread name args = Inr (AllowInput i)"
  shows "\<exists>tool p data. se_permission H args = Inr (tool, i) \<and> TextData data \<in> set xs \<and>
    Decode (rv_json E) data DirDown = Inr (FPermissionResponse p) \<and> pr_request p = ''perm_'' @ rv_id E \<and>
    pr_decision p \<in> {DecisionAllow, DecisionAllowSession, DecisionAllowAlways}"
proof -
  obtain tool resp d where a: "se_permission H args = Inr (tool, i)"
      "se_ipc H ((blank_ipc ''permission'' thread)\<lparr>ipc_Tool := tool, ipc_Input := i\<rparr>) = Inr resp" "ir_OK resp"
      "se_decision H (ir_Data resp) = Inr d" "pres_Behavior d = ''allow''"
    using shim_fails_closed [OF assms(3)] by blast
  let ?q = "(blank_ipc ''permission'' thread)\<lparr>ipc_Tool := tool, ipc_Input := i\<rparr>"
  from CallIPC_reads [OF a(2) [unfolded assms(1)]] obtain b out where
    b: "it_request T ?q = Inr b" "runner_reply T E E' J P present xs s (b @ [newline]) = Inr out"
      "it_read_response T out = Inr resp" by auto
  have "ipc_Op ?q = ''permission''" by (simp add: blank_ipc_def)
  from texts_request [OF assms(2) b(1) this] obtain q'
    where "it_read_request T (b @ [newline]) = Inr q'" "ipc_Op q' = ''permission''" by blast
  from runner_allows [OF assms(2) this b(2,3) a(3,4,5)] a(1) show ?thesis by blast
qed

definition sample_texts :: ipc_text where
  "sample_texts = \<lparr>it_request = (\<lambda>q. Inr (ipc_Op q @ CHR ''|'' # ipc_Tool q)),
     it_read_request = (\<lambda>l. Inr ((blank_ipc (takeWhile (\<lambda>c. c \<noteq> CHR ''|'') l) [])
       \<lparr>ipc_Tool := butlast (tl (dropWhile (\<lambda>c. c \<noteq> CHR ''|'') l))\<rparr>)),
     it_response = (\<lambda>r. Some ((if ir_OK r then CHR ''+'' else CHR ''-'') # ir_Data r)),
     it_read_response = (\<lambda>l. if hd l = newline then Inl ''EOF''
       else Inr \<lparr>ir_OK = hd l = CHR ''+'', ir_Error = ''no'', ir_Data = butlast (tl l)\<rparr>)\<rparr>"

definition sample_perm_json :: ipc_json where
  "sample_perm_json = \<lparr>xj_cred = (\<lambda>_. []), xj_perm = pres_Behavior\<rparr>"

definition socket_shim :: shim_env where
  "socket_shim = sample_shim\<lparr>se_decision := (\<lambda>x. Inr \<lparr>pres_Behavior = x, pres_Message = []\<rparr>),
     se_ipc := CallIPC sample_texts (\<lparr>ch_dial = None, ch_write = (\<lambda>_. None), ch_reply = (\<lambda>_. Inl [])\<rparr>\<lparr>ch_reply :=
       runner_reply sample_texts answer_renv answer_renv sample_perm_json sample_plug (\<lambda>_. True) [TextData ''yes''] asked\<rparr>) ''s''\<rparr>"

lemma sample_texts_faithful: "texts_faithful sample_texts sample_perm_json (se_decision socket_shim)"
  by (auto simp: texts_faithful_def ipc_ops_def sample_texts_def sample_perm_json_def socket_shim_def sample_shim_def
    blank_ipc_def newline_def)

lemma request_start_sends:
  assumes "good_link E" "rn_conn s" "Validate f = []"
  shows "request_start E i f s = (s\<lparr>rn_pending := put i None (rn_pending s), rn_sent := rn_sent s @ [RFrame f]\<rparr>, None)"
proof -
  obtain x where "Encode (rv_json E) (Some f) = Inr x"
    using assms(1,3) unfolding good_link_def by (cases "Encode (rv_json E) (Some f)") (auto simp: is_err_def)
  then show ?thesis using assms(1,2) by (simp add: request_start_def runner_send_def runner_write_def good_link_def)
qed

lemma answer_link: "good_link answer_renv"
  by (simp add: good_link_def answer_renv_def sample_renv_def Encode_def is_err_def sample_codec_def has_key_def)

lemma sample_wait:
  "runner_reply sample_texts answer_renv answer_renv sample_perm_json sample_plug (\<lambda>_. True) [TextData ''yes''] asked
     (''permission|Read'' @ [newline]) = Inr (CHR ''+'' # ''allow'' @ [newline])"
proof -
  let ?q = "(blank_ipc ''permission'' [])\<lparr>ipc_Tool := ''Read''\<rparr>"
  let ?f = "FPermissionRequest (permission_request answer_renv [] ''Read'' [] asked)"
  let ?s = "asked\<lparr>rn_pending := put ''perm_1'' None (rn_pending asked), rn_sent := rn_sent asked @ [RFrame ?f]\<rparr>"
  let ?u = "read_all answer_renv sample_plug (\<lambda>_. True) [TextData ''yes''] ?s"
  have i: "rv_id answer_renv = ''1''" by (simp add: answer_renv_def sample_renv_def)
  have q: "it_read_request sample_texts (''permission|Read'' @ [newline]) = Inr ?q" by (simp add: sample_texts_def newline_def)
  have "Validate ?f = []" by (simp add: validate_PermissionRequest_def permission_request_def i)
  from request_start_sends [OF answer_link _ this] have r: "request_start answer_renv ''perm_1'' ?f asked = (?s, None)"
    by (simp add: asked_def)
  have h: "handleIPC answer_renv sample_perm_json ?q asked = (?s, Blocked (WaitPermission ''perm_1''))"
    by (simp add: handleIPC_def requestPermission_start_def blank_ipc_def r i Let_def)
  have "map_of (rn_pending ?u) ''perm_1'' = Some (Some (RReply (FPermissionResponse sample_answer)))"
    by (simp add: read_all_def readOnce_pending answer_decodes resolvePending_def asked_def sample_answer_def)
  then have "request_end answer_renv ''perm_1'' ?u =
      (?u\<lparr>rn_pending := del ''perm_1'' (rn_pending ?u)\<rparr>, Some (Inr (RReply (FPermissionResponse sample_answer))))"
    by (simp add: request_end_def Let_def answer_renv_def sample_renv_def)
  then have f: "finishIPC answer_renv sample_perm_json (WaitPermission ''perm_1'') ?u =
      (?u\<lparr>rn_pending := del ''perm_1'' (rn_pending ?u)\<rparr>, Some (ipc_ok ''allow''))"
    by (simp add: finishIPC_def ipc_answer_def permission_result_def sample_answer_def sample_perm_json_def)
  have "writeIPC sample_texts (ipc_ok ''allow'') = CHR ''+'' # ''allow'' @ [newline]"
    by (simp add: writeIPC_def sample_texts_def ipc_ok_def)
  then show ?thesis unfolding runner_reply_def ipc_handle_def q sum.case h prod.case ipc_step.case f by simp
qed

lemma sample_goes_on: "permission_Call socket_shim ''t'' ''permission_prompt'' ''Read'' = Inr (AllowInput ''{}'')"
proof -
  let ?X = "\<lparr>ch_dial = None, ch_write = (\<lambda>_. None), ch_reply = (\<lambda>_. Inl [])\<rparr>\<lparr>ch_reply :=
    runner_reply sample_texts answer_renv answer_renv sample_perm_json sample_plug (\<lambda>_. True) [TextData ''yes''] asked\<rparr>"
  let ?q = "(blank_ipc ''permission'' ''t'')\<lparr>ipc_Tool := ''Read'', ipc_Input := ''{}''\<rparr>"
  have b: "it_request sample_texts ?q = Inr ''permission|Read''" by (simp add: sample_texts_def blank_ipc_def)
  have "it_read_response sample_texts (CHR ''+'' # ''allow'' @ [newline]) = Inr \<lparr>ir_OK = True, ir_Error = ''no'', ir_Data = ''allow''\<rparr>"
    by (simp add: sample_texts_def newline_def)
  with b sample_wait have "CallIPC sample_texts ?X ''s'' ?q = Inr \<lparr>ir_OK = True, ir_Error = ''no'', ir_Data = ''allow''\<rparr>"
    by (simp add: CallIPC_def)
  then have "se_ipc socket_shim ?q = Inr \<lparr>ir_OK = True, ir_Error = ''no'', ir_Data = ''allow''\<rparr>" by (simp add: socket_shim_def)
  then show ?thesis by (simp add: permission_Call_def socket_shim_def sample_shim_def)
qed

theorem harness_goes_on_only_if_the_gateway_allows_witness:
  "\<exists>tool p data. se_permission socket_shim ''Read'' = Inr (tool, ''{}'') \<and> TextData data \<in> set [TextData ''yes''] \<and>
    Decode (rv_json answer_renv) data DirDown = Inr (FPermissionResponse p) \<and> pr_request p = ''perm_'' @ rv_id answer_renv \<and>
    pr_decision p \<in> {DecisionAllow, DecisionAllowSession, DecisionAllowAlways}"
proof (rule harness_goes_on_only_if_the_gateway_allows [OF _ sample_texts_faithful sample_goes_on])
  show "se_ipc socket_shim = CallIPC sample_texts (\<lparr>ch_dial = None, ch_write = (\<lambda>_. None), ch_reply = (\<lambda>_. Inl [])\<rparr>\<lparr>ch_reply :=
    runner_reply sample_texts answer_renv answer_renv sample_perm_json sample_plug (\<lambda>_. True) [TextData ''yes''] asked\<rparr>) ''s''"
    by (simp add: socket_shim_def)
qed

end
