(* ===== verification/Spec2Isabelle.thy ===== *)
theory Spec2Isabelle
  imports Wire Validate Pricing Policy Grants Store Stream Context Blobs Delivery Approval
    Resolution QueueSpec Answers SessionIds Artifacts FrameTypes RunnerProps
    Proxy Startup Reports Mrkdwn SlackStream RunnerCopy FileEdit LocalSocket
begin

text \<open>
  A verification library of splitscreen: a gateway that connects chat threads to coding agents, and the
  runners that host the agents. This theory imports the whole library and holds its documentation.

  \<^bold>\<open>The program.\<close> The gateway (internal/gateway) receives messages from a surface (internal/surface/slackx),
  looks up which runner serves the channel (config), and sends the message as a turn over the runner's
  connection (protocol). A runner (internal/runner) keeps one session with a harness process per thread
  (internal/harness), streams the turn's output back, and asks the gateway for what it may not decide itself:
  tool permissions, forge credentials, calls of proxied tool servers. Local helpers (cmd/splitscreen/helpers.go)
  stand between the harness and the runner. The gateway answers from its policy, from what people granted for a
  session, or by asking a person; it keeps threads, turns, costs, an audit log and the messages of absent runners
  in a database (internal/store), assembles and pushes each runner's bundle of files, mints credentials
  (internal/forge), reads secrets (internal/secrets) and starts machines that sleep (internal/wake). The commands
  (cmd/splitscreen) start both programs, enroll runners and edit the configuration.

  \<^bold>\<open>The model.\<close> A definition has the name of the function it models where that is possible. A handler is a function
  from the state record to the state record, run without interruption: this is the code's behaviour under its
  locks, and where the code releases a lock or starts a goroutine in the middle of a handler, the model has two
  definitions, so that other steps can come between them. What the outside answers is an argument:
  \<open>env\<close> for the gateway's handlers, \<open>renv\<close> for the runner's, and \<open>proxy_env\<close>, \<open>senv\<close>,
  \<open>cenv\<close>, \<open>write_env\<close>, \<open>start_env\<close>, \<open>report_env\<close>, \<open>mat_env\<close>, \<open>bundle_env\<close> for the parts that have
  an outside of their own. No theorem depends on an environment's answers unless it states what it assumes of
  them. What a handler does to the outside is appended to a log (\<open>gw_out\<close>, \<open>rn_sent\<close>). Errors are values:
  \<open>outcome\<close> tells an error from a panic, \<open>fmt_err\<close> keeps a message with its arguments, a validation is the list
  of its problems. A Go string is a list of bytes, a Go map an association list (a theorem for every list is one
  for every iteration order). Counters that cannot reach the limits of their width are integers; what is bounded
  by a width or framed in bytes (chunk headers, versions, sizes) has the bound written out. Times are
  nanoseconds, and seconds in Frames, Slack and Forge; a float64 is a real number.

  \<^bold>\<open>Foundations.\<close>
  \<^item> Prelude: Go maps, the functions of packages strings and strconv; GoPath: packages path and unicode/utf8;
    Durations: the printing of durations; Paths: clean absolute paths as lists of elements.
  \<^item> Caching: the contract of a look-aside cache, the locale \<open>look_aside\<close>.

  \<^bold>\<open>Protocol\<close> (protocol/).
  \<^item> Version (version.go): parsing, printing and negotiation.
  \<^item> Frames (frames.go): every frame, its direction and its validation.
  \<^item> Wire (envelope.go, blob.go): encoding, decoding, binary chunks. The lemmas show the round trips, that a
    decoded frame is valid and of a type its sender may originate, and that the check of bundle paths accepts
    exactly the paths that stay below the bundle's root.

  \<^bold>\<open>Configuration\<close> (config/).
  \<^item> Config (config.go, gateway.go), Validate (validate.go, gateway.go), Resolution: the data after YAML decoding,
    the lookups, every validation, the inheritance of bundles. The lemmas show that a valid configuration does not
    make the lookups panic and that the walk along parents ends exactly when the chain does.

  \<^bold>\<open>The gateway's parts.\<close>
  \<^item> Policy (internal/gateway/policy.go), Grants (grants.go), Pricing (internal/pricing), Context (context.go).
  \<^item> Store and QueueSpec (internal/store): tables as maps and lists. The offline queue is an interface (the locale
    \<open>offline_queue\<close>, interpreted as \<open>oq\<close>), and the table with its numbered rows refines one first-in
    first-out list per runner.
  \<^item> Grants is an interface too: the locale \<open>session_grants\<close>, interpreted as \<open>gs\<close>; whatever is held was granted
    for that thread and tool and not cleared since.
  \<^item> Stream (stream.go): the output of a turn, edited or natively streamed; flushes may overlap with frames.
  \<^item> Forge (internal/forge), Secrets (internal/secrets), Proxy (internal/mcpproxy). The token cache and the
    parameter cache are the two interpretations of \<open>look_aside\<close>, \<open>app_cache\<close> and \<open>ssm_cache\<close>: what they
    answer, the source once answered for the same key, and not too long ago.

  \<^bold>\<open>The gateway's handlers\<close> (internal/gateway), over the state of theory Gateway (gateway.go, hub.go).
  \<^item> Sched and Turns (inbound.go, wake.go): the thread's slot, the runner's slots, the hand-over and the offline
    queue. The code's recursion, in which a turn that is given up starts the next one, is cut where it takes a
    parked message, which makes it terminate; \<open>dispatchTurn_code\<close> and its companions state the code's own shape.
  \<^item> Inbound (inbound.go), Dispatch and Handlers (dispatch.go), Blobs (blobs.go), Bundles (bundle.go), Conns
    (server.go, hub.go, and the background work of gateway.go, wake.go, working.go), Reports (status.go, channels.go,
    web.go, and the rollups of internal/store).
  \<^item> Slots and Quiet hold the scheduler's invariants, and Machine the step relation \<open>handles\<close> with the states
    \<open>reachable\<close> from start-up. In all of them a thread has one turn, a runner's slots and waiting list are
    bounded (by its cap and by \<open>maxQueueDepth\<close>, 25), and the list is served in order.
  \<^item> Delivery: a message from its acceptance to its runner, across the runner's absence. Approval: who decides on
    tools and credentials, as a property of the log each handler leaves.

  \<^bold>\<open>The Slack surface\<close> (internal/surface/slackx).
  \<^item> Slack (slack.go, directory.go), SlackStream (stream.go, with at most \<open>maxPlanTasks\<close>, 50, cards), Mrkdwn
    (mrkdwn.go: its regular expressions as patterns of a leftmost-first matcher).

  \<^bold>\<open>The runner\<close> (internal/runner, internal/harness).
  \<^item> Disk and Materialize (bundle.go, state.go): a file tree whose operations may fail at any point, and the staging
    and installation of a bundle; a push that fails while staging leaves the live configuration as it was.
  \<^item> Harness (internal/harness/claudecode): command line, input and the reading of the output.
  \<^item> Runner (runner.go, state.go, active.go), Requests (requests.go, ipc.go), Sessions (session.go), Plugins
    (plugins.go), Daemon (runner.go): the daemon's state and handlers, and the step relation \<open>rstep\<close> with the
    states of \<open>runner_reach\<close>.
  \<^item> Residents, RunnerProps, Answers, SessionIds, FrameTypes, Artifacts: what every step keeps. The resident processes
    are bounded, turns are not evicted and end, only the gateway grants a permission, whatever is written is valid
    and of a runner's type, session ids survive a restart, a file sent by the runner arrives at the surface
    unchanged. RunnerSample is the host on which the witnesses run.

  \<^bold>\<open>The commands\<close> (cmd/splitscreen).
  \<^item> Startup (gateway.go, tools.go, runner.go, internal/wake): secrets, surface and forge of a gateway that starts,
    enrollment, the runner's token, starting machines.
  \<^item> ConfigEdit and RunnerCopy (route.go, runners.go): the edits of the configuration, on the YAML node tree.
    FileEdit (lock_unix.go, route.go): the lock and the replacement of the file.
  \<^item> Shims (helpers.go, internal/mcpstdio): the local helpers and the loop that serves them. LocalSocket
    (internal/runner/ipc.go): the socket they share with the runner, and the way of a permission from the harness's
    question through shim, socket and runner to the gateway's answer.

  \<^bold>\<open>Bounds.\<close> No definition runs on fuel. Loops over input are structural; the walk along parents descends in the
  bundles not seen, the scheduler's recursion in the parked messages, the glob matcher in pattern and text, the
  prose matcher in the text that is left. Loops that wait (the lock, reconnecting, the background sweeps) are
  one round each, or run over a sequence of answers and say \<open>None\<close> when it ends before they do. The constants
  of the code (frame and chunk sizes, the send queue of 256 frames, the event channel of 256 events) are
  definitions with the code's values.

  \<^bold>\<open>Where the code falls short.\<close> Lemmas beside the definitions show behaviours that a comment, a document or the
  code's evident purpose rules out: a message that waits behind a slot nobody frees (Delivery), a second attachment
  of the same name (Artifacts), markup around code (Mrkdwn), secrets reported as unenrolled runners (Startup),
  timestamps whose texts are not in order (Reports), and others in the theory of the part concerned.

  \<^bold>\<open>Not modelled.\<close> Text codecs (JSON, YAML, RFC 3339), SHA-256, random numbers, the SQL driver and its schema, the
  HTTP, websocket and Slack clients, the AWS SDK, git and the harness program are not code of this repository:
  they are arguments. Of the repository's own code the following is process wiring without decisions to verify and
  is left out: flag parsing and command registration, printed listings and instructions, process logging, signal
  handling and the start of goroutines, listening sockets and TLS set-up, the self-signed
  certificate of tools.go, and the template of the status page.
\<close>

end
